(* ===== verification/Prelude.thy ===== *)
theory Prelude
  imports Main
begin

text \<open>
  Shared vocabulary of the development.

  Code that reads and writes the stores and may raise is a \<open>prog\<close>: a function from the
  state to an outcome (\<open>Inl\<close> an exception, \<open>Inr\<close> a value) and the state it leaves.
  As in Python, a raise keeps the writes made before it.  \<open>andThen\<close> is sequencing,
  \<open>catch\<close> is \<open>try/except Exception\<close>, \<open>forEach\<close> and \<open>foldE\<close> are
  \<open>for\<close> loops.

  \<open>safe I R P m Q\<close> is the judgement all store properties are proved with: from a
  state with invariant \<open>I\<close> and precondition \<open>P\<close>, the program \<open>m\<close> keeps \<open>I\<close>,
  moves the state along \<open>R\<close> whether it returns or raises, and returns only values that
  satisfy \<open>Q\<close>.  The locale \<open>guarded_evolution\<close> holds its rules.
\<close>

named_theorems prog_simps "equations that execute programs"
named_theorems safe_intros "rules of the safe judgement"

section \<open>Programs\<close>

type_synonym ('s, 'e, 'a) prog = "'s \<Rightarrow> ('e + 'a) \<times> 's"

definition ret :: "'a \<Rightarrow> ('s, 'e, 'a) prog" where
  "ret x = (\<lambda>s. (Inr x, s))"

definition throw :: "'e \<Rightarrow> ('s, 'e, 'a) prog" where
  "throw e = (\<lambda>s. (Inl e, s))"

definition andThen :: "('s, 'e, 'a) prog \<Rightarrow> ('a \<Rightarrow> ('s, 'e, 'b) prog) \<Rightarrow> ('s, 'e, 'b) prog" where
  "andThen m f = (\<lambda>s. case m s of (Inl e, t) \<Rightarrow> (Inl e, t) | (Inr x, t) \<Rightarrow> f x t)"

definition catch :: "('s, 'e, 'a) prog \<Rightarrow> ('e \<Rightarrow> ('s, 'e, 'a) prog) \<Rightarrow> ('s, 'e, 'a) prog" where
  "catch m h = (\<lambda>s. case m s of (Inl e, t) \<Rightarrow> h e t | (Inr x, t) \<Rightarrow> (Inr x, t))"

definition gets :: "('s \<Rightarrow> 'a) \<Rightarrow> ('s, 'e, 'a) prog" where
  "gets f = (\<lambda>s. (Inr (f s), s))"

definition modify :: "('s \<Rightarrow> 's) \<Rightarrow> ('s, 'e, unit) prog" where
  "modify f = (\<lambda>s. (Inr (), f s))"

definition liftSum :: "'e + 'a \<Rightarrow> ('s, 'e, 'a) prog" where
  "liftSum r = (\<lambda>s. (r, s))"

primrec forEach :: "('x \<Rightarrow> ('s, 'e, unit) prog) \<Rightarrow> 'x list \<Rightarrow> ('s, 'e, unit) prog" where
  "forEach f [] = ret ()"
| "forEach f (x # xs) = andThen (f x) (\<lambda>_. forEach f xs)"

primrec foldE :: "('x \<Rightarrow> 'b \<Rightarrow> ('s, 'e, 'b) prog) \<Rightarrow> 'x list \<Rightarrow> 'b \<Rightarrow> ('s, 'e, 'b) prog" where
  "foldE f [] acc = ret acc"
| "foldE f (x # xs) acc = andThen (f x acc) (foldE f xs)"

lemma ret_run [prog_simps]: "ret x s = (Inr x, s)"
  by (simp add: ret_def)

lemma throw_run [prog_simps]: "throw e s = (Inl e, s)"
  by (simp add: throw_def)

lemma gets_run [prog_simps]: "gets f s = (Inr (f s), s)"
  by (simp add: gets_def)

lemma modify_run [prog_simps]: "modify f s = (Inr (), f s)"
  by (simp add: modify_def)

lemma liftSum_run [prog_simps]: "liftSum r s = (r, s)"
  by (simp add: liftSum_def)

lemma andThen_run [prog_simps]:
  "andThen m f s = (case m s of (Inl e, t) \<Rightarrow> (Inl e, t) | (Inr x, t) \<Rightarrow> f x t)"
  by (simp add: andThen_def)

lemma catch_run [prog_simps]:
  "catch m h s = (case m s of (Inl e, t) \<Rightarrow> h e t | (Inr x, t) \<Rightarrow> (Inr x, t))"
  by (simp add: catch_def)

lemma andThen_ret [simp]: "andThen (ret x) f = f x"
  by (rule ext) (simp add: prog_simps)

lemma andThen_throw [simp]: "andThen (throw e) f = throw e"
  by (rule ext) (simp add: prog_simps)

lemma andThen_assoc: "andThen (andThen m f) g = andThen m (\<lambda>x. andThen (f x) g)"
  by (rule ext) (simp add: prog_simps split: prod.splits sum.splits)

lemma foldE_append:
  "foldE f (xs @ ys) acc = andThen (foldE f xs acc) (foldE f ys)"
proof (induction xs arbitrary: acc)
  case Nil
  show ?case by simp
next
  case (Cons x xs)
  then have "foldE f (xs @ ys) = (\<lambda>acc. andThen (foldE f xs acc) (foldE f ys))"
    by (simp add: fun_eq_iff)
  then show ?case by (simp add: andThen_assoc)
qed

lemma andThen_InrE:
  assumes "andThen m f s = (Inr y, t)"
  obtains x u where "m s = (Inr x, u)" and "f x u = (Inr y, t)"
  using assms by (auto simp: prog_simps split: prod.splits sum.splits)

lemma andThen_InlE:
  assumes "andThen m f s = (Inl e, t)"
  obtains "m s = (Inl e, t)" | x u where "m s = (Inr x, u)" and "f x u = (Inl e, t)"
  using assms by (auto simp: prog_simps split: prod.splits sum.splits)

section \<open>The safe judgement\<close>

definition safe ::
  "('s \<Rightarrow> bool) \<Rightarrow> ('s \<Rightarrow> 's \<Rightarrow> bool) \<Rightarrow> ('s \<Rightarrow> bool) \<Rightarrow> ('s, 'e, 'a) prog \<Rightarrow> ('a \<Rightarrow> 's \<Rightarrow> bool) \<Rightarrow> bool" where
  "safe I R P m Q \<longleftrightarrow>
     (\<forall>s. I s \<longrightarrow> P s \<longrightarrow>
        I (snd (m s)) \<and> R s (snd (m s)) \<and> (\<forall>x. fst (m s) = Inr x \<longrightarrow> Q x (snd (m s))))"

text \<open>A precondition that steps along \<open>R\<close> between states of the invariant cannot invalidate.\<close>

definition stable :: "('s \<Rightarrow> bool) \<Rightarrow> ('s \<Rightarrow> 's \<Rightarrow> bool) \<Rightarrow> ('s \<Rightarrow> bool) \<Rightarrow> bool" where
  "stable I R P \<longleftrightarrow> (\<forall>s t. I s \<longrightarrow> I t \<longrightarrow> R s t \<longrightarrow> P s \<longrightarrow> P t)"

lemma safeI:
  assumes "\<And>s r t. I s \<Longrightarrow> P s \<Longrightarrow> m s = (r, t) \<Longrightarrow> I t \<and> R s t \<and> (\<forall>x. r = Inr x \<longrightarrow> Q x t)"
  shows "safe I R P m Q"
  unfolding safe_def using assms by (metis prod.collapse)

lemma safeD:
  assumes "safe I R P m Q" and "I s" and "P s" and "m s = (r, t)"
  shows "I t" and "R s t" and "r = Inr x \<Longrightarrow> Q x t"
  using assms unfolding safe_def by (metis fst_conv snd_conv)+

lemma safe_pre:
  assumes "safe I R P m Q" and "\<And>s. I s \<Longrightarrow> P' s \<Longrightarrow> P s"
  shows "safe I R P' m Q"
  using assms unfolding safe_def by blast

lemma safe_post:
  assumes "safe I R P m Q" and "\<And>x s. I s \<Longrightarrow> Q x s \<Longrightarrow> Q' x s"
  shows "safe I R P m Q'"
  using assms unfolding safe_def by blast

lemma safe_pure: "(b \<Longrightarrow> safe I R P m Q) \<Longrightarrow> safe I R (\<lambda>s. P s \<and> b) m Q"
  by (auto simp: safe_def)

lemma safe_pure_only: "(b \<Longrightarrow> safe I R (\<lambda>_. True) m Q) \<Longrightarrow> safe I R (\<lambda>_. b) m Q"
  by (auto simp: safe_def)

lemma safe_weak: "safe I R (\<lambda>_. True) m Q \<Longrightarrow> safe I R P m Q"
  by (rule safe_pre) simp_all

lemma stable_True [simp]: "stable I R (\<lambda>_. True)"
  by (simp add: stable_def)

lemma stable_pure [simp]: "stable I R (\<lambda>_. b)"
  by (simp add: stable_def)

lemma stable_conj [intro]: "stable I R P \<Longrightarrow> stable I R Q \<Longrightarrow> stable I R (\<lambda>s. P s \<and> Q s)"
  by (auto simp: stable_def)

lemma stable_imp_pure [intro]: "stable I R P \<Longrightarrow> stable I R (\<lambda>s. b \<longrightarrow> P s)"
  by (auto simp: stable_def)

lemma stable_all [intro]: "(\<And>x. stable I R (P x)) \<Longrightarrow> stable I R (\<lambda>s. \<forall>x. P x s)"
  by (auto simp: stable_def)

lemma stable_Ball [intro]:
  "(\<And>x. x \<in> A \<Longrightarrow> stable I R (P x)) \<Longrightarrow> stable I R (\<lambda>s. \<forall>x\<in>A. P x s)"
  by (auto simp: stable_def)

locale guarded_evolution =
  fixes I :: "'s \<Rightarrow> bool" and R :: "'s \<Rightarrow> 's \<Rightarrow> bool"
  assumes R_refl: "I s \<Longrightarrow> R s s"
    and R_trans: "I s \<Longrightarrow> I t \<Longrightarrow> I u \<Longrightarrow> R s t \<Longrightarrow> R t u \<Longrightarrow> R s u"
begin

lemma safe_ret: "(\<And>s. I s \<Longrightarrow> P s \<Longrightarrow> Q x s) \<Longrightarrow> safe I R P (ret x) Q"
  by (simp add: safe_def prog_simps R_refl)

lemma safe_throw: "safe I R P (throw e) Q"
  by (simp add: safe_def prog_simps R_refl)

lemma safe_gets: "(\<And>s. I s \<Longrightarrow> P s \<Longrightarrow> Q (f s) s) \<Longrightarrow> safe I R P (gets f) Q"
  by (simp add: safe_def prog_simps R_refl)

lemma safe_liftSum:
  "(\<And>s x. I s \<Longrightarrow> P s \<Longrightarrow> r = Inr x \<Longrightarrow> Q x s) \<Longrightarrow> safe I R P (liftSum r) Q"
  by (auto simp: safe_def prog_simps R_refl)

lemma safe_andThen:
  assumes m: "safe I R P m Q" and st: "stable I R P"
    and f: "\<And>x. safe I R (\<lambda>s. P s \<and> Q x s) (f x) Q'"
  shows "safe I R P (andThen m f) Q'"
proof (rule safeI)
  fix s r t
  assume I: "I s" and P: "P s" and run: "andThen m f s = (r, t)"
  obtain q u where mu: "m s = (q, u)" by (cases "m s")
  have u: "I u" "R s u" using safeD(1,2) [OF m I P mu] .
  show "I t \<and> R s t \<and> (\<forall>x. r = Inr x \<longrightarrow> Q' x t)"
  proof (cases q)
    case (Inl e)
    with run mu u show ?thesis by (auto simp: prog_simps)
  next
    case (Inr x)
    have "P u" using st I u P by (auto simp: stable_def)
    moreover have "Q x u" using safeD(3) [OF m I P mu] Inr by simp
    moreover have fx: "f x u = (r, t)" using run mu Inr by (simp add: prog_simps)
    ultimately have "I t" "R u t" "\<And>y. r = Inr y \<Longrightarrow> Q' y t"
      using safeD [OF f u(1)] by blast+
    with R_trans [OF I u(1)] u(2) show ?thesis by blast
  qed
qed

text \<open>The same with the precondition dropped, and with nothing known of the first value.\<close>

lemma safe_then:
  assumes m: "safe I R P m Q" and f: "\<And>x. safe I R (Q x) (f x) Q'"
  shows "safe I R P (andThen m f) Q'"
proof (rule safeI)
  fix s r t
  assume I: "I s" and P: "P s" and run: "andThen m f s = (r, t)"
  obtain q u where mu: "m s = (q, u)" by (cases "m s")
  have u: "I u" "R s u" using safeD(1,2) [OF m I P mu] .
  show "I t \<and> R s t \<and> (\<forall>x. r = Inr x \<longrightarrow> Q' x t)"
  proof (cases q)
    case (Inl e)
    with run mu u show ?thesis by (auto simp: prog_simps)
  next
    case (Inr x)
    have "Q x u" using safeD(3) [OF m I P mu] Inr by simp
    moreover have fx: "f x u = (r, t)" using run mu Inr by (simp add: prog_simps)
    ultimately have "I t" "R u t" "\<And>y. r = Inr y \<Longrightarrow> Q' y t"
      using safeD [OF f u(1)] by blast+
    with R_trans [OF I u(1)] u(2) show ?thesis by blast
  qed
qed

lemma safe_first:
  assumes "safe I R P m (\<lambda>_ _. True)" and st: "stable I R P" and "\<And>x. safe I R P (f x) Q"
  shows "safe I R P (andThen m f) Q"
  by (rule safe_andThen [OF assms(1) st]) (simp add: assms(3))

lemma safe_catch:
  assumes m: "safe I R P m Q" and st: "stable I R P"
    and h: "\<And>e. safe I R P (h e) Q"
  shows "safe I R P (catch m h) Q"
proof (rule safeI)
  fix s r t
  assume I: "I s" and P: "P s" and run: "catch m h s = (r, t)"
  obtain q u where mu: "m s = (q, u)" by (cases "m s")
  have u: "I u" "R s u" using safeD(1,2) [OF m I P mu] .
  show "I t \<and> R s t \<and> (\<forall>x. r = Inr x \<longrightarrow> Q x t)"
  proof (cases q)
    case (Inr x)
    with run mu u safeD(3) [OF m I P mu] show ?thesis by (auto simp: prog_simps)
  next
    case (Inl e)
    have "P u" using st I u P by (auto simp: stable_def)
    moreover have he: "h e u = (r, t)" using run mu Inl by (simp add: prog_simps)
    ultimately have "I t" "R u t" "\<And>y. r = Inr y \<Longrightarrow> Q y t"
      using safeD [OF h u(1)] by blast+
    with R_trans [OF I u(1)] u(2) show ?thesis by blast
  qed
qed

lemma safe_forEach:
  assumes f: "\<And>x. x \<in> set xs \<Longrightarrow> safe I R P (f x) (\<lambda>_ _. True)" and st: "stable I R P"
  shows "safe I R P (forEach f xs) (\<lambda>_ _. True)"
  using f
proof (induction xs)
  case Nil
  show ?case by (simp add: safe_ret)
next
  case (Cons x xs)
  have "safe I R (\<lambda>s. P s \<and> True) (forEach f xs) (\<lambda>_ _. True)"
    using Cons by simp
  with Cons.prems st show ?case
    by (auto intro!: safe_andThen [where Q = "\<lambda>_ _. True"])
qed

lemma safe_foldE:
  assumes f: "\<And>x acc. x \<in> set xs \<Longrightarrow> safe I R (\<lambda>s. P s \<and> J acc s) (f x acc) J"
    and st: "stable I R P" and sJ: "\<And>acc. stable I R (J acc)"
  shows "safe I R (\<lambda>s. P s \<and> J acc s) (foldE f xs acc) J"
  using f
proof (induction xs arbitrary: acc)
  case Nil
  show ?case by (auto intro: safe_ret)
next
  case (Cons x xs)
  have "safe I R (\<lambda>s. (P s \<and> J acc s) \<and> J acc' s) (foldE f xs acc') J" for acc'
    by (rule safe_pre [OF Cons.IH]) (use Cons.prems in auto)
  moreover have "safe I R (\<lambda>s. P s \<and> J acc s) (f x acc) J" using Cons.prems by simp
  ultimately show ?case
    using st sJ by (auto intro!: safe_andThen [where Q = J])
qed

end

section \<open>Lists, options and maps\<close>

definition truthy :: "string option \<Rightarrow> bool" where
  "truthy v = (case v of None \<Rightarrow> False | Some t \<Rightarrow> t \<noteq> [])"

lemma truthy_simps [simp]: "\<not> truthy None" "truthy (Some t) \<longleftrightarrow> t \<noteq> []"
  by (simp_all add: truthy_def)

text \<open>Python's \<open>a or b\<close> on optional strings and on optional integers.\<close>

definition or_str :: "string option \<Rightarrow> string option \<Rightarrow> string option" where
  "or_str a b = (if truthy a then a else b)"

definition or_int :: "int option \<Rightarrow> int \<Rightarrow> int" where
  "or_int a b = (case a of None \<Rightarrow> b | Some n \<Rightarrow> if n = 0 then b else n)"

text \<open>Slices \<open>xs[i : i + n]\<close> for \<open>i\<close> in \<open>range(0, len(xs), n)\<close>.\<close>

function chunks :: "nat \<Rightarrow> 'a list \<Rightarrow> 'a list list" where
  "chunks n xs = (if n = 0 \<or> xs = [] then [] else take n xs # chunks n (drop n xs))"
  by pat_completeness auto
termination
  by (relation "measure (\<lambda>(n, xs). length xs)") auto

declare chunks.simps [simp del]

lemma chunks_Nil [simp]: "chunks n [] = []"
  by (simp add: chunks.simps)

lemma concat_chunks: "0 < n \<Longrightarrow> concat (chunks n xs) = xs"
proof (induction n xs rule: chunks.induct)
  case (1 n xs)
  then show ?case by (cases "xs = []") (simp_all add: chunks.simps [of n xs])
qed

lemma chunks_length: "c \<in> set (chunks n xs) \<Longrightarrow> c \<noteq> [] \<and> length c \<le> n"
proof (induction n xs rule: chunks.induct)
  case (1 n xs)
  then show ?case
    by (cases "n = 0 \<or> xs = []") (auto simp: chunks.simps [of n xs])
qed

end
