(* ===== verification/PyText.thy ===== *)
theory PyText
  imports Prelude
begin

text \<open>
  The parts of Python's \<open>str\<close> and of its integer formatting that the program uses.  Strings
  are lists of ASCII characters.  \<open>upper\<close> and \<open>strip\<close> are the methods of the same
  name; \<open>digits_base\<close> is the \<open>divmod\<close> loop behind \<open>str(int)\<close> and the base 36
  encoder; \<open>show_int\<close> and \<open>parse_int\<close> are \<open>str(n)\<close> and \<open>int(text)\<close>.
\<close>

section \<open>Case and blanks\<close>

definition upper_char :: "char \<Rightarrow> char" where
  "upper_char c =
     (let n = (of_char c :: nat) in if 97 \<le> n \<and> n \<le> 122 then char_of (n - 32) else c)"

definition upper :: "string \<Rightarrow> string" where
  "upper s = map upper_char s"

definition is_blank :: "char \<Rightarrow> bool" where
  "is_blank c = (let n = (of_char c :: nat) in (9 \<le> n \<and> n \<le> 13) \<or> (28 \<le> n \<and> n \<le> 32))"

definition strip :: "string \<Rightarrow> string" where
  "strip s = rev (dropWhile is_blank (rev (dropWhile is_blank s)))"

lemma of_char_upper_char:
  "(of_char (upper_char c) :: nat) =
     (let n = (of_char c :: nat) in if 97 \<le> n \<and> n \<le> 122 then n - 32 else n)"
  by (auto simp: upper_char_def Let_def intro!: mod_less)

lemma upper_char_idem [simp]: "upper_char (upper_char c) = upper_char c"
  by (auto simp: upper_char_def Let_def)

lemma upper_idem [simp]: "upper (upper s) = upper s"
  by (simp add: upper_def)

lemma is_blank_upper_char [simp]: "is_blank (upper_char c) = is_blank c"
  by (auto simp: is_blank_def of_char_upper_char Let_def)

lemma dropWhile_map_upper:
  "dropWhile is_blank (map upper_char s) = map upper_char (dropWhile is_blank s)"
  by (induction s) simp_all

lemma strip_upper: "strip (upper s) = upper (strip s)"
  by (simp add: strip_def upper_def dropWhile_map_upper rev_map)

lemma dropWhile_fix: "xs = [] \<or> \<not> P (hd xs) \<Longrightarrow> dropWhile P xs = xs"
  by (cases xs) simp_all

lemma strip_no_blank_ends:
  "strip s = [] \<or> (\<not> is_blank (hd (strip s)) \<and> \<not> is_blank (last (strip s)))"
proof (cases "strip s = []")
  case False
  define t where "t = dropWhile is_blank s"
  define u where "u = dropWhile is_blank (rev t)"
  have su: "strip s = rev u" by (simp add: strip_def t_def u_def)
  with False have u: "u \<noteq> []" by simp
  then have "\<not> is_blank (hd u)" unfolding u_def by (rule hd_dropWhile)
  then have l: "\<not> is_blank (last (strip s))" using u su by (simp add: last_rev)
  have "t \<noteq> []" using u by (auto simp: u_def)
  then have "\<not> is_blank (hd t)" unfolding t_def by (rule hd_dropWhile)
  moreover obtain v where "rev t = v @ u"
    unfolding u_def by (metis takeWhile_dropWhile_id)
  then have "t = rev u @ rev v" by (metis rev_append rev_rev_ident)
  ultimately have "\<not> is_blank (hd (rev u))" using u by simp
  with l su show ?thesis by simp
qed simp

lemma strip_fix: "s = [] \<or> (\<not> is_blank (hd s) \<and> \<not> is_blank (last s)) \<Longrightarrow> strip s = s"
  by (cases "s = []") (simp_all add: strip_def dropWhile_fix hd_rev)

lemma strip_idem [simp]: "strip (strip s) = strip s"
  by (rule strip_fix) (rule strip_no_blank_ends)

text \<open>The symbol normalisation \<open>symbol.strip().upper()\<close> of the models is idempotent.\<close>

lemma upper_strip_idem [simp]: "upper (strip (upper (strip s))) = upper (strip s)"
  by (simp add: strip_upper)

section \<open>Digits\<close>

function digits_base :: "nat \<Rightarrow> nat \<Rightarrow> nat list" where
  "digits_base b n = (if b < 2 \<or> n < b then [n] else digits_base b (n div b) @ [n mod b])"
  by pat_completeness auto
termination
  by (relation "measure snd") auto

declare digits_base.simps [simp del]

definition digits_value :: "nat \<Rightarrow> nat list \<Rightarrow> nat" where
  "digits_value b ds = foldl (\<lambda>acc d. acc * b + d) 0 ds"

lemma digits_value_snoc [simp]: "digits_value b (ds @ [d]) = digits_value b ds * b + d"
  by (simp add: digits_value_def)

lemma digits_value_single [simp]: "digits_value b [d] = d"
  by (simp add: digits_value_def)

lemma digits_value_base: "digits_value b (digits_base b n) = n"
proof (induction b n rule: digits_base.induct)
  case (1 b n)
  then show ?case
    by (cases "b < 2 \<or> n < b") (simp_all add: digits_base.simps [of b n])
qed

lemma digits_base_less: "2 \<le> b \<Longrightarrow> d \<in> set (digits_base b n) \<Longrightarrow> d < b"
proof (induction b n rule: digits_base.induct)
  case (1 b n)
  then show ?case
    by (cases "n < b") (auto simp: digits_base.simps [of b n] split: if_splits)
qed

lemma digits_base_nonempty [simp]: "digits_base b n \<noteq> []"
  by (subst digits_base.simps) simp

lemma digits_base_inj: "digits_base b m = digits_base b n \<Longrightarrow> m = n"
  by (metis digits_value_base)

lemma digits_base_hd: "2 \<le> b \<Longrightarrow> 0 < n \<Longrightarrow> hd (digits_base b n) \<noteq> 0"
proof (induction b n rule: digits_base.induct)
  case (1 b n)
  show ?case
  proof (cases "n < b")
    case False
    with 1 have "0 < n div b" by (simp add: div_greater_zero_iff)
    with 1 False show ?thesis by (simp add: digits_base.simps [of b n])
  qed (use 1 in \<open>simp add: digits_base.simps [of b n]\<close>)
qed

section \<open>Decimal text of integers\<close>

definition digit_char :: "nat \<Rightarrow> char" where
  "digit_char d = char_of (48 + d)"

definition is_digit :: "char \<Rightarrow> bool" where
  "is_digit c = (48 \<le> (of_char c :: nat) \<and> (of_char c :: nat) \<le> 57)"

definition char_digit :: "char \<Rightarrow> nat" where
  "char_digit c = of_char c - 48"

lemma of_char_digit_char: "d < 10 \<Longrightarrow> (of_char (digit_char d) :: nat) = 48 + d"
  by (simp add: digit_char_def)

lemma digit_char_digit [simp]: "d < 10 \<Longrightarrow> is_digit (digit_char d)"
  by (simp add: is_digit_def of_char_digit_char)

lemma char_digit_digit_char [simp]: "d < 10 \<Longrightarrow> char_digit (digit_char d) = d"
  by (simp add: char_digit_def of_char_digit_char)

definition show_nat :: "nat \<Rightarrow> string" where
  "show_nat n = map digit_char (digits_base 10 n)"

definition parse_nat :: "string \<Rightarrow> nat option" where
  "parse_nat t = (if t \<noteq> [] \<and> list_all is_digit t then Some (digits_value 10 (map char_digit t)) else None)"

definition show_int :: "int \<Rightarrow> string" where
  "show_int i = (if i < 0 then CHR ''-'' # show_nat (nat (- i)) else show_nat (nat i))"

definition parse_int :: "string \<Rightarrow> int option" where
  "parse_int t =
     (case t of
        [] \<Rightarrow> None
      | c # ds \<Rightarrow>
          if c = CHR ''-'' then map_option (\<lambda>n. - int n) (parse_nat ds)
          else if c = CHR ''+'' then map_option int (parse_nat ds)
          else map_option int (parse_nat t))"

lemma show_nat_nonempty [simp]: "show_nat n \<noteq> []"
  by (simp add: show_nat_def)

lemma show_nat_digits: "c \<in> set (show_nat n) \<Longrightarrow> is_digit c"
  using digits_base_less [of 10] by (auto simp: show_nat_def)

lemma parse_show_nat [simp]: "parse_nat (show_nat n) = Some n"
proof -
  have "map char_digit (show_nat n) = digits_base 10 n"
    using digits_base_less [of 10 _ n] by (auto simp: show_nat_def comp_def intro: map_idI)
  then show ?thesis
    by (auto simp: parse_nat_def list_all_iff show_nat_digits digits_value_base)
qed

lemma parse_show_int [simp]: "parse_int (show_int i) = Some i"
proof (cases "i < 0")
  case True
  then show ?thesis by (simp add: show_int_def parse_int_def)
next
  case False
  obtain c ds where cs: "show_nat (nat i) = c # ds" by (cases "show_nat (nat i)") auto
  then have "is_digit c" using show_nat_digits [of c "nat i"] by simp
  then have "c \<noteq> CHR ''-''" "c \<noteq> CHR ''+''" by (auto simp: is_digit_def)
  with False cs parse_show_nat [of "nat i"] show ?thesis
    by (simp add: show_int_def parse_int_def)
qed

lemma show_int_nonempty [simp]: "show_int i \<noteq> []"
  by (simp add: show_int_def)

end
