(* ===== verification/PyDecimal.thy ===== *)
theory PyDecimal
  imports Complex_Main PyText
begin

text \<open>
  Python's \<open>decimal.Decimal\<close>, as far as the program uses it: construction from text,
  comparison, \<open>abs\<close>, \<open>+\<close> under the default context (28 significant digits, round half
  even) and \<open>format(x, "f")\<close>.  A finite value is a sign, a coefficient and an exponent, so
  trailing zeros are kept as Python keeps them.  Infinities and (quiet or signalling) NaNs
  are values too, because the quantity strings of the services reach the constructor unchecked.
  \<open>dval\<close> is the rational a finite decimal stands for; the lemmas tie each operation to it.
  The exponent limits of the context (a million digits) are not modelled.
\<close>

datatype pydecimal = DFin bool nat int | DInf bool | DNaN bool

fun dec_finite :: "pydecimal \<Rightarrow> bool" where
  "dec_finite (DFin _ _ _) = True"
| "dec_finite _ = False"

section \<open>Construction from text\<close>

text \<open>The text after the sign: digits with an optional point and an optional exponent.\<close>

definition parse_exponent :: "string \<Rightarrow> int option" where
  "parse_exponent t =
     (case t of [] \<Rightarrow> Some 0 | c # r \<Rightarrow> if c = CHR ''e'' \<or> c = CHR ''E'' then parse_int r else None)"

definition parse_unsigned :: "bool \<Rightarrow> string \<Rightarrow> pydecimal option" where
  "parse_unsigned neg t =
     (let ip = takeWhile is_digit t; r = dropWhile is_digit t;
          fp = (case r of [] \<Rightarrow> [] | c # u \<Rightarrow> if c = CHR ''.'' then takeWhile is_digit u else []);
          q = (case r of [] \<Rightarrow> [] | c # u \<Rightarrow> if c = CHR ''.'' then dropWhile is_digit u else r)
      in if ip = [] \<and> fp = [] then None
         else map_option
                (\<lambda>e. DFin neg (digits_value 10 (map char_digit (ip @ fp))) (e - int (length fp)))
                (parse_exponent q))"

definition parse_special :: "bool \<Rightarrow> string \<Rightarrow> pydecimal option" where
  "parse_special neg t =
     (let u = upper t in
      if u = ''INF'' \<or> u = ''INFINITY'' then Some (DInf neg)
      else if take 3 u = ''NAN'' \<and> list_all is_digit (drop 3 u) then Some (DNaN False)
      else if take 4 u = ''SNAN'' \<and> list_all is_digit (drop 4 u) then Some (DNaN True)
      else None)"

definition parse_body :: "bool \<Rightarrow> string \<Rightarrow> pydecimal option" where
  "parse_body neg t =
     (case parse_special neg t of Some d \<Rightarrow> Some d | None \<Rightarrow> parse_unsigned neg t)"

definition decimal_of_string :: "string \<Rightarrow> pydecimal option" where
  "decimal_of_string s =
     (case filter (\<lambda>c. c \<noteq> CHR ''_'') (strip s) of
        [] \<Rightarrow> None
      | c # t \<Rightarrow>
          if c = CHR ''-'' then parse_body True t
          else if c = CHR ''+'' then parse_body False t
          else parse_body False (c # t))"

section \<open>Comparison and arithmetic\<close>

fun dec_neg :: "pydecimal \<Rightarrow> bool" where
  "dec_neg (DFin b _ _) = b"
| "dec_neg (DInf b) = b"
| "dec_neg (DNaN _) = False"

definition scaled :: "int \<Rightarrow> bool \<Rightarrow> nat \<Rightarrow> int \<Rightarrow> int" where
  "scaled m neg c e = (if neg then - 1 else 1) * int c * 10 ^ nat (e - m)"

text \<open>
  \<open>x < y\<close>: \<open>None\<close> is the \<open>InvalidOperation\<close> an ordering comparison with a NaN raises.
\<close>

fun dec_less :: "pydecimal \<Rightarrow> pydecimal \<Rightarrow> bool option" where
  "dec_less (DNaN _) _ = None"
| "dec_less _ (DNaN _) = None"
| "dec_less (DFin b c e) (DFin b' c' e') =
     Some (scaled (min e e') b c e < scaled (min e e') b' c' e')"
| "dec_less (DInf b) (DInf b') = Some (b \<and> \<not> b')"
| "dec_less (DInf b) (DFin _ _ _) = Some b"
| "dec_less (DFin _ _ _) (DInf b') = Some (\<not> b')"

text \<open>\<open>x == 0\<close>: false for a quiet NaN, an \<open>InvalidOperation\<close> for a signalling one.\<close>

fun dec_eq_zero :: "pydecimal \<Rightarrow> bool option" where
  "dec_eq_zero (DFin _ c _) = Some (c = 0)"
| "dec_eq_zero (DInf _) = Some False"
| "dec_eq_zero (DNaN signalling) = (if signalling then None else Some False)"

definition dec_zero :: pydecimal where
  "dec_zero = DFin False 0 0"

text \<open>Rounding of a coefficient to the 28 digits of the context, half to even.\<close>

definition dec_precision :: nat where
  "dec_precision = 28"

definition dec_fix :: "bool \<Rightarrow> nat \<Rightarrow> int \<Rightarrow> pydecimal" where
  "dec_fix neg c e =
     (let n = length (digits_base 10 c) in
      if n \<le> dec_precision then DFin neg c e
      else
        let k = n - dec_precision; q = c div 10 ^ k; r = c mod 10 ^ k;
            q' = (if 2 * r > 10 ^ k \<or> (2 * r = 10 ^ k \<and> odd q) then q + 1 else q)
        in if q' = 10 ^ dec_precision then DFin neg (10 ^ (dec_precision - 1)) (e + int k + 1)
           else DFin neg q' (e + int k))"

fun dec_abs :: "pydecimal \<Rightarrow> pydecimal option" where
  "dec_abs (DFin _ c e) = Some (dec_fix False c e)"
| "dec_abs (DInf _) = Some (DInf False)"
| "dec_abs (DNaN signalling) = (if signalling then None else Some (DNaN False))"

fun dec_add :: "pydecimal \<Rightarrow> pydecimal \<Rightarrow> pydecimal option" where
  "dec_add (DFin b c e) (DFin b' c' e') =
     (let m = min e e'; v = scaled m b c e + scaled m b' c' e'
      in Some (dec_fix (v < 0 \<or> (v = 0 \<and> b \<and> b')) (nat \<bar>v\<bar>) m))"
| "dec_add (DNaN s) y = (if s \<or> y = DNaN True then None else Some (DNaN False))"
| "dec_add x (DNaN s) = (if s then None else Some (DNaN False))"
| "dec_add (DInf b) (DInf b') = (if b = b' then Some (DInf b) else None)"
| "dec_add (DInf b) (DFin _ _ _) = Some (DInf b)"
| "dec_add (DFin _ _ _) (DInf b') = Some (DInf b')"

section \<open>Formatting\<close>

text \<open>\<open>format(x, "f")\<close>: positional notation, no exponent.\<close>

definition format_fixed :: "nat \<Rightarrow> int \<Rightarrow> string" where
  "format_fixed c e =
     (if 0 \<le> e then (if c = 0 then ''0'' else show_nat c @ replicate (nat e) (CHR ''0''))
      else
        let ds = show_nat c; k = nat (- e); n = length ds;
            padded = (if n \<le> k then replicate (Suc k - n) (CHR ''0'') @ ds else ds)
        in take (length padded - k) padded @ CHR ''.'' # drop (length padded - k) padded)"

fun dec_format_f :: "pydecimal \<Rightarrow> string" where
  "dec_format_f (DFin neg c e) = (if neg then CHR ''-'' # format_fixed c e else format_fixed c e)"
| "dec_format_f (DInf neg) = (if neg then ''-Infinity'' else ''Infinity'')"
| "dec_format_f (DNaN signalling) = (if signalling then ''sNaN'' else ''NaN'')"

section \<open>Values\<close>

definition dval_fin :: "bool \<Rightarrow> nat \<Rightarrow> int \<Rightarrow> rat" where
  "dval_fin neg c e = (if neg then - 1 else 1) * of_nat c * power_int 10 e"

fun dval :: "pydecimal \<Rightarrow> rat" where
  "dval (DFin neg c e) = dval_fin neg c e"
| "dval _ = 0"

lemma scaled_dval: "m \<le> e \<Longrightarrow> of_int (scaled m neg c e) * power_int 10 m = dval_fin neg c e"
proof -
  assume "m \<le> e"
  then have "power_int (10::rat) (e - m) = 10 ^ nat (e - m)"
    by (simp add: power_int_def)
  moreover have "power_int (10::rat) e = power_int 10 (e - m) * power_int 10 m"
    by (simp flip: power_int_add)
  ultimately show ?thesis by (simp add: scaled_def dval_fin_def)
qed

lemma dec_less_dval:
  assumes "dec_finite x" and "dec_finite y"
  shows "dec_less x y = Some (dval x < dval y)"
proof -
  obtain b c e b' c' e' where xy: "x = DFin b c e" "y = DFin b' c' e'"
    using assms by (cases x; cases y) auto
  let ?m = "min e e'"
  have "dval x < dval y \<longleftrightarrow>
      of_int (scaled ?m b c e) * power_int (10::rat) ?m < of_int (scaled ?m b' c' e') * power_int 10 ?m"
    by (simp add: xy scaled_dval)
  also have "\<dots> \<longleftrightarrow> scaled ?m b c e < scaled ?m b' c' e'"
    by (simp add: mult_less_cancel_right_pos)
  finally show ?thesis by (simp add: xy)
qed

lemma dec_eq_zero_dval: "dec_finite x \<Longrightarrow> dec_eq_zero x = Some (dval x = 0)"
  by (cases x) (auto simp: dval_fin_def)

lemma dec_zero_finite [simp]: "dec_finite dec_zero" and dval_zero [simp]: "dval dec_zero = 0"
  by (simp_all add: dec_zero_def dval_fin_def)

text \<open>A coefficient of at most 28 digits is kept exactly.\<close>

definition dec_exact :: "pydecimal \<Rightarrow> bool" where
  "dec_exact x = (case x of DFin _ c _ \<Rightarrow> length (digits_base 10 c) \<le> dec_precision | _ \<Rightarrow> False)"

lemma dec_exact_finite [simp]: "dec_exact x \<Longrightarrow> dec_finite x"
  by (cases x) (simp_all add: dec_exact_def)

lemma dec_abs_exact: "dec_exact x \<Longrightarrow> dec_abs x = Some y \<Longrightarrow> dec_finite y \<and> dval y = \<bar>dval x\<bar>"
  by (cases x) (auto simp: dec_exact_def dec_fix_def dval_fin_def abs_mult)

lemma dec_fix_finite [simp]: "dec_finite (dec_fix neg c e)"
  by (simp add: dec_fix_def Let_def)

lemma dec_abs_finite: "dec_finite x \<Longrightarrow> \<exists>y. dec_abs x = Some y \<and> dec_finite y"
  by (cases x) simp_all

lemma dec_abs_not_neg: "dec_abs x = Some y \<Longrightarrow> dec_neg y = False"
  by (cases x) (auto simp: dec_fix_def Let_def split: if_splits)

end
