(* ===== verification/Enums.thy ===== *)
theory Enums
  imports PyText
begin

text \<open>
  The enumerations of \<open>schemas/market.py\<close>, \<open>schemas/order.py\<close>, \<open>schemas/position.py\<close>
  and \<open>exchange/errors.py\<close>.  Each is a \<open>str\<close> enumeration: \<open><name>_value\<close> is a
  member's text and \<open><name>_members\<close> the members in declaration order.  Constructors carry a
  prefix where two enumerations share a member name (\<open>OS_UNKNOWN\<close> is \<open>OrderStatus.UNKNOWN\<close>,
  \<open>CS_UNKNOWN\<close> is \<open>ConditionalStatus.UNKNOWN\<close>).  The locale \<open>text_enum\<close> is the
  interface the stores rely on when they write a member as text and read it back.
\<close>

named_theorems enum_values "the texts of the enumeration members"

section \<open>Text enumerations\<close>

text \<open>\<open>Enum(text)\<close>: the member with that text, a \<open>ValueError\<close> (here \<open>None\<close>) otherwise.\<close>

definition enum_parse :: "('a \<Rightarrow> string) \<Rightarrow> 'a list \<Rightarrow> string \<Rightarrow> 'a option" where
  "enum_parse val members t = List.find (\<lambda>x. val x = t) members"

locale text_enum =
  fixes val :: "'a \<Rightarrow> string" and members :: "'a list"
  assumes val_inj: "val x = val y \<Longrightarrow> x = y"
    and members_all: "x \<in> set members"
    and val_nonempty: "val x \<noteq> []"
    and val_upper: "upper (val x) = val x"
begin

lemma parse_val: "enum_parse val members (val x) = Some x"
proof -
  obtain y where "List.find (\<lambda>y. val y = val x) members = Some y"
    using members_all [of x] by (cases "List.find (\<lambda>y. val y = val x) members")
      (auto simp: find_None_iff)
  moreover from this have "val y = val x" by (auto simp: find_Some_iff)
  ultimately show ?thesis using val_inj by (auto simp: enum_parse_def)
qed

lemma parse_SomeD: "enum_parse val members t = Some x \<Longrightarrow> val x = t"
  by (auto simp: enum_parse_def find_Some_iff)

lemma parse_iff: "enum_parse val members t = Some x \<longleftrightarrow> val x = t"
  using parse_val parse_SomeD by blast

end

lemma text_enumI:
  assumes "\<And>x. x \<in> set members" and "distinct (map val members)"
    and "list_all (\<lambda>x. val x \<noteq> [] \<and> upper (val x) = val x) members"
  shows "text_enum val members"
proof
  show "val x = val y \<Longrightarrow> x = y" for x y
    using assms(1,2) by (auto simp: distinct_map inj_on_def)
qed (use assms(1,3) in \<open>auto simp: list_all_iff\<close>)

section \<open>The enumerations\<close>

datatype exchange =
    BINANCE
  | BYBIT
  | OKX
  | BITGET
  | GATE
  | MEXC
  | KUCOIN
  | HTX
  | KRAKEN

fun exchange_value :: "exchange \<Rightarrow> string" where
  "exchange_value BINANCE = ''BINANCE''"
| "exchange_value BYBIT = ''BYBIT''"
| "exchange_value OKX = ''OKX''"
| "exchange_value BITGET = ''BITGET''"
| "exchange_value GATE = ''GATE''"
| "exchange_value MEXC = ''MEXC''"
| "exchange_value KUCOIN = ''KUCOIN''"
| "exchange_value HTX = ''HTX''"
| "exchange_value KRAKEN = ''KRAKEN''"

definition exchange_members :: "exchange list" where
  "exchange_members = [BINANCE, BYBIT, OKX, BITGET, GATE, MEXC, KUCOIN, HTX, KRAKEN]"

datatype market_type =
    SPOT
  | PERP
  | FUTURES

fun market_type_value :: "market_type \<Rightarrow> string" where
  "market_type_value SPOT = ''SPOT''"
| "market_type_value PERP = ''PERP''"
| "market_type_value FUTURES = ''FUTURES''"

definition market_type_members :: "market_type list" where
  "market_type_members = [SPOT, PERP, FUTURES]"

datatype order_side =
    BUY
  | SELL

fun order_side_value :: "order_side \<Rightarrow> string" where
  "order_side_value BUY = ''BUY''"
| "order_side_value SELL = ''SELL''"

definition order_side_members :: "order_side list" where
  "order_side_members = [BUY, SELL]"

datatype order_type =
    MARKET
  | LIMIT
  | STOP_MARKET
  | STOP_LIMIT

fun order_type_value :: "order_type \<Rightarrow> string" where
  "order_type_value MARKET = ''MARKET''"
| "order_type_value LIMIT = ''LIMIT''"
| "order_type_value STOP_MARKET = ''STOP_MARKET''"
| "order_type_value STOP_LIMIT = ''STOP_LIMIT''"

definition order_type_members :: "order_type list" where
  "order_type_members = [MARKET, LIMIT, STOP_MARKET, STOP_LIMIT]"

datatype order_route =
    REGULAR
  | CONDITIONAL

fun order_route_value :: "order_route \<Rightarrow> string" where
  "order_route_value REGULAR = ''REGULAR''"
| "order_route_value CONDITIONAL = ''CONDITIONAL''"

definition order_route_members :: "order_route list" where
  "order_route_members = [REGULAR, CONDITIONAL]"

datatype time_in_force =
    GTC
  | IOC
  | FOK
  | GTX

fun time_in_force_value :: "time_in_force \<Rightarrow> string" where
  "time_in_force_value GTC = ''GTC''"
| "time_in_force_value IOC = ''IOC''"
| "time_in_force_value FOK = ''FOK''"
| "time_in_force_value GTX = ''GTX''"

definition time_in_force_members :: "time_in_force list" where
  "time_in_force_members = [GTC, IOC, FOK, GTX]"

datatype order_source =
    MANUAL
  | SIGNAL_APPROVED
  | STRATEGY
  | SYSTEM
  | RECOVERY

fun order_source_value :: "order_source \<Rightarrow> string" where
  "order_source_value MANUAL = ''MANUAL''"
| "order_source_value SIGNAL_APPROVED = ''SIGNAL_APPROVED''"
| "order_source_value STRATEGY = ''STRATEGY''"
| "order_source_value SYSTEM = ''SYSTEM''"
| "order_source_value RECOVERY = ''RECOVERY''"

definition order_source_members :: "order_source list" where
  "order_source_members = [MANUAL, SIGNAL_APPROVED, STRATEGY, SYSTEM, RECOVERY]"

datatype order_status =
    OS_PENDING_NEW
  | OS_SUBMITTED
  | OS_ACKNOWLEDGED
  | OS_PARTIALLY_FILLED
  | OS_FILLED
  | OS_PENDING_CANCEL
  | OS_CANCELLED
  | OS_REJECTED
  | OS_EXPIRED
  | OS_UNKNOWN
  | OS_RECONCILE_UNRESOLVED

fun order_status_value :: "order_status \<Rightarrow> string" where
  "order_status_value OS_PENDING_NEW = ''PENDING_NEW''"
| "order_status_value OS_SUBMITTED = ''SUBMITTED''"
| "order_status_value OS_ACKNOWLEDGED = ''ACKNOWLEDGED''"
| "order_status_value OS_PARTIALLY_FILLED = ''PARTIALLY_FILLED''"
| "order_status_value OS_FILLED = ''FILLED''"
| "order_status_value OS_PENDING_CANCEL = ''PENDING_CANCEL''"
| "order_status_value OS_CANCELLED = ''CANCELLED''"
| "order_status_value OS_REJECTED = ''REJECTED''"
| "order_status_value OS_EXPIRED = ''EXPIRED''"
| "order_status_value OS_UNKNOWN = ''UNKNOWN''"
| "order_status_value OS_RECONCILE_UNRESOLVED = ''RECONCILE_UNRESOLVED''"

definition order_status_members :: "order_status list" where
  "order_status_members = [OS_PENDING_NEW, OS_SUBMITTED, OS_ACKNOWLEDGED, OS_PARTIALLY_FILLED, OS_FILLED, OS_PENDING_CANCEL, OS_CANCELLED, OS_REJECTED, OS_EXPIRED, OS_UNKNOWN, OS_RECONCILE_UNRESOLVED]"

datatype conditional_status =
    CS_NEW
  | CS_ACTIVE
  | CS_TRIGGERED
  | CS_FINISHED
  | CS_CANCELLED
  | CS_EXPIRED
  | CS_REJECTED
  | CS_UNKNOWN

fun conditional_status_value :: "conditional_status \<Rightarrow> string" where
  "conditional_status_value CS_NEW = ''NEW''"
| "conditional_status_value CS_ACTIVE = ''ACTIVE''"
| "conditional_status_value CS_TRIGGERED = ''TRIGGERED''"
| "conditional_status_value CS_FINISHED = ''FINISHED''"
| "conditional_status_value CS_CANCELLED = ''CANCELLED''"
| "conditional_status_value CS_EXPIRED = ''EXPIRED''"
| "conditional_status_value CS_REJECTED = ''REJECTED''"
| "conditional_status_value CS_UNKNOWN = ''UNKNOWN''"

definition conditional_status_members :: "conditional_status list" where
  "conditional_status_members = [CS_NEW, CS_ACTIVE, CS_TRIGGERED, CS_FINISHED, CS_CANCELLED, CS_EXPIRED, CS_REJECTED, CS_UNKNOWN]"

datatype position_action =
    PA_OPEN
  | PA_INCREASE
  | PA_REDUCE
  | PA_CLOSE
  | PA_FLIP
  | PA_UNKNOWN
  | PA_NOT_APPLICABLE

fun position_action_value :: "position_action \<Rightarrow> string" where
  "position_action_value PA_OPEN = ''OPEN''"
| "position_action_value PA_INCREASE = ''INCREASE''"
| "position_action_value PA_REDUCE = ''REDUCE''"
| "position_action_value PA_CLOSE = ''CLOSE''"
| "position_action_value PA_FLIP = ''FLIP''"
| "position_action_value PA_UNKNOWN = ''UNKNOWN''"
| "position_action_value PA_NOT_APPLICABLE = ''NOT_APPLICABLE''"

definition position_action_members :: "position_action list" where
  "position_action_members = [PA_OPEN, PA_INCREASE, PA_REDUCE, PA_CLOSE, PA_FLIP, PA_UNKNOWN, PA_NOT_APPLICABLE]"

datatype reject_reason =
    RR_DUPLICATE
  | RR_RISK_LIMIT_EXCEEDED
  | RR_INSUFFICIENT_BALANCE
  | RR_INVALID_SYMBOL
  | RR_EXCHANGE_REJECTED
  | RR_RATE_LIMITED
  | RR_INTERNAL_ERROR
  | RR_UNKNOWN_EXECUTION

fun reject_reason_value :: "reject_reason \<Rightarrow> string" where
  "reject_reason_value RR_DUPLICATE = ''DUPLICATE''"
| "reject_reason_value RR_RISK_LIMIT_EXCEEDED = ''RISK_LIMIT_EXCEEDED''"
| "reject_reason_value RR_INSUFFICIENT_BALANCE = ''INSUFFICIENT_BALANCE''"
| "reject_reason_value RR_INVALID_SYMBOL = ''INVALID_SYMBOL''"
| "reject_reason_value RR_EXCHANGE_REJECTED = ''EXCHANGE_REJECTED''"
| "reject_reason_value RR_RATE_LIMITED = ''RATE_LIMITED''"
| "reject_reason_value RR_INTERNAL_ERROR = ''INTERNAL_ERROR''"
| "reject_reason_value RR_UNKNOWN_EXECUTION = ''UNKNOWN_EXECUTION''"

definition reject_reason_members :: "reject_reason list" where
  "reject_reason_members = [RR_DUPLICATE, RR_RISK_LIMIT_EXCEEDED, RR_INSUFFICIENT_BALANCE, RR_INVALID_SYMBOL, RR_EXCHANGE_REJECTED, RR_RATE_LIMITED, RR_INTERNAL_ERROR, RR_UNKNOWN_EXECUTION]"

datatype position_side =
    BOTH
  | LONG
  | SHORT

fun position_side_value :: "position_side \<Rightarrow> string" where
  "position_side_value BOTH = ''BOTH''"
| "position_side_value LONG = ''LONG''"
| "position_side_value SHORT = ''SHORT''"

definition position_side_members :: "position_side list" where
  "position_side_members = [BOTH, LONG, SHORT]"

datatype position_status =
    PS_FLAT
  | PS_OPEN

fun position_status_value :: "position_status \<Rightarrow> string" where
  "position_status_value PS_FLAT = ''FLAT''"
| "position_status_value PS_OPEN = ''OPEN''"

definition position_status_members :: "position_status list" where
  "position_status_members = [PS_FLAT, PS_OPEN]"

datatype error_category =
    EC_RATE_LIMITED
  | EC_IP_BANNED
  | EC_WAF_BLOCKED
  | EC_INSUFFICIENT_BALANCE
  | EC_INVALID_SYMBOL
  | EC_INVALID_PARAMETER
  | EC_UNKNOWN_EXECUTION
  | EC_SERVICE_UNAVAILABLE
  | EC_INTERNAL_RETRYABLE
  | EC_SYSTEM_THROTTLE
  | EC_NETWORK
  | EC_EXCHANGE_REJECTED
  | EC_ORDER_NOT_FOUND

fun error_category_value :: "error_category \<Rightarrow> string" where
  "error_category_value EC_RATE_LIMITED = ''RATE_LIMITED''"
| "error_category_value EC_IP_BANNED = ''IP_BANNED''"
| "error_category_value EC_WAF_BLOCKED = ''WAF_BLOCKED''"
| "error_category_value EC_INSUFFICIENT_BALANCE = ''INSUFFICIENT_BALANCE''"
| "error_category_value EC_INVALID_SYMBOL = ''INVALID_SYMBOL''"
| "error_category_value EC_INVALID_PARAMETER = ''INVALID_PARAMETER''"
| "error_category_value EC_UNKNOWN_EXECUTION = ''UNKNOWN_EXECUTION''"
| "error_category_value EC_SERVICE_UNAVAILABLE = ''SERVICE_UNAVAILABLE''"
| "error_category_value EC_INTERNAL_RETRYABLE = ''INTERNAL_RETRYABLE''"
| "error_category_value EC_SYSTEM_THROTTLE = ''SYSTEM_THROTTLE''"
| "error_category_value EC_NETWORK = ''NETWORK''"
| "error_category_value EC_EXCHANGE_REJECTED = ''EXCHANGE_REJECTED''"
| "error_category_value EC_ORDER_NOT_FOUND = ''ORDER_NOT_FOUND''"

definition error_category_members :: "error_category list" where
  "error_category_members = [EC_RATE_LIMITED, EC_IP_BANNED, EC_WAF_BLOCKED, EC_INSUFFICIENT_BALANCE, EC_INVALID_SYMBOL, EC_INVALID_PARAMETER, EC_UNKNOWN_EXECUTION, EC_SERVICE_UNAVAILABLE, EC_INTERNAL_RETRYABLE, EC_SYSTEM_THROTTLE, EC_NETWORK, EC_EXCHANGE_REJECTED, EC_ORDER_NOT_FOUND]"

interpretation exchange: text_enum exchange_value exchange_members
proof (rule text_enumI)
  show "x \<in> set exchange_members" for x by (cases x) (simp_all add: exchange_members_def)
  show "distinct (map exchange_value exchange_members)" by code_simp
  show "list_all (\<lambda>x. exchange_value x \<noteq> [] \<and> upper (exchange_value x) = exchange_value x) exchange_members" by code_simp
qed

interpretation market_type: text_enum market_type_value market_type_members
proof (rule text_enumI)
  show "x \<in> set market_type_members" for x by (cases x) (simp_all add: market_type_members_def)
  show "distinct (map market_type_value market_type_members)" by code_simp
  show "list_all (\<lambda>x. market_type_value x \<noteq> [] \<and> upper (market_type_value x) = market_type_value x) market_type_members" by code_simp
qed

interpretation order_side: text_enum order_side_value order_side_members
proof (rule text_enumI)
  show "x \<in> set order_side_members" for x by (cases x) (simp_all add: order_side_members_def)
  show "distinct (map order_side_value order_side_members)" by code_simp
  show "list_all (\<lambda>x. order_side_value x \<noteq> [] \<and> upper (order_side_value x) = order_side_value x) order_side_members" by code_simp
qed

interpretation order_type: text_enum order_type_value order_type_members
proof (rule text_enumI)
  show "x \<in> set order_type_members" for x by (cases x) (simp_all add: order_type_members_def)
  show "distinct (map order_type_value order_type_members)" by code_simp
  show "list_all (\<lambda>x. order_type_value x \<noteq> [] \<and> upper (order_type_value x) = order_type_value x) order_type_members" by code_simp
qed

interpretation order_route: text_enum order_route_value order_route_members
proof (rule text_enumI)
  show "x \<in> set order_route_members" for x by (cases x) (simp_all add: order_route_members_def)
  show "distinct (map order_route_value order_route_members)" by code_simp
  show "list_all (\<lambda>x. order_route_value x \<noteq> [] \<and> upper (order_route_value x) = order_route_value x) order_route_members" by code_simp
qed

interpretation time_in_force: text_enum time_in_force_value time_in_force_members
proof (rule text_enumI)
  show "x \<in> set time_in_force_members" for x by (cases x) (simp_all add: time_in_force_members_def)
  show "distinct (map time_in_force_value time_in_force_members)" by code_simp
  show "list_all (\<lambda>x. time_in_force_value x \<noteq> [] \<and> upper (time_in_force_value x) = time_in_force_value x) time_in_force_members" by code_simp
qed

interpretation order_source: text_enum order_source_value order_source_members
proof (rule text_enumI)
  show "x \<in> set order_source_members" for x by (cases x) (simp_all add: order_source_members_def)
  show "distinct (map order_source_value order_source_members)" by code_simp
  show "list_all (\<lambda>x. order_source_value x \<noteq> [] \<and> upper (order_source_value x) = order_source_value x) order_source_members" by code_simp
qed

interpretation order_status: text_enum order_status_value order_status_members
proof (rule text_enumI)
  show "x \<in> set order_status_members" for x by (cases x) (simp_all add: order_status_members_def)
  show "distinct (map order_status_value order_status_members)" by code_simp
  show "list_all (\<lambda>x. order_status_value x \<noteq> [] \<and> upper (order_status_value x) = order_status_value x) order_status_members" by code_simp
qed

interpretation conditional_status: text_enum conditional_status_value conditional_status_members
proof (rule text_enumI)
  show "x \<in> set conditional_status_members" for x by (cases x) (simp_all add: conditional_status_members_def)
  show "distinct (map conditional_status_value conditional_status_members)" by code_simp
  show "list_all (\<lambda>x. conditional_status_value x \<noteq> [] \<and> upper (conditional_status_value x) = conditional_status_value x) conditional_status_members" by code_simp
qed

interpretation position_action: text_enum position_action_value position_action_members
proof (rule text_enumI)
  show "x \<in> set position_action_members" for x by (cases x) (simp_all add: position_action_members_def)
  show "distinct (map position_action_value position_action_members)" by code_simp
  show "list_all (\<lambda>x. position_action_value x \<noteq> [] \<and> upper (position_action_value x) = position_action_value x) position_action_members" by code_simp
qed

interpretation reject_reason: text_enum reject_reason_value reject_reason_members
proof (rule text_enumI)
  show "x \<in> set reject_reason_members" for x by (cases x) (simp_all add: reject_reason_members_def)
  show "distinct (map reject_reason_value reject_reason_members)" by code_simp
  show "list_all (\<lambda>x. reject_reason_value x \<noteq> [] \<and> upper (reject_reason_value x) = reject_reason_value x) reject_reason_members" by code_simp
qed

interpretation position_side: text_enum position_side_value position_side_members
proof (rule text_enumI)
  show "x \<in> set position_side_members" for x by (cases x) (simp_all add: position_side_members_def)
  show "distinct (map position_side_value position_side_members)" by code_simp
  show "list_all (\<lambda>x. position_side_value x \<noteq> [] \<and> upper (position_side_value x) = position_side_value x) position_side_members" by code_simp
qed

interpretation position_status: text_enum position_status_value position_status_members
proof (rule text_enumI)
  show "x \<in> set position_status_members" for x by (cases x) (simp_all add: position_status_members_def)
  show "distinct (map position_status_value position_status_members)" by code_simp
  show "list_all (\<lambda>x. position_status_value x \<noteq> [] \<and> upper (position_status_value x) = position_status_value x) position_status_members" by code_simp
qed

interpretation error_category: text_enum error_category_value error_category_members
proof (rule text_enumI)
  show "x \<in> set error_category_members" for x by (cases x) (simp_all add: error_category_members_def)
  show "distinct (map error_category_value error_category_members)" by code_simp
  show "list_all (\<lambda>x. error_category_value x \<noteq> [] \<and> upper (error_category_value x) = error_category_value x) error_category_members" by code_simp
qed

lemmas enum_round_trips [simp] =
  exchange.parse_val
  market_type.parse_val
  order_side.parse_val
  order_type.parse_val
  order_route.parse_val
  time_in_force.parse_val
  order_source.parse_val
  order_status.parse_val
  conditional_status.parse_val
  position_action.parse_val
  reject_reason.parse_val
  position_side.parse_val
  position_status.parse_val
  error_category.parse_val

lemmas enum_values_nonempty [simp] =
  exchange.val_nonempty
  market_type.val_nonempty
  order_side.val_nonempty
  order_type.val_nonempty
  order_route.val_nonempty
  time_in_force.val_nonempty
  order_source.val_nonempty
  order_status.val_nonempty
  conditional_status.val_nonempty
  position_action.val_nonempty
  reject_reason.val_nonempty
  position_side.val_nonempty
  position_status.val_nonempty
  error_category.val_nonempty

end
