(* ===== verification/OrderModel.thy ===== *)
theory OrderModel
  imports PyDecimal Enums
begin

text \<open>
  The data of \<open>schemas/order.py\<close>: the status sets, \<open>OrderRequest\<close>, \<open>Order\<close> and their
  validators, and the exceptions the gateway raises (\<open>exn\<close>).  \<open>orders_row\<close> holds the columns
  of the \<open>orders\<close> table; \<open>order\<close> is the model \<open>Order\<close>, which adds the three fields kept in
  \<open>order_intents\<close> (\<open>source\<close>, \<open>signal_id\<close>, \<open>strategy_name\<close>).  The pydantic
  constructor is \<open>validate_order\<close>: field checks, then the \<open>after\<close> validator; the id it
  generates for an order without one is an argument.  A missing order id is the empty text
  (the code tests \<open>not self.order_id\<close>).
\<close>

section \<open>Data\<close>

datatype json =
    JNull
  | JBool bool
  | JInt int
  | JReal string
  | JStr string
  | JList "json list"
  | JObj "(string \<times> json) list"

type_synonym json_obj = "(string \<times> json) list"

datatype cancel_skip_reason =
    LOCAL_ORDER_NOT_FOUND
  | ALREADY_CANCELLED
  | ALREADY_FILLED
  | ALREADY_REJECTED
  | ALREADY_EXPIRED
  | CONDITIONAL_ORDER_NOT_CANCELABLE

text \<open>The exceptions of the code, each with what its handlers read of it.\<close>

datatype exn =
    ValueError string
  | RuntimeError string
  | TypeError string
  | ValidationError string
  | NotImplementedError
  | InvalidOperation
  | InvalidTransitionError order_status order_status
  | InvalidConditionalTransitionError "conditional_status option" conditional_status
  | StaleOrderVersionError string int int order_status
  | UniqueViolationError
  | ExchangeApiError exchange error_category string "int option" json_obj
  | CancelOrderSkipped string cancel_skip_reason "order_status option"
      "conditional_status option" "string option" string
  | RedisError
  | PositionOrderError string
  | ClosePositionError string
  | OpenPositionError string
  | FlipPositionError string
  | OtherError string

record orders_row =
  o_order_id :: string
  o_exchange :: exchange
  o_market_type :: market_type
  o_symbol :: string
  o_side :: order_side
  o_order_type :: order_type
  o_order_route :: "order_route option"
  o_time_in_force :: "time_in_force option"
  o_status :: order_status
  o_position_side :: position_side
  o_position_action :: position_action
  o_quantity :: string
  o_price :: "string option"
  o_trigger_price :: "string option"
  o_reduce_only :: bool
  o_close_position :: bool
  o_client_order_id :: "string option"
  o_exchange_order_id :: "string option"
  o_client_conditional_id :: "string option"
  o_exchange_conditional_id :: "string option"
  o_conditional_status :: "conditional_status option"
  o_exchange_conditional_status :: "string option"
  o_triggered_order_id :: "string option"
  o_triggered_client_order_id :: "string option"
  o_reject_reason :: "reject_reason option"
  o_exchange_error_code :: "int option"
  o_detail_msg :: "string option"
  o_filled_quantity :: string
  o_avg_fill_price :: string
  o_created_ts :: int
  o_updated_ts :: int
  o_submitted_ts :: "int option"
  o_acknowledged_ts :: "int option"
  o_triggered_ts :: "int option"
  o_filled_ts :: "int option"
  o_cancelled_ts :: "int option"
  o_expired_ts :: "int option"
  o_raw_exchange_response :: "json_obj option"
  o_version :: int

record order = orders_row +
  o_source :: order_source
  o_signal_id :: "string option"
  o_strategy_name :: "string option"

record order_request =
  r_exchange :: exchange
  r_market_type :: market_type
  r_symbol :: string
  r_side :: order_side
  r_order_type :: order_type
  r_order_route :: "order_route option"
  r_time_in_force :: "time_in_force option"
  r_quantity :: string
  r_price :: "string option"
  r_trigger_price :: "string option"
  r_stop_price :: "string option"
  r_reduce_only :: bool
  r_close_position :: bool
  r_leverage :: "int option"
  r_position_side :: position_side
  r_position_action :: position_action

section \<open>Status sets\<close>

definition TERMINAL_STATUSES :: "order_status set" where
  "TERMINAL_STATUSES =
     {OS_FILLED, OS_CANCELLED, OS_REJECTED, OS_EXPIRED, OS_RECONCILE_UNRESOLVED}"

definition REGULAR_OPEN_STATUSES :: "order_status set" where
  "REGULAR_OPEN_STATUSES =
     {OS_PENDING_NEW, OS_SUBMITTED, OS_ACKNOWLEDGED, OS_PARTIALLY_FILLED, OS_PENDING_CANCEL,
      OS_UNKNOWN}"

text \<open>The code's set also holds \<open>""\<close>, the text a missing status has in the projection.\<close>

definition CONDITIONAL_TRACKABLE_STATUSES :: "conditional_status option set" where
  "CONDITIONAL_TRACKABLE_STATUSES = {None, Some CS_NEW, Some CS_ACTIVE, Some CS_UNKNOWN}"

definition RECOVERY_STATUSES :: "order_status set" where
  "RECOVERY_STATUSES = {OS_SUBMITTED, OS_PENDING_CANCEL, OS_UNKNOWN}"

definition UNKNOWN_STATUSES :: "order_status set" where
  "UNKNOWN_STATUSES = {OS_UNKNOWN}"

definition CONDITIONAL_TERMINAL_STATUSES :: "conditional_status set" where
  "CONDITIONAL_TERMINAL_STATUSES = {CS_FINISHED, CS_CANCELLED, CS_EXPIRED, CS_REJECTED}"

lemmas status_sets =
  TERMINAL_STATUSES_def REGULAR_OPEN_STATUSES_def CONDITIONAL_TRACKABLE_STATUSES_def
  RECOVERY_STATUSES_def UNKNOWN_STATUSES_def CONDITIONAL_TERMINAL_STATUSES_def

definition is_terminal :: "('a orders_row_scheme) \<Rightarrow> bool" where
  "is_terminal ord = (o_status ord \<in> TERMINAL_STATUSES)"

lemma open_iff_not_terminal: "st \<in> REGULAR_OPEN_STATUSES \<longleftrightarrow> st \<notin> TERMINAL_STATUSES"
  by (cases st) (simp_all add: status_sets)

fun infer_order_route :: "order_type \<Rightarrow> order_route" where
  "infer_order_route STOP_MARKET = CONDITIONAL"
| "infer_order_route STOP_LIMIT = CONDITIONAL"
| "infer_order_route MARKET = REGULAR"
| "infer_order_route LIMIT = REGULAR"

section \<open>Decimal strings\<close>

text \<open>\<open>DecimalString\<close>: stripped, then matched against \<open>^-?\d+(\.\d+)?$\<close>.\<close>

definition decimal_pattern :: "string \<Rightarrow> bool" where
  "decimal_pattern s =
     (let u = (case s of [] \<Rightarrow> [] | c # r \<Rightarrow> if c = CHR ''-'' then r else s);
          q = dropWhile is_digit u
      in takeWhile is_digit u \<noteq> [] \<and>
         (case q of [] \<Rightarrow> True | c # f \<Rightarrow> c = CHR ''.'' \<and> f \<noteq> [] \<and> list_all is_digit f))"

definition decimal_string :: "string \<Rightarrow> string option" where
  "decimal_string t = (if decimal_pattern (strip t) then Some (strip t) else None)"

definition check_decimal :: "string \<Rightarrow> exn + string" where
  "check_decimal t =
     (case decimal_string t of None \<Rightarrow> Inl (ValidationError ''string_pattern_mismatch'') | Some s \<Rightarrow> Inr s)"

definition check_decimal_opt :: "string option \<Rightarrow> exn + string option" where
  "check_decimal_opt v =
     (case v of None \<Rightarrow> Inr None | Some t \<Rightarrow> map_sum id Some (check_decimal t))"

definition decimals_differ :: "string \<Rightarrow> string \<Rightarrow> bool" where
  "decimals_differ a b =
     (case (decimal_of_string a, decimal_of_string b) of
        (Some x, Some y) \<Rightarrow> dec_less x y \<noteq> Some False \<or> dec_less y x \<noteq> Some False
      | _ \<Rightarrow> True)"

section \<open>Validators\<close>

definition sum_bind :: "'e + 'a \<Rightarrow> ('a \<Rightarrow> 'e + 'b) \<Rightarrow> 'e + 'b" where
  "sum_bind r f = (case r of Inl e \<Rightarrow> Inl e | Inr x \<Rightarrow> f x)"

lemma sum_bind_simps [simp]: "sum_bind (Inl e) f = Inl e" "sum_bind (Inr x) f = f x"
  by (simp_all add: sum_bind_def)

lemma sum_bind_Inr_iff: "sum_bind r f = Inr y \<longleftrightarrow> (\<exists>x. r = Inr x \<and> f x = Inr y)"
  by (cases r) auto

definition guard_sum :: "bool \<Rightarrow> exn \<Rightarrow> exn + unit" where
  "guard_sum ok e = (if ok then Inr () else Inl e)"

lemma guard_sum_Inr [simp]: "guard_sum ok e = Inr u \<longleftrightarrow> ok"
  by (simp add: guard_sum_def)

text \<open>A \<open>ValueError\<close> raised inside a pydantic validator surfaces as a \<open>ValidationError\<close>.\<close>

fun as_validation :: "exn \<Rightarrow> exn" where
  "as_validation (ValueError t) = ValidationError t"
| "as_validation e = e"

definition normalize_position_metadata_for_order ::
  "market_type \<Rightarrow> position_side \<Rightarrow> position_action \<Rightarrow> exn + position_side \<times> position_action" where
  "normalize_position_metadata_for_order mt side act =
     (if mt = SPOT then
        (let act' = (if act = PA_UNKNOWN then PA_NOT_APPLICABLE else act) in
         if act' \<noteq> PA_NOT_APPLICABLE then Inl (ValueError ''spot position_action'')
         else if side \<noteq> BOTH then Inl (ValueError ''spot position_side'')
         else Inr (side, act'))
      else if act = PA_NOT_APPLICABLE then Inl (ValueError ''futures position_action'')
      else Inr (side, act))"

fun required_fields_by_type ::
  "order_type \<Rightarrow> string option \<Rightarrow> string option \<Rightarrow> time_in_force option \<Rightarrow> exn + unit" where
  "required_fields_by_type MARKET p t tif =
     (if p \<noteq> None then Inl (ValueError ''MARKET price'')
      else if t \<noteq> None then Inl (ValueError ''MARKET trigger_price'') else Inr ())"
| "required_fields_by_type LIMIT p t tif =
     (if p = None then Inl (ValueError ''LIMIT price'')
      else if t \<noteq> None then Inl (ValueError ''LIMIT trigger_price'')
      else if tif = None then Inl (ValueError ''LIMIT time_in_force'') else Inr ())"
| "required_fields_by_type STOP_MARKET p t tif =
     (if t = None then Inl (ValueError ''STOP_MARKET trigger_price'')
      else if p \<noteq> None then Inl (ValueError ''STOP_MARKET price'') else Inr ())"
| "required_fields_by_type STOP_LIMIT p t tif =
     (if t = None then Inl (ValueError ''STOP_LIMIT trigger_price'')
      else if p = None then Inl (ValueError ''STOP_LIMIT price'')
      else if tif = None then Inl (ValueError ''STOP_LIMIT time_in_force'') else Inr ())"

definition validate_order_type_required_fields ::
  "order_type \<Rightarrow> string option \<Rightarrow> string option \<Rightarrow> time_in_force option \<Rightarrow> bool \<Rightarrow> bool \<Rightarrow> exn + unit"
  where
  "validate_order_type_required_fields ty price trigger tif reduce close =
     (if reduce \<and> close then Inl (ValueError ''reduce_only and close_position'')
      else required_fields_by_type ty price trigger tif)"

definition check_route :: "order_type \<Rightarrow> order_route option \<Rightarrow> exn + order_route option" where
  "check_route ty route =
     (if route = None then Inr (Some (infer_order_route ty))
      else if route \<noteq> Some (infer_order_route ty) then Inl (ValueError ''order_route mismatch'')
      else Inr route)"

definition normalize_request_after_validation :: "order_request \<Rightarrow> exn + order_request" where
  "normalize_request_after_validation req =
     (let req = req\<lparr>r_symbol := upper (strip (r_symbol req))\<rparr>;
          differ = (case (r_trigger_price req, r_stop_price req) of
                      (Some a, Some b) \<Rightarrow> decimals_differ a b | _ \<Rightarrow> False)
      in if differ then Inl (ValueError ''trigger_price and stop_price'')
      else
        let req = (if r_trigger_price req = None \<and> r_stop_price req \<noteq> None
                   then req\<lparr>r_trigger_price := r_stop_price req\<rparr> else req)
        in sum_bind (check_route (r_order_type req) (r_order_route req)) (\<lambda>route.
           sum_bind (normalize_position_metadata_for_order (r_market_type req) (r_position_side req)
                       (r_position_action req)) (\<lambda>(side, act).
           let req = req\<lparr>r_order_route := route, r_position_side := side, r_position_action := act\<rparr>
           in sum_bind (validate_order_type_required_fields (r_order_type req) (r_price req)
                          (r_trigger_price req) (r_time_in_force req) (r_reduce_only req)
                          (r_close_position req)) (\<lambda>_. Inr req))))"

text \<open>The field checks of \<open>OrderRequest\<close>: decimal strings and \<open>leverage\<close> in 1..125.\<close>

definition check_request_fields :: "order_request \<Rightarrow> exn + order_request" where
  "check_request_fields req =
     sum_bind (check_decimal (r_quantity req)) (\<lambda>q.
     sum_bind (check_decimal_opt (r_price req)) (\<lambda>p.
     sum_bind (check_decimal_opt (r_trigger_price req)) (\<lambda>t.
     sum_bind (check_decimal_opt (r_stop_price req)) (\<lambda>s.
     sum_bind (guard_sum (case r_leverage req of None \<Rightarrow> True | Some n \<Rightarrow> 1 \<le> n \<and> n \<le> 125)
                 (ValidationError ''leverage'')) (\<lambda>_.
     Inr (req\<lparr>r_quantity := q, r_price := p, r_trigger_price := t, r_stop_price := s\<rparr>))))))"

definition validate_request :: "order_request \<Rightarrow> exn + order_request" where
  "validate_request req =
     sum_bind (check_request_fields req)
       (\<lambda>req. map_sum as_validation id (normalize_request_after_validation req))"

definition ORDER_VERSION_INITIAL :: int where
  "ORDER_VERSION_INITIAL = 1"

text \<open>An \<open>Order\<close> with the model's defaults; the required fields hold placeholders.\<close>

definition blank_order :: order where
  "blank_order = \<lparr>o_order_id = [], o_exchange = BINANCE, o_market_type = SPOT, o_symbol = [],
     o_side = BUY, o_order_type = MARKET, o_order_route = None, o_time_in_force = None,
     o_status = OS_PENDING_NEW, o_position_side = BOTH, o_position_action = PA_UNKNOWN,
     o_quantity = [], o_price = None, o_trigger_price = None, o_reduce_only = False,
     o_close_position = False, o_client_order_id = None, o_exchange_order_id = None,
     o_client_conditional_id = None, o_exchange_conditional_id = None,
     o_conditional_status = None, o_exchange_conditional_status = None,
     o_triggered_order_id = None, o_triggered_client_order_id = None, o_reject_reason = None,
     o_exchange_error_code = None, o_detail_msg = None, o_filled_quantity = ''0'',
     o_avg_fill_price = ''0'', o_created_ts = 0, o_updated_ts = 0, o_submitted_ts = None,
     o_acknowledged_ts = None, o_triggered_ts = None, o_filled_ts = None, o_cancelled_ts = None,
     o_expired_ts = None, o_raw_exchange_response = None, o_version = ORDER_VERSION_INITIAL,
     o_source = MANUAL, o_signal_id = None, o_strategy_name = None\<rparr>"

definition check_order_fields :: "order \<Rightarrow> exn + order" where
  "check_order_fields ord =
     sum_bind (check_decimal (o_quantity ord)) (\<lambda>q.
     sum_bind (check_decimal_opt (o_price ord)) (\<lambda>p.
     sum_bind (check_decimal_opt (o_trigger_price ord)) (\<lambda>t.
     sum_bind (guard_sum (case o_detail_msg ord of None \<Rightarrow> True | Some m \<Rightarrow> length m \<le> 8192)
                 (ValidationError ''detail_msg'')) (\<lambda>_.
     sum_bind (check_decimal (o_filled_quantity ord)) (\<lambda>fq.
     sum_bind (check_decimal (o_avg_fill_price ord)) (\<lambda>ap.
     Inr (ord\<lparr>o_quantity := q, o_price := p, o_trigger_price := t,
              o_filled_quantity := fq, o_avg_fill_price := ap\<rparr>)))))))"

text \<open>\<open>new_id\<close> is what \<open>generate_order_id(exchange, market_type)\<close> would return.\<close>

definition fill_order_ids :: "string \<Rightarrow> order \<Rightarrow> order" where
  "fill_order_ids new_id ord =
     (let ord = (if o_order_id ord = [] then ord\<lparr>o_order_id := new_id\<rparr> else ord);
          ord = (if o_order_route ord = Some REGULAR \<and> \<not> truthy (o_client_order_id ord)
                 then ord\<lparr>o_client_order_id := Some (o_order_id ord)\<rparr> else ord)
      in if o_order_route ord = Some CONDITIONAL \<and> \<not> truthy (o_client_conditional_id ord)
         then ord\<lparr>o_client_conditional_id := Some (o_order_id ord)\<rparr> else ord)"

definition normalize_order_after_validation :: "string \<Rightarrow> order \<Rightarrow> exn + order" where
  "normalize_order_after_validation new_id ord =
     (let ord = ord\<lparr>o_symbol := upper (strip (o_symbol ord))\<rparr> in
      sum_bind (check_route (o_order_type ord) (o_order_route ord)) (\<lambda>route.
      sum_bind (normalize_position_metadata_for_order (o_market_type ord) (o_position_side ord)
                  (o_position_action ord)) (\<lambda>(side, act).
      let ord = ord\<lparr>o_order_route := route, o_position_side := side, o_position_action := act\<rparr>
      in sum_bind (validate_order_type_required_fields (o_order_type ord) (o_price ord)
                     (o_trigger_price ord) (o_time_in_force ord) (o_reduce_only ord)
                     (o_close_position ord)) (\<lambda>_. Inr (fill_order_ids new_id ord)))))"

definition validate_order :: "string \<Rightarrow> order \<Rightarrow> exn + order" where
  "validate_order new_id ord =
     sum_bind (check_order_fields ord)
       (\<lambda>ord. map_sum as_validation id (normalize_order_after_validation new_id ord))"

end
