(* ===== verification/Ids.thy ===== *)
theory Ids
  imports OrderModel "HOL-Library.Word"
begin

text \<open>
  \<open>common/ids.py\<close>: the Snowflake generator behind order and event ids, the base-36 text of an
  id and the debug generator.  The clock is the list of readings the generator takes, in order;
  \<open>_wait_next_ms\<close> spins until a reading exceeds the last timestamp, so a generator whose
  readings run out before that has not returned (\<open>None\<close>).  Timestamps are milliseconds after
  the custom epoch; \<open>_last_ts_ms\<close> starts at \<open>- 1\<close>.
\<close>

unbundle bit_operations_syntax

section \<open>Text of identifiers\<close>

definition BASE36_ALPHABET :: string where
  "BASE36_ALPHABET = ''0123456789ABCDEFGHIJKLMNOPQRSTUVWXYZ''"

definition base36_digit :: "nat \<Rightarrow> char" where
  "base36_digit d = BASE36_ALPHABET ! d"

text \<open>\<open>_base36\<close>: the digits collected by repeated \<open>divmod\<close>, reversed.\<close>

function base36_loop :: "nat \<Rightarrow> string \<Rightarrow> string" where
  "base36_loop n chars =
     (if n = 0 then chars else base36_loop (n div 36) (chars @ [base36_digit (n mod 36)]))"
  by pat_completeness auto
termination
  by (relation "measure fst") auto

declare base36_loop.simps [simp del]

definition base36 :: "int \<Rightarrow> exn + string" where
  "base36 n =
     (if n < 0 then Inl (ValueError ''base36 only supports non-negative integers'')
      else if n = 0 then Inr ''0''
      else Inr (rev (base36_loop (nat n) [])))"

lemma base36_loop_digits:
  "0 < n \<Longrightarrow> base36_loop n chars = chars @ rev (map base36_digit (digits_base 36 n))"
proof (induction n arbitrary: chars rule: less_induct)
  case (less n)
  show ?case
  proof (cases "n < 36")
    case True
    with less.prems show ?thesis
      by (simp add: base36_loop.simps [of n] base36_loop.simps [of 0] digits_base.simps [of 36 n])
  next
    case False
    with less.IH [of "n div 36"] show ?thesis
      by (simp add: base36_loop.simps [of n] digits_base.simps [of 36 n])
  qed
qed

lemma digits_base_zero: "digits_base 36 0 = [0]"
  by (simp add: digits_base.simps)

lemma base36_digits: "0 \<le> n \<Longrightarrow> base36 n = Inr (map base36_digit (digits_base 36 (nat n)))"
proof (cases "n = 0")
  case True
  then show ?thesis by (simp add: base36_def digits_base_zero base36_digit_def BASE36_ALPHABET_def)
next
  case False
  moreover assume "0 \<le> n"
  ultimately show ?thesis by (simp add: base36_def base36_loop_digits rev_map [symmetric])
qed

definition base36_value :: "char \<Rightarrow> nat" where
  "base36_value c = (let n = of_char c in if n < 58 then n - 48 else n - 55)"

lemma alphabet_values: "map base36_value BASE36_ALPHABET = upt 0 36"
  by code_simp

lemma alphabet_length: "length BASE36_ALPHABET = 36"
  by (simp add: BASE36_ALPHABET_def)

lemma base36_value_digit [simp]: "d < 36 \<Longrightarrow> base36_value (base36_digit d) = d"
  using nth_map [of d BASE36_ALPHABET base36_value]
  by (simp add: base36_digit_def alphabet_values alphabet_length del: upt_rec_numeral)

lemma base36_digits_inj:
  assumes "map base36_digit (digits_base 36 m) = map base36_digit (digits_base 36 n)"
  shows "m = n"
proof -
  have "map base36_value (map base36_digit (digits_base 36 k)) = digits_base 36 k" for k
    using digits_base_less [of 36 _ k] by (auto intro: map_idI)
  with assms have "digits_base 36 m = digits_base 36 n" by metis
  then show ?thesis by (rule digits_base_inj)
qed

definition id_char :: "char \<Rightarrow> bool" where
  "id_char c = (is_digit c \<or> (65 \<le> (of_char c :: nat) \<and> (of_char c :: nat) \<le> 90) \<or>
                c = CHR ''-'' \<or> c = CHR ''_'')"

text \<open>\<open>_PREFIX_RE\<close> is \<open>^[A-Z0-9\-_]+$\<close>; \<open>$\<close> also matches before a final newline.\<close>

definition prefix_re :: "string \<Rightarrow> bool" where
  "prefix_re t =
     (let u = (if t \<noteq> [] \<and> last t = CHR 0x0A then butlast t else t)
      in u \<noteq> [] \<and> list_all id_char u)"

definition validate_prefix :: "string \<Rightarrow> exn + string" where
  "validate_prefix prefix =
     (if prefix_re (upper prefix) then Inr (upper prefix)
      else Inl (ValueError ''Invalid prefix''))"

section \<open>Node ids\<close>

definition MAX_NODE_ID :: int where
  "MAX_NODE_ID = 1023"

definition MAX_SEQUENCE :: int where
  "MAX_SEQUENCE = 4095"

datatype node_value = NodeInt int | NodeText string

definition parse_node_id :: "string option \<Rightarrow> node_value option \<Rightarrow> exn + int" where
  "parse_node_id env v =
     (let v = (case v of None \<Rightarrow> map_option NodeText env | Some x \<Rightarrow> Some x);
          in_range = (\<lambda>n. if 0 \<le> n \<and> n \<le> MAX_NODE_ID then Inr n
                          else Inl (ValueError ''node id out of range''))
      in case v of
           None \<Rightarrow> Inl (ValueError ''APP_NODE_ID is required'')
         | Some (NodeInt n) \<Rightarrow> in_range n
         | Some (NodeText t) \<Rightarrow>
             (let t = strip t in
              if t = [] then Inl (ValueError ''APP_NODE_ID is required'')
              else case parse_nat t of
                     None \<Rightarrow> Inl (ValueError ''APP_NODE_ID must be an integer'')
                   | Some n \<Rightarrow> in_range (int n)))"

lemma parse_node_id_range: "parse_node_id env v = Inr n \<Longrightarrow> 0 \<le> n \<and> n \<le> MAX_NODE_ID"
  by (auto simp: parse_node_id_def Let_def split: option.splits node_value.splits if_splits)

section \<open>The Snowflake generator\<close>

definition CUSTOM_EPOCH_MS :: int where
  "CUSTOM_EPOCH_MS = 1704067200000"

record snowflake =
  sf_node_id :: int
  sf_last_ts_ms :: int
  sf_sequence :: int

definition new_snowflake :: "int \<Rightarrow> snowflake" where
  "new_snowflake node = \<lparr>sf_node_id = node, sf_last_ts_ms = - 1, sf_sequence = 0\<rparr>"

text \<open>\<open>_wait_next_ms\<close>: the first reading after \<open>prev\<close>, with the readings left.\<close>

fun wait_next_ms :: "int \<Rightarrow> int list \<Rightarrow> (int \<times> int list) option" where
  "wait_next_ms prev [] = None"
| "wait_next_ms prev (t # ts) = (if t \<le> prev then wait_next_ms prev ts else Some (t, ts))"

definition compose_id :: "int \<Rightarrow> int \<Rightarrow> int \<Rightarrow> int" where
  "compose_id ts node sequence = push_bit 22 ts OR push_bit 12 node OR sequence"

definition generate_int ::
  "snowflake \<Rightarrow> int list \<Rightarrow> ((exn + int) \<times> snowflake \<times> int list) option" where
  "generate_int g clock =
     (case clock of
        [] \<Rightarrow> None
      | reading # clock \<Rightarrow>
          let ts = reading - CUSTOM_EPOCH_MS in
          if ts < 0 then Some (Inl (ValueError ''current time is earlier than CUSTOM_EPOCH_MS''), g, clock)
          else
            let ts = (if ts < sf_last_ts_ms g then sf_last_ts_ms g else ts) in
            if ts = sf_last_ts_ms g then
              let sq = (sf_sequence g + 1) AND MAX_SEQUENCE in
              if sq = 0 then
                map_option
                  (\<lambda>(absolute_next, rest).
                     let ts = absolute_next - CUSTOM_EPOCH_MS in
                     (Inr (compose_id ts (sf_node_id g) sq),
                      g\<lparr>sf_sequence := sq, sf_last_ts_ms := ts\<rparr>, rest))
                  (wait_next_ms (sf_last_ts_ms g + CUSTOM_EPOCH_MS) clock)
              else Some (Inr (compose_id ts (sf_node_id g) sq),
                         g\<lparr>sf_sequence := sq, sf_last_ts_ms := ts\<rparr>, clock)
            else Some (Inr (compose_id ts (sf_node_id g) 0),
                       g\<lparr>sf_sequence := 0, sf_last_ts_ms := ts\<rparr>, clock))"

definition generate_str ::
  "string \<Rightarrow> snowflake \<Rightarrow> int list \<Rightarrow> ((exn + string) \<times> snowflake \<times> int list) option" where
  "generate_str prefix g clock =
     map_option
       (\<lambda>(r, g', rest).
          (sum_bind r (\<lambda>raw. sum_bind (base36 raw) (\<lambda>encoded.
             if prefix = [] then Inr encoded
             else map_sum id (\<lambda>p. p @ encoded) (validate_prefix prefix))), g', rest))
       (generate_int g clock)"

definition build_prefix :: "string \<Rightarrow> string option \<Rightarrow> string option \<Rightarrow> string" where
  "build_prefix base exchange market =
     (let parts = [base] @ (if truthy exchange then [upper (the exchange)] else [])
                         @ (if truthy market then [upper (the market)] else [])
      in if 1 < length parts then concat (map (\<lambda>p. p @ ''-'') parts) else base)"

definition generate_order_id ::
  "exchange \<Rightarrow> market_type \<Rightarrow> snowflake \<Rightarrow> int list \<Rightarrow> ((exn + string) \<times> snowflake \<times> int list) option"
  where
  "generate_order_id ex mt =
     generate_str (build_prefix ''O'' (Some (exchange_value ex)) (Some (market_type_value mt)))"

definition generate_event_id ::
  "snowflake \<Rightarrow> int list \<Rightarrow> ((exn + string) \<times> snowflake \<times> int list) option" where
  "generate_event_id = generate_str ''E''"

section \<open>Layout and order of the identifiers\<close>

lemma or_low_bits:
  assumes "0 \<le> (b :: int)" and "b < 2 ^ n"
  shows "push_bit n a OR b = a * 2 ^ n + b"
proof -
  have "take_bit n b = b" using assms by (simp add: take_bit_int_eq_self)
  then have low: "bit b k \<Longrightarrow> k < n" for k
    by (metis bit_take_bit_iff)
  have "push_bit n a AND b = 0"
    by (rule bit_eqI) (auto simp: bit_simps dest: low)
  then show ?thesis by (simp add: push_bit_eq_mult flip: disjunctive_add_eq_or)
qed

lemma compose_id_arith:
  assumes "0 \<le> node" "node \<le> MAX_NODE_ID" "0 \<le> sq" "sq \<le> MAX_SEQUENCE"
  shows "compose_id ts node sq = ts * 2 ^ 22 + node * 2 ^ 12 + sq"
proof -
  have "push_bit 12 node OR sq = node * 2 ^ 12 + sq"
    using assms by (intro or_low_bits) (simp_all add: MAX_SEQUENCE_def)
  moreover have "push_bit 22 ts OR (node * 2 ^ 12 + sq) = ts * 2 ^ 22 + (node * 2 ^ 12 + sq)"
    using assms by (intro or_low_bits) (simp_all add: MAX_SEQUENCE_def MAX_NODE_ID_def)
  ultimately show ?thesis by (simp add: compose_id_def or.assoc)
qed

definition snowflake_ok :: "snowflake \<Rightarrow> bool" where
  "snowflake_ok g \<longleftrightarrow>
     0 \<le> sf_node_id g \<and> sf_node_id g \<le> MAX_NODE_ID \<and>
     0 \<le> sf_sequence g \<and> sf_sequence g \<le> MAX_SEQUENCE \<and> - 1 \<le> sf_last_ts_ms g"

definition last_id :: "snowflake \<Rightarrow> int" where
  "last_id g = sf_last_ts_ms g * 2 ^ 22 + sf_node_id g * 2 ^ 12 + sf_sequence g"

lemma new_snowflake_ok:
  "parse_node_id env v = Inr node \<Longrightarrow> snowflake_ok (new_snowflake node)"
  by (drule parse_node_id_range) (simp add: snowflake_ok_def new_snowflake_def MAX_SEQUENCE_def)

lemma wait_next_ms_later: "wait_next_ms prev ts = Some (t, rest) \<Longrightarrow> prev < t"
  by (induction prev ts rule: wait_next_ms.induct) (auto split: if_splits)

lemma wait_next_ms_total: "\<exists>t\<in>set ts. prev < t \<Longrightarrow> \<exists>t rest. wait_next_ms prev ts = Some (t, rest)"
  by (induction prev ts rule: wait_next_ms.induct) auto

lemma next_sequence:
  assumes "0 \<le> sq" and "sq \<le> 4095"
  shows "(sq + 1) AND 4095 = (if sq = 4095 then 0 else sq + (1 :: int))"
proof -
  have "(sq + 1) AND 4095 = (sq + 1) mod 2 ^ 12"
    using take_bit_eq_mask [of 12 "sq + 1"] by (simp add: mask_eq_exp_minus_1 take_bit_eq_mod)
  then show ?thesis using assms by auto
qed

text \<open>
  One call: the generator stays well formed, its node is kept, and the id it returns is the
  generator's new \<open>last_id\<close>, above every id it returned before.
\<close>

lemma generate_int_ok:
  assumes ok: "snowflake_ok g" and run: "generate_int g clock = Some (Inr i, g', rest)"
  shows "snowflake_ok g'" and "i = last_id g'" and "last_id g < i" and "0 \<le> i"
    and "sf_node_id g' = sf_node_id g"
proof -
  have ids: "compose_id ts (sf_node_id g) sq = ts * 2 ^ 22 + sf_node_id g * 2 ^ 12 + sq"
    if "0 \<le> sq" "sq \<le> MAX_SEQUENCE" for ts sq
    using that ok by (intro compose_id_arith) (simp_all add: snowflake_ok_def)
  have "snowflake_ok g' \<and> i = last_id g' \<and> last_id g < i \<and> 0 \<le> i \<and> sf_node_id g' = sf_node_id g"
    using run ok
    by (auto simp: generate_int_def Let_def snowflake_ok_def last_id_def ids next_sequence MAX_SEQUENCE_def
          MAX_NODE_ID_def dest!: wait_next_ms_later split: list.splits if_splits)
  then show "snowflake_ok g'" "i = last_id g'" "last_id g < i" "0 \<le> i"
    "sf_node_id g' = sf_node_id g" by simp_all
qed

text \<open>A run of the generator: the ids of successive calls that return, over one clock.\<close>

fun generate_run :: "nat \<Rightarrow> snowflake \<Rightarrow> int list \<Rightarrow> (int list \<times> snowflake) option" where
  "generate_run 0 g clock = Some ([], g)"
| "generate_run (Suc n) g clock =
     (case generate_int g clock of
        Some (Inr i, g', rest) \<Rightarrow> map_option (\<lambda>(ids, h). (i # ids, h)) (generate_run n g' rest)
      | _ \<Rightarrow> None)"

lemma generate_run_ok:
  assumes "snowflake_ok g" and "generate_run n g clock = Some (ids, h)"
  shows "sorted_wrt (<) (last_id g # ids) \<and> (\<forall>i\<in>set ids. 0 \<le> i) \<and> length ids = n \<and>
    snowflake_ok h \<and> sf_node_id h = sf_node_id g \<and> last_id g \<le> last_id h"
  using assms
proof (induction n arbitrary: g clock ids)
  case 0
  then show ?case by simp
next
  case (Suc n)
  from Suc.prems(2) obtain i g' rest tail where
    step: "generate_int g clock = Some (Inr i, g', rest)" and
    tail: "generate_run n g' rest = Some (tail, h)" and ids: "ids = i # tail"
    by (auto split: option.splits sum.splits)
  note ok = generate_int_ok [OF Suc.prems(1) step]
  from Suc.IH [OF ok(1) tail] ok ids show ?case
    using ok(3) by (auto simp: less_trans)
qed

definition node_of_id :: "int \<Rightarrow> int" where
  "node_of_id i = (i div 2 ^ 12) mod 2 ^ 10"

lemma node_of_last_id:
  assumes "snowflake_ok g"
  shows "node_of_id (last_id g) = sf_node_id g"
proof -
  have "last_id g = (sf_last_ts_ms g * 2 ^ 10 + sf_node_id g) * 2 ^ 12 + sf_sequence g"
    by (simp add: last_id_def)
  moreover have "0 \<le> sf_sequence g" "sf_sequence g < 2 ^ 12"
    using assms by (simp_all add: snowflake_ok_def MAX_SEQUENCE_def)
  ultimately have "last_id g div 2 ^ 12 = sf_last_ts_ms g * 2 ^ 10 + sf_node_id g"
    by (simp only: div_mult_self3 div_pos_pos_trivial)
  then show ?thesis using assms by (simp add: node_of_id_def snowflake_ok_def MAX_NODE_ID_def)
qed

lemma generate_run_nodes:
  assumes "snowflake_ok g" and "generate_run n g clock = Some (ids, h)" and "i \<in> set ids"
  shows "node_of_id i = sf_node_id g"
  using assms
proof (induction n arbitrary: g clock ids)
  case 0
  then show ?case by simp
next
  case (Suc n)
  from Suc.prems(2) obtain j g' rest tail where
    step: "generate_int g clock = Some (Inr j, g', rest)" and
    tail: "generate_run n g' rest = Some (tail, h)" and ids: "ids = j # tail"
    by (auto split: option.splits sum.splits)
  note ok = generate_int_ok [OF Suc.prems(1) step]
  show ?case
    using Suc.prems(3) Suc.IH [OF ok(1) tail] node_of_last_id [OF ok(1)] ok(2,5) ids by auto
qed

text \<open>With a reading past the epoch and a later one, a call returns an id.\<close>

lemma generate_int_returns:
  assumes ok: "snowflake_ok g" and epoch: "CUSTOM_EPOCH_MS \<le> t"
    and late: "\<exists>u\<in>set clock. sf_last_ts_ms g + CUSTOM_EPOCH_MS < u"
  shows "\<exists>i g' rest. generate_int g (t # clock) = Some (Inr i, g', rest)"
proof -
  obtain u rest where "wait_next_ms (sf_last_ts_ms g + CUSTOM_EPOCH_MS) clock = Some (u, rest)"
    using wait_next_ms_total [OF late] by blast
  with epoch show ?thesis by (auto simp: generate_int_def Let_def)
qed

section \<open>Textual ids\<close>

lemma generate_str_plain:
  assumes "snowflake_ok g" and "generate_int g clock = Some (Inr i, g', rest)"
    and "prefix = [] \<or> prefix_re (upper prefix)"
  shows "generate_str prefix g clock =
    Some (Inr (upper prefix @ map base36_digit (digits_base 36 (nat i))), g', rest)"
  using assms generate_int_ok(4) [OF assms(1,2)]
  by (auto simp: generate_str_def base36_digits validate_prefix_def upper_def)

lemma order_prefix: "build_prefix ''O'' (Some (exchange_value ex)) (Some (market_type_value mt))
    = ''O-'' @ exchange_value ex @ ''-'' @ market_type_value mt @ ''-''"
  by (simp add: build_prefix_def exchange.val_upper market_type.val_upper)

definition order_id_text :: "exchange \<Rightarrow> market_type \<Rightarrow> int \<Rightarrow> string" where
  "order_id_text ex mt i =
     build_prefix ''O'' (Some (exchange_value ex)) (Some (market_type_value mt)) @
     map base36_digit (digits_base 36 (nat i))"

lemma order_prefix_valid: "prefix_re (build_prefix ''O'' (Some (exchange_value ex)) (Some (market_type_value mt)))"
  unfolding order_prefix by (cases ex; cases mt) (simp_all add: prefix_re_def id_char_def is_digit_def)

lemma generate_order_id_text:
  assumes "snowflake_ok g" and "generate_int g clock = Some (Inr i, g', rest)"
  shows "generate_order_id ex mt g clock = Some (Inr (order_id_text ex mt i), g', rest)"
proof -
  have up: "upper (build_prefix ''O'' (Some (exchange_value ex)) (Some (market_type_value mt))) =
      build_prefix ''O'' (Some (exchange_value ex)) (Some (market_type_value mt))"
    using exchange.val_upper [of ex] market_type.val_upper [of mt]
    by (simp add: order_prefix) (simp add: upper_def upper_char_def)
  show ?thesis
    using generate_str_plain [OF assms, of "build_prefix ''O'' (Some (exchange_value ex)) (Some (market_type_value mt))"]
    by (simp add: up order_prefix_valid generate_order_id_def order_id_text_def)
qed

text \<open>A base-36 digit is never the separator, so the digits are what follows the last \<open>-\<close>.\<close>

lemma base36_digit_no_dash: "d < 36 \<Longrightarrow> base36_digit d \<noteq> CHR ''-''"
proof
  assume "d < 36" and "base36_digit d = CHR ''-''"
  then have "base36_value (CHR ''-'') = d" using base36_value_digit [of d] by simp
  then have "BASE36_ALPHABET ! (45 - 48) = CHR ''-''"
    using \<open>base36_digit d = CHR ''-''\<close> by (simp add: base36_digit_def base36_value_def Let_def)
  then show False by (simp add: BASE36_ALPHABET_def)
qed

lemma order_id_digits:
  "rev (takeWhile (\<lambda>c. c \<noteq> CHR ''-'') (rev (order_id_text ex mt i))) =
     map base36_digit (digits_base 36 (nat i))"
proof -
  have "\<forall>c\<in>set (rev (map base36_digit (digits_base 36 (nat i)))). c \<noteq> CHR ''-''"
    using digits_base_less [of 36 _ "nat i"] base36_digit_no_dash by auto
  then show ?thesis
    by (simp add: order_id_text_def order_prefix takeWhile_append)
qed

lemma order_id_text_inj:
  assumes "order_id_text ex mt i = order_id_text ex' mt' j" and "0 \<le> i" and "0 \<le> j"
  shows "i = j"
  using assms order_id_digits [of ex mt i] order_id_digits [of ex' mt' j]
  by (metis base36_digits_inj eq_nat_nat_iff)

lemma order_id_text_nonempty [simp]: "order_id_text ex mt i \<noteq> []"
  by (simp add: order_id_text_def)

section \<open>Properties\<close>

text \<open>C13: Ids that one configured generator returns are strictly increasing,
  whatever the clock does between the calls (rollbacks and exhausted sequences included), and are
  non-negative.\<close>

theorem snowflake_increasing:
  assumes "parse_node_id env v = Inr node"
    and "generate_run n (new_snowflake node) clock = Some (ids, g)"
  shows "sorted_wrt (<) ids \<and> length ids = n \<and> list_all (\<lambda>i. 0 \<le> i \<and> node_of_id i = node) ids"
  using generate_run_ok [OF new_snowflake_ok [OF assms(1)] assms(2)]
    generate_run_nodes [OF new_snowflake_ok [OF assms(1)] assms(2)]
  by (auto simp: list_all_iff new_snowflake_def)

theorem snowflake_increasing_witness:
  "sorted_wrt (<) [4194304 * 5 + 4096 * 7, 4194304 * 5 + 4096 * 7 + 1 :: int]"
proof -
  have node: "parse_node_id None (Some (NodeInt 7)) = Inr 7"
    by (simp add: parse_node_id_def MAX_NODE_ID_def)
  have run: "generate_run 2 (new_snowflake 7) [1704067200005, 1704067200002] =
    Some ([20971520 + 28672, 20971520 + 28673],
      \<lparr>sf_node_id = 7, sf_last_ts_ms = 5, sf_sequence = 1\<rparr>)"
    by code_simp
  show ?thesis using snowflake_increasing [OF node run] by simp
qed

text \<open>Generators with different node ids never return the same id.\<close>

lemma snowflake_nodes_disjoint:
  assumes "parse_node_id env v = Inr node" and "parse_node_id env' v' = Inr node'"
    and "node \<noteq> node'"
    and "generate_run n (new_snowflake node) clock = Some (ids, g)"
    and "generate_run m (new_snowflake node') clock' = Some (ids', g')"
  shows "set ids \<inter> set ids' = {}"
  using generate_run_nodes [OF new_snowflake_ok [OF assms(1)] assms(4)]
    generate_run_nodes [OF new_snowflake_ok [OF assms(2)] assms(5)] assms(3)
  by (auto simp: new_snowflake_def)

text \<open>Two order ids made from the ids of a run are different texts, whatever
  their exchanges and markets.\<close>

lemma order_id_unique:
  assumes "snowflake_ok g" and "generate_order_id ex mt g clock = Some (Inr t, g', rest)"
    and "generate_run n g' rest = Some (ids, h)"
    and "generate_order_id ex' mt' h clock' = Some (Inr t', h', rest')"
  shows "t \<noteq> t'"
proof -
  have raw: "\<exists>i. generate_int k c = Some (Inr i, k', r)"
    if "generate_order_id e m k c = Some (Inr u, k', r)" for e m k c u k' r
  proof -
    from that obtain q where q: "generate_int k c = Some (q, k', r)"
      and u: "\<exists>f. sum_bind q f = Inr u"
      by (auto simp: generate_order_id_def generate_str_def)
    then show ?thesis by (cases q) auto
  qed
  obtain i j where i: "generate_int g clock = Some (Inr i, g', rest)"
    and j: "generate_int h clock' = Some (Inr j, h', rest')"
    using raw assms(2,4) by metis
  note gi = generate_int_ok [OF assms(1) i]
  have h: "snowflake_ok h" using generate_run_ok [OF gi(1) assms(3)] by simp
  note hj = generate_int_ok [OF h j]
  have "last_id g' \<le> last_id h"
    using generate_run_ok [OF gi(1) assms(3)] by simp
  with gi(2) hj(3) have "i \<noteq> j" by simp
  then show ?thesis
    using assms(2,4) generate_order_id_text [OF assms(1) i, of ex mt]
      generate_order_id_text [OF h j, of ex' mt'] order_id_text_inj [of ex mt i ex' mt' j] gi(4) hj(4)
    by auto
qed

end
