(* ===== verification/RedisSchema.thy ===== *)
theory RedisSchema
  imports OrderModel
begin

text \<open>
  The schema of the Redis projection: \<open>redis/domain/base_projection_schema.py\<close> and
  \<open>order_projection_schema.py\<close> (which fields a live hash has and how they are written) and
  the decoding of \<open>redis/order_state_repo.py\<close>.  A live hash maps field names to values, a
  value being a text or, for \<open>raw_exchange_response\<close>, the JSON document whose dump is stored.
  \<open>deserialize_order_hash\<close> is the round trip.
\<close>

section \<open>Live hashes\<close>

datatype hval = HText string | HJson json_obj

type_synonym live_hash = "string \<Rightarrow> hval option"

section \<open>The projection schema\<close>

text \<open>A \<open>RedisProjectionField\<close>: its name, whether it is required, whether it is stored as the
  empty text when it has no value, and the normalised value it takes from an order.\<close>

record 'm projection_field =
  pf_name :: string
  pf_required :: bool
  pf_always :: bool
  pf_value :: "'m \<Rightarrow> hval option"

definition payload :: "string \<Rightarrow> ('m \<Rightarrow> string option) \<Rightarrow> 'm projection_field" where
  "payload n f = \<lparr>pf_name = n, pf_required = False, pf_always = False,
                  pf_value = (\<lambda>m. map_option HText (f m))\<rparr>"

definition required :: "string \<Rightarrow> ('m \<Rightarrow> string option) \<Rightarrow> 'm projection_field" where
  "required n f = (payload n f)\<lparr>pf_required := True\<rparr>"

definition bool_text :: "bool \<Rightarrow> string" where
  "bool_text b = (if b then ''true'' else ''false'')"

definition ORDER_FIELDS :: "order projection_field list" where
  "ORDER_FIELDS =
    [required ''order_id'' (\<lambda>ord. Some (o_order_id ord)),
     required ''version'' (\<lambda>ord. Some (show_int (o_version ord))),
     required ''status'' (\<lambda>ord. Some (order_status_value (o_status ord))),
     required ''updated_ts'' (\<lambda>ord. Some (show_int (o_updated_ts ord))),
     required ''exchange'' (\<lambda>ord. Some (upper (exchange_value (o_exchange ord)))),
     required ''market_type'' (\<lambda>ord. Some (upper (market_type_value (o_market_type ord)))),
     required ''symbol'' (\<lambda>ord. Some (upper (o_symbol ord))),
     required ''order_route'' (\<lambda>ord. map_option order_route_value (o_order_route ord)),
     (payload ''conditional_status''
        (\<lambda>ord. map_option conditional_status_value (o_conditional_status ord)))\<lparr>pf_always := True\<rparr>,
     payload ''source'' (\<lambda>ord. Some (order_source_value (o_source ord))),
     payload ''signal_id'' o_signal_id,
     payload ''strategy_name'' o_strategy_name,
     payload ''side'' (\<lambda>ord. Some (order_side_value (o_side ord))),
     payload ''order_type'' (\<lambda>ord. Some (order_type_value (o_order_type ord))),
     payload ''time_in_force'' (\<lambda>ord. map_option time_in_force_value (o_time_in_force ord)),
     payload ''quantity'' (\<lambda>ord. Some (o_quantity ord)),
     payload ''price'' o_price,
     payload ''trigger_price'' o_trigger_price,
     payload ''reduce_only'' (\<lambda>ord. Some (bool_text (o_reduce_only ord))),
     payload ''close_position'' (\<lambda>ord. Some (bool_text (o_close_position ord))),
     payload ''position_side'' (\<lambda>ord. Some (position_side_value (o_position_side ord))),
     payload ''position_action'' (\<lambda>ord. Some (position_action_value (o_position_action ord))),
     payload ''client_order_id'' o_client_order_id,
     payload ''exchange_order_id'' o_exchange_order_id,
     payload ''client_conditional_id'' o_client_conditional_id,
     payload ''exchange_conditional_id'' o_exchange_conditional_id,
     payload ''exchange_conditional_status'' o_exchange_conditional_status,
     payload ''triggered_order_id'' o_triggered_order_id,
     payload ''triggered_client_order_id'' o_triggered_client_order_id,
     payload ''reject_reason'' (\<lambda>ord. map_option reject_reason_value (o_reject_reason ord)),
     payload ''exchange_error_code'' (\<lambda>ord. map_option show_int (o_exchange_error_code ord)),
     payload ''detail_msg'' o_detail_msg,
     payload ''filled_quantity'' (\<lambda>ord. Some (o_filled_quantity ord)),
     payload ''avg_fill_price'' (\<lambda>ord. Some (o_avg_fill_price ord)),
     payload ''created_ts'' (\<lambda>ord. Some (show_int (o_created_ts ord))),
     payload ''submitted_ts'' (\<lambda>ord. map_option show_int (o_submitted_ts ord)),
     payload ''acknowledged_ts'' (\<lambda>ord. map_option show_int (o_acknowledged_ts ord)),
     payload ''triggered_ts'' (\<lambda>ord. map_option show_int (o_triggered_ts ord)),
     payload ''filled_ts'' (\<lambda>ord. map_option show_int (o_filled_ts ord)),
     payload ''cancelled_ts'' (\<lambda>ord. map_option show_int (o_cancelled_ts ord)),
     payload ''expired_ts'' (\<lambda>ord. map_option show_int (o_expired_ts ord)),
     \<lparr>pf_name = ''raw_exchange_response'', pf_required = False, pf_always = False,
      pf_value = (\<lambda>ord. map_option HJson (o_raw_exchange_response ord))\<rparr>]"

text \<open>\<open>_from_source\<close>: one entry per field with a value, in schema order; then the required
  fields must be present and non-empty.\<close>

primrec collect_fields :: "'m \<Rightarrow> 'm projection_field list \<Rightarrow> exn + (string \<times> hval) list" where
  "collect_fields ord [] = Inr []"
| "collect_fields ord (f # fs) =
     (case pf_value f ord of
        Some v \<Rightarrow> map_sum id ((#) (pf_name f, v)) (collect_fields ord fs)
      | None \<Rightarrow>
          if pf_required f then Inl (ValueError ''required field is None'')
          else if pf_always f then map_sum id ((#) (pf_name f, HText [])) (collect_fields ord fs)
          else collect_fields ord fs)"

definition missing_required :: "'m projection_field list \<Rightarrow> (string \<times> hval) list \<Rightarrow> string list" where
  "missing_required fs entries =
     filter (\<lambda>n. map_of entries n = None \<or> map_of entries n = Some (HText []))
       (map pf_name (filter pf_required fs))"

definition from_source :: "'m projection_field list \<Rightarrow> 'm \<Rightarrow> exn + (string \<times> hval) list" where
  "from_source fs m =
     sum_bind (collect_fields m fs) (\<lambda>entries.
       if missing_required fs entries = [] then Inr entries
       else Inl (ValueError ''required fields missing''))"

definition from_order :: "order \<Rightarrow> exn + (string \<times> hval) list" where
  "from_order ord = from_source ORDER_FIELDS ord"

section \<open>Reading a live hash\<close>

text \<open>
  \<open>_deserialize_hash\<close> followed by \<open>Order.model_validate\<close>: an absent field takes the model's
  default, an empty one is \<open>None\<close>, which only an optional field accepts.
\<close>

definition bad_field :: "exn + 'a" where
  "bad_field = Inl (ValidationError ''field'')"

definition field_text :: "live_hash \<Rightarrow> string \<Rightarrow> exn + string option" where
  "field_text h k =
     (case h k of
        None \<Rightarrow> Inr None
      | Some (HText t) \<Rightarrow> Inr (if t = [] then None else Some t)
      | Some (HJson _) \<Rightarrow> bad_field)"

definition opt_field :: "(string \<Rightarrow> 'a option) \<Rightarrow> live_hash \<Rightarrow> string \<Rightarrow> exn + 'a option" where
  "opt_field parse h k =
     sum_bind (field_text h k) (\<lambda>v. case v of
       None \<Rightarrow> Inr None
     | Some t \<Rightarrow> (case parse t of None \<Rightarrow> bad_field | Some x \<Rightarrow> Inr (Some x)))"

definition req_field :: "(string \<Rightarrow> 'a option) \<Rightarrow> live_hash \<Rightarrow> string \<Rightarrow> exn + 'a" where
  "req_field parse h k =
     sum_bind (opt_field parse h k) (\<lambda>v. case v of None \<Rightarrow> bad_field | Some x \<Rightarrow> Inr x)"

definition def_field :: "'a \<Rightarrow> (string \<Rightarrow> 'a option) \<Rightarrow> live_hash \<Rightarrow> string \<Rightarrow> exn + 'a" where
  "def_field d parse h k = (if h k = None then Inr d else req_field parse h k)"

definition parse_bool :: "string \<Rightarrow> bool option" where
  "parse_bool t = Some (upper t \<in> {''1'', ''TRUE'', ''YES'', ''Y''})"

definition json_field :: "live_hash \<Rightarrow> string \<Rightarrow> exn + json_obj option" where
  "json_field h k =
     (case h k of
        None \<Rightarrow> Inr None
      | Some (HJson j) \<Rightarrow> Inr (Some j)
      | Some (HText t) \<Rightarrow> if t = [] then Inr None else bad_field)"

definition deserialize_identity :: "live_hash \<Rightarrow> order \<Rightarrow> exn + order" where
  "deserialize_identity h ord =
     sum_bind (opt_field Some h ''order_id'') (\<lambda>i.
     sum_bind (req_field (enum_parse exchange_value exchange_members) h ''exchange'') (\<lambda>ex.
     sum_bind (req_field (enum_parse market_type_value market_type_members) h ''market_type'') (\<lambda>mt.
     sum_bind (req_field Some h ''symbol'') (\<lambda>sym.
     sum_bind (req_field (enum_parse order_side_value order_side_members) h ''side'') (\<lambda>sd.
     sum_bind (req_field (enum_parse order_type_value order_type_members) h ''order_type'') (\<lambda>ty.
     sum_bind (opt_field (enum_parse order_route_value order_route_members) h ''order_route'') (\<lambda>rt.
     sum_bind (opt_field (enum_parse time_in_force_value time_in_force_members) h ''time_in_force'') (\<lambda>tif.
     sum_bind (req_field (enum_parse order_source_value order_source_members) h ''source'') (\<lambda>src.
     sum_bind (opt_field Some h ''signal_id'') (\<lambda>sig.
     sum_bind (opt_field Some h ''strategy_name'') (\<lambda>strat.
     Inr (ord\<lparr>o_order_id := (case i of None \<Rightarrow> [] | Some t \<Rightarrow> t), o_exchange := ex, o_market_type := mt,
              o_symbol := sym, o_side := sd, o_order_type := ty, o_order_route := rt,
              o_time_in_force := tif, o_source := src, o_signal_id := sig,
              o_strategy_name := strat\<rparr>))))))))))))"

definition deserialize_terms :: "live_hash \<Rightarrow> order \<Rightarrow> exn + order" where
  "deserialize_terms h ord =
     sum_bind (def_field OS_PENDING_NEW (enum_parse order_status_value order_status_members) h ''status'') (\<lambda>st.
     sum_bind (def_field BOTH (enum_parse position_side_value position_side_members) h ''position_side'') (\<lambda>ps.
     sum_bind (def_field PA_UNKNOWN (enum_parse position_action_value position_action_members) h ''position_action'') (\<lambda>pa.
     sum_bind (req_field Some h ''quantity'') (\<lambda>q.
     sum_bind (opt_field Some h ''price'') (\<lambda>p.
     sum_bind (opt_field Some h ''trigger_price'') (\<lambda>tp.
     sum_bind (def_field False parse_bool h ''reduce_only'') (\<lambda>ro.
     sum_bind (def_field False parse_bool h ''close_position'') (\<lambda>cp.
     sum_bind (def_field ORDER_VERSION_INITIAL parse_int h ''version'') (\<lambda>v.
     Inr (ord\<lparr>o_status := st, o_position_side := ps, o_position_action := pa, o_quantity := q,
              o_price := p, o_trigger_price := tp, o_reduce_only := ro, o_close_position := cp,
              o_version := v\<rparr>))))))))))"

definition deserialize_exchange :: "live_hash \<Rightarrow> order \<Rightarrow> exn + order" where
  "deserialize_exchange h ord =
     sum_bind (opt_field Some h ''client_order_id'') (\<lambda>ci.
     sum_bind (opt_field Some h ''exchange_order_id'') (\<lambda>ei.
     sum_bind (opt_field Some h ''client_conditional_id'') (\<lambda>cc.
     sum_bind (opt_field Some h ''exchange_conditional_id'') (\<lambda>ec.
     sum_bind (opt_field (enum_parse conditional_status_value conditional_status_members) h ''conditional_status'') (\<lambda>cs.
     sum_bind (opt_field Some h ''exchange_conditional_status'') (\<lambda>es.
     sum_bind (opt_field Some h ''triggered_order_id'') (\<lambda>ti.
     sum_bind (opt_field Some h ''triggered_client_order_id'') (\<lambda>tc.
     sum_bind (opt_field (enum_parse reject_reason_value reject_reason_members) h ''reject_reason'') (\<lambda>rr.
     sum_bind (opt_field parse_int h ''exchange_error_code'') (\<lambda>code.
     sum_bind (opt_field Some h ''detail_msg'') (\<lambda>dm.
     Inr (ord\<lparr>o_client_order_id := ci, o_exchange_order_id := ei, o_client_conditional_id := cc,
              o_exchange_conditional_id := ec, o_conditional_status := cs,
              o_exchange_conditional_status := es, o_triggered_order_id := ti,
              o_triggered_client_order_id := tc, o_reject_reason := rr,
              o_exchange_error_code := code, o_detail_msg := dm\<rparr>))))))))))))"

definition deserialize_history :: "live_hash \<Rightarrow> order \<Rightarrow> exn + order" where
  "deserialize_history h ord =
     sum_bind (def_field ''0'' Some h ''filled_quantity'') (\<lambda>fq.
     sum_bind (def_field ''0'' Some h ''avg_fill_price'') (\<lambda>ap.
     sum_bind (req_field parse_int h ''created_ts'') (\<lambda>ct.
     sum_bind (req_field parse_int h ''updated_ts'') (\<lambda>ut.
     sum_bind (opt_field parse_int h ''submitted_ts'') (\<lambda>st.
     sum_bind (opt_field parse_int h ''acknowledged_ts'') (\<lambda>akt.
     sum_bind (opt_field parse_int h ''triggered_ts'') (\<lambda>tt.
     sum_bind (opt_field parse_int h ''filled_ts'') (\<lambda>ft.
     sum_bind (opt_field parse_int h ''cancelled_ts'') (\<lambda>cat.
     sum_bind (opt_field parse_int h ''expired_ts'') (\<lambda>et.
     sum_bind (json_field h ''raw_exchange_response'') (\<lambda>raw.
     Inr (ord\<lparr>o_filled_quantity := fq, o_avg_fill_price := ap, o_created_ts := ct, o_updated_ts := ut,
              o_submitted_ts := st, o_acknowledged_ts := akt, o_triggered_ts := tt, o_filled_ts := ft,
              o_cancelled_ts := cat, o_expired_ts := et, o_raw_exchange_response := raw\<rparr>))))))))))))"

definition deserialize_order :: "live_hash \<Rightarrow> exn + order" where
  "deserialize_order h =
     sum_bind (deserialize_identity h blank_order) (\<lambda>ord.
     sum_bind (deserialize_terms h ord) (\<lambda>ord.
     sum_bind (deserialize_exchange h ord) (\<lambda>ord. deserialize_history h ord)))"

section \<open>What a hash holds after a write\<close>

primrec stored_field :: "'m \<Rightarrow> 'm projection_field list \<Rightarrow> string \<Rightarrow> hval option" where
  "stored_field ord [] k = None"
| "stored_field ord (f # fs) k =
     (if pf_name f = k
      then (case pf_value f ord of
              Some v \<Rightarrow> Some v
            | None \<Rightarrow> if pf_always f then Some (HText []) else stored_field ord fs k)
      else stored_field ord fs k)"

definition order_hash :: "order \<Rightarrow> live_hash" where
  "order_hash ord = stored_field ord ORDER_FIELDS"

lemma collect_fields_map:
  "collect_fields ord fs = Inr es \<Longrightarrow> map_of es = stored_field ord fs"
proof (induction fs arbitrary: es)
  case Nil
  then show ?case by (auto simp: fun_eq_iff)
next
  case (Cons f fs)
  then obtain es' where es': "collect_fields ord fs = Inr es'"
    by (cases "collect_fields ord fs") (auto split: option.splits if_splits)
  from Cons.IH [OF es'] Cons.prems es' show ?case
    by (auto simp: fun_eq_iff split: option.splits if_splits)
qed

lemma from_source_stored: "from_source fs m = Inr es \<Longrightarrow> map_of es = stored_field m fs"
  by (auto simp: from_source_def sum_bind_Inr_iff dest: collect_fields_map split: if_splits)

lemma from_order_hash: "from_order ord = Inr es \<Longrightarrow> map_of es = order_hash ord"
  unfolding from_order_def order_hash_def by (rule from_source_stored)


lemma order_hash_at [simp]:
  "order_hash ord ''order_id'' = Some (HText (o_order_id ord))"
  "order_hash ord ''version'' = Some (HText (show_int (o_version ord)))"
  "order_hash ord ''status'' = Some (HText (order_status_value (o_status ord)))"
  "order_hash ord ''updated_ts'' = Some (HText (show_int (o_updated_ts ord)))"
  "order_hash ord ''exchange'' = Some (HText (upper (exchange_value (o_exchange ord))))"
  "order_hash ord ''market_type'' = Some (HText (upper (market_type_value (o_market_type ord))))"
  "order_hash ord ''symbol'' = Some (HText (upper (o_symbol ord)))"
  "order_hash ord ''order_route'' = map_option HText (map_option order_route_value (o_order_route ord))"
  "order_hash ord ''conditional_status'' = Some (HText (case o_conditional_status ord of None \<Rightarrow> [] | Some c \<Rightarrow> conditional_status_value c))"
  "order_hash ord ''source'' = Some (HText (order_source_value (o_source ord)))"
  "order_hash ord ''signal_id'' = map_option HText (o_signal_id ord)"
  "order_hash ord ''strategy_name'' = map_option HText (o_strategy_name ord)"
  "order_hash ord ''side'' = Some (HText (order_side_value (o_side ord)))"
  "order_hash ord ''order_type'' = Some (HText (order_type_value (o_order_type ord)))"
  "order_hash ord ''time_in_force'' = map_option HText (map_option time_in_force_value (o_time_in_force ord))"
  "order_hash ord ''quantity'' = Some (HText (o_quantity ord))"
  "order_hash ord ''price'' = map_option HText (o_price ord)"
  "order_hash ord ''trigger_price'' = map_option HText (o_trigger_price ord)"
  "order_hash ord ''reduce_only'' = Some (HText (bool_text (o_reduce_only ord)))"
  "order_hash ord ''close_position'' = Some (HText (bool_text (o_close_position ord)))"
  "order_hash ord ''position_side'' = Some (HText (position_side_value (o_position_side ord)))"
  "order_hash ord ''position_action'' = Some (HText (position_action_value (o_position_action ord)))"
  "order_hash ord ''client_order_id'' = map_option HText (o_client_order_id ord)"
  "order_hash ord ''exchange_order_id'' = map_option HText (o_exchange_order_id ord)"
  "order_hash ord ''client_conditional_id'' = map_option HText (o_client_conditional_id ord)"
  "order_hash ord ''exchange_conditional_id'' = map_option HText (o_exchange_conditional_id ord)"
  "order_hash ord ''exchange_conditional_status'' = map_option HText (o_exchange_conditional_status ord)"
  "order_hash ord ''triggered_order_id'' = map_option HText (o_triggered_order_id ord)"
  "order_hash ord ''triggered_client_order_id'' = map_option HText (o_triggered_client_order_id ord)"
  "order_hash ord ''reject_reason'' = map_option HText (map_option reject_reason_value (o_reject_reason ord))"
  "order_hash ord ''exchange_error_code'' = map_option HText (map_option show_int (o_exchange_error_code ord))"
  "order_hash ord ''detail_msg'' = map_option HText (o_detail_msg ord)"
  "order_hash ord ''filled_quantity'' = Some (HText (o_filled_quantity ord))"
  "order_hash ord ''avg_fill_price'' = Some (HText (o_avg_fill_price ord))"
  "order_hash ord ''created_ts'' = Some (HText (show_int (o_created_ts ord)))"
  "order_hash ord ''submitted_ts'' = map_option HText (map_option show_int (o_submitted_ts ord))"
  "order_hash ord ''acknowledged_ts'' = map_option HText (map_option show_int (o_acknowledged_ts ord))"
  "order_hash ord ''triggered_ts'' = map_option HText (map_option show_int (o_triggered_ts ord))"
  "order_hash ord ''filled_ts'' = map_option HText (map_option show_int (o_filled_ts ord))"
  "order_hash ord ''cancelled_ts'' = map_option HText (map_option show_int (o_cancelled_ts ord))"
  "order_hash ord ''expired_ts'' = map_option HText (map_option show_int (o_expired_ts ord))"
  "order_hash ord ''raw_exchange_response'' = map_option HJson (o_raw_exchange_response ord)"
  by (simp_all add: order_hash_def ORDER_FIELDS_def required_def payload_def split: option.split)

section \<open>Round trip\<close>

definition no_empty :: "string option \<Rightarrow> bool" where
  "no_empty v = (v \<noteq> Some [])"

text \<open>The orders a hash can hold without loss: no optional text is empty, the mandatory ones are
  not, and the symbol is in upper case.  Validated orders with non-empty ids are such orders.\<close>

definition storable :: "order \<Rightarrow> bool" where
  "storable ord \<longleftrightarrow>
     o_order_id ord \<noteq> [] \<and> o_symbol ord \<noteq> [] \<and> upper (o_symbol ord) = o_symbol ord \<and>
     o_quantity ord \<noteq> [] \<and> o_filled_quantity ord \<noteq> [] \<and> o_avg_fill_price ord \<noteq> [] \<and>
     o_order_route ord \<noteq> None \<and>
     list_all no_empty
       [o_price ord, o_trigger_price ord, o_client_order_id ord, o_exchange_order_id ord,
        o_client_conditional_id ord, o_exchange_conditional_id ord,
        o_exchange_conditional_status ord, o_triggered_order_id ord,
        o_triggered_client_order_id ord, o_detail_msg ord, o_signal_id ord, o_strategy_name ord]"

lemmas field_read_defs = req_field_def def_field_def opt_field_def field_text_def

lemma bool_text_words: "parse_bool ''true'' = Some True" "parse_bool ''false'' = Some False"
  by code_simp+

lemma bool_text_parse: "parse_bool (bool_text b) = Some b" "bool_text b \<noteq> []"
  by (simp_all add: bool_text_def bool_text_words)

lemma text_reads:
  assumes ok: "storable ord"
  shows
  "opt_field Some (order_hash ord) ''order_id'' = Inr (Some (o_order_id ord))"
  "req_field Some (order_hash ord) ''symbol'' = Inr (o_symbol ord)"
  "opt_field Some (order_hash ord) ''signal_id'' = Inr (o_signal_id ord)"
  "opt_field Some (order_hash ord) ''strategy_name'' = Inr (o_strategy_name ord)"
  "req_field Some (order_hash ord) ''quantity'' = Inr (o_quantity ord)"
  "opt_field Some (order_hash ord) ''price'' = Inr (o_price ord)"
  "opt_field Some (order_hash ord) ''trigger_price'' = Inr (o_trigger_price ord)"
  "opt_field Some (order_hash ord) ''client_order_id'' = Inr (o_client_order_id ord)"
  "opt_field Some (order_hash ord) ''exchange_order_id'' = Inr (o_exchange_order_id ord)"
  "opt_field Some (order_hash ord) ''client_conditional_id'' = Inr (o_client_conditional_id ord)"
  "opt_field Some (order_hash ord) ''exchange_conditional_id'' = Inr (o_exchange_conditional_id ord)"
  "opt_field Some (order_hash ord) ''exchange_conditional_status'' = Inr (o_exchange_conditional_status ord)"
  "opt_field Some (order_hash ord) ''triggered_order_id'' = Inr (o_triggered_order_id ord)"
  "opt_field Some (order_hash ord) ''triggered_client_order_id'' = Inr (o_triggered_client_order_id ord)"
  "opt_field Some (order_hash ord) ''detail_msg'' = Inr (o_detail_msg ord)"
  "def_field ''0'' Some (order_hash ord) ''filled_quantity'' = Inr (o_filled_quantity ord)"
  "def_field ''0'' Some (order_hash ord) ''avg_fill_price'' = Inr (o_avg_fill_price ord)"
  using ok
  by (auto simp: storable_def no_empty_def field_read_defs split: option.split)

lemma enum_reads [simp]:
  "req_field (enum_parse exchange_value exchange_members) (order_hash ord) ''exchange'' = Inr (o_exchange ord)"
  "req_field (enum_parse market_type_value market_type_members) (order_hash ord) ''market_type'' = Inr (o_market_type ord)"
  "req_field (enum_parse order_side_value order_side_members) (order_hash ord) ''side'' = Inr (o_side ord)"
  "req_field (enum_parse order_type_value order_type_members) (order_hash ord) ''order_type'' = Inr (o_order_type ord)"
  "opt_field (enum_parse order_route_value order_route_members) (order_hash ord) ''order_route'' = Inr (o_order_route ord)"
  "opt_field (enum_parse time_in_force_value time_in_force_members) (order_hash ord) ''time_in_force'' = Inr (o_time_in_force ord)"
  "req_field (enum_parse order_source_value order_source_members) (order_hash ord) ''source'' = Inr (o_source ord)"
  "def_field st (enum_parse order_status_value order_status_members) (order_hash ord) ''status'' = Inr (o_status ord)"
  "def_field ps (enum_parse position_side_value position_side_members) (order_hash ord) ''position_side'' = Inr (o_position_side ord)"
  "def_field pa (enum_parse position_action_value position_action_members) (order_hash ord) ''position_action'' = Inr (o_position_action ord)"
  "def_field b parse_bool (order_hash ord) ''reduce_only'' = Inr (o_reduce_only ord)"
  "def_field b parse_bool (order_hash ord) ''close_position'' = Inr (o_close_position ord)"
  "opt_field (enum_parse conditional_status_value conditional_status_members) (order_hash ord) ''conditional_status'' = Inr (o_conditional_status ord)"
  "opt_field (enum_parse reject_reason_value reject_reason_members) (order_hash ord) ''reject_reason'' = Inr (o_reject_reason ord)"
  by (simp_all add: field_read_defs exchange.val_upper market_type.val_upper bool_text_parse split: option.split)

lemma int_reads [simp]:
  "def_field v parse_int (order_hash ord) ''version'' = Inr (o_version ord)"
  "opt_field parse_int (order_hash ord) ''exchange_error_code'' = Inr (o_exchange_error_code ord)"
  "req_field parse_int (order_hash ord) ''created_ts'' = Inr (o_created_ts ord)"
  "req_field parse_int (order_hash ord) ''updated_ts'' = Inr (o_updated_ts ord)"
  "opt_field parse_int (order_hash ord) ''submitted_ts'' = Inr (o_submitted_ts ord)"
  "opt_field parse_int (order_hash ord) ''acknowledged_ts'' = Inr (o_acknowledged_ts ord)"
  "opt_field parse_int (order_hash ord) ''triggered_ts'' = Inr (o_triggered_ts ord)"
  "opt_field parse_int (order_hash ord) ''filled_ts'' = Inr (o_filled_ts ord)"
  "opt_field parse_int (order_hash ord) ''cancelled_ts'' = Inr (o_cancelled_ts ord)"
  "opt_field parse_int (order_hash ord) ''expired_ts'' = Inr (o_expired_ts ord)"
  "json_field (order_hash ord) ''raw_exchange_response'' = Inr (o_raw_exchange_response ord)"
  by (simp_all add: field_read_defs json_field_def split: option.split)

lemma deserialize_order_hash: "storable ord \<Longrightarrow> deserialize_order (order_hash ord) = Inr ord"
  by (simp add: deserialize_order_def deserialize_identity_def deserialize_terms_def
        deserialize_exchange_def deserialize_history_def text_reads)


end
