(* ===== verification/RedisProjection.thy ===== *)
theory RedisProjection
  imports RedisSchema "HOL-Library.Char_ord" "HOL-Library.List_Lexorder"
begin

text \<open>
  The store operations of \<open>redis/order_state_repo.py\<close>: the Lua script behind
  \<open>upsert_projection_if_newer\<close>, the reads by id and by score, \<open>delete\<close>,
  \<open>clear_projection\<close> and the reconcile failure counters.  Live hashes are keyed by the order
  id, indexes by exchange and market text (and symbol).
\<close>

type_synonym market_key = "string \<times> string"

section \<open>The store\<close>

record redis =
  rd_live :: "string \<Rightarrow> live_hash option"
  rd_ttl :: "string \<Rightarrow> int option"
  rd_open :: "market_key \<Rightarrow> string set"
  rd_cond_open :: "market_key \<Rightarrow> string set"
  rd_unknown :: "market_key \<Rightarrow> (string \<times> int) list"
  rd_recovery :: "market_key \<Rightarrow> (string \<times> int) list"
  rd_symbol :: "string \<times> string \<times> string \<Rightarrow> string set"
  rd_failures :: "string \<times> string \<times> string \<Rightarrow> int option"

definition empty_redis :: redis where
  "empty_redis = \<lparr>rd_live = (\<lambda>_. None), rd_ttl = (\<lambda>_. None), rd_open = (\<lambda>_. {}),
     rd_cond_open = (\<lambda>_. {}), rd_unknown = (\<lambda>_. []), rd_recovery = (\<lambda>_. []),
     rd_symbol = (\<lambda>_. {}), rd_failures = (\<lambda>_. None)\<rparr>"

section \<open>The Lua upsert\<close>

text \<open>\<open>tonumber(HGET order_key 'version') or -1\<close>.\<close>

definition current_version :: "live_hash option \<Rightarrow> int" where
  "current_version h =
     (case h of
        None \<Rightarrow> - 1
      | Some f \<Rightarrow> (case f ''version'' of
                     Some (HText t) \<Rightarrow> (case parse_int t of None \<Rightarrow> - 1 | Some v \<Rightarrow> v)
                   | _ \<Rightarrow> - 1))"

definition hset :: "(string \<times> hval) list \<Rightarrow> live_hash option \<Rightarrow> live_hash" where
  "hset entries h = (case h of None \<Rightarrow> map_of entries | Some f \<Rightarrow> f ++ map_of entries)"

definition conditional_trackable :: "order \<Rightarrow> bool" where
  "conditional_trackable ord =
     (o_order_route ord = Some CONDITIONAL \<and> o_status ord \<notin> TERMINAL_STATUSES \<and>
      o_conditional_status ord \<in> CONDITIONAL_TRACKABLE_STATUSES)"

definition needs_recovery :: "order \<Rightarrow> bool" where
  "needs_recovery ord = (o_status ord \<in> RECOVERY_STATUSES \<or> conditional_trackable ord)"

definition is_unknown :: "order \<Rightarrow> bool" where
  "is_unknown ord = (o_status ord = OS_UNKNOWN \<or> o_conditional_status ord = Some CS_UNKNOWN)"

definition TERMINAL_TTL_SEC :: int where
  "TERMINAL_TTL_SEC = 86400"

definition set_member :: "bool \<Rightarrow> string \<Rightarrow> string set \<Rightarrow> string set" where
  "set_member b x A = (if b then insert x (A - {x}) else A - {x})"

text \<open>A sorted set is the list of its members with their scores.\<close>

definition set_score :: "bool \<Rightarrow> string \<Rightarrow> int \<Rightarrow> (string \<times> int) list \<Rightarrow> (string \<times> int) list" where
  "set_score b x n Z =
     (let Z' = filter (\<lambda>(y, _). y \<noteq> x) Z in if b then (x, n) # Z' else Z')"

text \<open>\<open>ZRANGEBYSCORE key -inf max LIMIT 0 n\<close>: by score, equal scores by member.\<close>

definition zrangebyscore :: "int option \<Rightarrow> nat \<Rightarrow> (string \<times> int) list \<Rightarrow> string list" where
  "zrangebyscore upper_bound n Z =
     take n (map fst (sort_key snd (sort_key fst
       (filter (\<lambda>(_, score). case upper_bound of None \<Rightarrow> True | Some b \<Rightarrow> score \<le> b) Z))))"

definition market_of :: "order \<Rightarrow> market_key" where
  "market_of ord = (upper (exchange_value (o_exchange ord)), upper (market_type_value (o_market_type ord)))"

definition symbol_key_of :: "order \<Rightarrow> string \<times> string \<times> string" where
  "symbol_key_of ord =
     (upper (exchange_value (o_exchange ord)), upper (market_type_value (o_market_type ord)),
      upper (o_symbol ord))"

definition reindex :: "order \<Rightarrow> redis \<Rightarrow> redis" where
  "reindex ord rd =
     (let i = o_order_id ord; m = market_of ord; k = symbol_key_of ord;
          terminal = o_status ord \<in> TERMINAL_STATUSES;
          regular_open = o_order_route ord = Some REGULAR \<and> \<not> terminal
      in rd\<lparr>rd_open := (rd_open rd)(m := set_member regular_open i (rd_open rd m)),
            rd_cond_open := (rd_cond_open rd)(m := set_member (conditional_trackable ord) i (rd_cond_open rd m)),
            rd_unknown := (rd_unknown rd)(m := set_score (is_unknown ord) i (o_updated_ts ord) (rd_unknown rd m)),
            rd_recovery := (rd_recovery rd)(m := set_score (needs_recovery ord) i (o_updated_ts ord) (rd_recovery rd m)),
            rd_symbol := (rd_symbol rd)(k := set_member (\<not> terminal) i (rd_symbol rd k)),
            rd_ttl := (rd_ttl rd)(i := (if terminal then Some TERMINAL_TTL_SEC else None))\<rparr>)"

definition upsert_projection_if_newer :: "order \<Rightarrow> redis \<Rightarrow> (exn + bool) \<times> redis" where
  "upsert_projection_if_newer ord rd =
     (case from_order ord of
        Inl e \<Rightarrow> (Inl e, rd)
      | Inr entries \<Rightarrow>
          if o_version ord \<le> current_version (rd_live rd (o_order_id ord)) then (Inr False, rd)
          else (Inr True,
                reindex ord
                  (rd\<lparr>rd_live := (rd_live rd)(o_order_id ord \<mapsto>
                                   hset entries (rd_live rd (o_order_id ord)))\<rparr>)))"


section \<open>Reads, deletion and counters\<close>

definition redis_list_recovery :: "market_key \<Rightarrow> nat \<Rightarrow> int option \<Rightarrow> redis \<Rightarrow> live_hash list" where
  "redis_list_recovery m batch older_than rd =
     List.map_filter (rd_live rd) (zrangebyscore older_than batch (rd_recovery rd m))"

definition redis_list_unknown :: "market_key \<Rightarrow> nat \<Rightarrow> int option \<Rightarrow> redis \<Rightarrow> live_hash list" where
  "redis_list_unknown m batch older_than rd =
     List.map_filter (rd_live rd) (zrangebyscore older_than batch (rd_unknown rd m))"

definition postpone_recovery_order :: "market_key \<Rightarrow> string \<Rightarrow> int \<Rightarrow> redis \<Rightarrow> redis" where
  "postpone_recovery_order m i next_ts rd =
     rd\<lparr>rd_recovery := (rd_recovery rd)(m := set_score True i next_ts (rd_recovery rd m))\<rparr>"

definition postpone_unknown_order :: "market_key \<Rightarrow> string \<Rightarrow> int \<Rightarrow> redis \<Rightarrow> redis" where
  "postpone_unknown_order m i next_ts rd =
     rd\<lparr>rd_unknown := (rd_unknown rd)(m := set_score True i next_ts (rd_unknown rd m))\<rparr>"

definition hash_text :: "live_hash \<Rightarrow> string \<Rightarrow> string" where
  "hash_text h k = (case h k of Some (HText t) \<Rightarrow> t | _ \<Rightarrow> [])"

definition redis_delete :: "string \<Rightarrow> redis \<Rightarrow> redis" where
  "redis_delete i rd =
     (let gone = rd\<lparr>rd_live := (rd_live rd)(i := None), rd_ttl := (rd_ttl rd)(i := None)\<rparr> in
      case rd_live rd i of
        None \<Rightarrow> gone
      | Some h \<Rightarrow>
          let ex = hash_text h ''exchange''; mt = hash_text h ''market_type'';
              sym = upper (hash_text h ''symbol''); m = (ex, mt); k = (ex, mt, sym);
              gone = (if ex = [] then gone else
                gone\<lparr>rd_open := (rd_open rd)(m := rd_open rd m - {i}),
                     rd_cond_open := (rd_cond_open rd)(m := rd_cond_open rd m - {i}),
                     rd_unknown := (rd_unknown rd)(m := set_score False i 0 (rd_unknown rd m)),
                     rd_recovery := (rd_recovery rd)(m := set_score False i 0 (rd_recovery rd m))\<rparr>)
          in if ex = [] \<or> mt = [] \<or> sym = [] then gone
             else gone\<lparr>rd_symbol := (rd_symbol rd)(k := rd_symbol rd k - {i})\<rparr>)"

definition clear_projection :: "bool \<Rightarrow> redis \<Rightarrow> redis" where
  "clear_projection include_live rd =
     (let rd = (if include_live then rd\<lparr>rd_live := (\<lambda>_. None), rd_ttl := (\<lambda>_. None)\<rparr> else rd)
      in rd\<lparr>rd_open := (\<lambda>_. {}), rd_cond_open := (\<lambda>_. {}), rd_unknown := (\<lambda>_. []),
            rd_recovery := (\<lambda>_. []), rd_symbol := (\<lambda>_. {})\<rparr>)"

definition increment_reconcile_failure ::
  "string \<times> string \<times> string \<Rightarrow> redis \<Rightarrow> int \<times> redis" where
  "increment_reconcile_failure k rd =
     (let n = (case rd_failures rd k of None \<Rightarrow> 0 | Some n \<Rightarrow> n) + 1
      in (n, rd\<lparr>rd_failures := (rd_failures rd)(k \<mapsto> n)\<rparr>))"

definition clear_reconcile_failure :: "string \<times> string \<times> string \<Rightarrow> redis \<Rightarrow> redis" where
  "clear_reconcile_failure k rd = rd\<lparr>rd_failures := (rd_failures rd)(k := None)\<rparr>"

text \<open>A hash with a time to live that has run out is gone; the indexes stay.\<close>

definition expire_live :: "string \<Rightarrow> redis \<Rightarrow> redis" where
  "expire_live i rd =
     (if rd_ttl rd i = None then rd
      else rd\<lparr>rd_live := (rd_live rd)(i := None), rd_ttl := (rd_ttl rd)(i := None)\<rparr>)"

section \<open>What an upsert establishes\<close>

text \<open>The projection shows an order: its fields are in the live hash, and the membership and the
  scores of its indexes are those of its status.\<close>

definition shows_order :: "order \<Rightarrow> redis \<Rightarrow> bool" where
  "shows_order ord rd \<longleftrightarrow>
     (\<exists>f. rd_live rd (o_order_id ord) = Some f \<and> order_hash ord \<subseteq>\<^sub>m f) \<and>
     (o_order_id ord \<in> rd_open rd (market_of ord)) =
       (o_order_route ord = Some REGULAR \<and> o_status ord \<notin> TERMINAL_STATUSES) \<and>
     (o_order_id ord \<in> rd_cond_open rd (market_of ord)) = conditional_trackable ord \<and>
     map_of (rd_unknown rd (market_of ord)) (o_order_id ord) =
       (if is_unknown ord then Some (o_updated_ts ord) else None) \<and>
     map_of (rd_recovery rd (market_of ord)) (o_order_id ord) =
       (if needs_recovery ord then Some (o_updated_ts ord) else None) \<and>
     (o_order_id ord \<in> rd_symbol rd (symbol_key_of ord)) = (o_status ord \<notin> TERMINAL_STATUSES) \<and>
     rd_ttl rd (o_order_id ord) =
       (if o_status ord \<in> TERMINAL_STATUSES then Some TERMINAL_TTL_SEC else None)"

lemma map_of_set_score:
  "map_of (set_score b x n Z) y = (if y = x then (if b then Some n else None) else map_of Z y)"
proof -
  have "map_of (filter (\<lambda>(y, _). y \<noteq> x) Z) y = (if y = x then None else map_of Z y)" for y
    by (induction Z) auto
  then show ?thesis by (simp add: set_score_def Let_def)
qed

lemma set_member_iff: "y \<in> set_member b x A \<longleftrightarrow> (if y = x then b else y \<in> A)"
  by (auto simp: set_member_def)

lemma hset_hash:
  assumes "from_order ord = Inr es"
  shows "order_hash ord \<subseteq>\<^sub>m hset es h"
  using from_order_hash [OF assms] by (cases h) (simp_all add: hset_def)

lemma reindex_live [simp]: "rd_live (reindex ord rd) = rd_live rd"
  and reindex_failures [simp]: "rd_failures (reindex ord rd) = rd_failures rd"
  by (simp_all add: reindex_def Let_def)

lemma reindex_shows:
  assumes "rd_live rd (o_order_id ord) = Some f" and "order_hash ord \<subseteq>\<^sub>m f"
  shows "shows_order ord (reindex ord rd)"
  using assms by (simp add: shows_order_def reindex_def Let_def map_of_set_score set_member_iff)

lemma upsert_applied:
  assumes "from_order ord = Inr es"
    and "current_version (rd_live rd (o_order_id ord)) < o_version ord"
  shows "\<exists>rd'. upsert_projection_if_newer ord rd = (Inr True, rd') \<and> shows_order ord rd'"
  using assms reindex_shows hset_hash [OF assms(1)]
  by (auto simp: upsert_projection_if_newer_def)

lemma upsert_ignored:
  assumes "from_order ord = Inr es"
    and "o_version ord \<le> current_version (rd_live rd (o_order_id ord))"
  shows "upsert_projection_if_newer ord rd = (Inr False, rd)"
  using assms by (simp add: upsert_projection_if_newer_def)

lemma upsert_other_hash:
  "i \<noteq> o_order_id ord \<Longrightarrow>
     rd_live (snd (upsert_projection_if_newer ord rd)) i = rd_live rd i"
  by (simp add: upsert_projection_if_newer_def split: sum.split)

lemma shown_version: "shows_order ord rd \<Longrightarrow> current_version (rd_live rd (o_order_id ord)) = o_version ord"
proof -
  assume "shows_order ord rd"
  then obtain f where f: "rd_live rd (o_order_id ord) = Some f" "order_hash ord \<subseteq>\<^sub>m f"
    by (auto simp: shows_order_def)
  then have "f ''version'' = Some (HText (show_int (o_version ord)))"
    by (metis map_le_def domI order_hash_at(2))
  with f(1) show ?thesis by (simp add: current_version_def)
qed

section \<open>Convergence\<close>

text \<open>Deliveries of snapshots of one order, in any order and with repetitions.\<close>

definition upsert_all :: "order list \<Rightarrow> redis \<Rightarrow> redis" where
  "upsert_all os rd = fold (\<lambda>ord rd. snd (upsert_projection_if_newer ord rd)) os rd"

lemma upsert_all_simps [simp]:
  "upsert_all [] rd = rd"
  "upsert_all (ord # os) rd = upsert_all os (snd (upsert_projection_if_newer ord rd))"
  by (simp_all add: upsert_all_def)

definition writable :: "order \<Rightarrow> bool" where
  "writable ord = (\<exists>es. from_order ord = Inr es)"

lemma upsert_all_newest:
  assumes "shows_order cur rd"
    and "\<forall>ord\<in>set os. writable ord \<and> o_order_id ord = o_order_id cur"
    and "\<forall>ord\<in>set os. o_version ord \<le> o_version new"
    and "new = cur \<or> (new \<in> set os \<and> o_version cur < o_version new)"
    and "\<forall>ord\<in>set os. o_version ord = o_version new \<longrightarrow> ord = new"
  shows "shows_order new (upsert_all os rd)"
  using assms
proof (induction os arbitrary: cur rd)
  case Nil
  then show ?case by simp
next
  case (Cons ord os)
  from Cons.prems(2) obtain es where es: "from_order ord = Inr es" by (auto simp: writable_def)
  have cv: "current_version (rd_live rd (o_order_id ord)) = o_version cur"
    using shown_version [OF Cons.prems(1)] Cons.prems(2) by (metis list.set_intros(1))
  show ?case
  proof (cases "o_version ord \<le> o_version cur")
    case True
    with es cv have "upsert_projection_if_newer ord rd = (Inr False, rd)"
      by (simp add: upsert_ignored)
    moreover have "new = cur \<or> (new \<in> set os \<and> o_version cur < o_version new)"
      using Cons.prems(4) True by (metis not_le set_ConsD)
    moreover have "shows_order new (upsert_all os rd)"
      by (rule Cons.IH [OF Cons.prems(1)]) (use Cons.prems(2,3,5) calculation(2) in auto)
    ultimately show ?thesis by simp
  next
    case False
    with es cv obtain rd' where rd': "upsert_projection_if_newer ord rd = (Inr True, rd')"
      "shows_order ord rd'"
      using upsert_applied [OF es, of rd] by auto
    have le: "o_version ord \<le> o_version new" and tie: "o_version ord = o_version new \<longrightarrow> ord = new"
      using Cons.prems(3,5) by (metis list.set_intros(1))+
    have mem: "new = ord \<or> new \<in> set os"
      using Cons.prems(3,4) False le by (metis set_ConsD)
    have nxt: "new = ord \<or> (new \<in> set os \<and> o_version ord < o_version new)"
      using mem le tie by (metis order_le_less)
    have id: "o_order_id ord = o_order_id cur" using Cons.prems(2) by (metis list.set_intros(1))
    have rest: "\<forall>o'\<in>set os. writable o' \<and> o_order_id o' = o_order_id ord"
      using Cons.prems(2) id by (metis list.set_intros(2))
    have "shows_order new (upsert_all os rd')"
      by (rule Cons.IH [OF rd'(2) rest _ nxt]) (use Cons.prems(3,5) in \<open>metis list.set_intros(2)\<close>)+
    with rd'(1) show ?thesis by simp
  qed
qed

section \<open>Properties\<close>

text \<open>C8: Snapshots of one order may reach Redis late, out of order and repeatedly; once the newest
  one has been delivered the projection shows exactly that one: its fields are in the live hash and
  the order is in the open, conditional, unknown, recovery and symbol indexes its status asks for,
  with the scores and the time to live that go with it.\<close>

theorem projection_converges:
  assumes "rd_live rd i = None" and "new \<in> set os"
    and "\<forall>ord\<in>set os. writable ord \<and> o_order_id ord = i \<and> 0 \<le> o_version ord \<and>
           o_version ord \<le> o_version new \<and> (o_version ord = o_version new \<longrightarrow> ord = new)"
  shows "shows_order new (upsert_all os rd)"
proof -
  obtain ord os' where os: "os = ord # os'" using assms(2) by (cases os) auto
  have first: "writable ord" "o_order_id ord = i" "0 \<le> o_version ord"
    using assms(3) os by auto
  then obtain es where es: "from_order ord = Inr es" by (auto simp: writable_def)
  have "current_version (rd_live rd (o_order_id ord)) < o_version ord"
    using first assms(1) by (simp add: current_version_def)
  from upsert_applied [OF es this] obtain rd' where
    rd': "upsert_projection_if_newer ord rd = (Inr True, rd')" "shows_order ord rd'" by blast
  have "new = ord \<or> (new \<in> set os' \<and> o_version ord < o_version new)"
    using assms(2,3) os by (auto simp: order_le_less)
  moreover have "\<forall>o'\<in>set os'. writable o' \<and> o_order_id o' = o_order_id ord"
    "\<forall>o'\<in>set os'. o_version o' \<le> o_version new"
    "\<forall>o'\<in>set os'. o_version o' = o_version new \<longrightarrow> o' = new"
    using assms(3) os first(2) by auto
  ultimately have "shows_order new (upsert_all os' rd')"
    using upsert_all_newest [OF rd'(2)] by blast
  with os rd'(1) show ?thesis by simp
qed

text \<open>Two states of one limit order, for the concrete instances.\<close>

definition sample_open :: order where
  "sample_open = blank_order\<lparr>o_order_id := ''O-1'', o_market_type := PERP, o_symbol := ''BTCUSDT'',
     o_order_type := LIMIT, o_order_route := Some REGULAR, o_time_in_force := Some GTC,
     o_quantity := ''0.5'', o_price := Some ''60000'', o_client_order_id := Some ''O-1'',
     o_status := OS_UNKNOWN, o_reject_reason := Some RR_UNKNOWN_EXECUTION, o_version := 3\<rparr>"

definition sample_filled :: order where
  "sample_filled = sample_open\<lparr>o_status := OS_FILLED, o_reject_reason := None,
     o_filled_quantity := ''0.5'', o_version := 4\<rparr>"

lemma samples_writable: "writable sample_open" "writable sample_filled"
proof -
  have "isl (from_order sample_open) = False" by code_simp
  moreover have "isl (from_order sample_filled) = False" by code_simp
  ultimately show "writable sample_open" "writable sample_filled"
    unfolding writable_def by (metis isl_def sum.exhaust_sel)+
qed

theorem projection_converges_witness:
  "shows_order sample_filled (upsert_all [sample_filled, sample_open, sample_filled] empty_redis)"
  by (rule projection_converges [where i = "''O-1''"])
    (simp_all add: samples_writable, simp_all add: empty_redis_def sample_filled_def sample_open_def)

lemma upsert_fresh:
  assumes "writable ord" and "0 \<le> o_version ord" and "rd_live rd (o_order_id ord) = None"
  shows "snd (upsert_projection_if_newer ord rd) =
      reindex ord (rd\<lparr>rd_live := (rd_live rd)(o_order_id ord \<mapsto> order_hash ord)\<rparr>)"
proof -
  obtain es where es: "from_order ord = Inr es" using assms(1) by (auto simp: writable_def)
  show ?thesis
    using assms(2,3) es from_order_hash [OF es]
    by (simp add: upsert_projection_if_newer_def hset_def current_version_def)
qed

text \<open>C14: A storable order written to a fresh hash is read back unchanged.\<close>

theorem projection_round_trip:
  assumes "storable ord" and "writable ord" and "0 \<le> o_version ord" and "rd_live rd (o_order_id ord) = None"
  shows "map_option deserialize_order
      (rd_live (snd (upsert_projection_if_newer ord rd)) (o_order_id ord)) = Some (Inr ord)"
  using upsert_fresh [OF assms(2-4)] deserialize_order_hash [OF assms(1)] by simp

lemma sample_storable: "storable sample_open"
  by code_simp

theorem projection_round_trip_witness:
  "map_option deserialize_order
     (rd_live (snd (upsert_projection_if_newer sample_open empty_redis)) (o_order_id sample_open)) =
   Some (Inr sample_open)"
  by (rule projection_round_trip [OF sample_storable samples_writable(1)])
    (simp_all add: empty_redis_def sample_open_def)

text \<open>The upsert merges into the old hash: a field the newer order has no value for keeps the
  older order's value (a reject reason that has been cleared is still read from Redis).\<close>

lemma upsert_keeps_cleared_fields:
  assumes "writable ord" and "current_version (rd_live rd (o_order_id ord)) < o_version ord"
    and "rd_live rd (o_order_id ord) = Some f" and "order_hash ord k = None"
  shows "map_option (\<lambda>g. g k) (rd_live (snd (upsert_projection_if_newer ord rd)) (o_order_id ord)) = Some (f k)"
proof -
  obtain es where es: "from_order ord = Inr es" using assms(1) by (auto simp: writable_def)
  then have "map_of es k = None" using from_order_hash [OF es] assms(4) by simp
  then show ?thesis
    using assms(2,3) es by (simp add: upsert_projection_if_newer_def hset_def map_add_def)
qed

end
