(* ===== verification/Outbox.thy ===== *)
theory Outbox
  imports OrderModel
begin

text \<open>
  The transactional outbox: \<open>schemas/outbox.py\<close> and \<open>postgres/outbox_repo.py\<close>.  The table
  is the list of its rows in insertion order; the event id of a new row is its position, counted
  from 1.  \<open>claim_unpublished\<close>, \<open>mark_published\<close> and \<open>mark_failed\<close> are the three
  \<open>UPDATE\<close> statements.  \<open>replay\<close> reads the order events of one aggregate as a log of
  statuses.
\<close>

section \<open>Rows\<close>

datatype outbox_payload =
    OrderCreated order
  | OrderStatusChanged order_status order

record outbox_event =
  ob_event_id :: int
  ob_aggregate_type :: string
  ob_aggregate_id :: string
  ob_event_type :: string
  ob_payload :: outbox_payload
  ob_created_ts :: int
  ob_published_ts :: "int option"
  ob_retry_count :: int
  ob_last_error :: "string option"
  ob_next_attempt_ts :: "int option"
  ob_locked_by :: "string option"
  ob_locked_until_ts :: "int option"

type_synonym outbox = "outbox_event list"

definition outbox_insert :: "string \<Rightarrow> string \<Rightarrow> outbox_payload \<Rightarrow> int \<Rightarrow> outbox \<Rightarrow> outbox" where
  "outbox_insert aggregate_id event_type body created_ts rows =
     rows @ [\<lparr>ob_event_id = int (length rows) + 1, ob_aggregate_type = ''ORDER'',
              ob_aggregate_id = aggregate_id, ob_event_type = event_type, ob_payload = body,
              ob_created_ts = created_ts, ob_published_ts = None, ob_retry_count = 0,
              ob_last_error = None, ob_next_attempt_ts = None, ob_locked_by = None,
              ob_locked_until_ts = None\<rparr>]"

section \<open>Claiming and marking\<close>

definition due :: "int \<Rightarrow> int option \<Rightarrow> bool" where
  "due now t = (case t of None \<Rightarrow> True | Some u \<Rightarrow> u \<le> now)"

definition claimable :: "int \<Rightarrow> int \<Rightarrow> outbox_event \<Rightarrow> bool" where
  "claimable now max_retry e =
     (ob_published_ts e = None \<and> ob_retry_count e < max_retry \<and>
      due now (ob_next_attempt_ts e) \<and> due now (ob_locked_until_ts e))"

text \<open>The candidates, ordered by \<open>created_ts\<close> and then event id, up to the batch size.\<close>

definition claim_candidates :: "int \<Rightarrow> nat \<Rightarrow> int \<Rightarrow> outbox \<Rightarrow> int list" where
  "claim_candidates now batch max_retry rows =
     map ob_event_id (take batch (sort_key ob_created_ts (sort_key ob_event_id
       (filter (claimable now max_retry) rows))))"

definition claim_unpublished ::
  "string \<Rightarrow> int \<Rightarrow> nat \<Rightarrow> int \<Rightarrow> int \<Rightarrow> outbox \<Rightarrow> outbox_event list \<times> outbox" where
  "claim_unpublished publisher now batch lock_ttl max_retry rows =
     (let ids = claim_candidates now batch max_retry rows;
          lock = (\<lambda>e. e\<lparr>ob_locked_by := Some publisher, ob_locked_until_ts := Some (now + lock_ttl)\<rparr>);
          rows' = map (\<lambda>e. if ob_event_id e \<in> set ids then lock e else e) rows
      in (List.map_filter (\<lambda>i. List.find (\<lambda>e. ob_event_id e = i) rows') ids, rows'))"

text \<open>The rows an \<open>UPDATE\<close> of one event may change, and the change; the answer says whether
  a row was changed.\<close>

definition owned_by :: "string \<Rightarrow> int \<Rightarrow> outbox_event \<Rightarrow> bool" where
  "owned_by publisher i e =
     (ob_event_id e = i \<and> ob_locked_by e = Some publisher \<and> ob_published_ts e = None)"

definition update_owned ::
  "string \<Rightarrow> int \<Rightarrow> (outbox_event \<Rightarrow> outbox_event) \<Rightarrow> outbox \<Rightarrow> bool \<times> outbox" where
  "update_owned publisher i f rows =
     (list_ex (owned_by publisher i) rows, map (\<lambda>e. if owned_by publisher i e then f e else e) rows)"

definition mark_published :: "string \<Rightarrow> int \<Rightarrow> int \<Rightarrow> outbox \<Rightarrow> bool \<times> outbox" where
  "mark_published publisher i published_ts =
     update_owned publisher i
       (\<lambda>e. e\<lparr>ob_published_ts := Some published_ts, ob_locked_by := None,
              ob_locked_until_ts := None, ob_last_error := None\<rparr>)"

definition mark_failed :: "string \<Rightarrow> int \<Rightarrow> int \<Rightarrow> string \<Rightarrow> int \<Rightarrow> outbox \<Rightarrow> bool \<times> outbox" where
  "mark_failed publisher i now err retry_delay =
     update_owned publisher i
       (\<lambda>e. e\<lparr>ob_retry_count := ob_retry_count e + 1, ob_last_error := Some (take 2000 err),
              ob_next_attempt_ts := Some (now + retry_delay), ob_locked_by := None,
              ob_locked_until_ts := None\<rparr>)"

definition count_unpublished :: "outbox \<Rightarrow> nat" where
  "count_unpublished rows = length (filter (\<lambda>e. ob_published_ts e = None) rows)"

section \<open>The events of an order as a log\<close>

text \<open>A status with the version it was written at; a change must name the status it leaves and
  have the next version.\<close>

fun log_step :: "outbox_payload \<Rightarrow> (order_status \<times> int) option \<Rightarrow> (order_status \<times> int) option" where
  "log_step (OrderCreated ord) None = Some (o_status ord, o_version ord)"
| "log_step (OrderStatusChanged prev ord) (Some (st, v)) =
     (if prev = st \<and> o_version ord = v + 1 then Some (o_status ord, o_version ord) else None)"
| "log_step _ _ = None"

fun replay_from :: "(order_status \<times> int) option \<Rightarrow> outbox_payload list \<Rightarrow> (order_status \<times> int) option" where
  "replay_from st [] = st"
| "replay_from st (p # ps) =
     (case log_step p st of None \<Rightarrow> None | Some q \<Rightarrow> replay_from (Some q) ps)"

definition order_events :: "string \<Rightarrow> outbox \<Rightarrow> outbox_payload list" where
  "order_events i rows = map ob_payload (filter (\<lambda>e. ob_aggregate_id e = i) rows)"

definition replay :: "string \<Rightarrow> outbox \<Rightarrow> (order_status \<times> int) option" where
  "replay i rows = replay_from None (order_events i rows)"

lemma replay_from_snoc:
  "ps \<noteq> [] \<or> st \<noteq> None \<Longrightarrow> replay_from st ps \<noteq> None \<Longrightarrow>
     replay_from st (ps @ [p]) = log_step p (replay_from st ps)"
  by (induction st ps rule: replay_from.induct) (auto split: option.splits)

lemma order_events_insert:
  "order_events i (outbox_insert j ty p ts rows) = order_events i rows @ (if j = i then [p] else [])"
  by (simp add: order_events_def outbox_insert_def)

lemma replay_insert_other [simp]:
  "i \<noteq> j \<Longrightarrow> replay i (outbox_insert j ty p ts rows) = replay i rows"
  by (simp add: replay_def order_events_insert)

lemma replay_created:
  "order_events i rows = [] \<Longrightarrow>
     replay i (outbox_insert i ty (OrderCreated ord) ts rows) = Some (o_status ord, o_version ord)"
  by (simp add: replay_def order_events_insert)

lemma replay_changed:
  assumes "replay i rows = Some (st, v)" and "o_version ord = v + 1"
  shows "replay i (outbox_insert i ty (OrderStatusChanged st ord) ts rows) = Some (o_status ord, o_version ord)"
proof -
  have "order_events i rows \<noteq> []" using assms(1) by (auto simp: replay_def)
  then show ?thesis
    using assms replay_from_snoc [of "order_events i rows" None]
    by (simp add: replay_def order_events_insert)
qed

text \<open>The other statements leave every event's id, aggregate and payload, so they keep the log.\<close>

definition same_events :: "outbox \<Rightarrow> outbox \<Rightarrow> bool" where
  "same_events rows rows' \<longleftrightarrow>
     map (\<lambda>e. (ob_event_id e, ob_aggregate_id e, ob_event_type e, ob_payload e)) rows =
     map (\<lambda>e. (ob_event_id e, ob_aggregate_id e, ob_event_type e, ob_payload e)) rows'"

lemma same_events_order_events: "same_events rows rows' \<Longrightarrow> order_events i rows = order_events i rows'"
proof -
  have "order_events i rows = map (\<lambda>(_, _, _, p). p) (filter (\<lambda>(_, a, _, _). a = i)
      (map (\<lambda>e. (ob_event_id e, ob_aggregate_id e, ob_event_type e, ob_payload e)) rows))" for rows
    by (induction rows) (simp_all add: order_events_def)
  then show "same_events rows rows' \<Longrightarrow> ?thesis" by (simp add: same_events_def)
qed

lemma update_owned_same_events:
  "(\<And>e. ob_event_id (f e) = ob_event_id e \<and> ob_aggregate_id (f e) = ob_aggregate_id e \<and>
         ob_event_type (f e) = ob_event_type e \<and> ob_payload (f e) = ob_payload e) \<Longrightarrow>
   same_events rows (snd (update_owned publisher i f rows))"
  by (simp add: same_events_def update_owned_def)

lemma mark_published_same_events: "same_events rows (snd (mark_published p i ts rows))"
  unfolding mark_published_def by (rule update_owned_same_events) simp

lemma mark_failed_same_events: "same_events rows (snd (mark_failed p i now err d rows))"
  unfolding mark_failed_def by (rule update_owned_same_events) simp

lemma claim_same_events: "same_events rows (snd (claim_unpublished p now b ttl m rows))"
  by (simp add: same_events_def claim_unpublished_def Let_def)

end
