(* ===== verification/Store.thy ===== *)
theory Store
  imports Ids RedisProjection Outbox
begin

text \<open>
  The state the execution gateway works on, and the repositories that read and write it:
  \<open>postgres/order_repo.py\<close>, \<open>order_intent_repo.py\<close> and \<open>domain/order_table.py\<close>, the
  clock (\<open>epoch_ms\<close>) and the id generator.  An \<open>orders\<close> row is kept typed (\<open>Enums\<close> shows
  that the texts of the columns round trip), numeric columns as the text they are read back as.  An
  \<open>order_intents\<close> row is the order it was written from.  A call of PostgreSQL or Redis may fail:
  \<open>w_pg_ok\<close> and \<open>w_rd_ok\<close> say which calls get through, and a transaction that raises leaves
  the tables as they were.
\<close>

section \<open>The world\<close>

record world =
  w_clock :: "nat \<Rightarrow> int"
  w_ticks :: nat
  w_raw_ids :: "nat \<Rightarrow> int"
  w_next_id :: nat
  w_pg_ok :: "nat \<Rightarrow> bool"
  w_pg_calls :: nat
  w_rd_ok :: "nat \<Rightarrow> bool"
  w_rd_calls :: nat
  w_orders :: "string \<Rightarrow> orders_row option"
  w_order_keys :: "string list"
  w_intents :: "string \<Rightarrow> order option"
  w_outbox :: outbox
  w_redis :: redis

type_synonym 'a wprog = "(world, exn, 'a) prog"

definition epoch_ms :: "int wprog" where
  "epoch_ms = (\<lambda>s. (Inr (w_clock s (w_ticks s)), s\<lparr>w_ticks := Suc (w_ticks s)\<rparr>))"

text \<open>\<open>Order(...)\<close> and \<open>Order.model_validate\<close>: an order without an id takes the next one.\<close>

definition build_order :: "order \<Rightarrow> order wprog" where
  "build_order ord = (\<lambda>s.
     let new_id = order_id_text (o_exchange ord) (o_market_type ord) (w_raw_ids s (w_next_id s)) in
     case validate_order new_id ord of
       Inl e \<Rightarrow> (Inl e, s)
     | Inr built \<Rightarrow>
         (Inr built, if o_order_id ord = [] then s\<lparr>w_next_id := Suc (w_next_id s)\<rparr> else s))"

section \<open>Calls of the two stores\<close>

text \<open>\<open>async with pool.acquire() ... conn.transaction()\<close>: rolled back when the body raises.\<close>

definition pg_transaction :: "'a wprog \<Rightarrow> 'a wprog" where
  "pg_transaction body = (\<lambda>s.
     let ok = w_pg_ok s (w_pg_calls s); s = s\<lparr>w_pg_calls := Suc (w_pg_calls s)\<rparr> in
     if \<not> ok then (Inl (OtherError ''postgres''), s)
     else case body s of
            (Inr x, t) \<Rightarrow> (Inr x, t)
          | (Inl e, t) \<Rightarrow> (Inl e, t\<lparr>w_orders := w_orders s, w_order_keys := w_order_keys s,
                                   w_intents := w_intents s, w_outbox := w_outbox s\<rparr>))"

definition pg_read :: "(world \<Rightarrow> 'a) \<Rightarrow> 'a wprog" where
  "pg_read f = pg_transaction (gets f)"

definition redis_call :: "(redis \<Rightarrow> (exn + 'a) \<times> redis) \<Rightarrow> 'a wprog" where
  "redis_call f = (\<lambda>s.
     let ok = w_rd_ok s (w_rd_calls s); s = s\<lparr>w_rd_calls := Suc (w_rd_calls s)\<rparr> in
     if \<not> ok then (Inl RedisError, s)
     else case f (w_redis s) of (r, rd) \<Rightarrow> (r, s\<lparr>w_redis := rd\<rparr>))"

definition redis_read :: "(redis \<Rightarrow> 'a) \<Rightarrow> 'a wprog" where
  "redis_read f = redis_call (\<lambda>rd. (Inr (f rd), rd))"

section \<open>The orders and order_intents tables\<close>

definition intent_insert :: "order \<Rightarrow> unit wprog" where
  "intent_insert ord = (\<lambda>s.
     if w_intents s (o_order_id ord) \<noteq> None then (Inl UniqueViolationError, s)
     else (Inr (), s\<lparr>w_intents := (w_intents s)(o_order_id ord \<mapsto> ord)\<rparr>))"

definition insert_initial :: "order \<Rightarrow> unit wprog" where
  "insert_initial ord = (\<lambda>s.
     if w_orders s (o_order_id ord) \<noteq> None then (Inl UniqueViolationError, s)
     else (Inr (), s\<lparr>w_orders := (w_orders s)(o_order_id ord \<mapsto> orders_row.truncate ord),
                     w_order_keys := w_order_keys s @ [o_order_id ord]\<rparr>))"

text \<open>The \<open>SET\<close> clause over \<open>TRANSITION_UPDATE_COLUMNS\<close>, and \<open>version = version + 1\<close>.\<close>

definition transition_row :: "order \<Rightarrow> orders_row \<Rightarrow> orders_row" where
  "transition_row ord row = row
     \<lparr>o_status := o_status ord,
      o_client_order_id := o_client_order_id ord,
      o_exchange_order_id := o_exchange_order_id ord,
      o_client_conditional_id := o_client_conditional_id ord,
      o_exchange_conditional_id := o_exchange_conditional_id ord,
      o_conditional_status := o_conditional_status ord,
      o_exchange_conditional_status := o_exchange_conditional_status ord,
      o_triggered_order_id := o_triggered_order_id ord,
      o_triggered_client_order_id := o_triggered_client_order_id ord,
      o_reject_reason := o_reject_reason ord,
      o_exchange_error_code := o_exchange_error_code ord,
      o_detail_msg := o_detail_msg ord,
      o_filled_quantity := o_filled_quantity ord,
      o_avg_fill_price := o_avg_fill_price ord,
      o_submitted_ts := o_submitted_ts ord,
      o_acknowledged_ts := o_acknowledged_ts ord,
      o_triggered_ts := o_triggered_ts ord,
      o_filled_ts := o_filled_ts ord,
      o_cancelled_ts := o_cancelled_ts ord,
      o_expired_ts := o_expired_ts ord,
      o_updated_ts := o_updated_ts ord,
      o_raw_exchange_response := o_raw_exchange_response ord,
      o_version := o_version row + 1\<rparr>"

definition repo_transition :: "order \<Rightarrow> int \<Rightarrow> orders_row wprog" where
  "repo_transition ord expected_version = (\<lambda>s.
     case w_orders s (o_order_id ord) of
       None \<Rightarrow> (Inl (RuntimeError ''order transition missing row''), s)
     | Some row \<Rightarrow>
         if o_version row = expected_version
         then (Inr (transition_row ord row),
               s\<lparr>w_orders := (w_orders s)(o_order_id ord \<mapsto> transition_row ord row)\<rparr>)
         else (Inl (StaleOrderVersionError (o_order_id ord) expected_version (o_version row)
                      (o_status row)), s))"

text \<open>\<open>_joined_order_select_sql\<close>: the columns of \<open>orders\<close>, with \<open>source\<close>,
  \<open>signal_id\<close>, \<open>strategy_name\<close> and \<open>time_in_force\<close> from the intent.\<close>

definition joined_row :: "orders_row \<Rightarrow> order \<Rightarrow> order" where
  "joined_row row intent =
     orders_row.extend (row\<lparr>o_time_in_force := o_time_in_force intent\<rparr>)
       (order.fields (o_source intent) (o_signal_id intent) (o_strategy_name intent))"

definition joined_order :: "world \<Rightarrow> string \<Rightarrow> order option" where
  "joined_order s i =
     (case (w_orders s i, w_intents s i) of
        (Some row, Some intent) \<Rightarrow> Some (joined_row row intent)
      | _ \<Rightarrow> None)"

definition joined_orders :: "world \<Rightarrow> order list" where
  "joined_orders s = List.map_filter (joined_order s) (w_order_keys s)"

definition get_joined_order :: "string \<Rightarrow> order option wprog" where
  "get_joined_order i = pg_read (\<lambda>s. joined_order s i)"

definition get_joined_orders_by_ids :: "string list \<Rightarrow> order list wprog" where
  "get_joined_orders_by_ids ids =
     (if ids = [] then ret []
      else pg_read (\<lambda>s. filter (\<lambda>ord. o_order_id ord \<in> set ids) (joined_orders s)))"

definition list_non_terminal_rows :: "world \<Rightarrow> order list" where
  "list_non_terminal_rows s =
     sort_key o_updated_ts (sort_key o_order_id
       (filter (\<lambda>ord. o_status ord \<notin> TERMINAL_STATUSES) (joined_orders s)))"

definition list_non_terminal_joined_orders :: "order list wprog" where
  "list_non_terminal_joined_orders = pg_read list_non_terminal_rows"

definition after_cursor :: "(int \<times> string) option \<Rightarrow> order \<Rightarrow> bool" where
  "after_cursor cursor ord =
     (case cursor of None \<Rightarrow> True
      | Some (ts, i) \<Rightarrow> ts < o_updated_ts ord \<or> (ts = o_updated_ts ord \<and> i < o_order_id ord))"

definition list_non_terminal_joined_orders_page ::
  "exchange \<Rightarrow> market_type \<Rightarrow> order_route option \<Rightarrow> (int \<times> string) option \<Rightarrow> nat \<Rightarrow> world \<Rightarrow> order list" where
  "list_non_terminal_joined_orders_page ex mt route cursor limit s =
     take limit (filter
       (\<lambda>ord. o_exchange ord = ex \<and> o_market_type ord = mt \<and>
              (route = None \<or> o_order_route ord = route) \<and> after_cursor cursor ord)
       (list_non_terminal_rows s))"

definition list_open_joined_by_symbol :: "exchange \<Rightarrow> market_type \<Rightarrow> string \<Rightarrow> order list wprog" where
  "list_open_joined_by_symbol ex mt symb = pg_read (\<lambda>s.
     sort_key (\<lambda>ord. - o_updated_ts ord)
       (filter (\<lambda>ord. o_exchange ord = ex \<and> o_market_type ord = mt \<and> o_symbol ord = upper symb \<and>
                      o_status ord \<notin> TERMINAL_STATUSES) (joined_orders s)))"

datatype order_filter = AllOrders | OpenOrders | WithStatus order_status

definition list_orders ::
  "exchange \<Rightarrow> market_type \<Rightarrow> order_filter \<Rightarrow> string \<Rightarrow> nat \<Rightarrow> order list wprog" where
  "list_orders ex mt which symb limit = pg_read (\<lambda>s.
     take limit (sort_key (\<lambda>ord. - o_updated_ts ord)
       (filter (\<lambda>ord. o_exchange ord = ex \<and> o_market_type ord = mt \<and>
                      (symb = [] \<or> o_symbol ord = upper symb) \<and>
                      (case which of AllOrders \<Rightarrow> True
                       | OpenOrders \<Rightarrow> o_status ord \<notin> TERMINAL_STATUSES
                       | WithStatus st \<Rightarrow> o_status ord = st)) (joined_orders s))))"

text \<open>\<open>fetchrow\<close> with a lookup column: the first row of the table that matches.\<close>

definition get_by :: "exchange \<Rightarrow> market_type \<Rightarrow> (order \<Rightarrow> string option) \<Rightarrow> string \<Rightarrow> order option wprog" where
  "get_by ex mt column value = pg_read (\<lambda>s.
     List.find (\<lambda>ord. o_exchange ord = ex \<and> o_market_type ord = mt \<and> column ord = Some value)
       (joined_orders s))"

definition get_by_exchange_order_id :: "exchange \<Rightarrow> market_type \<Rightarrow> string \<Rightarrow> order option wprog" where
  "get_by_exchange_order_id ex mt = get_by ex mt o_exchange_order_id"

definition get_by_triggered_order_id :: "exchange \<Rightarrow> market_type \<Rightarrow> string \<Rightarrow> order option wprog" where
  "get_by_triggered_order_id ex mt = get_by ex mt o_triggered_order_id"

definition get_by_client_order_id :: "exchange \<Rightarrow> market_type \<Rightarrow> string \<Rightarrow> order option wprog" where
  "get_by_client_order_id ex mt = get_by ex mt o_client_order_id"

definition get_by_client_conditional_id :: "exchange \<Rightarrow> market_type \<Rightarrow> string \<Rightarrow> order option wprog" where
  "get_by_client_conditional_id ex mt = get_by ex mt o_client_conditional_id"

definition get_by_exchange_conditional_id :: "exchange \<Rightarrow> market_type \<Rightarrow> string \<Rightarrow> order option wprog" where
  "get_by_exchange_conditional_id ex mt = get_by ex mt o_exchange_conditional_id"

definition outbox_write :: "string \<Rightarrow> string \<Rightarrow> outbox_payload \<Rightarrow> int \<Rightarrow> unit wprog" where
  "outbox_write aggregate_id event_type body created_ts =
     modify (\<lambda>s. s\<lparr>w_outbox := outbox_insert aggregate_id event_type body created_ts (w_outbox s)\<rparr>)"

end
