(* ===== verification/OrderMachines.thy ===== *)
theory OrderMachines
  imports OrderModel
begin

text \<open>
  \<open>state_machine/order_state_machine.py\<close> and \<open>conditional_order_state_machine.py\<close>: the
  transition tables, the machines' operations, and the step relation a sequence of accepted
  transitions forms.  \<open>now\<close> is the millisecond clock read by \<open>transition\<close> and
  \<open>force_transition\<close>; both change the order in place, here they return the changed order.
\<close>

section \<open>Regular orders\<close>

fun VALID_TRANSITIONS :: "order_status \<Rightarrow> order_status set" where
  "VALID_TRANSITIONS OS_PENDING_NEW = {OS_SUBMITTED, OS_REJECTED, OS_RECONCILE_UNRESOLVED}"
| "VALID_TRANSITIONS OS_SUBMITTED =
     {OS_ACKNOWLEDGED, OS_PARTIALLY_FILLED, OS_FILLED, OS_REJECTED, OS_EXPIRED, OS_UNKNOWN,
      OS_RECONCILE_UNRESOLVED}"
| "VALID_TRANSITIONS OS_ACKNOWLEDGED =
     {OS_PARTIALLY_FILLED, OS_FILLED, OS_PENDING_CANCEL, OS_CANCELLED, OS_EXPIRED, OS_UNKNOWN,
      OS_RECONCILE_UNRESOLVED}"
| "VALID_TRANSITIONS OS_PARTIALLY_FILLED =
     {OS_PARTIALLY_FILLED, OS_FILLED, OS_PENDING_CANCEL, OS_CANCELLED, OS_EXPIRED, OS_UNKNOWN,
      OS_RECONCILE_UNRESOLVED}"
| "VALID_TRANSITIONS OS_PENDING_CANCEL =
     {OS_ACKNOWLEDGED, OS_PARTIALLY_FILLED, OS_FILLED, OS_CANCELLED, OS_EXPIRED, OS_UNKNOWN,
      OS_RECONCILE_UNRESOLVED}"
| "VALID_TRANSITIONS OS_UNKNOWN =
     {OS_ACKNOWLEDGED, OS_PARTIALLY_FILLED, OS_FILLED, OS_CANCELLED, OS_REJECTED, OS_EXPIRED,
      OS_RECONCILE_UNRESOLVED}"
| "VALID_TRANSITIONS OS_FILLED = {}"
| "VALID_TRANSITIONS OS_CANCELLED = {}"
| "VALID_TRANSITIONS OS_REJECTED = {}"
| "VALID_TRANSITIONS OS_EXPIRED = {}"
| "VALID_TRANSITIONS OS_RECONCILE_UNRESOLVED = {}"

definition can_transition :: "order \<Rightarrow> order_status \<Rightarrow> bool" where
  "can_transition ord target = (target \<in> VALID_TRANSITIONS (o_status ord))"

definition assert_can_transition :: "order \<Rightarrow> order_status \<Rightarrow> exn + unit" where
  "assert_can_transition ord target =
     (if can_transition ord target then Inr ()
      else Inl (InvalidTransitionError (o_status ord) target))"

text \<open>The optional keyword arguments of the two operations.\<close>

record transition_args =
  ta_exchange_order_id :: "string option"
  ta_reject_reason :: "reject_reason option"
  ta_filled_quantity :: "string option"
  ta_avg_fill_price :: "string option"

definition no_args :: transition_args where
  "no_args = \<lparr>ta_exchange_order_id = None, ta_reject_reason = None, ta_filled_quantity = None,
              ta_avg_fill_price = None\<rparr>"

definition set_if :: "'v option \<Rightarrow> ('v \<Rightarrow> 'o \<Rightarrow> 'o) \<Rightarrow> 'o \<Rightarrow> 'o" where
  "set_if v f ord = (case v of None \<Rightarrow> ord | Some x \<Rightarrow> f x ord)"

definition force_transition :: "int \<Rightarrow> order_status \<Rightarrow> transition_args \<Rightarrow> order \<Rightarrow> order" where
  "force_transition now target args ord =
     (let ord = ord\<lparr>o_status := target, o_updated_ts := now\<rparr>;
          ord = set_if (ta_exchange_order_id args) (\<lambda>x. o_exchange_order_id_update (\<lambda>_. Some x)) ord;
          ord = set_if (ta_reject_reason args) (\<lambda>x. o_reject_reason_update (\<lambda>_. Some x)) ord;
          ord = set_if (ta_filled_quantity args) (\<lambda>x. o_filled_quantity_update (\<lambda>_. x)) ord;
          ord = set_if (ta_avg_fill_price args) (\<lambda>x. o_avg_fill_price_update (\<lambda>_. x)) ord
      in if target = OS_FILLED then ord\<lparr>o_filled_ts := Some now\<rparr> else ord)"

definition transition :: "int \<Rightarrow> order_status \<Rightarrow> transition_args \<Rightarrow> order \<Rightarrow> exn + order" where
  "transition now target args ord =
     (if can_transition ord target
      then
        (let ord = ord\<lparr>o_status := target, o_updated_ts := now\<rparr>;
             ord = set_if (ta_exchange_order_id args) (\<lambda>x. o_exchange_order_id_update (\<lambda>_. Some x)) ord;
             ord = set_if (ta_reject_reason args) (\<lambda>x. o_reject_reason_update (\<lambda>_. Some x)) ord;
             ord = set_if (ta_filled_quantity args) (\<lambda>x. o_filled_quantity_update (\<lambda>_. x)) ord;
             ord = set_if (ta_avg_fill_price args) (\<lambda>x. o_avg_fill_price_update (\<lambda>_. x)) ord
         in Inr (if target = OS_FILLED then ord\<lparr>o_filled_ts := Some now\<rparr> else ord))
      else Inl (InvalidTransitionError (o_status ord) target))"

text \<open>Deprecated: the method raises before it reads the event.\<close>

definition apply_execution_event :: "json_obj \<Rightarrow> order \<Rightarrow> exn + bool" where
  "apply_execution_event order_event ord = Inl NotImplementedError"

section \<open>Conditional orders\<close>

fun ALLOWED_TRANSITIONS :: "conditional_status option \<Rightarrow> conditional_status set" where
  "ALLOWED_TRANSITIONS None =
     {CS_NEW, CS_ACTIVE, CS_TRIGGERED, CS_FINISHED, CS_CANCELLED, CS_EXPIRED, CS_REJECTED,
      CS_UNKNOWN}"
| "ALLOWED_TRANSITIONS (Some CS_NEW) =
     {CS_ACTIVE, CS_TRIGGERED, CS_CANCELLED, CS_EXPIRED, CS_REJECTED, CS_UNKNOWN}"
| "ALLOWED_TRANSITIONS (Some CS_ACTIVE) =
     {CS_TRIGGERED, CS_CANCELLED, CS_EXPIRED, CS_REJECTED, CS_UNKNOWN}"
| "ALLOWED_TRANSITIONS (Some CS_TRIGGERED) = {CS_FINISHED, CS_EXPIRED, CS_REJECTED, CS_UNKNOWN}"
| "ALLOWED_TRANSITIONS (Some CS_UNKNOWN) =
     {CS_NEW, CS_ACTIVE, CS_TRIGGERED, CS_FINISHED, CS_CANCELLED, CS_EXPIRED, CS_REJECTED}"
| "ALLOWED_TRANSITIONS (Some CS_FINISHED) = {}"
| "ALLOWED_TRANSITIONS (Some CS_CANCELLED) = {}"
| "ALLOWED_TRANSITIONS (Some CS_EXPIRED) = {}"
| "ALLOWED_TRANSITIONS (Some CS_REJECTED) = {}"

definition cond_is_terminal :: "conditional_status option \<Rightarrow> bool" where
  "cond_is_terminal current = (current \<in> Some ` CONDITIONAL_TERMINAL_STATUSES)"

definition cond_can_transition :: "conditional_status option \<Rightarrow> conditional_status \<Rightarrow> bool" where
  "cond_can_transition current target =
     (current = Some target \<or> target \<in> ALLOWED_TRANSITIONS current)"

definition cond_assert_can_transition ::
  "conditional_status option \<Rightarrow> conditional_status \<Rightarrow> exn + unit" where
  "cond_assert_can_transition current target =
     (if cond_can_transition current target then Inr ()
      else Inl (InvalidConditionalTransitionError current target))"

section \<open>Lifecycles\<close>

text \<open>One accepted transition of the status, and the lifecycles it allows.\<close>

inductive status_step :: "order_status \<Rightarrow> order_status \<Rightarrow> bool" where
  status_step: "t \<in> VALID_TRANSITIONS s \<Longrightarrow> status_step s t"

inductive_cases status_stepE: "status_step s t"
inductive_simps status_step_iff: "status_step s t"

inductive cond_step :: "conditional_status option \<Rightarrow> conditional_status option \<Rightarrow> bool" where
  cond_step: "cond_can_transition s t \<Longrightarrow> cond_step s (Some t)"

inductive_cases cond_stepE: "cond_step s t"

definition lifecycle :: "order_status \<Rightarrow> order_status \<Rightarrow> bool" where
  "lifecycle = status_step\<^sup>*\<^sup>*"

lemma terminal_no_transition:
  "s \<in> TERMINAL_STATUSES \<longleftrightarrow> VALID_TRANSITIONS s = {}"
  by (cases s) (simp_all add: TERMINAL_STATUSES_def)

lemma cond_terminal_no_transition:
  "s \<in> CONDITIONAL_TERMINAL_STATUSES \<longleftrightarrow> ALLOWED_TRANSITIONS (Some s) = {}"
  by (cases s) (simp_all add: CONDITIONAL_TERMINAL_STATUSES_def)

lemma lifecycle_from_terminal: "lifecycle s t \<Longrightarrow> s \<in> TERMINAL_STATUSES \<Longrightarrow> t = s"
  unfolding lifecycle_def
  by (induction rule: converse_rtranclp_induct)
    (auto simp: terminal_no_transition elim!: status_stepE)

text \<open>
  Every status that is reached from \<open>PENDING_NEW\<close> without passing \<open>SUBMITTED\<close> is a
  rejection or an unresolved reconciliation: what the exchange reports needs a submission.
\<close>

inductive unsent_path :: "order_status \<Rightarrow> order_status \<Rightarrow> bool" where
  unsent_refl: "unsent_path s s"
| unsent_step: "unsent_path s t \<Longrightarrow> status_step t u \<Longrightarrow> u \<noteq> OS_SUBMITTED \<Longrightarrow> unsent_path s u"

lemma unsent_path_statuses:
  "unsent_path s t \<Longrightarrow> s = OS_PENDING_NEW \<Longrightarrow>
     t \<in> {OS_PENDING_NEW, OS_REJECTED, OS_RECONCILE_UNRESOLVED}"
  by (induction rule: unsent_path.induct) (auto elim!: status_stepE)

lemma SUBMITTED_only_from_PENDING_NEW: "status_step s OS_SUBMITTED \<longleftrightarrow> s = OS_PENDING_NEW"
  by (cases s) (auto simp: status_step_iff)

lemma no_return_to_PENDING_NEW: "\<not> status_step s OS_PENDING_NEW"
  by (cases s) (auto simp: status_step_iff)

text \<open>
  The only cycles are repeated partial fills and the loops through \<open>PENDING_CANCEL\<close> and
  \<open>UNKNOWN\<close>: a rank on the rest strictly grows.
\<close>

fun open_class :: "order_status \<Rightarrow> nat" where
  "open_class OS_PENDING_NEW = 0"
| "open_class OS_SUBMITTED = 1"
| "open_class OS_ACKNOWLEDGED = 2"
| "open_class OS_PARTIALLY_FILLED = 2"
| "open_class OS_PENDING_CANCEL = 2"
| "open_class OS_UNKNOWN = 2"
| "open_class _ = 3"

lemma status_step_class: "status_step s t \<Longrightarrow> open_class s \<le> open_class t"
  by (cases s) (auto elim!: status_stepE)

lemma status_step_class_strict:
  "status_step s t \<Longrightarrow> open_class s \<noteq> 2 \<Longrightarrow> open_class s < open_class t"
  by (cases s) (auto elim!: status_stepE)

section \<open>What a transition changes\<close>

lemma set_if_None [simp]: "set_if None f ord = ord"
  and set_if_Some [simp]: "set_if (Some x) f ord = f x ord"
  by (simp_all add: set_if_def)

lemma transition_force:
  "transition now target args ord =
     (if can_transition ord target then Inr (force_transition now target args ord)
      else Inl (InvalidTransitionError (o_status ord) target))"
  by (simp add: transition_def force_transition_def Let_def)

lemma force_transition_status [simp]: "o_status (force_transition now target args ord) = target"
  by (simp add: force_transition_def Let_def set_if_def split: option.split)

lemma force_transition_updated_ts [simp]:
  "o_updated_ts (force_transition now target args ord) = now"
  by (simp add: force_transition_def Let_def set_if_def split: option.split)

lemma force_transition_version [simp]:
  "o_version (force_transition now target args ord) = o_version ord"
  by (simp add: force_transition_def Let_def set_if_def split: option.split)

lemma transition_status_step:
  "transition now target args ord = Inr ord' \<Longrightarrow> status_step (o_status ord) (o_status ord')"
  by (auto simp: transition_force can_transition_def status_step_iff split: if_splits)

section \<open>Runs of the machines\<close>

text \<open>A machine driven through a list of transitions, stopping at the first it refuses.\<close>

primrec run_transitions ::
  "(int \<times> order_status \<times> transition_args) list \<Rightarrow> order \<Rightarrow> exn + order" where
  "run_transitions [] ord = Inr ord"
| "run_transitions (x # xs) ord =
     sum_bind (transition (fst x) (fst (snd x)) (snd (snd x)) ord) (run_transitions xs)"

definition targets :: "(int \<times> order_status \<times> transition_args) list \<Rightarrow> order_status list" where
  "targets xs = map (\<lambda>x. fst (snd x)) xs"

primrec run_conditional :: "conditional_status list \<Rightarrow> conditional_status option \<Rightarrow> exn + conditional_status option" where
  "run_conditional [] cur = Inr cur"
| "run_conditional (t # ts) cur = sum_bind (cond_assert_can_transition cur t) (\<lambda>_. run_conditional ts (Some t))"

lemma run_ConsE:
  assumes "run_transitions (x # xs) ord = Inr ord'"
  obtains mid where "transition (fst x) (fst (snd x)) (snd (snd x)) ord = Inr mid"
    and "o_status mid = fst (snd x)" and "status_step (o_status ord) (o_status mid)"
    and "run_transitions xs mid = Inr ord'"
proof -
  obtain mid where mid: "transition (fst x) (fst (snd x)) (snd (snd x)) ord = Inr mid"
    "run_transitions xs mid = Inr ord'"
    using assms by (auto simp: sum_bind_Inr_iff)
  moreover have "o_status mid = fst (snd x)"
    using mid(1) by (auto simp: transition_force split: if_splits)
  ultimately show ?thesis using that transition_status_step by blast
qed

lemma run_from_terminal:
  assumes "run_transitions xs ord = Inr ord'" and "o_status ord \<in> TERMINAL_STATUSES"
  shows "xs = []"
  using assms by (cases xs) (auto elim!: run_ConsE status_stepE simp: terminal_no_transition simp del: run_transitions.simps)

lemma run_no_resubmit:
  assumes "run_transitions xs ord = Inr ord'" and "o_status ord \<noteq> OS_PENDING_NEW"
  shows "OS_SUBMITTED \<notin> set (targets xs)"
  using assms
proof (induction xs arbitrary: ord)
  case (Cons x xs)
  obtain mid where mid: "o_status mid = fst (snd x)" "status_step (o_status ord) (o_status mid)"
    "run_transitions xs mid = Inr ord'"
    using Cons.prems(1) by (rule run_ConsE)
  have "o_status mid \<noteq> OS_SUBMITTED" "o_status mid \<noteq> OS_PENDING_NEW"
    using mid(2) Cons.prems(2) by (metis SUBMITTED_only_from_PENDING_NEW, metis no_return_to_PENDING_NEW)
  with Cons.IH [OF mid(3)] mid(1) show ?case by (simp add: targets_def)
qed (simp add: targets_def)

lemma run_terminal_last:
  assumes "run_transitions xs ord = Inr ord'" and "k < length xs" and "targets xs ! k \<in> TERMINAL_STATUSES"
  shows "Suc k = length xs"
  using assms
proof (induction xs arbitrary: ord k)
  case (Cons x xs)
  obtain mid where mid: "o_status mid = fst (snd x)" "run_transitions xs mid = Inr ord'"
    using Cons.prems(1) by (rule run_ConsE)
  show ?case
  proof (cases k)
    case 0
    then have "xs = []" using Cons.prems(3) mid run_from_terminal by (simp add: targets_def)
    with 0 show ?thesis by simp
  next
    case (Suc j)
    with Cons.IH [OF mid(2), of j] Cons.prems show ?thesis by (simp add: targets_def)
  qed
qed simp

lemma run_conditional_terminal:
  "run_conditional ts (Some c) = Inr r \<Longrightarrow> c \<in> CONDITIONAL_TERMINAL_STATUSES \<Longrightarrow> set ts \<subseteq> {c} \<and> r = Some c"
proof (induction ts)
  case (Cons t ts)
  then have "t = c"
    by (auto simp: sum_bind_Inr_iff cond_assert_can_transition_def cond_can_transition_def
        cond_terminal_no_transition split: if_splits)
  with Cons show ?case by (auto simp: sum_bind_Inr_iff)
qed simp

section \<open>Properties\<close>

text \<open>A new order that the machine drives through any accepted list of transitions is
  submitted at most once and before anything else the exchange could report: either nothing
  happened, or the first transition is \<open>SUBMITTED\<close> and no later one is, or the order went straight
  to a rejection or an unresolved reconciliation.  A terminal status is always the last one.\<close>

lemma accepted_run_shape:
  assumes "run_transitions xs ord = Inr ord'" and "o_status ord = OS_PENDING_NEW"
  shows "(xs = [] \<or> targets xs \<in> {[OS_REJECTED], [OS_RECONCILE_UNRESOLVED]} \<or>
      (hd (targets xs) = OS_SUBMITTED \<and> OS_SUBMITTED \<notin> set (tl (targets xs)))) \<and>
    (\<forall>k<length xs. targets xs ! k \<in> TERMINAL_STATUSES \<longrightarrow> Suc k = length xs)"
proof
  show "\<forall>k<length xs. targets xs ! k \<in> TERMINAL_STATUSES \<longrightarrow> Suc k = length xs"
    using run_terminal_last [OF assms(1)] by blast
  show "xs = [] \<or> targets xs \<in> {[OS_REJECTED], [OS_RECONCILE_UNRESOLVED]} \<or>
      (hd (targets xs) = OS_SUBMITTED \<and> OS_SUBMITTED \<notin> set (tl (targets xs)))"
  proof (cases xs)
    case (Cons x ys)
    obtain mid where mid: "o_status mid = fst (snd x)" "status_step (o_status ord) (o_status mid)"
      "run_transitions ys mid = Inr ord'"
      using assms(1) unfolding Cons by (rule run_ConsE)
    then have "fst (snd x) \<in> {OS_SUBMITTED, OS_REJECTED, OS_RECONCILE_UNRESOLVED}"
      using assms(2) by (auto elim!: status_stepE)
    then show ?thesis
    proof
      assume "fst (snd x) = OS_SUBMITTED"
      with run_no_resubmit [OF mid(3)] mid(1) Cons show ?thesis by (simp add: targets_def)
    next
      assume "fst (snd x) \<in> {OS_REJECTED, OS_RECONCILE_UNRESOLVED}"
      moreover from this have "ys = []"
        using run_from_terminal [OF mid(3)] mid(1) by (auto simp: TERMINAL_STATUSES_def)
      ultimately show ?thesis using Cons by (auto simp: targets_def)
    qed
  qed simp
qed

definition fill_run :: "(int \<times> order_status \<times> transition_args) list" where
  "fill_run = [(1, OS_SUBMITTED, no_args), (2, OS_ACKNOWLEDGED, no_args), (3, OS_FILLED, no_args)]"

text \<open>The conditional machine never leaves a terminal conditional status: after it, the only
  status a run accepts is that status again, and the run ends in it.\<close>

lemma conditional_terminal_final:
  assumes "run_conditional (ts @ c # us) cur = Inr r" and "c \<in> CONDITIONAL_TERMINAL_STATUSES"
  shows "set us \<subseteq> {c} \<and> r = Some c"
proof -
  from assms(1) have "run_conditional us (Some c) = Inr r"
    by (induction ts arbitrary: cur) (auto simp: sum_bind_Inr_iff)
  then show ?thesis using assms(2) by (rule run_conditional_terminal)
qed

end
