(* ===== verification/StoreInvariant.thy ===== *)
theory StoreInvariant
  imports Store OrderMachines
begin

text \<open>
  What all store programs keep.  \<open>gw_inv\<close>: the two tables agree on their keys, every row lies
  under its id, the outbox events of an order replay to its row's status and version, and a live
  hash in Redis is a copy of the row as it is or was.  \<open>evolves T\<close>: rows stay, keep their
  identity, get newer versions, change only with a new version, and move their status along \<open>T\<close>;
  the outbox only grows.  \<open>seen s ord\<close>: an order object in memory that was read from, or written
  to, the stores: the row may have moved on, but then its version has, too.
\<close>

section \<open>Identity of an order\<close>

definition identity ::
  "'a orders_row_scheme \<Rightarrow>
     string \<times> exchange \<times> market_type \<times> order_side \<times> order_type \<times> order_route option" where
  "identity ord =
     (o_order_id ord, o_exchange ord, o_market_type ord, o_side ord, o_order_type ord,
      o_order_route ord)"

lemma identity_eq:
  "identity a = identity b \<longleftrightarrow>
     o_order_id a = o_order_id b \<and> o_exchange a = o_exchange b \<and> o_market_type a = o_market_type b \<and>
     o_side a = o_side b \<and> o_order_type a = o_order_type b \<and> o_order_route a = o_order_route b"
  by (simp add: identity_def)

definition snapshot_of :: "'a orders_row_scheme \<Rightarrow> 'b orders_row_scheme \<Rightarrow> bool" where
  "snapshot_of row ord \<longleftrightarrow>
     identity ord = identity row \<and> o_version ord \<le> o_version row \<and>
     (o_version ord = o_version row \<longrightarrow>
        o_status ord = o_status row \<and> o_conditional_status ord = o_conditional_status row)"

text \<open>The fields every write of a live hash replaces.\<close>

definition KEY_FIELDS :: "string set" where
  "KEY_FIELDS = {''order_id'', ''version'', ''status'', ''conditional_status'', ''exchange'',
     ''market_type'', ''side'', ''order_type'', ''order_route''}"

definition agrees :: "live_hash \<Rightarrow> order \<Rightarrow> bool" where
  "agrees f ord = (\<forall>k\<in>KEY_FIELDS. f k = order_hash ord k)"

definition coherent :: "orders_row \<Rightarrow> live_hash \<Rightarrow> bool" where
  "coherent row f = (\<exists>ord. snapshot_of row ord \<and> agrees f ord \<and> o_order_route ord \<noteq> None)"

section \<open>Invariant and evolution\<close>

fun entry_ok :: "outbox \<Rightarrow> redis \<Rightarrow> string \<Rightarrow> orders_row option \<Rightarrow> bool" where
  "entry_ok ob rd i None \<longleftrightarrow> order_events i ob = [] \<and> rd_live rd i = None"
| "entry_ok ob rd i (Some row) \<longleftrightarrow>
     replay i ob = Some (o_status row, o_version row) \<and>
     (\<forall>f. rd_live rd i = Some f \<longrightarrow> coherent row f)"

definition row_ok :: "string \<Rightarrow> 'a orders_row_scheme \<Rightarrow> bool" where
  "row_ok i row \<longleftrightarrow> o_order_id row = i \<and> i \<noteq> [] \<and> o_order_route row \<noteq> None"

definition tables_ok ::
  "(string \<Rightarrow> orders_row option) \<Rightarrow> string list \<Rightarrow> (string \<Rightarrow> order option) \<Rightarrow> bool" where
  "tables_ok orders keys intents \<longleftrightarrow>
     (\<forall>i. (orders i = None) = (intents i = None)) \<and>
     (\<forall>i row. orders i = Some row \<longrightarrow> row_ok i row) \<and>
     set keys = dom orders \<and> distinct keys"

lemma tables_ok_insert:
  assumes "tables_ok orders keys intents" and "orders i = None" and "row_ok i row"
  shows "tables_ok (orders(i \<mapsto> row)) (keys @ [i]) (intents(i \<mapsto> ord))"
proof -
  have keys: "set keys = dom orders" "distinct keys" using assms(1) by (simp_all add: tables_ok_def)
  have "i \<notin> dom orders" using assms(2) by (simp add: domIff)
  with keys have "set (keys @ [i]) = dom (orders(i \<mapsto> row))" "distinct (keys @ [i])" by auto
  moreover have "((orders(i \<mapsto> row)) j = None) = ((intents(i \<mapsto> ord)) j = None)" for j
    using assms(1) by (simp add: tables_ok_def)
  moreover have "row_ok j r" if "(orders(i \<mapsto> row)) j = Some r" for j r
    using assms(1,3) that by (auto simp: tables_ok_def split: if_splits)
  ultimately show ?thesis unfolding tables_ok_def by blast
qed

lemma tables_ok_update:
  assumes "tables_ok orders keys intents" and "orders i = Some row" and "row_ok i row'"
  shows "tables_ok (orders(i \<mapsto> row')) keys intents"
proof -
  have "dom (orders(i \<mapsto> row')) = dom orders" using assms(2) by auto
  moreover have "((orders(i \<mapsto> row')) j = None) = (intents j = None)" for j
    using assms(1,2) by (metis fun_upd_apply option.distinct(1) tables_ok_def)
  ultimately show ?thesis using assms by (simp add: tables_ok_def)
qed

definition gw_inv :: "world \<Rightarrow> bool" where
  "gw_inv s \<longleftrightarrow>
     tables_ok (w_orders s) (w_order_keys s) (w_intents s) \<and>
     (\<forall>i. entry_ok (w_outbox s) (w_redis s) i (w_orders s i))"

type_synonym status_rel = "order_status \<Rightarrow> order_status \<Rightarrow> bool"

definition row_evolves :: "status_rel \<Rightarrow> orders_row \<Rightarrow> orders_row \<Rightarrow> bool" where
  "row_evolves T row row' \<longleftrightarrow>
     identity row' = identity row \<and> o_version row \<le> o_version row' \<and>
     (o_version row' = o_version row \<longrightarrow> row' = row) \<and> T\<^sup>*\<^sup>* (o_status row) (o_status row')"

definition evolves :: "status_rel \<Rightarrow> world \<Rightarrow> world \<Rightarrow> bool" where
  "evolves T s t \<longleftrightarrow>
     (\<forall>i row. w_orders s i = Some row \<longrightarrow>
        (\<exists>row'. w_orders t i = Some row' \<and> row_evolves T row row') \<and> w_intents t i = w_intents s i \<and>
        (\<exists>ps. order_events i (w_outbox t) = order_events i (w_outbox s) @ ps))"

definition seen :: "world \<Rightarrow> order \<Rightarrow> bool" where
  "seen s ord = (\<exists>row. w_orders s (o_order_id ord) = Some row \<and> snapshot_of row ord)"

lemma row_evolves_refl [simp]: "row_evolves T row row"
  by (simp add: row_evolves_def)

lemma row_evolves_trans:
  "row_evolves T a b \<Longrightarrow> row_evolves T b c \<Longrightarrow> row_evolves T a c"
  by (auto simp: row_evolves_def)

lemma evolves_refl: "evolves T s s"
  by (simp add: evolves_def)

lemma evolves_trans: "evolves T s t \<Longrightarrow> evolves T t u \<Longrightarrow> evolves T s u"
  unfolding evolves_def by (metis append.assoc row_evolves_trans)

interpretation gw: guarded_evolution gw_inv "evolves T"
  by unfold_locales (auto simp: evolves_refl intro: evolves_trans)

lemma evolvesD:
  assumes "evolves T s t" and "w_orders s i = Some row"
  obtains row' where "w_orders t i = Some row'" and "row_evolves T row row'"
  using assms by (auto simp: evolves_def)

lemma snapshot_evolves: "snapshot_of row ord \<Longrightarrow> row_evolves T row row' \<Longrightarrow> snapshot_of row' ord"
  by (auto simp: snapshot_of_def row_evolves_def)

lemma seen_stable [simp, intro]: "stable gw_inv (evolves T) (\<lambda>s. seen s ord)"
proof -
  have "seen t ord" if "evolves T s t" "seen s ord" for s t
  proof -
    from that(2) obtain row where row: "w_orders s (o_order_id ord) = Some row" "snapshot_of row ord"
      by (auto simp: seen_def)
    from evolvesD [OF that(1) row(1)] row(2) show ?thesis
      by (metis seen_def snapshot_evolves)
  qed
  then show ?thesis by (auto simp: stable_def)
qed

lemmas stable_rules = stable_conj stable_True stable_pure stable_imp_pure stable_Ball stable_all seen_stable

text \<open>Changes outside the tables, the outbox and Redis.\<close>

definition same_store :: "world \<Rightarrow> world \<Rightarrow> bool" where
  "same_store s t \<longleftrightarrow>
     w_orders t = w_orders s \<and> w_order_keys t = w_order_keys s \<and> w_intents t = w_intents s \<and>
     w_outbox t = w_outbox s \<and> w_redis t = w_redis s"

lemma same_store_refl [simp]: "same_store s s"
  by (simp add: same_store_def)

lemma same_store_inv: "same_store s t \<Longrightarrow> gw_inv t = gw_inv s"
  by (simp add: same_store_def gw_inv_def)

lemma same_store_evolves: "same_store s t \<Longrightarrow> evolves T s t"
  by (simp add: same_store_def evolves_def)

lemma same_store_seen: "same_store s t \<Longrightarrow> seen t = seen s"
  by (simp add: same_store_def seen_def fun_eq_iff)

lemma same_store_joined: "same_store s t \<Longrightarrow> joined_order t = joined_order s"
  by (simp add: same_store_def joined_order_def fun_eq_iff)

lemma safe_same_store:
  assumes "\<And>s r t. m s = (r, t) \<Longrightarrow> gw_inv s \<Longrightarrow> P s \<Longrightarrow>
             same_store s t \<and> (\<forall>x. r = Inr x \<longrightarrow> Q x t)"
  shows "safe gw_inv (evolves T) P m Q"
proof (rule safeI)
  fix s r t
  assume "gw_inv s" and "P s" and "m s = (r, t)"
  with assms [of s r t] same_store_inv [of s t] same_store_evolves [of s t T]
  show "gw_inv t \<and> evolves T s t \<and> (\<forall>x. r = Inr x \<longrightarrow> Q x t)" by blast
qed

lemma epoch_ms_safe [safe_intros]: "safe gw_inv (evolves T) P epoch_ms (\<lambda>_ _. True)"
  by (rule safe_same_store) (auto simp: epoch_ms_def same_store_def)

lemma build_order_same_store:
  "build_order ord s = (r, t) \<Longrightarrow> same_store s t"
  by (auto simp: build_order_def Let_def same_store_def split: sum.splits if_splits)

lemma pg_read_run:
  "pg_read f s = (r, t) \<Longrightarrow> same_store s t \<and> (\<forall>x. r = Inr x \<longrightarrow> x = f (s\<lparr>w_pg_calls := Suc (w_pg_calls s)\<rparr>))"
  by (auto simp: pg_read_def pg_transaction_def Let_def prog_simps same_store_def split: if_splits)

lemma redis_read_run:
  "redis_read f s = (r, t) \<Longrightarrow> same_store s t \<and> (\<forall>x. r = Inr x \<longrightarrow> x = f (w_redis s))"
  by (auto simp: redis_read_def redis_call_def Let_def same_store_def split: if_splits)

section \<open>Validation keeps what identifies an order\<close>

lemma check_route_Inr: "check_route ty r = Inr r' \<Longrightarrow> r' = Some (infer_order_route ty) \<and> (r = None \<or> r' = r)"
  by (auto simp: check_route_def split: if_splits)

lemma check_order_fields_keeps:
  "check_order_fields ord = Inr ord' \<Longrightarrow>
     identity ord' = identity ord \<and> o_version ord' = o_version ord \<and> o_status ord' = o_status ord \<and>
     o_conditional_status ord' = o_conditional_status ord"
  by (auto simp: check_order_fields_def sum_bind_Inr_iff identity_def)

lemma fill_order_ids_keeps:
  "o_order_id (fill_order_ids n ord) = (if o_order_id ord = [] then n else o_order_id ord)"
  "o_exchange (fill_order_ids n ord) = o_exchange ord"
  "o_market_type (fill_order_ids n ord) = o_market_type ord"
  "o_side (fill_order_ids n ord) = o_side ord"
  "o_order_type (fill_order_ids n ord) = o_order_type ord"
  "o_order_route (fill_order_ids n ord) = o_order_route ord"
  "o_version (fill_order_ids n ord) = o_version ord"
  "o_status (fill_order_ids n ord) = o_status ord"
  "o_conditional_status (fill_order_ids n ord) = o_conditional_status ord"
  by (simp_all add: fill_order_ids_def Let_def)

lemma normalize_order_keeps:
  assumes "normalize_order_after_validation n ord = Inr ord'"
  shows "o_order_id ord' = (if o_order_id ord = [] then n else o_order_id ord)"
    and "o_exchange ord' = o_exchange ord" and "o_market_type ord' = o_market_type ord"
    and "o_side ord' = o_side ord" and "o_order_type ord' = o_order_type ord"
    and "o_order_route ord' = Some (infer_order_route (o_order_type ord))"
    and "o_order_route ord = None \<or> o_order_route ord' = o_order_route ord"
    and "o_version ord' = o_version ord" and "o_status ord' = o_status ord"
    and "o_conditional_status ord' = o_conditional_status ord"
  using assms
  by (auto simp: normalize_order_after_validation_def Let_def sum_bind_Inr_iff fill_order_ids_keeps
      dest: check_route_Inr)

lemma map_sum_Inr: "map_sum f id r = Inr x \<longleftrightarrow> r = Inr x"
  by (cases r) auto

lemma validate_order_keeps:
  assumes "validate_order n ord = Inr ord'"
  shows "o_order_id ord' = (if o_order_id ord = [] then n else o_order_id ord)"
    and "o_order_id ord \<noteq> [] \<Longrightarrow> o_order_route ord \<noteq> None \<Longrightarrow> identity ord' = identity ord"
    and "o_order_route ord' \<noteq> None"
    and "o_version ord' = o_version ord" and "o_status ord' = o_status ord"
    and "o_conditional_status ord' = o_conditional_status ord"
proof -
  from assms obtain mid where mid: "check_order_fields ord = Inr mid"
    "normalize_order_after_validation n mid = Inr ord'"
    by (auto simp: validate_order_def sum_bind_Inr_iff map_sum_Inr)
  note a = check_order_fields_keeps [OF mid(1)] and b = normalize_order_keeps [OF mid(2)]
  from a have id: "identity mid = identity ord" by simp
  show "o_order_id ord' = (if o_order_id ord = [] then n else o_order_id ord)"
    using id b(1) by (simp add: identity_eq)
  show "o_order_id ord \<noteq> [] \<Longrightarrow> o_order_route ord \<noteq> None \<Longrightarrow> identity ord' = identity ord"
    using id b by (auto simp: identity_eq)
  show "o_order_route ord' \<noteq> None" using b(6) by simp
  show "o_version ord' = o_version ord" "o_status ord' = o_status ord"
    "o_conditional_status ord' = o_conditional_status ord"
    using a b by simp_all
qed

lemma snapshot_of_same:
  "snapshot_of row ord \<Longrightarrow> identity ord' = identity ord \<Longrightarrow> o_version ord' = o_version ord \<Longrightarrow>
   o_status ord' = o_status ord \<Longrightarrow> o_conditional_status ord' = o_conditional_status ord \<Longrightarrow>
   snapshot_of row ord'"
  by (simp add: snapshot_of_def)

end
