(* ===== verification/OrderState.thy ===== *)
theory OrderState
  imports StoreInvariant
begin

text \<open>
  \<open>services/order_state_service.py\<close>: the service every status change goes through.  PostgreSQL
  is written first, in one transaction with the outbox event; the Redis projection follows, and only
  \<open>create_order\<close> lets its failure out.  Each operation comes with its rule of the \<open>safe\<close>
  judgement.
\<close>

section \<open>The service\<close>

definition redis_save :: "order \<Rightarrow> bool wprog" where
  "redis_save ord = redis_call (upsert_projection_if_newer ord)"

definition refresh_order_projection :: "order \<Rightarrow> bool wprog" where
  "refresh_order_projection ord = redis_save ord"

text \<open>\<open>try: await self.refresh_order_projection(order) except Exception: log\<close>.\<close>

definition try_refresh :: "order \<Rightarrow> unit wprog" where
  "try_refresh ord = catch (andThen (refresh_order_projection ord) (\<lambda>_. ret ())) (\<lambda>_. ret ())"

definition create_transaction :: "order \<Rightarrow> unit wprog" where
  "create_transaction ord = pg_transaction
     (andThen (intent_insert ord) (\<lambda>_.
      andThen (insert_initial ord) (\<lambda>_.
      outbox_write (o_order_id ord) ''ORDER_CREATED'' (OrderCreated ord) (o_created_ts ord))))"

definition create_order :: "order \<Rightarrow> order wprog" where
  "create_order ord =
     andThen (create_transaction ord) (\<lambda>_.
     andThen (redis_save ord) (\<lambda>_.
     ret ord))"

definition transition_transaction :: "order \<Rightarrow> order \<Rightarrow> order wprog" where
  "transition_transaction current_order updated_order = pg_transaction
     (andThen (repo_transition updated_order (o_version current_order)) (\<lambda>updated_row.
      let persisted = updated_order\<lparr>o_version := o_version updated_row\<rparr> in
      andThen (outbox_write (o_order_id persisted) ''ORDER_STATUS_CHANGED''
                 (OrderStatusChanged (o_status current_order) persisted) (o_updated_ts persisted)) (\<lambda>_.
      ret persisted)))"

definition transition_order :: "order \<Rightarrow> order \<Rightarrow> order wprog" where
  "transition_order current_order updated_order =
     andThen (transition_transaction current_order updated_order) (\<lambda>persisted.
     andThen (try_refresh persisted) (\<lambda>_.
     ret persisted))"

definition refresh_when :: "bool \<Rightarrow> order \<Rightarrow> unit wprog" where
  "refresh_when refresh ord = (if refresh then try_refresh ord else ret ())"

definition load_order_from_postgres :: "string \<Rightarrow> bool \<Rightarrow> order option wprog" where
  "load_order_from_postgres i refresh =
     andThen (get_joined_order i) (\<lambda>row. case row of
       None \<Rightarrow> ret None
     | Some data \<Rightarrow>
         andThen (build_order data) (\<lambda>ord.
         andThen (refresh_when refresh ord) (\<lambda>_.
         ret (Some ord))))"

definition load_orders_from_postgres :: "string list \<Rightarrow> bool \<Rightarrow> (string \<Rightarrow> order option) wprog" where
  "load_orders_from_postgres ids refresh =
     (if ids = [] then ret (\<lambda>_. None)
      else andThen (get_joined_orders_by_ids ids) (\<lambda>rows.
        foldE (\<lambda>row result.
          catch
            (andThen (build_order row) (\<lambda>ord.
             if o_order_id ord = [] then ret result
             else andThen (refresh_when refresh ord) (\<lambda>_. ret (result(o_order_id ord \<mapsto> ord)))))
            (\<lambda>_. ret result))
          rows (\<lambda>_. None)))"

definition load_order :: "string \<Rightarrow> bool \<Rightarrow> order option wprog" where
  "load_order i refresh =
     andThen (redis_read (\<lambda>rd. rd_live rd i)) (\<lambda>data. case data of
       Some f \<Rightarrow>
         catch (andThen (liftSum (deserialize_order f)) (\<lambda>raw. andThen (build_order raw) (\<lambda>ord. ret (Some ord))))
           (\<lambda>_. load_order_from_postgres i refresh)
     | None \<Rightarrow> load_order_from_postgres i refresh)"

text \<open>\<open>[Order.model_validate(dict(row)) for row in rows]\<close>.\<close>

primrec build_orders :: "order list \<Rightarrow> order list wprog" where
  "build_orders [] = ret []"
| "build_orders (row # rows) =
     andThen (build_order row) (\<lambda>ord. andThen (build_orders rows) (\<lambda>ords. ret (ord # ords)))"

definition list_open_orders_by_symbol :: "exchange \<Rightarrow> market_type \<Rightarrow> string \<Rightarrow> bool \<Rightarrow> order list wprog" where
  "list_open_orders_by_symbol ex mt symb refresh =
     andThen (list_open_joined_by_symbol ex mt symb) (\<lambda>rows.
     andThen (build_orders rows) (\<lambda>orders.
     andThen (forEach (refresh_when refresh) orders) (\<lambda>_.
     ret orders)))"

definition list_open_orders :: "bool \<Rightarrow> order list wprog" where
  "list_open_orders refresh =
     andThen list_non_terminal_joined_orders (\<lambda>rows.
     andThen (build_orders rows) (\<lambda>orders.
     andThen (forEach (refresh_when refresh) orders) (\<lambda>_.
     ret orders)))"

text \<open>The loads by another column; the first two let a failing refresh out.\<close>

definition load_order_by ::
  "(exchange \<Rightarrow> market_type \<Rightarrow> string \<Rightarrow> order option wprog) \<Rightarrow> (order \<Rightarrow> unit wprog) \<Rightarrow>
     exchange \<Rightarrow> market_type \<Rightarrow> string \<Rightarrow> order option wprog" where
  "load_order_by lookup refresh ex mt value =
     andThen (lookup ex mt value) (\<lambda>row. case row of
       None \<Rightarrow> ret None
     | Some data \<Rightarrow>
         andThen (build_order data) (\<lambda>ord.
         andThen (refresh ord) (\<lambda>_.
         ret (Some ord))))"

definition strict_refresh :: "bool \<Rightarrow> order \<Rightarrow> unit wprog" where
  "strict_refresh refresh ord =
     (if refresh then andThen (refresh_order_projection ord) (\<lambda>_. ret ()) else ret ())"

definition load_order_by_exchange_order_id ::
  "exchange \<Rightarrow> market_type \<Rightarrow> string \<Rightarrow> bool \<Rightarrow> order option wprog" where
  "load_order_by_exchange_order_id ex mt v refresh =
     load_order_by get_by_exchange_order_id (strict_refresh refresh) ex mt v"

definition load_order_by_triggered_order_id ::
  "exchange \<Rightarrow> market_type \<Rightarrow> string \<Rightarrow> bool \<Rightarrow> order option wprog" where
  "load_order_by_triggered_order_id ex mt v refresh =
     load_order_by get_by_triggered_order_id (strict_refresh refresh) ex mt v"

definition load_order_by_client_conditional_id ::
  "exchange \<Rightarrow> market_type \<Rightarrow> string \<Rightarrow> bool \<Rightarrow> order option wprog" where
  "load_order_by_client_conditional_id ex mt v refresh =
     load_order_by get_by_client_conditional_id (refresh_when refresh) ex mt v"

definition load_order_by_exchange_conditional_id ::
  "exchange \<Rightarrow> market_type \<Rightarrow> string \<Rightarrow> bool \<Rightarrow> order option wprog" where
  "load_order_by_exchange_conditional_id ex mt v refresh =
     load_order_by get_by_exchange_conditional_id (refresh_when refresh) ex mt v"

section \<open>Projection writes\<close>

lemma key_field_stored: "k \<in> KEY_FIELDS \<Longrightarrow> o_order_route ord \<noteq> None \<Longrightarrow> \<exists>v. order_hash ord k = Some v"
  by (auto simp: KEY_FIELDS_def)

lemma from_order_route: "from_order ord = Inr es \<Longrightarrow> o_order_route ord \<noteq> None"
  by (auto simp: from_order_def from_source_def sum_bind_Inr_iff ORDER_FIELDS_def required_def payload_def
      split: option.splits if_splits)

lemma hset_agrees:
  assumes "from_order ord = Inr es"
  shows "agrees (hset es h) ord"
proof -
  have "order_hash ord \<subseteq>\<^sub>m hset es h" by (rule hset_hash [OF assms])
  moreover have "\<exists>v. order_hash ord k = Some v" if "k \<in> KEY_FIELDS" for k
    by (rule key_field_stored [OF that from_order_route [OF assms]])
  ultimately show ?thesis unfolding agrees_def map_le_def by (metis domI)
qed

lemma upsert_keeps_inv:
  assumes inv: "gw_inv s" and seen: "seen s ord"
    and up: "upsert_projection_if_newer ord (w_redis s) = (r, rd)"
  shows "gw_inv (s\<lparr>w_redis := rd\<rparr>)"
proof -
  obtain row where row: "w_orders s (o_order_id ord) = Some row" "snapshot_of row ord"
    using seen by (auto simp: seen_def)
  have live: "rd_live rd i = rd_live (w_redis s) i" if "i \<noteq> o_order_id ord" for i
    using upsert_other_hash [OF that] up by (metis snd_conv)
  have "coherent row f" if f: "rd_live rd (o_order_id ord) = Some f" for f
  proof (cases "\<exists>es. from_order ord = Inr es \<and>
      \<not> o_version ord \<le> current_version (rd_live (w_redis s) (o_order_id ord))")
    case True
    then obtain es where es: "from_order ord = Inr es"
      and "rd_live rd (o_order_id ord) = Some (hset es (rd_live (w_redis s) (o_order_id ord)))"
      using up by (auto simp: upsert_projection_if_newer_def)
    with f have "f = hset es (rd_live (w_redis s) (o_order_id ord))" by simp
    then show ?thesis
      using row(2) hset_agrees [OF es] from_order_route [OF es] by (auto simp: coherent_def)
  next
    case False
    then have "rd = w_redis s"
      using up by (cases "from_order ord") (auto simp: upsert_projection_if_newer_def)
    with f row(1) inv show ?thesis
      by (metis entry_ok.simps(2) gw_inv_def)
  qed
  then have "entry_ok (w_outbox s) rd i (w_orders s i)" for i
    using inv row(1) live [of i] by (cases "i = o_order_id ord"; cases "w_orders s i")
      (auto simp: gw_inv_def dest!: spec [of _ i])
  with inv show ?thesis by (simp add: gw_inv_def)
qed

lemma redis_save_safe [safe_intros]:
  "safe gw_inv (evolves T) (\<lambda>s. seen s ord) (redis_save ord) (\<lambda>_ _. True)"
proof (rule safeI)
  fix s r t
  assume inv: "gw_inv s" and seen: "seen s ord" and run: "redis_save ord s = (r, t)"
  let ?s = "s\<lparr>w_rd_calls := Suc (w_rd_calls s)\<rparr>"
  have s: "same_store s ?s" by (simp add: same_store_def)
  obtain q rd where up: "upsert_projection_if_newer ord (w_redis ?s) = (q, rd)"
    by (cases "upsert_projection_if_newer ord (w_redis ?s)") simp
  have t: "t = ?s \<or> t = ?s\<lparr>w_redis := rd\<rparr>"
    using run up by (auto simp: redis_save_def redis_call_def Let_def split: if_splits prod.splits)
  have inv': "gw_inv ?s" "seen ?s ord"
    using inv seen same_store_inv [OF s] same_store_seen [OF s] by simp_all
  have "gw_inv t" using t inv' upsert_keeps_inv [OF inv' up] by auto
  moreover have "evolves T s t" using t by (auto simp: evolves_def)
  ultimately show "gw_inv t \<and> evolves T s t \<and> (\<forall>x. r = Inr x \<longrightarrow> True)" by simp
qed

lemma refresh_safe [safe_intros]:
  "safe gw_inv (evolves T) (\<lambda>s. seen s ord) (refresh_order_projection ord) (\<lambda>_ _. True)"
  unfolding refresh_order_projection_def by (rule redis_save_safe)

lemma try_refresh_safe [safe_intros]:
  "safe gw_inv (evolves T) (\<lambda>s. seen s ord) (try_refresh ord) (\<lambda>_ _. True)"
  unfolding try_refresh_def
  by (intro gw.safe_catch gw.safe_andThen [OF refresh_safe] gw.safe_ret seen_stable) simp_all

lemma refresh_when_safe [safe_intros]:
  "safe gw_inv (evolves T) (\<lambda>s. seen s ord) (refresh_when b ord) (\<lambda>_ _. True)"
  unfolding refresh_when_def by (simp add: try_refresh_safe gw.safe_ret)

lemma strict_refresh_safe [safe_intros]:
  "safe gw_inv (evolves T) (\<lambda>s. seen s ord) (strict_refresh b ord) (\<lambda>_ _. True)"
  unfolding strict_refresh_def
  by (cases b) (auto intro!: gw.safe_andThen [OF refresh_safe] gw.safe_ret)

section \<open>Transactions\<close>

lemma gw_inv_row: "gw_inv s \<Longrightarrow> w_orders s i = Some row \<Longrightarrow>
    row_ok i row \<and> replay i (w_outbox s) = Some (o_status row, o_version row) \<and>
    (\<forall>f. rd_live (w_redis s) i = Some f \<longrightarrow> coherent row f)"
  by (metis entry_ok.simps(2) gw_inv_def tables_ok_def)

lemma gw_inv_no_row: "gw_inv s \<Longrightarrow> w_orders s i = None \<Longrightarrow>
    w_intents s i = None \<and> order_events i (w_outbox s) = [] \<and> rd_live (w_redis s) i = None"
  by (metis entry_ok.simps(1) gw_inv_def tables_ok_def)

lemma order_events_same: "order_events i (outbox_insert j ty p ts rows) =
    (if i = j then order_events i rows @ [p] else order_events i rows)"
  by (auto simp: order_events_insert)

definition created_world :: "order \<Rightarrow> world \<Rightarrow> world" where
  "created_world ord s = s
     \<lparr>w_pg_calls := Suc (w_pg_calls s),
      w_orders := (w_orders s)(o_order_id ord \<mapsto> orders_row.truncate ord),
      w_order_keys := w_order_keys s @ [o_order_id ord],
      w_intents := (w_intents s)(o_order_id ord \<mapsto> ord),
      w_outbox := outbox_insert (o_order_id ord) ''ORDER_CREATED'' (OrderCreated ord)
        (o_created_ts ord) (w_outbox s)\<rparr>"

lemma create_transaction_run:
  assumes "create_transaction ord s = (r, t)"
  shows "(\<exists>e. r = Inl e \<and> same_store s t) \<or>
    (r = Inr () \<and> w_orders s (o_order_id ord) = None \<and> t = created_world ord s)"
  using assms
  by (auto simp: create_transaction_def pg_transaction_def Let_def prog_simps intent_insert_def
      insert_initial_def outbox_write_def same_store_def created_world_def split: if_splits)

lemma truncate_keeps:
  "identity (orders_row.truncate ord) = identity ord"
  "o_version (orders_row.truncate ord) = o_version ord"
  "o_status (orders_row.truncate ord) = o_status ord"
  "o_conditional_status (orders_row.truncate ord) = o_conditional_status ord"
  "o_order_id (orders_row.truncate ord) = o_order_id ord"
  "row_ok i (orders_row.truncate ord) = row_ok i ord"
  by (simp_all add: orders_row.truncate_def identity_def row_ok_def)

lemma created_world_inv:
  assumes "gw_inv s" and "w_orders s (o_order_id ord) = None" and "row_ok (o_order_id ord) ord"
  shows "gw_inv (created_world ord s)"
proof -
  note none = gw_inv_no_row [OF assms(1,2)]
  have "tables_ok (w_orders s) (w_order_keys s) (w_intents s)" using assms(1) by (simp add: gw_inv_def)
  then have "tables_ok (w_orders (created_world ord s)) (w_order_keys (created_world ord s))
      (w_intents (created_world ord s))"
    using assms(2,3) by (simp add: created_world_def truncate_keeps tables_ok_insert)
  moreover have "entry_ok (w_outbox (created_world ord s)) (w_redis (created_world ord s)) i
      (w_orders (created_world ord s) i)" for i
  proof (cases "i = o_order_id ord")
    case True
    then show ?thesis using none by (simp add: created_world_def replay_created truncate_keeps)
  next
    case False
    have "entry_ok (w_outbox s) (w_redis s) i (w_orders s i)" using assms(1) by (simp add: gw_inv_def)
    with False show ?thesis
      by (cases "w_orders s i") (simp_all add: created_world_def order_events_same)
  qed
  ultimately show ?thesis by (simp add: gw_inv_def)
qed

lemma created_world_evolves:
  assumes "gw_inv s" and "w_orders s (o_order_id ord) = None"
  shows "evolves T s (created_world ord s)"
  using assms(2) by (auto simp: evolves_def created_world_def order_events_same)

lemma created_world_seen: "seen (created_world ord s) ord"
  by (auto simp: seen_def created_world_def snapshot_of_def truncate_keeps)

lemma create_order_safe [safe_intros]:
  assumes ok: "row_ok (o_order_id ord) ord"
  shows "safe gw_inv (evolves T) P (create_order ord) (\<lambda>ord' s. ord' = ord \<and> seen s ord)"
proof -
  have "safe gw_inv (evolves T) (\<lambda>_. True) (create_transaction ord) (\<lambda>_ s. seen s ord)"
  proof (rule safeI)
    fix s r t
    assume inv: "gw_inv s" and run: "create_transaction ord s = (r, t)"
    from create_transaction_run [OF run]
    show "gw_inv t \<and> evolves T s t \<and> (\<forall>x. r = Inr x \<longrightarrow> seen t ord)"
      using inv created_world_inv [OF _ _ ok] created_world_evolves created_world_seen
        same_store_inv same_store_evolves by blast
  qed
  moreover have "safe gw_inv (evolves T) (\<lambda>s. True \<and> seen s ord)
      (andThen (redis_save ord) (\<lambda>_. ret ord)) (\<lambda>ord' s. ord' = ord \<and> seen s ord)"
    by (rule gw.safe_andThen [where Q = "\<lambda>_ _. True"])
      (auto intro!: gw.safe_ret safe_pre [OF redis_save_safe])
  ultimately have "safe gw_inv (evolves T) (\<lambda>_. True) (create_order ord) (\<lambda>ord' s. ord' = ord \<and> seen s ord)"
    unfolding create_order_def by (rule gw.safe_andThen [OF _ stable_True])
  then show ?thesis by (rule safe_pre) simp
qed

definition transitioned_world :: "order \<Rightarrow> order \<Rightarrow> orders_row \<Rightarrow> world \<Rightarrow> world" where
  "transitioned_world cur upd row s = s
     \<lparr>w_pg_calls := Suc (w_pg_calls s),
      w_orders := (w_orders s)(o_order_id upd \<mapsto> transition_row upd row),
      w_outbox := outbox_insert (o_order_id upd) ''ORDER_STATUS_CHANGED''
        (OrderStatusChanged (o_status cur) (upd\<lparr>o_version := o_version row + 1\<rparr>))
        (o_updated_ts upd) (w_outbox s)\<rparr>"

lemma transition_row_keeps [simp]:
  "identity (transition_row upd row) = identity row"
  "o_version (transition_row upd row) = o_version row + 1"
  "o_status (transition_row upd row) = o_status upd"
  "o_conditional_status (transition_row upd row) = o_conditional_status upd"
  "o_order_id (transition_row upd row) = o_order_id row"
  "row_ok i (transition_row upd row) = row_ok i row"
  by (simp_all add: transition_row_def identity_def row_ok_def)

lemma transition_transaction_run:
  assumes "transition_transaction cur upd s = (r, t)"
  shows "(\<exists>e. r = Inl e \<and> same_store s t) \<or>
    (\<exists>row. w_orders s (o_order_id upd) = Some row \<and> o_version row = o_version cur \<and>
       r = Inr (upd\<lparr>o_version := o_version cur + 1\<rparr>) \<and> t = transitioned_world cur upd row s)"
  using assms
  by (auto simp: transition_transaction_def pg_transaction_def Let_def prog_simps repo_transition_def
      outbox_write_def same_store_def transitioned_world_def split: if_splits option.splits)

text \<open>What a transition asks of its arguments: the order it starts from was read from the stores,
  the new one is the same order, and \<open>T\<close> allows the change of status.\<close>

definition may_become :: "status_rel \<Rightarrow> order \<Rightarrow> order \<Rightarrow> bool" where
  "may_become T cur upd \<longleftrightarrow> identity upd = identity cur \<and> T\<^sup>*\<^sup>* (o_status cur) (o_status upd)"

lemma transitioned_world_ok:
  assumes inv: "gw_inv s" and seen: "seen s cur" and may: "may_become T cur upd"
    and row: "w_orders s (o_order_id upd) = Some row" and ver: "o_version row = o_version cur"
  shows "gw_inv (transitioned_world cur upd row s)" and "evolves T s (transitioned_world cur upd row s)"
    and "seen (transitioned_world cur upd row s) (upd\<lparr>o_version := o_version cur + 1\<rparr>)"
proof -
  let ?t = "transitioned_world cur upd row s" and ?i = "o_order_id upd"
  have ids: "identity upd = identity cur" using may by (simp add: may_become_def)
  have "snapshot_of row cur" using seen row ids by (auto simp: seen_def identity_eq)
  then have cur: "identity cur = identity row" "o_status cur = o_status row"
    using ver by (simp_all add: snapshot_of_def)
  note r = gw_inv_row [OF inv row]
  have row': "w_orders ?t = (w_orders s)(?i \<mapsto> transition_row upd row)"
    by (simp add: transitioned_world_def)
  have "tables_ok (w_orders ?t) (w_order_keys ?t) (w_intents ?t)"
    using inv row r by (auto simp: gw_inv_def transitioned_world_def intro: tables_ok_update)
  moreover have "entry_ok (w_outbox ?t) (w_redis ?t) i (w_orders ?t i)" for i
  proof (cases "i = ?i")
    case True
    have "coherent (transition_row upd row) f" if "rd_live (w_redis s) ?i = Some f" for f
    proof -
      from r that obtain ord where "snapshot_of row ord" "agrees f ord" "o_order_route ord \<noteq> None"
        unfolding coherent_def by blast
      then show ?thesis by (auto simp: coherent_def snapshot_of_def intro!: exI [of _ ord])
    qed
    with True r cur ver show ?thesis
      by (simp add: transitioned_world_def replay_changed)
  next
    case False
    have "entry_ok (w_outbox s) (w_redis s) i (w_orders s i)" using inv by (simp add: gw_inv_def)
    with False show ?thesis
      by (cases "w_orders s i") (simp_all add: transitioned_world_def order_events_same)
  qed
  ultimately show "gw_inv ?t" by (simp add: gw_inv_def)
  have "row_evolves T row (transition_row upd row)"
    using may cur by (simp add: row_evolves_def may_become_def)
  then show "evolves T s ?t"
    using row by (auto simp: evolves_def transitioned_world_def order_events_same)
  show "seen ?t (upd\<lparr>o_version := o_version cur + 1\<rparr>)"
    using ids cur ver by (simp add: seen_def row' snapshot_of_def) (simp add: identity_def)
qed

lemma transition_order_safe [safe_intros]:
  assumes may: "may_become T cur upd"
  shows "safe gw_inv (evolves T) (\<lambda>s. seen s cur) (transition_order cur upd)
    (\<lambda>ord s. ord = upd\<lparr>o_version := o_version cur + 1\<rparr> \<and> seen s ord)"
proof -
  let ?Q = "\<lambda>ord s. ord = upd\<lparr>o_version := o_version cur + 1\<rparr> \<and> seen s ord"
  have tx: "safe gw_inv (evolves T) (\<lambda>s. seen s cur) (transition_transaction cur upd) ?Q"
  proof (rule safeI)
    fix s r t
    assume inv: "gw_inv s" "seen s cur" and run: "transition_transaction cur upd s = (r, t)"
    from transition_transaction_run [OF run]
    show "gw_inv t \<and> evolves T s t \<and> (\<forall>x. r = Inr x \<longrightarrow> ?Q x t)"
      using inv may transitioned_world_ok [OF inv may] same_store_inv same_store_evolves
      by (metis Inr_inject old.sum.distinct(1))
  qed
  have "safe gw_inv (evolves T) (\<lambda>s. seen s cur \<and> ?Q ord s) (andThen (try_refresh ord) (\<lambda>_. ret ord)) ?Q" for ord
    by (rule gw.safe_andThen [where Q = "\<lambda>_ _. True"])
      (auto intro!: gw.safe_ret safe_pre [OF try_refresh_safe] stable_rules)
  with tx show ?thesis
    unfolding transition_order_def by (rule gw.safe_andThen [OF _ seen_stable])
qed

section \<open>Reads\<close>

lemma read_congs:
  assumes "f k = g k"
  shows "opt_field p f k = opt_field p g k" and "req_field p f k = req_field p g k"
    and "def_field d p f k = def_field d p g k"
  using assms by (simp_all add: field_read_defs)

lemma agrees_reads:
  assumes "agrees f ord" and "k \<in> KEY_FIELDS"
  shows "opt_field p f k = opt_field p (order_hash ord) k"
    and "req_field p f k = req_field p (order_hash ord) k"
    and "def_field d p f k = def_field d p (order_hash ord) k"
  using assms by (auto simp: agrees_def intro: read_congs)

lemma sum_bind_InrE: "sum_bind r f = Inr y \<Longrightarrow> (\<And>x. r = Inr x \<Longrightarrow> f x = Inr y \<Longrightarrow> P) \<Longrightarrow> P"
  by (auto simp: sum_bind_Inr_iff)

lemma Inr_eqE: "Inr x = Inr y \<Longrightarrow> (y = x \<Longrightarrow> P) \<Longrightarrow> P"
  by simp

lemma deserialize_agrees:
  assumes ag: "agrees f snap" and id: "o_order_id snap \<noteq> []" and d: "deserialize_order f = Inr ord"
  shows "identity ord = identity snap" and "o_version ord = o_version snap"
    and "o_status ord = o_status snap" and "o_conditional_status ord = o_conditional_status snap"
proof -
  note reads = agrees_reads [OF ag, unfolded KEY_FIELDS_def]
  have oid: "opt_field Some (order_hash snap) ''order_id'' = Inr (Some (o_order_id snap))"
    using id by (simp add: field_read_defs)
  obtain a b c where steps: "deserialize_identity f blank_order = Inr a" "deserialize_terms f a = Inr b"
    "deserialize_exchange f b = Inr c" "deserialize_history f c = Inr ord"
    using d by (auto simp: deserialize_order_def sum_bind_Inr_iff)
  have a: "identity a = identity snap"
    using steps(1) unfolding deserialize_identity_def
    by (elim sum_bind_InrE Inr_eqE) (simp add: reads oid identity_def split: option.splits)
  have b: "identity b = identity a" "o_version b = o_version snap" "o_status b = o_status snap"
    using steps(2) unfolding deserialize_terms_def
    by (elim sum_bind_InrE Inr_eqE, simp add: reads identity_def)+
  have c: "identity c = identity b" "o_version c = o_version b" "o_status c = o_status b"
    "o_conditional_status c = o_conditional_status snap"
    using steps(3) unfolding deserialize_exchange_def
    by (elim sum_bind_InrE Inr_eqE, simp add: reads identity_def)+
  have "identity ord = identity c" "o_version ord = o_version c" "o_status ord = o_status c"
    "o_conditional_status ord = o_conditional_status c"
    using steps(4) unfolding deserialize_history_def
    by (elim sum_bind_InrE Inr_eqE, simp add: identity_def)+
  with a b c show "identity ord = identity snap" "o_version ord = o_version snap"
    "o_status ord = o_status snap" "o_conditional_status ord = o_conditional_status snap"
    by simp_all
qed

lemma build_order_keeps:
  assumes "row_ok i d" and "build_order d s = (Inr ord, t)"
  shows "identity ord = identity d" and "o_version ord = o_version d" and "o_status ord = o_status d"
    and "o_conditional_status ord = o_conditional_status d" and "row_ok i ord"
proof -
  obtain n where "validate_order n d = Inr ord"
    using assms(2) by (auto simp: build_order_def Let_def split: sum.splits)
  note v = validate_order_keeps [OF this]
  show "identity ord = identity d" "o_version ord = o_version d" "o_status ord = o_status d"
    "o_conditional_status ord = o_conditional_status d"
    using v assms(1) by (simp_all add: row_ok_def)
  then show "row_ok i ord" using assms(1) by (simp add: row_ok_def identity_eq)
qed

text \<open>A loaded order is one the stores have seen, under the id it was asked for.\<close>

definition loaded :: "string \<Rightarrow> order \<Rightarrow> world \<Rightarrow> bool" where
  "loaded i ord s \<longleftrightarrow> seen s ord \<and> row_ok i ord"

lemma loaded_stable [simp]: "stable gw_inv (evolves T) (loaded i ord)"
  using seen_stable [of T ord] by (auto simp: stable_def loaded_def)

lemma loaded_seen: "loaded i ord s \<Longrightarrow> seen s ord"
  by (simp add: loaded_def)

lemma build_order_loaded:
  "safe gw_inv (evolves T) (loaded i d) (build_order d) (\<lambda>ord s. loaded i ord s \<and> o_status ord = o_status d)"
proof (rule safe_same_store)
  fix s r t
  assume run: "build_order d s = (r, t)" and pre: "loaded i d s"
  have same: "same_store s t" by (rule build_order_same_store [OF run])
  have "loaded i ord t \<and> o_status ord = o_status d" if "r = Inr ord" for ord
  proof -
    note k = build_order_keeps [of i d s ord t]
    from pre have d: "row_ok i d" "seen s d" by (simp_all add: loaded_def)
    note k = k [OF d(1) run [unfolded that]]
    from d(2) obtain row where row: "w_orders s (o_order_id d) = Some row" "snapshot_of row d"
      by (auto simp: seen_def)
    have "snapshot_of row ord" by (rule snapshot_of_same [OF row(2) k(1-4)])
    moreover have "o_order_id ord = o_order_id d" using k(1) by (simp add: identity_eq)
    ultimately have "seen s ord" using row(1) by (auto simp: seen_def)
    with k same show ?thesis by (simp add: loaded_def same_store_seen)
  qed
  with same show "same_store s t \<and> (\<forall>x. r = Inr x \<longrightarrow> loaded i x t \<and> o_status x = o_status d)" by blast
qed

lemma joined_identity:
  "identity (joined_row row intent) = identity row" "o_version (joined_row row intent) = o_version row"
  "o_status (joined_row row intent) = o_status row"
  "o_conditional_status (joined_row row intent) = o_conditional_status row"
  "row_ok i (joined_row row intent) = row_ok i row"
  by (simp_all add: joined_row_def orders_row.extend_def order.fields_def identity_def row_ok_def)

lemma joined_loaded:
  assumes "gw_inv s" and "joined_order s i = Some d"
  shows "loaded i d s"
proof -
  obtain row intent where r: "w_orders s i = Some row" "d = joined_row row intent"
    using assms(2) by (auto simp: joined_order_def split: option.splits)
  have ok: "row_ok i row" using gw_inv_row [OF assms(1) r(1)] by simp
  then have "o_order_id d = i" using r(2) joined_identity(5) [of i row intent] by (simp add: row_ok_def)
  moreover have "snapshot_of row d" using r(2) by (simp add: snapshot_of_def joined_identity)
  ultimately show ?thesis
    using r ok joined_identity(5) [of i row intent] by (auto simp: loaded_def seen_def)
qed

lemma pg_read_safe:
  assumes "\<And>s. gw_inv s \<Longrightarrow> Q (f s) s"
    and "\<And>s t x. same_store s t \<Longrightarrow> Q x t = Q x s" and "\<And>s t. same_store s t \<Longrightarrow> f t = f s"
  shows "safe gw_inv (evolves T) P (pg_read f) Q"
proof (rule safe_same_store)
  fix s r t
  assume run: "pg_read f s = (r, t)" and inv: "gw_inv s"
  let ?s = "s\<lparr>w_pg_calls := Suc (w_pg_calls s)\<rparr>"
  have "same_store s ?s" by (simp add: same_store_def)
  then have "f ?s = f s" by (rule assms(3))
  with pg_read_run [OF run] assms(1) [OF inv] assms(2) [of s t]
  show "same_store s t \<and> (\<forall>x. r = Inr x \<longrightarrow> Q x t)" by auto
qed

lemma loaded_same_store: "same_store s t \<Longrightarrow> loaded i d t = loaded i d s"
  by (simp add: loaded_def same_store_seen)

lemma get_joined_order_safe:
  "safe gw_inv (evolves T) P (get_joined_order i) (\<lambda>r s. \<forall>d. r = Some d \<longrightarrow> loaded i d s)"
  unfolding get_joined_order_def
  by (rule pg_read_safe) (auto simp: joined_loaded loaded_same_store same_store_joined)

lemma load_order_from_postgres_safe [safe_intros]:
  "safe gw_inv (evolves T) P (load_order_from_postgres i refresh) (\<lambda>r s. \<forall>d. r = Some d \<longrightarrow> loaded i d s)"
proof -
  let ?Q = "\<lambda>r s. \<forall>d. r = Some d \<longrightarrow> loaded i d s"
  have finish: "safe gw_inv (evolves T) (loaded i ord) (andThen (refresh_when refresh ord) (\<lambda>_. ret (Some ord))) ?Q" for ord
    by (rule gw.safe_andThen [where Q = "\<lambda>_ _. True"])
      (auto intro!: gw.safe_ret safe_pre [OF refresh_when_safe] simp: loaded_seen)
  have build: "safe gw_inv (evolves T) (loaded i d)
      (andThen (build_order d) (\<lambda>ord. andThen (refresh_when refresh ord) (\<lambda>_. ret (Some ord)))) ?Q" for d
    by (rule gw.safe_andThen [OF build_order_loaded loaded_stable]) (auto intro: safe_pre [OF finish])
  have "safe gw_inv (evolves T) (\<lambda>_. True) (load_order_from_postgres i refresh) ?Q"
    unfolding load_order_from_postgres_def
  proof (rule gw.safe_andThen [OF get_joined_order_safe stable_True])
    fix row
    show "safe gw_inv (evolves T) (\<lambda>s. True \<and> (\<forall>d. row = Some d \<longrightarrow> loaded i d s))
      (case row of None \<Rightarrow> ret None
       | Some data \<Rightarrow> andThen (build_order data) (\<lambda>ord. andThen (refresh_when refresh ord) (\<lambda>_. ret (Some ord)))) ?Q"
      by (cases row) (auto intro!: gw.safe_ret intro: safe_pre [OF build])
  qed
  then show ?thesis by (rule safe_pre) simp
qed

lemma live_loaded:
  assumes "gw_inv s" and "rd_live (w_redis s) i = Some f" and "deserialize_order f = Inr ord"
  shows "loaded i ord s"
proof -
  obtain row where row: "w_orders s i = Some row"
    using assms(1,2) gw_inv_no_row by (cases "w_orders s i") auto
  note r = gw_inv_row [OF assms(1) row]
  then obtain snap where snap: "snapshot_of row snap" "agrees f snap" "o_order_route snap \<noteq> None"
    using assms(2) unfolding coherent_def by blast
  have id: "identity snap = identity row" using snap(1) by (simp add: snapshot_of_def)
  then have "o_order_id snap = i" "i \<noteq> []" using r by (simp_all add: identity_eq row_ok_def)
  note d = deserialize_agrees [OF snap(2) _ assms(3)]
  have "o_order_id ord = i" using d(1) \<open>o_order_id snap = i\<close> \<open>i \<noteq> []\<close> by (simp add: identity_eq)
  moreover have "snapshot_of row ord"
    using snapshot_of_same [OF snap(1)] d \<open>o_order_id snap = i\<close> \<open>i \<noteq> []\<close> by simp
  moreover have "row_ok i ord" using r id d(1) \<open>o_order_id snap = i\<close> \<open>i \<noteq> []\<close>
    by (simp add: row_ok_def identity_eq)
  ultimately show ?thesis using row by (auto simp: loaded_def seen_def)
qed

lemma redis_get_safe:
  "safe gw_inv (evolves T) P (redis_read (\<lambda>rd. rd_live rd i))
     (\<lambda>h s. \<forall>f ord. h = Some f \<longrightarrow> deserialize_order f = Inr ord \<longrightarrow> loaded i ord s)"
proof (rule safe_same_store)
  fix s r t
  assume run: "redis_read (\<lambda>rd. rd_live rd i) s = (r, t)" and inv: "gw_inv s"
  from redis_read_run [OF run] have same: "same_store s t"
    and val: "\<And>x. r = Inr x \<Longrightarrow> x = rd_live (w_redis s) i" by auto
  have "loaded i ord t" if "r = Inr (Some f)" "deserialize_order f = Inr ord" for f ord
    using live_loaded [OF inv _ that(2)] val [OF that(1)] same by (simp add: loaded_same_store)
  with same show "same_store s t \<and> (\<forall>x. r = Inr x \<longrightarrow>
      (\<forall>f ord. x = Some f \<longrightarrow> deserialize_order f = Inr ord \<longrightarrow> loaded i ord t))" by blast
qed

lemma load_order_safe [safe_intros]:
  "safe gw_inv (evolves T) P (load_order i refresh) (\<lambda>r s. \<forall>d. r = Some d \<longrightarrow> loaded i d s)"
proof -
  let ?Q = "\<lambda>r s. \<forall>d. r = Some d \<longrightarrow> loaded i d s"
  have build: "safe gw_inv (evolves T) (loaded i raw) (andThen (build_order raw) (\<lambda>ord. ret (Some ord))) ?Q" for raw
    by (rule gw.safe_andThen [OF build_order_loaded loaded_stable]) (auto intro!: gw.safe_ret)
  have decode: "safe gw_inv (evolves T) (\<lambda>s. \<forall>ord. deserialize_order f = Inr ord \<longrightarrow> loaded i ord s)
      (andThen (liftSum (deserialize_order f)) (\<lambda>raw. andThen (build_order raw) (\<lambda>ord. ret (Some ord)))) ?Q" for f
    by (rule gw.safe_andThen [where Q = "loaded i"])
      (auto intro!: gw.safe_liftSum stable_all stable_imp_pure intro: safe_pre [OF build])
  have "safe gw_inv (evolves T) (\<lambda>_. True) (load_order i refresh) ?Q"
    unfolding load_order_def
  proof (rule gw.safe_andThen [OF redis_get_safe stable_True])
    fix h :: "live_hash option"
    show "safe gw_inv (evolves T)
      (\<lambda>s. True \<and> (\<forall>f ord. h = Some f \<longrightarrow> deserialize_order f = Inr ord \<longrightarrow> loaded i ord s))
      (case h of None \<Rightarrow> load_order_from_postgres i refresh
       | Some f \<Rightarrow> catch (andThen (liftSum (deserialize_order f))
           (\<lambda>raw. andThen (build_order raw) (\<lambda>ord. ret (Some ord))))
           (\<lambda>_. load_order_from_postgres i refresh)) ?Q"
      by (cases h)
        (auto intro!: load_order_from_postgres_safe gw.safe_catch stable_all stable_imp_pure
          intro: safe_pre [OF decode])
  qed
  then show ?thesis by (rule safe_pre) simp
qed

section \<open>Lists\<close>

definition all_loaded :: "order list \<Rightarrow> world \<Rightarrow> bool" where
  "all_loaded ords s = (\<forall>ord\<in>set ords. loaded (o_order_id ord) ord s)"

lemma all_loaded_stable [simp]: "stable gw_inv (evolves T) (all_loaded ords)"
  unfolding all_loaded_def by (rule stable_Ball) simp

lemma all_loaded_Cons [simp]:
  "all_loaded (d # ds) s \<longleftrightarrow> loaded (o_order_id d) d s \<and> all_loaded ds s"
  by (auto simp: all_loaded_def)

lemma all_loaded_Nil [simp]: "all_loaded [] s"
  by (simp add: all_loaded_def)

lemma loaded_id: "loaded i ord s \<Longrightarrow> o_order_id ord = i"
  by (simp add: loaded_def row_ok_def)

lemma loaded_own: "loaded i ord s \<Longrightarrow> loaded (o_order_id ord) ord s"
  by (simp add: loaded_def row_ok_def)

lemma build_orders_safe:
  "safe gw_inv (evolves T) (all_loaded rows) (build_orders rows)
     (\<lambda>ords s. all_loaded ords s \<and> map o_status ords = map o_status rows)"
proof (induction rows)
  case Nil
  show ?case by (simp add: gw.safe_ret)
next
  case (Cons row rows)
  let ?pre = "\<lambda>s. loaded (o_order_id row) row s \<and> all_loaded rows s"
  have stable: "stable gw_inv (evolves T) ?pre" by (simp add: stable_conj)
  have tail: "safe gw_inv (evolves T)
      (\<lambda>s. ?pre s \<and> loaded (o_order_id row) ord s \<and> o_status ord = o_status row)
      (andThen (build_orders rows) (\<lambda>ords. ret (ord # ords)))
      (\<lambda>ords s. all_loaded ords s \<and> map o_status ords = map o_status (row # rows))" for ord
  proof (rule gw.safe_andThen [OF safe_pre [OF Cons.IH]])
    show "stable gw_inv (evolves T)
      (\<lambda>s. ?pre s \<and> loaded (o_order_id row) ord s \<and> o_status ord = o_status row)"
      by (intro stable_conj stable loaded_stable stable_pure)
    show "safe gw_inv (evolves T)
      (\<lambda>s. (?pre s \<and> loaded (o_order_id row) ord s \<and> o_status ord = o_status row) \<and>
           all_loaded ords s \<and> map o_status ords = map o_status rows)
      (ret (ord # ords)) (\<lambda>ords s. all_loaded ords s \<and> map o_status ords = map o_status (row # rows))" for ords
      by (rule gw.safe_ret) (auto intro: loaded_own)
  qed simp
  show ?case
    unfolding build_orders.simps all_loaded_Cons
    by (rule gw.safe_andThen [OF safe_pre [OF build_order_loaded] stable tail]) simp
qed

lemma joined_orders_loaded:
  assumes "gw_inv s" and "d \<in> set (joined_orders s)"
  shows "loaded (o_order_id d) d s"
proof -
  obtain i where "joined_order s i = Some d"
    using assms(2) by (auto simp: joined_orders_def map_filter_def)
  from joined_loaded [OF assms(1) this] show ?thesis by (metis loaded_id)
qed

lemma joined_orders_same_store: "same_store s t \<Longrightarrow> joined_orders t = joined_orders s"
  by (simp add: joined_orders_def same_store_joined) (simp add: same_store_def)

lemma all_loaded_same_store: "same_store s t \<Longrightarrow> all_loaded ds t = all_loaded ds s"
  by (simp add: all_loaded_def loaded_same_store)

lemma list_read_safe:
  assumes sub: "\<And>s. set (f s) \<subseteq> {d \<in> set (joined_orders s). ok d}"
    and same: "\<And>s t. same_store s t \<Longrightarrow> f t = f s"
  shows "safe gw_inv (evolves T) P (pg_read f) (\<lambda>ds s. all_loaded ds s \<and> (\<forall>d\<in>set ds. ok d))"
proof (rule pg_read_safe)
  fix s assume inv: "gw_inv s"
  show "all_loaded (f s) s \<and> (\<forall>d\<in>set (f s). ok d)"
    using sub [of s] joined_orders_loaded [OF inv] by (auto simp: all_loaded_def)
qed (simp_all add: same all_loaded_same_store)

lemma refresh_each_safe:
  "safe gw_inv (evolves T) (all_loaded ords) (forEach (refresh_when b) ords) (\<lambda>_ _. True)"
  by (rule gw.safe_forEach) (auto intro!: safe_pre [OF refresh_when_safe] simp: all_loaded_def loaded_def)

text \<open>Rows, rebuilt and refreshed: the common tail of the two list operations.\<close>

lemma rebuilt_list_safe:
  assumes read: "safe gw_inv (evolves T) (\<lambda>_. True) m (\<lambda>ds s. all_loaded ds s \<and> (\<forall>d\<in>set ds. ok (o_status d)))"
  shows "safe gw_inv (evolves T) P
    (andThen m (\<lambda>rows. andThen (build_orders rows) (\<lambda>ords.
       andThen (forEach (refresh_when b) ords) (\<lambda>_. ret ords))))
    (\<lambda>ords s. all_loaded ords s \<and> (\<forall>ord\<in>set ords. ok (o_status ord)))"
proof -
  let ?Q = "\<lambda>ords s. all_loaded ords s \<and> (\<forall>ord\<in>set ords. ok (o_status ord))"
  have tail: "safe gw_inv (evolves T) (?Q ords)
      (andThen (forEach (refresh_when b) ords) (\<lambda>_. ret ords)) ?Q" for ords
    by (rule gw.safe_andThen [OF safe_pre [OF refresh_each_safe]])
      (auto intro!: gw.safe_ret stable_rules)
  have "safe gw_inv (evolves T) (?Q rows)
      (andThen (build_orders rows) (\<lambda>ords. andThen (forEach (refresh_when b) ords) (\<lambda>_. ret ords))) ?Q" for rows
  proof (rule gw.safe_andThen [OF safe_pre [OF build_orders_safe]])
    fix ords :: "order list"
    have "(\<forall>d\<in>set rows. ok (o_status d)) \<Longrightarrow> map o_status ords = map o_status rows \<Longrightarrow>
        (\<forall>ord\<in>set ords. ok (o_status ord))"
      by (metis (mono_tags, lifting) image_iff list.set_map)
    then show "safe gw_inv (evolves T)
      (\<lambda>s. ?Q rows s \<and> all_loaded ords s \<and> map o_status ords = map o_status rows)
      (andThen (forEach (refresh_when b) ords) (\<lambda>_. ret ords)) ?Q"
      by (intro safe_pre [OF tail]) blast
  qed (auto intro!: stable_rules)
  then have "safe gw_inv (evolves T) (\<lambda>_. True)
    (andThen m (\<lambda>rows. andThen (build_orders rows) (\<lambda>ords.
       andThen (forEach (refresh_when b) ords) (\<lambda>_. ret ords)))) ?Q"
    by (intro gw.safe_andThen [OF read stable_True]) (auto intro: safe_pre)
  then show ?thesis by (rule safe_pre) simp
qed

lemma list_open_orders_by_symbol_safe [safe_intros]:
  "safe gw_inv (evolves T) P (list_open_orders_by_symbol ex mt symb b)
     (\<lambda>ords s. all_loaded ords s \<and> (\<forall>ord\<in>set ords. o_status ord \<notin> TERMINAL_STATUSES))"
  unfolding list_open_orders_by_symbol_def list_open_joined_by_symbol_def
  by (rule rebuilt_list_safe, rule list_read_safe [where ok = "\<lambda>d. o_status d \<notin> TERMINAL_STATUSES"])
    (auto simp: joined_orders_same_store)

lemma list_open_orders_safe [safe_intros]:
  "safe gw_inv (evolves T) P (list_open_orders b)
     (\<lambda>ords s. all_loaded ords s \<and> (\<forall>ord\<in>set ords. o_status ord \<notin> TERMINAL_STATUSES))"
  unfolding list_open_orders_def list_non_terminal_joined_orders_def
  by (rule rebuilt_list_safe, rule list_read_safe [where ok = "\<lambda>d. o_status d \<notin> TERMINAL_STATUSES"])
    (auto simp: joined_orders_same_store list_non_terminal_rows_def)

lemma find_loaded:
  "safe gw_inv (evolves T) P (get_by ex mt column value)
     (\<lambda>r s. \<forall>d. r = Some d \<longrightarrow> loaded (o_order_id d) d s)"
  unfolding get_by_def
proof (rule pg_read_safe)
  fix s assume inv: "gw_inv s"
  show "\<forall>d. List.find (\<lambda>ord. o_exchange ord = ex \<and> o_market_type ord = mt \<and> column ord = Some value)
      (joined_orders s) = Some d \<longrightarrow> loaded (o_order_id d) d s"
    using joined_orders_loaded [OF inv] by (auto simp: find_Some_iff)
qed (auto simp: loaded_same_store joined_orders_same_store)

lemma load_order_by_safe:
  assumes look: "\<And>P. safe gw_inv (evolves T) P (lookup ex mt v) (\<lambda>r s. \<forall>d. r = Some d \<longrightarrow> loaded (o_order_id d) d s)"
    and refresh: "\<And>ord. safe gw_inv (evolves T) (\<lambda>s. seen s ord) (refresh ord) (\<lambda>_ _. True)"
  shows "safe gw_inv (evolves T) P (load_order_by lookup refresh ex mt v)
    (\<lambda>r s. \<forall>d. r = Some d \<longrightarrow> loaded (o_order_id d) d s)"
proof -
  let ?Q = "\<lambda>r s. \<forall>d. r = Some d \<longrightarrow> loaded (o_order_id d) d s"
  have finish: "safe gw_inv (evolves T) (loaded (o_order_id ord) ord)
      (andThen (refresh ord) (\<lambda>_. ret (Some ord))) ?Q" for ord
    by (rule gw.safe_andThen [OF safe_pre [OF refresh]]) (auto intro!: gw.safe_ret simp: loaded_seen)
  have build: "safe gw_inv (evolves T) (loaded (o_order_id d) d)
      (andThen (build_order d) (\<lambda>ord. andThen (refresh ord) (\<lambda>_. ret (Some ord)))) ?Q" for d
    by (rule gw.safe_andThen [OF build_order_loaded loaded_stable])
      (auto intro!: safe_pre [OF finish] intro: loaded_own)
  have "safe gw_inv (evolves T) (\<lambda>_. True) (load_order_by lookup refresh ex mt v) ?Q"
    unfolding load_order_by_def
  proof (rule gw.safe_andThen [OF look stable_True])
    fix row
    show "safe gw_inv (evolves T) (\<lambda>s. True \<and> ?Q row s)
      (case row of None \<Rightarrow> ret None
       | Some data \<Rightarrow> andThen (build_order data) (\<lambda>ord. andThen (refresh ord) (\<lambda>_. ret (Some ord)))) ?Q"
      by (cases row) (auto intro!: gw.safe_ret intro: safe_pre [OF build])
  qed
  then show ?thesis by (rule safe_pre) simp
qed

lemma finds_loaded:
  "safe gw_inv (evolves T) P (get_by_exchange_order_id ex mt v)
     (\<lambda>r s. \<forall>d. r = Some d \<longrightarrow> loaded (o_order_id d) d s)"
  "safe gw_inv (evolves T) P (get_by_triggered_order_id ex mt v)
     (\<lambda>r s. \<forall>d. r = Some d \<longrightarrow> loaded (o_order_id d) d s)"
  "safe gw_inv (evolves T) P (get_by_client_conditional_id ex mt v)
     (\<lambda>r s. \<forall>d. r = Some d \<longrightarrow> loaded (o_order_id d) d s)"
  "safe gw_inv (evolves T) P (get_by_exchange_conditional_id ex mt v)
     (\<lambda>r s. \<forall>d. r = Some d \<longrightarrow> loaded (o_order_id d) d s)"
  unfolding get_by_exchange_order_id_def get_by_triggered_order_id_def
    get_by_client_conditional_id_def get_by_exchange_conditional_id_def
  by (rule find_loaded)+

lemma load_order_by_ids_safe [safe_intros]:
  "safe gw_inv (evolves T) P (load_order_by_exchange_order_id ex mt v b)
     (\<lambda>r s. \<forall>d. r = Some d \<longrightarrow> loaded (o_order_id d) d s)"
  "safe gw_inv (evolves T) P (load_order_by_triggered_order_id ex mt v b)
     (\<lambda>r s. \<forall>d. r = Some d \<longrightarrow> loaded (o_order_id d) d s)"
  "safe gw_inv (evolves T) P (load_order_by_client_conditional_id ex mt v b)
     (\<lambda>r s. \<forall>d. r = Some d \<longrightarrow> loaded (o_order_id d) d s)"
  "safe gw_inv (evolves T) P (load_order_by_exchange_conditional_id ex mt v b)
     (\<lambda>r s. \<forall>d. r = Some d \<longrightarrow> loaded (o_order_id d) d s)"
  unfolding load_order_by_exchange_order_id_def load_order_by_triggered_order_id_def
    load_order_by_client_conditional_id_def load_order_by_exchange_conditional_id_def
  by (rule load_order_by_safe [OF finds_loaded(1) strict_refresh_safe],
      rule load_order_by_safe [OF finds_loaded(2) strict_refresh_safe],
      rule load_order_by_safe [OF finds_loaded(3) refresh_when_safe],
      rule load_order_by_safe [OF finds_loaded(4) refresh_when_safe])

end
