(* ===== verification/Transitions.thy ===== *)
theory Transitions
  imports OrderState
begin

text \<open>
  \<open>gateway/transition_service.py\<close>: how the gateway writes a status.  \<open>set_status\<close> and
  \<open>set_conditional_status\<close> protect terminal orders, ask the state machine, apply the keyword
  fields to a copy and hand it to \<open>transition_order\<close>; a version conflict makes
  \<open>set_status\<close> reload the order.  The keyword arguments are a list of \<open>field_update\<close>s.
\<close>

section \<open>Keyword fields\<close>

datatype field_update =
    FClientOrderId "string option"
  | FExchangeOrderId "string option"
  | FClientConditionalId "string option"
  | FExchangeConditionalId "string option"
  | FConditionalStatus "conditional_status option"
  | FExchangeConditionalStatus "string option"
  | FTriggeredOrderId "string option"
  | FTriggeredClientOrderId "string option"
  | FRejectReason "reject_reason option"
  | FExchangeErrorCode "int option"
  | FDetailMsg "string option"
  | FFilledQuantity string
  | FAvgFillPrice string
  | FSubmittedTs "int option"
  | FAcknowledgedTs "int option"
  | FTriggeredTs "int option"
  | FFilledTs "int option"
  | FCancelledTs "int option"
  | FExpiredTs "int option"
  | FRawExchangeResponse "json_obj option"
  | FUnknownField string

fun apply_field :: "field_update \<Rightarrow> order \<Rightarrow> exn + order" where
  "apply_field (FClientOrderId v) ord = Inr (ord\<lparr>o_client_order_id := v\<rparr>)"
| "apply_field (FExchangeOrderId v) ord = Inr (ord\<lparr>o_exchange_order_id := v\<rparr>)"
| "apply_field (FClientConditionalId v) ord = Inr (ord\<lparr>o_client_conditional_id := v\<rparr>)"
| "apply_field (FExchangeConditionalId v) ord = Inr (ord\<lparr>o_exchange_conditional_id := v\<rparr>)"
| "apply_field (FConditionalStatus v) ord = Inr (ord\<lparr>o_conditional_status := v\<rparr>)"
| "apply_field (FExchangeConditionalStatus v) ord = Inr (ord\<lparr>o_exchange_conditional_status := v\<rparr>)"
| "apply_field (FTriggeredOrderId v) ord = Inr (ord\<lparr>o_triggered_order_id := v\<rparr>)"
| "apply_field (FTriggeredClientOrderId v) ord = Inr (ord\<lparr>o_triggered_client_order_id := v\<rparr>)"
| "apply_field (FRejectReason v) ord = Inr (ord\<lparr>o_reject_reason := v\<rparr>)"
| "apply_field (FExchangeErrorCode v) ord = Inr (ord\<lparr>o_exchange_error_code := v\<rparr>)"
| "apply_field (FDetailMsg v) ord = Inr (ord\<lparr>o_detail_msg := v\<rparr>)"
| "apply_field (FFilledQuantity v) ord = Inr (ord\<lparr>o_filled_quantity := v\<rparr>)"
| "apply_field (FAvgFillPrice v) ord = Inr (ord\<lparr>o_avg_fill_price := v\<rparr>)"
| "apply_field (FSubmittedTs v) ord = Inr (ord\<lparr>o_submitted_ts := v\<rparr>)"
| "apply_field (FAcknowledgedTs v) ord = Inr (ord\<lparr>o_acknowledged_ts := v\<rparr>)"
| "apply_field (FTriggeredTs v) ord = Inr (ord\<lparr>o_triggered_ts := v\<rparr>)"
| "apply_field (FFilledTs v) ord = Inr (ord\<lparr>o_filled_ts := v\<rparr>)"
| "apply_field (FCancelledTs v) ord = Inr (ord\<lparr>o_cancelled_ts := v\<rparr>)"
| "apply_field (FExpiredTs v) ord = Inr (ord\<lparr>o_expired_ts := v\<rparr>)"
| "apply_field (FRawExchangeResponse v) ord = Inr (ord\<lparr>o_raw_exchange_response := v\<rparr>)"
| "apply_field (FUnknownField k) ord = Inl (ValueError ''Invalid Order field'')"

primrec apply_fields :: "field_update list \<Rightarrow> order \<Rightarrow> exn + order" where
  "apply_fields [] ord = Inr ord"
| "apply_fields (f # fs) ord = sum_bind (apply_field f ord) (apply_fields fs)"

section \<open>The service\<close>

definition DETAIL_MSG_MAX_LEN :: nat where
  "DETAIL_MSG_MAX_LEN = 8192"

definition sanitize_detail_msg :: "string option \<Rightarrow> string option" where
  "sanitize_detail_msg raw =
     (case raw of None \<Rightarrow> None
      | Some t \<Rightarrow> (let text = strip t in if text = [] then None else Some (take DETAIL_MSG_MAX_LEN text)))"

definition is_stale :: "exn \<Rightarrow> bool" where
  "is_stale e = (case e of StaleOrderVersionError _ _ _ _ \<Rightarrow> True | _ \<Rightarrow> False)"

definition catch_if :: "(exn \<Rightarrow> bool) \<Rightarrow> 'a wprog \<Rightarrow> (exn \<Rightarrow> 'a wprog) \<Rightarrow> 'a wprog" where
  "catch_if p m h = catch m (\<lambda>e. if p e then h e else throw e)"

definition load_order_from_repo :: "string \<Rightarrow> order option wprog" where
  "load_order_from_repo i = load_order i True"

definition status_candidate :: "int \<Rightarrow> order_status \<Rightarrow> field_update list \<Rightarrow> order \<Rightarrow> exn + order" where
  "status_candidate now status kw ord =
     sum_bind (apply_fields kw (ord\<lparr>o_status := status, o_updated_ts := now\<rparr>)) (\<lambda>candidate.
       Inr (if status = OS_FILLED \<and> o_filled_ts candidate = None
            then candidate\<lparr>o_filled_ts := Some now\<rparr> else candidate))"

definition reload_after_conflict :: "order \<Rightarrow> order wprog" where
  "reload_after_conflict ord =
     andThen (load_order_from_repo (o_order_id ord)) (\<lambda>reloaded.
       ret (case reloaded of Some fresh \<Rightarrow> fresh | None \<Rightarrow> ord))"

definition set_status ::
  "order \<Rightarrow> order_status \<Rightarrow> bool \<Rightarrow> bool \<Rightarrow> field_update list \<Rightarrow> order wprog" where
  "set_status ord status use_machine protect_terminal kw =
     andThen epoch_ms (\<lambda>now.
       if protect_terminal \<and> o_status ord \<in> TERMINAL_STATUSES \<and> o_status ord \<noteq> status then ret ord
       else
         andThen (if use_machine then liftSum (assert_can_transition ord status) else ret ()) (\<lambda>_.
         andThen (liftSum (status_candidate now status kw ord)) (\<lambda>candidate.
         catch_if is_stale (transition_order ord candidate) (\<lambda>_. reload_after_conflict ord))))"

definition conditional_candidate ::
  "int \<Rightarrow> conditional_status \<Rightarrow> field_update option list \<Rightarrow> order \<Rightarrow> exn + order" where
  "conditional_candidate now target kw ord =
     sum_bind (apply_fields (List.map_filter id kw)
                 (ord\<lparr>o_conditional_status := Some target, o_updated_ts := now\<rparr>)) (\<lambda>candidate.
       Inr (if target = CS_TRIGGERED \<and> o_triggered_ts candidate = None
            then candidate\<lparr>o_triggered_ts := Some now\<rparr> else candidate))"

text \<open>A keyword argument that is \<open>None\<close> is skipped here.\<close>

definition set_conditional_status ::
  "order \<Rightarrow> conditional_status \<Rightarrow> bool \<Rightarrow> bool \<Rightarrow> field_update option list \<Rightarrow> order wprog" where
  "set_conditional_status ord target use_machine protect_terminal kw =
     andThen epoch_ms (\<lambda>now.
       if protect_terminal \<and> cond_is_terminal (o_conditional_status ord) \<and>
          o_conditional_status ord \<noteq> Some target then ret ord
       else
         andThen (if use_machine
                  then liftSum (cond_assert_can_transition (o_conditional_status ord) target)
                  else ret ()) (\<lambda>_.
         andThen (liftSum (conditional_candidate now target kw ord)) (\<lambda>candidate.
         transition_order ord candidate)))"

definition mark_rejected :: "order \<Rightarrow> reject_reason \<Rightarrow> int option \<Rightarrow> string option \<Rightarrow> order wprog" where
  "mark_rejected ord reason code detail_msg =
     set_status ord OS_REJECTED True True
       [FRejectReason (Some reason), FExchangeErrorCode code, FDetailMsg (sanitize_detail_msg detail_msg)]"

definition mark_unknown :: "order \<Rightarrow> order wprog" where
  "mark_unknown ord = set_status ord OS_UNKNOWN True True [FRejectReason (Some RR_UNKNOWN_EXECUTION)]"

definition order_from_request ::
  "order_request \<Rightarrow> order_source \<Rightarrow> string option \<Rightarrow> string option \<Rightarrow> int \<Rightarrow> order" where
  "order_from_request req source signal_id strategy_name now = blank_order
     \<lparr>o_source := source, o_signal_id := signal_id, o_strategy_name := strategy_name,
      o_exchange := r_exchange req, o_market_type := r_market_type req, o_symbol := r_symbol req,
      o_side := r_side req, o_order_type := r_order_type req, o_order_route := r_order_route req,
      o_time_in_force := r_time_in_force req, o_quantity := r_quantity req, o_price := r_price req,
      o_trigger_price := r_trigger_price req, o_reduce_only := r_reduce_only req,
      o_close_position := r_close_position req, o_created_ts := now, o_updated_ts := now,
      o_status := OS_PENDING_NEW, o_position_side := r_position_side req,
      o_position_action := r_position_action req\<rparr>"

definition create_internal_order ::
  "order_request \<Rightarrow> order_source \<Rightarrow> string option \<Rightarrow> string option \<Rightarrow> order wprog" where
  "create_internal_order req source signal_id strategy_name =
     andThen epoch_ms (\<lambda>now.
     andThen (build_order (order_from_request req source signal_id strategy_name now)) (\<lambda>ord.
     create_order ord))"

definition safe_get_local_open_orders_by_symbol :: "exchange \<Rightarrow> market_type \<Rightarrow> string \<Rightarrow> order list wprog" where
  "safe_get_local_open_orders_by_symbol ex mt symb = list_open_orders_by_symbol ex mt symb True"

section \<open>What a field update leaves\<close>

definition same_core :: "order \<Rightarrow> order \<Rightarrow> bool" where
  "same_core a b \<longleftrightarrow> identity a = identity b \<and> o_version a = o_version b"

lemma apply_field_core:
  assumes "apply_field f ord = Inr ord'"
  shows "identity ord' = identity ord \<and> o_version ord' = o_version ord \<and>
    o_status ord' = o_status ord \<and> o_updated_ts ord' = o_updated_ts ord"
  using assms by (cases f) (auto simp: identity_def)

lemma apply_fields_core:
  "apply_fields fs ord = Inr ord' \<Longrightarrow> identity ord' = identity ord \<and> o_version ord' = o_version ord \<and>
     o_status ord' = o_status ord \<and> o_updated_ts ord' = o_updated_ts ord"
proof (induction fs arbitrary: ord)
  case (Cons f fs)
  then obtain mid where "apply_field f ord = Inr mid" "apply_fields fs mid = Inr ord'"
    by (auto simp: sum_bind_Inr_iff)
  with Cons.IH apply_field_core show ?case by metis
qed simp

lemma status_candidate_core:
  assumes "status_candidate now status kw ord = Inr c"
  shows "identity c = identity ord" and "o_version c = o_version ord" and "o_status c = status"
    and "o_updated_ts c = now"
proof -
  obtain d where d: "apply_fields kw (ord\<lparr>o_status := status, o_updated_ts := now\<rparr>) = Inr d"
    and c: "c = (if status = OS_FILLED \<and> o_filled_ts d = None then d\<lparr>o_filled_ts := Some now\<rparr> else d)"
    using assms unfolding status_candidate_def by (elim sum_bind_InrE Inr_eqE)
  from apply_fields_core [OF d] have "identity d = identity ord" "o_version d = o_version ord"
    "o_status d = status" "o_updated_ts d = now" by (simp_all add: identity_def)
  then show "identity c = identity ord" "o_version c = o_version ord" "o_status c = status"
    "o_updated_ts c = now" by (simp_all add: c identity_def)
qed

lemma conditional_candidate_core:
  assumes "conditional_candidate now target kw ord = Inr c"
  shows "identity c = identity ord" and "o_version c = o_version ord" and "o_status c = o_status ord"
    and "o_updated_ts c = now"
proof -
  obtain d where d: "apply_fields (List.map_filter id kw)
      (ord\<lparr>o_conditional_status := Some target, o_updated_ts := now\<rparr>) = Inr d"
    and c: "c = (if target = CS_TRIGGERED \<and> o_triggered_ts d = None then d\<lparr>o_triggered_ts := Some now\<rparr> else d)"
    using assms unfolding conditional_candidate_def by (elim sum_bind_InrE Inr_eqE)
  from apply_fields_core [OF d] have "identity d = identity ord" "o_version d = o_version ord"
    "o_status d = o_status ord" "o_updated_ts d = now" by (simp_all add: identity_def)
  then show "identity c = identity ord" "o_version c = o_version ord" "o_status c = o_status ord"
    "o_updated_ts c = now" by (simp_all add: c identity_def)
qed

lemma row_ok_identity: "identity a = identity b \<Longrightarrow> row_ok i a = row_ok i b"
  by (simp add: row_ok_def identity_eq)

section \<open>Rules of the safe judgement\<close>

definition allowed :: "status_rel \<Rightarrow> bool \<Rightarrow> bool \<Rightarrow> order \<Rightarrow> order_status \<Rightarrow> bool" where
  "allowed T use_machine protect_terminal ord status \<longleftrightarrow>
     (if use_machine then status_step \<le> T
      else T\<^sup>*\<^sup>* (o_status ord) status \<or>
           (protect_terminal \<and> o_status ord \<in> TERMINAL_STATUSES))"

lemma transition_loaded:
  assumes "may_become T cur upd"
  shows "safe gw_inv (evolves T) (loaded i cur) (transition_order cur upd)
    (\<lambda>ord s. loaded i ord s \<and> o_status ord = o_status upd \<and> o_version ord = o_version cur + 1)"
proof -
  have ids: "identity upd = identity cur" using assms by (simp add: may_become_def)
  have "safe gw_inv (evolves T) (loaded i cur) (transition_order cur upd)
      (\<lambda>ord s. ord = upd\<lparr>o_version := o_version cur + 1\<rparr> \<and> seen s ord)"
    by (rule safe_pre [OF transition_order_safe [OF assms]]) (simp add: loaded_def)
  then have "safe gw_inv (evolves T) (\<lambda>s. loaded i cur s \<and> True) (transition_order cur upd)
      (\<lambda>ord s. (ord = upd\<lparr>o_version := o_version cur + 1\<rparr> \<and> seen s ord))" by simp
  moreover have "row_ok i (upd\<lparr>o_version := v\<rparr>)" if "row_ok i cur" for v
    using that ids by (simp add: row_ok_def identity_eq)
  ultimately show ?thesis
    unfolding safe_def loaded_def by force
qed

lemma reload_safe: "safe gw_inv (evolves T) (loaded i ord) (reload_after_conflict ord) (loaded i)"
proof -
  have load: "safe gw_inv (evolves T) (loaded i ord) (load_order_from_repo (o_order_id ord))
      (\<lambda>r s. \<forall>d. r = Some d \<longrightarrow> loaded (o_order_id ord) d s)"
    unfolding load_order_from_repo_def by (rule load_order_safe)
  show ?thesis
    unfolding reload_after_conflict_def
    by (rule gw.safe_andThen [OF load loaded_stable])
      (auto intro!: gw.safe_ret dest: loaded_id split: option.splits)
qed

lemma catch_if_safe:
  assumes "safe gw_inv (evolves T) P m Q" and "stable gw_inv (evolves T) P"
    and "\<And>e. safe gw_inv (evolves T) P (h e) Q"
  shows "safe gw_inv (evolves T) P (catch_if p m h) Q"
  unfolding catch_if_def using assms by (intro gw.safe_catch) (simp_all add: gw.safe_throw)

lemma guarded_by:
  assumes "\<And>x. r = Inr x \<Longrightarrow> safe gw_inv (evolves T) P (f x) Q" and "stable gw_inv (evolves T) P"
  shows "safe gw_inv (evolves T) P (andThen (liftSum r) f) Q"
  using assms(1) by (cases r) (auto simp: safe_def prog_simps evolves_refl)

lemma set_status_safe [safe_intros]:
  assumes ok: "allowed T use_machine protect_terminal ord status"
  shows "safe gw_inv (evolves T) (loaded i ord)
    (set_status ord status use_machine protect_terminal kw) (loaded i)"
proof -
  have stored: "safe gw_inv (evolves T) (loaded i ord)
      (catch_if is_stale (transition_order ord c) (\<lambda>_. reload_after_conflict ord)) (loaded i)"
    if "may_become T ord c" for c
    by (intro catch_if_safe reload_safe loaded_stable safe_post [OF transition_loaded [OF that]]) simp
  have may: "may_become T ord c"
    if "use_machine \<Longrightarrow> assert_can_transition ord status = Inr ()"
      "\<not> (protect_terminal \<and> o_status ord \<in> TERMINAL_STATUSES \<and> o_status ord \<noteq> status)"
      "status_candidate now status kw ord = Inr c" for now c
  proof -
    note c = status_candidate_core [OF that(3)]
    have "T\<^sup>*\<^sup>* (o_status ord) status"
    proof (cases use_machine)
      case True
      then have "status_step (o_status ord) status"
        using that(1) by (auto simp: assert_can_transition_def can_transition_def status_step_iff split: if_splits)
      then show ?thesis using ok True by (auto simp: allowed_def)
    next
      case False
      then show ?thesis using ok that(2) by (auto simp: allowed_def)
    qed
    with c show ?thesis by (simp add: may_become_def)
  qed
  have body: "safe gw_inv (evolves T) (loaded i ord)
    (if protect_terminal \<and> o_status ord \<in> TERMINAL_STATUSES \<and> o_status ord \<noteq> status then ret ord
     else andThen (if use_machine then liftSum (assert_can_transition ord status) else ret ()) (\<lambda>_.
       andThen (liftSum (status_candidate now status kw ord)) (\<lambda>candidate.
       catch_if is_stale (transition_order ord candidate) (\<lambda>_. reload_after_conflict ord)))) (loaded i)" for now
    by (auto intro!: gw.safe_ret guarded_by stored may loaded_stable)
  have "safe gw_inv (evolves T) (\<lambda>s. loaded i ord s \<and> True)
    (if protect_terminal \<and> o_status ord \<in> TERMINAL_STATUSES \<and> o_status ord \<noteq> status then ret ord
     else andThen (if use_machine then liftSum (assert_can_transition ord status) else ret ()) (\<lambda>_.
       andThen (liftSum (status_candidate now status kw ord)) (\<lambda>candidate.
       catch_if is_stale (transition_order ord candidate) (\<lambda>_. reload_after_conflict ord)))) (loaded i)" for now
    using body by simp
  then show ?thesis
    unfolding set_status_def by (rule gw.safe_andThen [OF epoch_ms_safe loaded_stable])
qed

lemma set_conditional_status_safe [safe_intros]:
  "safe gw_inv (evolves T) (loaded i ord)
     (set_conditional_status ord target use_machine protect_terminal kw) (loaded i)"
proof -
  have may: "may_become T ord c" if "conditional_candidate now target kw ord = Inr c" for now c
    using conditional_candidate_core [OF that] by (simp add: may_become_def)
  have body: "safe gw_inv (evolves T) (loaded i ord)
    (if protect_terminal \<and> cond_is_terminal (o_conditional_status ord) \<and>
        o_conditional_status ord \<noteq> Some target then ret ord
     else andThen (if use_machine then liftSum (cond_assert_can_transition (o_conditional_status ord) target)
                   else ret ()) (\<lambda>_.
       andThen (liftSum (conditional_candidate now target kw ord)) (\<lambda>candidate.
       transition_order ord candidate))) (loaded i)" for now
    by (auto intro!: gw.safe_ret guarded_by safe_post [OF transition_loaded] may loaded_stable)
  show ?thesis
    unfolding set_conditional_status_def
    by (rule gw.safe_andThen [OF epoch_ms_safe loaded_stable]) (rule safe_pre [OF body], simp)
qed

lemma mark_rejected_safe [safe_intros]:
  "status_step \<le> T \<Longrightarrow> safe gw_inv (evolves T) (loaded i ord) (mark_rejected ord reason code msg) (loaded i)"
  unfolding mark_rejected_def by (rule set_status_safe) (simp add: allowed_def)

lemma mark_unknown_safe [safe_intros]:
  "status_step \<le> T \<Longrightarrow> safe gw_inv (evolves T) (loaded i ord) (mark_unknown ord) (loaded i)"
  unfolding mark_unknown_def by (rule set_status_safe) (simp add: allowed_def)

lemma build_new_order_safe:
  "safe gw_inv (evolves T) P (build_order d)
     (\<lambda>ord s. row_ok (o_order_id ord) ord \<and> o_status ord = o_status d \<and> o_version ord = o_version d)"
proof (rule safe_same_store)
  fix s r t
  assume run: "build_order d s = (r, t)"
  have "row_ok (o_order_id ord) ord \<and> o_status ord = o_status d \<and> o_version ord = o_version d"
    if r: "r = Inr ord" for ord
  proof -
    let ?n = "order_id_text (o_exchange d) (o_market_type d) (w_raw_ids s (w_next_id s))"
    have n: "?n \<noteq> []" "validate_order ?n d = Inr ord"
      using run r by (simp_all add: build_order_def Let_def split: sum.splits)
    note v = validate_order_keeps [OF n(2)]
    from v(1) n(1) have "o_order_id ord \<noteq> []" by simp
    with v show ?thesis by (simp add: row_ok_def)
  qed
  with build_order_same_store [OF run]
  show "same_store s t \<and> (\<forall>ord. r = Inr ord \<longrightarrow>
      row_ok (o_order_id ord) ord \<and> o_status ord = o_status d \<and> o_version ord = o_version d)" by blast
qed

lemma create_internal_order_safe [safe_intros]:
  "safe gw_inv (evolves T) P (create_internal_order req source sig strat)
     (\<lambda>ord s. loaded (o_order_id ord) ord s \<and> o_status ord = OS_PENDING_NEW \<and> o_version ord = 1)"
proof -
  let ?Q = "\<lambda>ord s. loaded (o_order_id ord) ord s \<and> o_status ord = OS_PENDING_NEW \<and> o_version ord = 1"
  have stored: "safe gw_inv (evolves T)
      (\<lambda>s. True \<and> row_ok (o_order_id ord) ord \<and> o_status ord = o_status (order_from_request req source sig strat now) \<and>
           o_version ord = o_version (order_from_request req source sig strat now)) (create_order ord) ?Q" for ord now
  proof (cases "row_ok (o_order_id ord) ord \<and> o_status ord = OS_PENDING_NEW \<and> o_version ord = 1")
    case True
    then show ?thesis
      by (intro safe_post [OF create_order_safe]) (auto simp: loaded_def)
  next
    case False
    then show ?thesis
      by (auto simp: safe_def order_from_request_def blank_order_def ORDER_VERSION_INITIAL_def)
  qed
  have build: "safe gw_inv (evolves T) (\<lambda>s. True \<and> True)
      (andThen (build_order (order_from_request req source sig strat now)) create_order) ?Q" for now
    by (rule gw.safe_andThen [where Q = "\<lambda>ord s. row_ok (o_order_id ord) ord \<and>
           o_status ord = o_status (order_from_request req source sig strat now) \<and>
           o_version ord = o_version (order_from_request req source sig strat now)"])
      (use stored in \<open>auto intro: build_new_order_safe\<close>)
  have "safe gw_inv (evolves T) (\<lambda>_. True) (create_internal_order req source sig strat) ?Q"
    unfolding create_internal_order_def by (rule gw.safe_andThen [OF epoch_ms_safe stable_True build])
  then show ?thesis by (rule safe_pre) simp
qed

end
