(* ===== verification/Exchange.thy ===== *)
theory Exchange
  imports Transitions
begin

text \<open>
  The exchange interface: \<open>exchange/types.py\<close>, \<open>client.py\<close>, \<open>capabilities.py\<close>,
  \<open>registry.py\<close>, \<open>gateway/errors.py\<close>, \<open>context.py\<close> and \<open>account_service.py\<close>.
  A client is a record of the operations of \<open>ExchangeExecutionClient\<close>; its adapters are outside
  the model, so an operation is any program.  While the gateway awaits an exchange other tasks run:
  the operation may change the stores, and \<open>client_ok T\<close> says that what it does keeps the
  invariant and moves statuses along \<open>T\<close>.
\<close>

section \<open>Responses\<close>

record order_ack =
  ack_client_order_id :: string
  ack_exchange_order_id :: "string option"
  ack_status :: order_status
  ack_raw :: json_obj

record order_reject =
  rej_client_order_id :: string
  rej_reason :: reject_reason
  rej_message :: "string option"
  rej_code :: "int option"

datatype batch_result = BatchAck order_ack | BatchReject order_reject

record conditional_ack =
  cack_exchange_conditional_id :: "string option"
  cack_conditional_status :: conditional_status
  cack_raw :: json_obj

datatype placement = OrderAck order_ack | ConditionalAck conditional_ack

record cancel_result =
  cr_exchange :: exchange
  cr_market_type :: market_type
  cr_symbol :: string
  cr_client_order_id :: "string option"
  cr_exchange_order_id :: "string option"
  cr_client_conditional_id :: "string option"
  cr_exchange_conditional_id :: "string option"
  cr_status :: "order_status option"
  cr_conditional_status :: "conditional_status option"
  cr_raw_status :: "string option"
  cr_unknown_execution :: bool
  cr_raw :: json_obj

record order_snapshot =
  sn_symbol :: string
  sn_status :: order_status
  sn_client_order_id :: "string option"
  sn_exchange_order_id :: "string option"
  sn_filled_quantity :: string
  sn_avg_fill_price :: string
  sn_raw_status :: "string option"
  sn_raw :: json_obj

record conditional_snapshot =
  cs_exchange :: exchange
  cs_market_type :: market_type
  cs_symbol :: string
  cs_conditional_status :: conditional_status
  cs_client_conditional_id :: "string option"
  cs_exchange_conditional_id :: "string option"
  cs_triggered_order_id :: "string option"
  cs_triggered_client_order_id :: "string option"
  cs_filled_quantity :: "string option"
  cs_avg_fill_price :: "string option"
  cs_raw_status :: "string option"
  cs_raw :: json_obj

record position_snapshot =
  xp_exchange :: exchange
  xp_market_type :: market_type
  xp_symbol :: string
  xp_position_side :: position_side
  xp_position_amt :: string
  xp_entry_price :: "string option"
  xp_break_even_price :: "string option"
  xp_mark_price :: "string option"
  xp_unrealized_pnl :: "string option"
  xp_isolated_margin :: "string option"
  xp_isolated_wallet :: "string option"
  xp_margin_type :: "string option"
  xp_leverage :: "int option"
  xp_liquidation_price :: "string option"
  xp_notional :: "string option"
  xp_updated_ts :: "int option"

section \<open>Clients\<close>

record client =
  c_supports_batch_order :: bool
  c_max_batch_order_size :: int
  c_supports_batch_cancel :: bool
  c_max_batch_cancel_size :: int
  c_supports_cancel_all :: bool
  c_supports_conditional_order :: bool
  c_supports_hedge_mode :: bool
  c_supports_position_snapshot :: bool
  c_supports_conditional_reconciliation :: bool
  c_supports_bulk_order_lookup :: bool
  c_bulk_order_lookup_threshold :: "int option"
  c_place_order :: "order \<Rightarrow> order_ack wprog"
  c_place_conditional_order :: "order \<Rightarrow> conditional_ack wprog"
  c_place_batch_orders :: "order list \<Rightarrow> batch_result list wprog"
  c_cancel_order :: "order \<Rightarrow> cancel_result wprog"
  c_cancel_conditional_order :: "order \<Rightarrow> cancel_result wprog"
  c_cancel_batch_orders :: "order list \<Rightarrow> cancel_result list wprog"
  c_cancel_regular_by_client_id :: "string \<Rightarrow> string \<Rightarrow> cancel_result wprog"
  c_cancel_conditional_by_id :: "string \<Rightarrow> string option \<Rightarrow> string option \<Rightarrow> cancel_result wprog"
  c_cancel_all_regular :: "string \<Rightarrow> cancel_result wprog"
  c_cancel_all_conditional :: "string \<Rightarrow> cancel_result wprog"
  c_change_leverage :: "string \<Rightarrow> int \<Rightarrow> unit wprog"
  c_get_positions :: "string option \<Rightarrow> position_snapshot list wprog"
  c_exchange_conditional_status :: "conditional_status \<Rightarrow> string option"
  c_unknown_status_value :: "string option"
  c_get_order :: "order \<Rightarrow> order_snapshot wprog"
  c_get_open_orders :: "string option \<Rightarrow> order_snapshot list wprog"
  c_get_conditional_order :: "order \<Rightarrow> conditional_snapshot option wprog"
  c_get_open_conditional_orders :: "string \<Rightarrow> conditional_snapshot list wprog"
  c_find_order_snapshots :: "string \<Rightarrow> order list \<Rightarrow> int \<Rightarrow> int \<Rightarrow> (string \<Rightarrow> order_snapshot option) wprog"

text \<open>The registry, and \<open>str(e)\<close>, which only ends in messages.\<close>

type_synonym registry = "exchange \<times> market_type \<Rightarrow> client option"

record gateway_env =
  env_clients :: registry
  env_exn_text :: "exn \<Rightarrow> string"

definition registry_register :: "exchange \<times> market_type \<Rightarrow> client \<Rightarrow> registry \<Rightarrow> exn + registry" where
  "registry_register key c reg =
     (if reg key \<noteq> None then Inl (ValueError ''duplicate exchange client'') else Inr (reg(key \<mapsto> c)))"

definition registry_get :: "exchange \<Rightarrow> market_type \<Rightarrow> registry \<Rightarrow> exn + client" where
  "registry_get ex mt reg =
     (case reg (ex, mt) of None \<Rightarrow> Inl (ValueError ''unsupported exchange client'') | Some c \<Rightarrow> Inr c)"

definition client_for_market :: "gateway_env \<Rightarrow> exchange \<Rightarrow> market_type \<Rightarrow> client wprog" where
  "client_for_market env ex mt = liftSum (registry_get ex mt (env_clients env))"

definition change_leverage :: "gateway_env \<Rightarrow> exchange \<Rightarrow> market_type \<Rightarrow> string \<Rightarrow> int \<Rightarrow> unit wprog" where
  "change_leverage env ex mt symb lev =
     andThen (client_for_market env ex mt) (\<lambda>c. c_change_leverage c symb lev)"

definition map_exchange_error_to_reason :: "error_category \<Rightarrow> reject_reason" where
  "map_exchange_error_to_reason cat =
     (if cat = EC_UNKNOWN_EXECUTION then RR_UNKNOWN_EXECUTION
      else if cat \<in> {EC_RATE_LIMITED, EC_IP_BANNED, EC_WAF_BLOCKED, EC_SYSTEM_THROTTLE} then RR_RATE_LIMITED
      else if cat = EC_INSUFFICIENT_BALANCE then RR_INSUFFICIENT_BALANCE
      else if cat \<in> {EC_INVALID_SYMBOL, EC_INVALID_PARAMETER} then RR_INVALID_SYMBOL
      else RR_EXCHANGE_REJECTED)"

section \<open>What is relied on\<close>

definition harmless :: "status_rel \<Rightarrow> 'a wprog \<Rightarrow> bool" where
  "harmless T m = safe gw_inv (evolves T) (\<lambda>_. True) m (\<lambda>_ _. True)"

definition client_ok :: "status_rel \<Rightarrow> client \<Rightarrow> bool" where
  "client_ok T c \<longleftrightarrow>
     (\<forall>ord. harmless T (c_place_order c ord) \<and> harmless T (c_place_conditional_order c ord) \<and>
            harmless T (c_cancel_order c ord) \<and> harmless T (c_cancel_conditional_order c ord)) \<and>
     (\<forall>ords. harmless T (c_place_batch_orders c ords) \<and> harmless T (c_cancel_batch_orders c ords)) \<and>
     (\<forall>a b v d. harmless T (c_cancel_regular_by_client_id c a b) \<and>
              harmless T (c_cancel_conditional_by_id c a v d) \<and>
              harmless T (c_cancel_all_regular c a) \<and> harmless T (c_cancel_all_conditional c a)) \<and>
     (\<forall>a n. harmless T (c_change_leverage c a n)) \<and> (\<forall>a. harmless T (c_get_positions c a)) \<and>
     (\<forall>ord. harmless T (c_get_order c ord) \<and> harmless T (c_get_conditional_order c ord)) \<and>
     (\<forall>v a. harmless T (c_get_open_orders c v) \<and> harmless T (c_get_open_conditional_orders c a)) \<and>
     (\<forall>a ords n k. harmless T (c_find_order_snapshots c a ords n k))"

definition env_ok :: "status_rel \<Rightarrow> gateway_env \<Rightarrow> bool" where
  "env_ok T env = (\<forall>key c. env_clients env key = Some c \<longrightarrow> client_ok T c)"

lemma harmless_safe: "harmless T m \<Longrightarrow> safe gw_inv (evolves T) P m (\<lambda>_ _. True)"
  unfolding harmless_def by (rule safe_pre) simp_all

lemma client_for_market_safe:
  "env_ok T env \<Longrightarrow> safe gw_inv (evolves T) P (client_for_market env ex mt) (\<lambda>c _. client_ok T c)"
  unfolding client_for_market_def registry_get_def env_ok_def
  by (rule gw.safe_liftSum) (auto split: option.splits)

lemma client_calls:
  assumes "client_ok T c"
  shows "harmless T (c_place_order c ord)" "harmless T (c_place_conditional_order c ord)"
    "harmless T (c_cancel_order c ord)" "harmless T (c_cancel_conditional_order c ord)"
    "harmless T (c_place_batch_orders c ords)" "harmless T (c_cancel_batch_orders c ords)"
    "harmless T (c_cancel_regular_by_client_id c a b)" "harmless T (c_cancel_conditional_by_id c a v d)"
    "harmless T (c_cancel_all_regular c a)" "harmless T (c_cancel_all_conditional c a)"
    "harmless T (c_change_leverage c a n)" "harmless T (c_get_positions c v)"
    "harmless T (c_get_order c ord)" "harmless T (c_get_conditional_order c ord)"
    "harmless T (c_get_open_orders c v)" "harmless T (c_get_open_conditional_orders c a)"
    "harmless T (c_find_order_snapshots c a ords n k)"
  using assms unfolding client_ok_def by blast+

lemma with_client:
  assumes "env_ok T env" and "stable gw_inv (evolves T) P"
    and "\<And>c. client_ok T c \<Longrightarrow> safe gw_inv (evolves T) P (f c) Q"
  shows "safe gw_inv (evolves T) P (andThen (client_for_market env ex mt) f) Q"
  by (rule gw.safe_andThen [OF client_for_market_safe [OF assms(1)] assms(2)])
    (rule safe_pure, rule assms(3))

lemma with_call:
  assumes "harmless T m" and "stable gw_inv (evolves T) P"
    and "\<And>x. safe gw_inv (evolves T) P (f x) Q"
  shows "safe gw_inv (evolves T) P (andThen m f) Q"
  by (rule gw.safe_first [OF harmless_safe [OF assms(1)] assms(2,3)])

lemma with_epoch:
  assumes "stable gw_inv (evolves T) P" and "\<And>now. safe gw_inv (evolves T) P (f now) Q"
  shows "safe gw_inv (evolves T) P (andThen epoch_ms f) Q"
  by (rule gw.safe_first [OF epoch_ms_safe assms])

end
