(* ===== verification/Submission.thy ===== *)
theory Submission
  imports Exchange "HOL-Library.AList"
begin

text \<open>
  \<open>gateway/submission_service.py\<close>: sending one order, and sending a batch in slices of the
  exchange's batch size.  The batch loop keeps its results when an exception ends it, as the Python
  list does: \<open>until_error\<close> returns what was accumulated together with the exception.  The order
  locks have no counterpart in a model where one call runs at a time.
\<close>

section \<open>One order\<close>

definition apply_order_request_leverage_if_present :: "gateway_env \<Rightarrow> order_request \<Rightarrow> unit wprog" where
  "apply_order_request_leverage_if_present env req =
     (case r_leverage req of
        None \<Rightarrow> ret ()
      | Some lev \<Rightarrow> change_leverage env (r_exchange req) (r_market_type req) (r_symbol req) lev)"

definition place_exchange_order :: "gateway_env \<Rightarrow> order \<Rightarrow> placement wprog" where
  "place_exchange_order env ord =
     andThen (client_for_market env (o_exchange ord) (o_market_type ord)) (\<lambda>c.
       if o_order_route ord = Some REGULAR
       then andThen (c_place_order c ord) (\<lambda>ack. ret (OrderAck ack))
       else if o_order_route ord = Some CONDITIONAL
       then andThen (c_place_conditional_order c ord) (\<lambda>ack. ret (ConditionalAck ack))
       else throw (ValueError ''unsupported order_route''))"

definition acknowledge_exchange_ack :: "order \<Rightarrow> placement \<Rightarrow> client \<Rightarrow> order wprog" where
  "acknowledge_exchange_ack ord ack c =
     andThen epoch_ms (\<lambda>now. case ack of
       OrderAck a \<Rightarrow>
         set_status ord OS_ACKNOWLEDGED True True
           [FAcknowledgedTs (Some now), FRawExchangeResponse (Some (ack_raw a)),
            FExchangeOrderId (ack_exchange_order_id a)]
     | ConditionalAck a \<Rightarrow>
         andThen (liftSum (cond_assert_can_transition (o_conditional_status ord) (cack_conditional_status a))) (\<lambda>_.
         case c_exchange_conditional_status c (cack_conditional_status a) of
           None \<Rightarrow> throw (ValueError ''unsupported exchange conditional status'')
         | Some text \<Rightarrow>
             set_status ord OS_ACKNOWLEDGED True True
               [FAcknowledgedTs (Some now), FRawExchangeResponse (Some (cack_raw a)),
                FExchangeConditionalId (cack_exchange_conditional_id a),
                FConditionalStatus (Some (cack_conditional_status a)),
                FExchangeConditionalStatus (Some text)]))"

definition submit_failure :: "gateway_env \<Rightarrow> order \<Rightarrow> exn \<Rightarrow> order wprog" where
  "submit_failure env ord e =
     (case e of
        ExchangeApiError ex cat msg code raw \<Rightarrow>
          if cat = EC_UNKNOWN_EXECUTION then mark_unknown ord
          else mark_rejected ord (map_exchange_error_to_reason cat) code (Some msg)
      | _ \<Rightarrow> mark_rejected ord RR_INTERNAL_ERROR None (sanitize_detail_msg (Some (env_exn_text env e))))"

definition send_order :: "gateway_env \<Rightarrow> order \<Rightarrow> order wprog" where
  "send_order env ord =
     catch
       (andThen (client_for_market env (o_exchange ord) (o_market_type ord)) (\<lambda>c.
        andThen (place_exchange_order env ord) (\<lambda>ack.
        acknowledge_exchange_ack ord ack c)))
       (submit_failure env ord)"

definition submit_order ::
  "gateway_env \<Rightarrow> order_request \<Rightarrow> order_source \<Rightarrow> string option \<Rightarrow> string option \<Rightarrow> order wprog" where
  "submit_order env req source signal_id strategy_name =
     andThen (apply_order_request_leverage_if_present env req) (\<lambda>_.
     andThen (create_internal_order req source signal_id strategy_name) (\<lambda>ord.
     andThen epoch_ms (\<lambda>now.
     andThen (set_status ord OS_SUBMITTED True True [FSubmittedTs (Some now)]) (\<lambda>ord.
     send_order env ord))))"

section \<open>Batches\<close>

text \<open>\<open>_dedupe_symbol_leverage_updates\<close>: a dict keyed by market and symbol, the last wins.\<close>

definition leverage_key :: "order_request \<Rightarrow> string" where
  "leverage_key r = exchange_value (r_exchange r) @ '':'' @ market_type_value (r_market_type r) @
     '':'' @ upper (r_symbol r)"

definition dedupe_symbol_leverage_updates ::
  "order_request list \<Rightarrow> (exchange \<times> market_type \<times> string \<times> int) list" where
  "dedupe_symbol_leverage_updates reqs =
     map snd (fold (\<lambda>r d. case r_leverage r of
                     None \<Rightarrow> d
                   | Some lev \<Rightarrow> AList.update (leverage_key r) (r_exchange r, r_market_type r, r_symbol r, lev) d)
                reqs [])"

text \<open>The entries are \<open>TypedDict\<close>s, plain dicts; the loop reads \<open>.exchange\<close> of the first.\<close>

definition apply_batch_leverage :: "(exchange \<times> market_type \<times> string \<times> int) list \<Rightarrow> unit wprog" where
  "apply_batch_leverage = forEach (\<lambda>_. throw (OtherError ''AttributeError''))"

definition attempt :: "'a wprog \<Rightarrow> (exn + 'a) wprog" where
  "attempt m = catch (andThen m (\<lambda>x. ret (Inr x))) (\<lambda>e. ret (Inl e))"

primrec until_error :: "('x \<Rightarrow> 'b \<Rightarrow> 'b wprog) \<Rightarrow> 'x list \<Rightarrow> 'b \<Rightarrow> ('b \<times> exn option) wprog" where
  "until_error f [] acc = ret (acc, None)"
| "until_error f (x # xs) acc =
     andThen (attempt (f x acc)) (\<lambda>r. case r of
       Inl e \<Rightarrow> ret (acc, Some e)
     | Inr acc' \<Rightarrow> until_error f xs acc')"

definition batch_create ::
  "exchange \<Rightarrow> market_type \<Rightarrow> order_source \<Rightarrow> string option \<Rightarrow> string option \<Rightarrow>
     order_request \<Rightarrow> order list \<Rightarrow> order list wprog" where
  "batch_create ex mt source signal_id strategy_name req orders =
     (if r_exchange req \<noteq> ex \<or> r_market_type req \<noteq> mt
      then throw (ValueError ''batch order market mismatch'')
      else if r_order_route req = Some CONDITIONAL
      then throw (RuntimeError ''submit_batch_orders currently supports only REGULAR orders'')
      else andThen (create_internal_order req source signal_id strategy_name) (\<lambda>ord. ret (orders @ [ord])))"

definition batch_mark_submitted :: "order \<Rightarrow> order list \<Rightarrow> order list wprog" where
  "batch_mark_submitted ord done_orders =
     andThen epoch_ms (\<lambda>now.
     andThen (set_status ord OS_SUBMITTED True True [FSubmittedTs (Some now)]) (\<lambda>ord'.
     ret (done_orders @ [ord'])))"

definition batch_key :: "order \<Rightarrow> string" where
  "batch_key ord = the (or_str (o_client_order_id ord) (Some (o_order_id ord)))"

definition batch_lookup :: "order list \<Rightarrow> string \<Rightarrow> order option" where
  "batch_lookup batch key = List.find (\<lambda>ord. batch_key ord = key) (rev batch)"

definition batch_response ::
  "order list \<Rightarrow> batch_result \<Rightarrow> order list \<times> string list \<Rightarrow> (order list \<times> string list) wprog" where
  "batch_response batch item acc =
     (case item of
        BatchAck a \<Rightarrow>
          (case batch_lookup batch (ack_client_order_id a) of
             None \<Rightarrow> ret acc
           | Some ord \<Rightarrow>
               andThen (set_status ord (ack_status a) True True
                  [FExchangeOrderId (ack_exchange_order_id a), FRawExchangeResponse (Some (ack_raw a))]) (\<lambda>u.
               ret (fst acc @ [u], o_order_id ord # snd acc)))
      | BatchReject r \<Rightarrow>
          (case batch_lookup batch (rej_client_order_id r) of
             None \<Rightarrow> ret acc
           | Some ord \<Rightarrow>
               andThen (mark_rejected ord (rej_reason r) (rej_code r) (rej_message r)) (\<lambda>u.
               ret (fst acc @ [u], o_order_id ord # snd acc))))"

definition batch_missing :: "string list \<Rightarrow> order \<Rightarrow> order list \<Rightarrow> order list wprog" where
  "batch_missing matched ord results =
     (if o_order_id ord \<in> set matched then ret results
      else andThen (mark_unknown ord) (\<lambda>u. ret (results @ [u])))"

definition batch_exchange :: "client \<Rightarrow> order list \<Rightarrow> order list \<Rightarrow> (order list \<times> exn option) wprog" where
  "batch_exchange c batch results =
     andThen (attempt (c_place_batch_orders c batch)) (\<lambda>r. case r of
       Inl e \<Rightarrow> ret (results, Some e)
     | Inr responses \<Rightarrow>
         andThen (until_error (batch_response batch) responses (results, [])) (\<lambda>((results, matched), err).
         case err of
           Some e \<Rightarrow> ret (results, Some e)
         | None \<Rightarrow> until_error (batch_missing matched) batch results))"

definition append_result :: "(order \<Rightarrow> order wprog) \<Rightarrow> order \<Rightarrow> order list \<Rightarrow> order list wprog" where
  "append_result m ord results = andThen (m ord) (\<lambda>u. ret (results @ [u]))"

definition batch_failure :: "order list \<Rightarrow> exn \<Rightarrow> order list \<Rightarrow> order list wprog" where
  "batch_failure batch e results =
     (case e of
        ExchangeApiError ex cat msg code raw \<Rightarrow>
          if cat = EC_UNKNOWN_EXECUTION then foldE (append_result mark_unknown) batch results
          else foldE (append_result (\<lambda>ord. mark_rejected ord (map_exchange_error_to_reason cat) code (Some msg)))
                 batch results
      | _ \<Rightarrow> foldE (append_result (\<lambda>ord. mark_rejected ord RR_INTERNAL_ERROR None None)) batch results)"

definition submit_slice :: "client \<Rightarrow> order list \<Rightarrow> order list \<Rightarrow> order list wprog" where
  "submit_slice c batch results =
     andThen (foldE batch_mark_submitted batch []) (\<lambda>batch.
     andThen (batch_exchange c batch results) (\<lambda>(results, err).
     case err of None \<Rightarrow> ret results | Some e \<Rightarrow> batch_failure batch e results))"

definition submit_batch_orders ::
  "gateway_env \<Rightarrow> exchange \<Rightarrow> market_type \<Rightarrow> order_request list \<Rightarrow> order_source \<Rightarrow>
     string option \<Rightarrow> string option \<Rightarrow> order list wprog" where
  "submit_batch_orders env ex mt reqs source signal_id strategy_name =
     (if reqs = [] then ret []
      else
        andThen (apply_batch_leverage (dedupe_symbol_leverage_updates reqs)) (\<lambda>_.
        andThen (foldE (batch_create ex mt source signal_id strategy_name) reqs []) (\<lambda>orders.
        andThen (client_for_market env ex mt) (\<lambda>c.
        if \<not> c_supports_batch_order c then throw (RuntimeError ''batch order is not supported'')
        else if c_max_batch_order_size c \<le> 0 then throw (RuntimeError ''invalid max_batch_order_size'')
        else foldE (submit_slice c) (chunks (nat (c_max_batch_order_size c)) orders) []))))"

section \<open>The store under a submission\<close>

text \<open>\<open>Order\<close>s that were stored, under their own ids.\<close>

definition own :: "order \<Rightarrow> world \<Rightarrow> bool" where
  "own ord = loaded (o_order_id ord) ord"

lemma own_stable [simp]: "stable gw_inv (evolves T) (own ord)"
  by (simp add: own_def)

lemma loaded_imp_own: "loaded i ord s \<Longrightarrow> own ord s"
  by (simp add: own_def loaded_own)

lemma own_all: "all_loaded ords s \<longleftrightarrow> (\<forall>ord\<in>set ords. own ord s)"
  by (simp add: all_loaded_def own_def)

lemma leverage_safe:
  assumes "env_ok T env"
  shows "safe gw_inv (evolves T) P (change_leverage env ex mt symb lev) (\<lambda>_ _. True)"
  unfolding change_leverage_def
  by (rule safe_weak, rule with_client [OF assms stable_True]) (rule harmless_safe, rule client_calls)

lemma apply_leverage_safe:
  "env_ok T env \<Longrightarrow> safe gw_inv (evolves T) P (apply_order_request_leverage_if_present env req) (\<lambda>_ _. True)"
  unfolding apply_order_request_leverage_if_present_def
  by (auto simp: gw.safe_ret leverage_safe split: option.split)

lemma place_safe:
  assumes ok: "env_ok T env"
  shows "safe gw_inv (evolves T) P (place_exchange_order env ord) (\<lambda>_ _. True)"
proof -
  have regular: "safe gw_inv (evolves T) (\<lambda>_. True) (andThen (c_place_order c ord) (\<lambda>a. ret (OrderAck a))) (\<lambda>_ _. True)"
    and conditional: "safe gw_inv (evolves T) (\<lambda>_. True)
      (andThen (c_place_conditional_order c ord) (\<lambda>a. ret (ConditionalAck a))) (\<lambda>_ _. True)"
    if "client_ok T c" for c
    by (rule with_call [OF client_calls(1) [OF that] stable_True], simp add: gw.safe_ret,
        rule with_call [OF client_calls(2) [OF that] stable_True], simp add: gw.safe_ret)
  show ?thesis
    unfolding place_exchange_order_def
    by (rule safe_weak, rule with_client [OF ok stable_True])
      (auto simp: gw.safe_throw regular conditional)
qed

lemma machine_step [simp]: "status_step \<le> T \<Longrightarrow> allowed T True p ord st"
  by (simp add: allowed_def)

lemma acknowledge_safe:
  assumes T: "status_step \<le> T"
  shows "safe gw_inv (evolves T) (loaded i ord) (acknowledge_exchange_ack ord ack c) (loaded i)"
proof -
  have set: "safe gw_inv (evolves T) (loaded i ord) (set_status ord OS_ACKNOWLEDGED True True kw) (loaded i)" for kw
    using T by (intro set_status_safe) simp
  show ?thesis
    unfolding acknowledge_exchange_ack_def
    by (rule with_epoch [OF loaded_stable])
      (auto simp: set gw.safe_throw intro!: guarded_by split: placement.split option.split)
qed

lemma submit_failure_safe:
  assumes T: "status_step \<le> T"
  shows "safe gw_inv (evolves T) (loaded i ord) (submit_failure env ord e) (loaded i)"
  using mark_rejected_safe [OF T] mark_unknown_safe [OF T]
  by (simp add: submit_failure_def split: exn.split)

lemma send_order_safe:
  assumes ok: "env_ok T env" and T: "status_step \<le> T"
  shows "safe gw_inv (evolves T) (loaded i ord) (send_order env ord) (loaded i)"
proof -
  have body: "safe gw_inv (evolves T) (loaded i ord)
      (andThen (client_for_market env (o_exchange ord) (o_market_type ord)) (\<lambda>c.
       andThen (place_exchange_order env ord) (\<lambda>ack. acknowledge_exchange_ack ord ack c))) (loaded i)"
    by (rule with_client [OF ok loaded_stable], rule gw.safe_first [OF place_safe [OF ok] loaded_stable])
      (rule acknowledge_safe [OF T])
  show ?thesis
    unfolding send_order_def by (rule gw.safe_catch [OF body loaded_stable submit_failure_safe [OF T]])
qed

lemma submit_order_safe:
  assumes ok: "env_ok T env" and T: "status_step \<le> T"
  shows "safe gw_inv (evolves T) P (submit_order env req source sig strat) own"
proof -
  have send: "safe gw_inv (evolves T) (loaded i ord) (send_order env ord) own" for i ord
    by (rule safe_post [OF send_order_safe [OF ok T]]) (rule loaded_imp_own)
  have submit: "safe gw_inv (evolves T)
      (\<lambda>s. loaded (o_order_id ord) ord s \<and> o_status ord = OS_PENDING_NEW \<and> o_version ord = 1)
      (andThen epoch_ms (\<lambda>now. andThen (set_status ord OS_SUBMITTED True True [FSubmittedTs (Some now)]) (send_order env)))
      own" for ord
  proof (rule safe_pre [where P = "loaded (o_order_id ord) ord"], rule with_epoch [OF loaded_stable])
    show "safe gw_inv (evolves T) (loaded (o_order_id ord) ord)
      (andThen (set_status ord OS_SUBMITTED True True [FSubmittedTs (Some now)]) (send_order env)) own" for now
      by (rule gw.safe_then [OF set_status_safe send]) (simp add: T)
  qed simp
  have "safe gw_inv (evolves T) (\<lambda>_. True) (submit_order env req source sig strat) own"
    unfolding submit_order_def
    by (rule gw.safe_first [OF apply_leverage_safe [OF ok] stable_True])
      (rule gw.safe_then [OF create_internal_order_safe submit])
  then show ?thesis by (rule safe_weak)
qed

text \<open>A batch accumulates results; every one of them is an order the stores have.\<close>

lemma attempt_safe:
  "safe gw_inv (evolves T) P m Q \<Longrightarrow> stable gw_inv (evolves T) P \<Longrightarrow>
     safe gw_inv (evolves T) P (attempt m) (\<lambda>r s. \<forall>x. r = Inr x \<longrightarrow> Q x s)"
  unfolding attempt_def
  by (intro gw.safe_catch gw.safe_then [where Q = Q and P = P] gw.safe_ret) simp_all

lemma attempt_safe':
  "safe gw_inv (evolves T) P m Q \<Longrightarrow> stable gw_inv (evolves T) P \<Longrightarrow>
     safe gw_inv (evolves T) P (attempt m) (\<lambda>_ _. True)"
  by (rule safe_post [OF attempt_safe]) simp_all

lemma until_error_safe:
  assumes step: "\<And>x acc. x \<in> set xs \<Longrightarrow> safe gw_inv (evolves T) (\<lambda>s. P s \<and> J acc s) (f x acc) J"
    and P: "stable gw_inv (evolves T) P" and J: "\<And>acc. stable gw_inv (evolves T) (J acc)"
  shows "safe gw_inv (evolves T) (\<lambda>s. P s \<and> J acc s) (until_error f xs acc) (\<lambda>r s. J (fst r) s)"
  using step
proof (induction xs arbitrary: acc)
  case Nil
  show ?case by (auto intro: gw.safe_ret)
next
  case (Cons x xs)
  have st: "stable gw_inv (evolves T) (\<lambda>s. P s \<and> J acc s)" using P J by (rule stable_conj)
  have next': "safe gw_inv (evolves T) (\<lambda>s. (P s \<and> J acc s) \<and> (\<forall>y. r = Inr y \<longrightarrow> J y s))
      (case r of Inl e \<Rightarrow> ret (acc, Some e) | Inr acc' \<Rightarrow> until_error f xs acc') (\<lambda>r s. J (fst r) s)" for r
  proof (cases r)
    case (Inr y)
    have "safe gw_inv (evolves T) (\<lambda>s. P s \<and> J y s) (until_error f xs y) (\<lambda>r s. J (fst r) s)"
      using Cons by simp
    with Inr show ?thesis by (auto intro: safe_pre)
  qed (auto intro: gw.safe_ret)
  show ?case
    unfolding until_error.simps
    by (rule gw.safe_andThen [OF attempt_safe [OF Cons.prems st] st next']) simp
qed

lemma append_own_safe:
  assumes "safe gw_inv (evolves T) (own ord) (m ord) (loaded (o_order_id ord))"
  shows "safe gw_inv (evolves T) (\<lambda>s. own ord s \<and> all_loaded results s) (append_result m ord results) all_loaded"
  unfolding append_result_def
proof (rule gw.safe_andThen)
  show "safe gw_inv (evolves T) (\<lambda>s. own ord s \<and> all_loaded results s) (m ord) (loaded (o_order_id ord))"
    by (rule safe_pre [OF assms]) simp
  show "stable gw_inv (evolves T) (\<lambda>s. own ord s \<and> all_loaded results s)" by (simp add: stable_conj)
qed (auto intro!: gw.safe_ret simp: own_all dest: loaded_imp_own)

lemma mark_own:
  assumes T: "status_step \<le> T"
  shows "safe gw_inv (evolves T) (own ord) (mark_unknown ord) (loaded (o_order_id ord))"
    and "safe gw_inv (evolves T) (own ord) (mark_rejected ord reason code msg) (loaded (o_order_id ord))"
  unfolding own_def using mark_unknown_safe [OF T] mark_rejected_safe [OF T] by blast+

lemma fold_append_safe:
  assumes step: "\<And>ord. safe gw_inv (evolves T) (own ord) (m ord) (loaded (o_order_id ord))"
  shows "safe gw_inv (evolves T) (\<lambda>s. all_loaded batch s \<and> all_loaded results s)
    (foldE (append_result m) batch results) all_loaded"
  by (rule gw.safe_foldE [OF _ all_loaded_stable all_loaded_stable])
    (rule safe_pre [OF append_own_safe [OF step]], auto simp: own_all)

lemma batch_failure_safe:
  assumes T: "status_step \<le> T"
  shows "safe gw_inv (evolves T) (\<lambda>s. all_loaded batch s \<and> all_loaded results s) (batch_failure batch e results) all_loaded"
  unfolding batch_failure_def
  by (auto intro!: fold_append_safe mark_own [OF T] split: exn.split)

lemma batch_lookup_in: "batch_lookup batch k = Some ord \<Longrightarrow> ord \<in> set batch"
  unfolding batch_lookup_def find_Some_iff by (metis length_rev nth_mem set_rev)

lemma batch_response_safe:
  assumes T: "status_step \<le> T"
  shows "safe gw_inv (evolves T) (\<lambda>s. all_loaded batch s \<and> all_loaded (fst acc) s)
    (batch_response batch item acc) (\<lambda>acc. all_loaded (fst acc))"
proof -
  let ?P = "\<lambda>s. all_loaded batch s \<and> all_loaded (fst acc) s"
  have st: "stable gw_inv (evolves T) ?P" by (simp add: stable_conj)
  have finish: "safe gw_inv (evolves T) ?P
      (andThen m (\<lambda>u. ret (fst acc @ [u], o_order_id ord # snd acc))) (\<lambda>acc. all_loaded (fst acc))"
    if "ord \<in> set batch" and "safe gw_inv (evolves T) (own ord) m (loaded (o_order_id ord))" for ord m
  proof (rule gw.safe_andThen [OF _ st])
    show "safe gw_inv (evolves T) ?P m (loaded (o_order_id ord))"
      using that(1) by (intro safe_pre [OF that(2)]) (auto simp: own_all)
  qed (auto intro!: gw.safe_ret simp: own_all dest: loaded_imp_own)
  have ack: "safe gw_inv (evolves T) (own ord) (set_status ord st True True kw) (loaded (o_order_id ord))" for ord st kw
    unfolding own_def using T by (intro set_status_safe) simp
  show ?thesis
    unfolding batch_response_def
    by (auto intro!: finish ack mark_own [OF T] gw.safe_ret dest: batch_lookup_in
        split: batch_result.split option.split)
qed

lemma batch_missing_safe:
  assumes T: "status_step \<le> T"
  shows "safe gw_inv (evolves T) (\<lambda>s. own ord s \<and> all_loaded results s) (batch_missing matched ord results) all_loaded"
  using append_own_safe [of T ord mark_unknown results] mark_own [OF T]
  by (auto simp: batch_missing_def append_result_def intro: gw.safe_ret)

lemma safe_frame: "safe I R P m Q \<Longrightarrow> stable I R P \<Longrightarrow> safe I R P m (\<lambda>x s. P s \<and> Q x s)"
  unfolding safe_def stable_def by blast

lemma batch_exchange_safe:
  assumes T: "status_step \<le> T" and c: "client_ok T c"
  shows "safe gw_inv (evolves T) (\<lambda>s. all_loaded batch s \<and> all_loaded results s)
    (batch_exchange c batch results) (\<lambda>r s. all_loaded batch s \<and> all_loaded (fst r) s)"
proof -
  let ?P = "\<lambda>results s. all_loaded batch s \<and> all_loaded results s"
  have st: "stable gw_inv (evolves T) (?P results)" for results by (simp add: stable_conj)
  have responses: "safe gw_inv (evolves T) (?P results)
      (until_error (batch_response batch) rs (results, [])) (\<lambda>r s. all_loaded (fst (fst r)) s)" for rs results
    using until_error_safe [of rs T "all_loaded batch" "\<lambda>acc. all_loaded (fst acc)" "batch_response batch" "(results, [])"]
      batch_response_safe [OF T] by simp
  have missing: "safe gw_inv (evolves T) (?P results) (until_error (batch_missing matched) batch results)
      (\<lambda>r s. all_loaded (fst r) s)" for matched results
    by (rule until_error_safe [OF _ all_loaded_stable all_loaded_stable])
      (rule safe_pre [OF batch_missing_safe [OF T]], auto simp: own_all)
  have tail: "safe gw_inv (evolves T) (?P results)
      (andThen (until_error (batch_response batch) rs (results, [])) (\<lambda>((results, matched), err).
         case err of Some e \<Rightarrow> ret (results, Some e) | None \<Rightarrow> until_error (batch_missing matched) batch results))
      (\<lambda>r s. all_loaded (fst r) s)" for rs
  proof (rule gw.safe_andThen [OF responses st])
    fix x :: "(order list \<times> string list) \<times> exn option"
    obtain res matched err where x: "x = ((res, matched), err)" by (metis surj_pair)
    show "safe gw_inv (evolves T) (\<lambda>s. ?P results s \<and> all_loaded (fst (fst x)) s)
      ((\<lambda>((results, matched), err). case err of
           Some e \<Rightarrow> ret (results, Some e) | None \<Rightarrow> until_error (batch_missing matched) batch results) x)
      (\<lambda>r s. all_loaded (fst r) s)"
      by (cases err) (auto simp: x intro!: gw.safe_ret intro: safe_pre [OF missing])
  qed
  have "safe gw_inv (evolves T) (?P results) (batch_exchange c batch results) (\<lambda>r s. all_loaded (fst r) s)"
    unfolding batch_exchange_def
  proof (rule gw.safe_first [OF attempt_safe' st])
    show "safe gw_inv (evolves T) (?P results) (c_place_batch_orders c batch) (\<lambda>_ _. True)"
      by (rule harmless_safe [OF client_calls(5) [OF c]])
    show "safe gw_inv (evolves T) (?P results) (case r of Inl e \<Rightarrow> ret (results, Some e) | Inr rs \<Rightarrow>
        andThen (until_error (batch_response batch) rs (results, [])) (\<lambda>((results, matched), err).
         case err of Some e \<Rightarrow> ret (results, Some e) | None \<Rightarrow> until_error (batch_missing matched) batch results))
      (\<lambda>r s. all_loaded (fst r) s)" for r
      by (cases r) (auto intro!: gw.safe_ret tail)
  qed (rule st)
  then show ?thesis by (rule safe_post [OF safe_frame [OF _ st]]) simp
qed

lemma mark_submitted_safe:
  assumes T: "status_step \<le> T"
  shows "safe gw_inv (evolves T) (\<lambda>s. own ord s \<and> all_loaded results s) (batch_mark_submitted ord results) all_loaded"
proof -
  have m: "safe gw_inv (evolves T) (own ord)
      (andThen epoch_ms (\<lambda>now. set_status ord OS_SUBMITTED True True [FSubmittedTs (Some now)]))
      (loaded (o_order_id ord))"
    unfolding own_def using T by (intro with_epoch set_status_safe) simp_all
  have "batch_mark_submitted ord results =
      append_result (\<lambda>ord. andThen epoch_ms (\<lambda>now. set_status ord OS_SUBMITTED True True [FSubmittedTs (Some now)])) ord results"
    by (simp add: batch_mark_submitted_def append_result_def andThen_assoc)
  moreover have "safe gw_inv (evolves T) (\<lambda>s. own ord s \<and> all_loaded results s)
      (append_result (\<lambda>ord. andThen epoch_ms (\<lambda>now. set_status ord OS_SUBMITTED True True [FSubmittedTs (Some now)])) ord results)
      all_loaded"
    by (rule append_own_safe) (rule m)
  ultimately show ?thesis by simp
qed

lemma submit_slice_safe:
  assumes T: "status_step \<le> T" and c: "client_ok T c"
  shows "safe gw_inv (evolves T) (\<lambda>s. all_loaded batch s \<and> all_loaded results s) (submit_slice c batch results) all_loaded"
proof -
  let ?P = "\<lambda>s. all_loaded batch s \<and> all_loaded results s"
  have st: "stable gw_inv (evolves T) ?P" by (simp add: stable_conj)
  have submitted: "safe gw_inv (evolves T) ?P (foldE batch_mark_submitted batch []) all_loaded"
  proof (rule safe_pre)
    show "safe gw_inv (evolves T) (\<lambda>s. all_loaded batch s \<and> all_loaded [] s) (foldE batch_mark_submitted batch []) all_loaded"
      by (rule gw.safe_foldE [OF _ all_loaded_stable all_loaded_stable])
        (rule safe_pre [OF mark_submitted_safe [OF T]], auto simp: own_all)
  qed simp
  have finish: "safe gw_inv (evolves T) (\<lambda>s. all_loaded b s \<and> all_loaded (fst x) s)
      (case x of (results, err) \<Rightarrow> case err of None \<Rightarrow> ret results | Some e \<Rightarrow> batch_failure b e results) all_loaded" for x b
    by (cases x; cases "snd x") (auto intro!: gw.safe_ret batch_failure_safe [OF T])
  show ?thesis
    unfolding submit_slice_def
  proof (rule gw.safe_andThen [OF submitted st])
    show "safe gw_inv (evolves T) (\<lambda>s. ?P s \<and> all_loaded b s)
      (andThen (batch_exchange c b results) (\<lambda>(results, err).
         case err of None \<Rightarrow> ret results | Some e \<Rightarrow> batch_failure b e results)) all_loaded" for b
      by (rule safe_pre [OF gw.safe_then [OF batch_exchange_safe [OF T c] finish]]) simp
  qed
qed

lemma batch_create_safe:
  "safe gw_inv (evolves T) (all_loaded orders) (batch_create ex mt source sig strat req orders) all_loaded"
proof -
  have "safe gw_inv (evolves T) (all_loaded orders) (create_internal_order req source sig strat)
      (\<lambda>ord s. all_loaded orders s \<and> own ord s)"
    by (rule safe_post [OF safe_frame [OF create_internal_order_safe all_loaded_stable]])
      (simp add: own_def)
  then have "safe gw_inv (evolves T) (all_loaded orders)
      (andThen (create_internal_order req source sig strat) (\<lambda>ord. ret (orders @ [ord]))) all_loaded"
    by (rule gw.safe_then) (auto intro!: gw.safe_ret simp: own_all)
  then show ?thesis by (simp add: batch_create_def gw.safe_throw)
qed

lemma chunk_subset: "0 < n \<Longrightarrow> b \<in> set (chunks n xs) \<Longrightarrow> set b \<subseteq> set xs"
  using concat_chunks [of n xs] by (metis UN_upper set_concat)

lemma submit_batch_safe:
  assumes ok: "env_ok T env" and T: "status_step \<le> T"
  shows "safe gw_inv (evolves T) P (submit_batch_orders env ex mt reqs source sig strat) all_loaded"
proof -
  have slices: "safe gw_inv (evolves T) (all_loaded orders)
      (foldE (submit_slice c) (chunks (nat (c_max_batch_order_size c)) orders) []) all_loaded"
    if c: "client_ok T c" and pos: "0 < c_max_batch_order_size c" for c orders
  proof (rule safe_pre)
    show "safe gw_inv (evolves T) (\<lambda>s. all_loaded orders s \<and> all_loaded [] s)
      (foldE (submit_slice c) (chunks (nat (c_max_batch_order_size c)) orders) []) all_loaded"
    proof (rule gw.safe_foldE [OF _ all_loaded_stable all_loaded_stable])
      fix b acc assume "b \<in> set (chunks (nat (c_max_batch_order_size c)) orders)"
      with pos have "set b \<subseteq> set orders" by (intro chunk_subset [of "nat (c_max_batch_order_size c)"]) auto
      then show "safe gw_inv (evolves T) (\<lambda>s. all_loaded orders s \<and> all_loaded acc s) (submit_slice c b acc) all_loaded"
        by (intro safe_pre [OF submit_slice_safe [OF T c]]) (auto simp: own_all)
    qed
  qed simp
  have send: "safe gw_inv (evolves T) (all_loaded orders)
      (andThen (client_for_market env ex mt) (\<lambda>c.
        if \<not> c_supports_batch_order c then throw (RuntimeError ''batch order is not supported'')
        else if c_max_batch_order_size c \<le> 0 then throw (RuntimeError ''invalid max_batch_order_size'')
        else foldE (submit_slice c) (chunks (nat (c_max_batch_order_size c)) orders) [])) all_loaded" for orders
    by (rule with_client [OF ok all_loaded_stable]) (auto simp: gw.safe_throw slices)
  have create: "safe gw_inv (evolves T) (\<lambda>_. True) (foldE (batch_create ex mt source sig strat) reqs []) all_loaded"
  proof (rule safe_pre)
    show "safe gw_inv (evolves T) (\<lambda>s. True \<and> all_loaded [] s) (foldE (batch_create ex mt source sig strat) reqs []) all_loaded"
      by (rule gw.safe_foldE [OF _ stable_True all_loaded_stable]) (simp add: batch_create_safe)
  qed simp
  have lev: "safe gw_inv (evolves T) (\<lambda>_. True) (apply_batch_leverage us) (\<lambda>_ _. True)" for us
    unfolding apply_batch_leverage_def by (rule gw.safe_forEach) (simp_all add: gw.safe_throw)
  have "safe gw_inv (evolves T) (\<lambda>_. True) (submit_batch_orders env ex mt reqs source sig strat) all_loaded"
    unfolding submit_batch_orders_def
    by (auto intro!: gw.safe_ret gw.safe_first [OF lev] gw.safe_then [OF create send])
  then show ?thesis by (rule safe_weak)
qed

end
