(* ===== verification/Samples.thy ===== *)
theory Samples
  imports Exchange
begin

text \<open>
  Concrete states and clients the witnesses run on: a gateway whose stores answer, empty or
  holding given orders, and a client that answers every call without touching the stores.
\<close>

section \<open>Stores\<close>

definition blank_world :: world where
  "blank_world =
     \<lparr>w_clock = (\<lambda>n. 1000 + int n), w_ticks = 0, w_raw_ids = (\<lambda>n. 1 + int n), w_next_id = 0,
      w_pg_ok = (\<lambda>_. True), w_pg_calls = 0, w_rd_ok = (\<lambda>_. True), w_rd_calls = 0,
      w_orders = (\<lambda>_. None), w_order_keys = [], w_intents = (\<lambda>_. None), w_outbox = [],
      w_redis = empty_redis\<rparr>"

lemma blank_world_inv: "gw_inv blank_world"
  by (simp add: gw_inv_def blank_world_def tables_ok_def empty_redis_def order_events_def)

definition holding :: "order \<Rightarrow> world" where
  "holding ord = created_world ord blank_world"

lemma holding_inv:
  assumes "row_ok (o_order_id ord) ord"
  shows "gw_inv (holding ord)"
  using created_world_inv [OF blank_world_inv, of ord] assms by (simp add: holding_def blank_world_def)

lemma holding_row: "o_order_id ord = i \<Longrightarrow> w_orders (holding ord) i = Some (orders_row.truncate ord)"
  by (auto simp: holding_def created_world_def)

section \<open>Clients\<close>

text \<open>Every operation raises; the witnesses replace the ones they need.\<close>

definition down_client :: client where
  "down_client =
     \<lparr>c_supports_batch_order = True, c_max_batch_order_size = 5, c_supports_batch_cancel = True,
      c_max_batch_cancel_size = 10, c_supports_cancel_all = True, c_supports_conditional_order = True,
      c_supports_hedge_mode = False, c_supports_position_snapshot = True,
      c_supports_conditional_reconciliation = True, c_supports_bulk_order_lookup = True,
      c_bulk_order_lookup_threshold = None,
      c_place_order = (\<lambda>_. throw (OtherError ''down'')),
      c_place_conditional_order = (\<lambda>_. throw (OtherError ''down'')),
      c_place_batch_orders = (\<lambda>_. throw (OtherError ''down'')),
      c_cancel_order = (\<lambda>_. throw (OtherError ''down'')),
      c_cancel_conditional_order = (\<lambda>_. throw (OtherError ''down'')),
      c_cancel_batch_orders = (\<lambda>_. throw (OtherError ''down'')),
      c_cancel_regular_by_client_id = (\<lambda>_ _. throw (OtherError ''down'')),
      c_cancel_conditional_by_id = (\<lambda>_ _ _. throw (OtherError ''down'')),
      c_cancel_all_regular = (\<lambda>_. throw (OtherError ''down'')),
      c_cancel_all_conditional = (\<lambda>_. throw (OtherError ''down'')),
      c_change_leverage = (\<lambda>_ _. throw (OtherError ''down'')),
      c_get_positions = (\<lambda>_. throw (OtherError ''down'')),
      c_exchange_conditional_status = (\<lambda>_. None), c_unknown_status_value = Some ''UNKNOWN'',
      c_get_order = (\<lambda>_. throw (OtherError ''down'')),
      c_get_open_orders = (\<lambda>_. throw (OtherError ''down'')),
      c_get_conditional_order = (\<lambda>_. throw (OtherError ''down'')),
      c_get_open_conditional_orders = (\<lambda>_. throw (OtherError ''down'')),
      c_find_order_snapshots = (\<lambda>_ _ _ _. throw (OtherError ''down''))\<rparr>"

lemma harmless_pure [simp]: "harmless T (throw e)" "harmless T (ret x)"
  by (simp_all add: harmless_def gw.safe_throw gw.safe_ret)

definition env_with :: "client \<Rightarrow> gateway_env" where
  "env_with c = \<lparr>env_clients = (\<lambda>_. Some c), env_exn_text = (\<lambda>_. ''error'')\<rparr>"

lemma env_with_ok: "client_ok T c \<Longrightarrow> env_ok T (env_with c)"
  by (simp add: env_ok_def env_with_def)

section \<open>Requests and orders\<close>

definition market_buy :: order_request where
  "market_buy =
     \<lparr>r_exchange = BINANCE, r_market_type = PERP, r_symbol = ''BTCUSDT'', r_side = BUY,
      r_order_type = MARKET, r_order_route = None, r_time_in_force = None, r_quantity = ''1.50'',
      r_price = None, r_trigger_price = None, r_stop_price = None, r_reduce_only = False,
      r_close_position = False, r_leverage = None, r_position_side = BOTH, r_position_action = PA_OPEN\<rparr>"

definition filled_ack :: order_ack where
  "filled_ack = \<lparr>ack_client_order_id = ''c1'', ack_exchange_order_id = Some ''77'', ack_status = OS_ACKNOWLEDGED,
     ack_raw = []\<rparr>"

end
