(* ===== verification/SubmitOutcome.thy ===== *)
theory SubmitOutcome
  imports Submission Samples
begin

text \<open>
  What \<open>submit_order\<close> returns when nothing interferes: the stores answer, and the exchange
  client answers without anything else happening meanwhile.  The result is a function of the
  client's answer.
\<close>

section \<open>Runs with both stores up\<close>

definition stores_up :: "world \<Rightarrow> bool" where
  "stores_up s \<longleftrightarrow> (\<forall>n. w_pg_ok s n) \<and> (\<forall>n. w_rd_ok s n)"

text \<open>The row an order object is the current copy of.\<close>

definition current :: "order \<Rightarrow> world \<Rightarrow> bool" where
  "current ord s \<longleftrightarrow> (\<exists>row. w_orders s (o_order_id ord) = Some row \<and> o_version row = o_version ord \<and>
     o_status row = o_status ord)"

lemma epoch_ms_up: "stores_up s \<Longrightarrow> \<exists>t. epoch_ms s = (Inr (w_clock s (w_ticks s)), t) \<and> stores_up t \<and>
    w_orders t = w_orders s"
  by (simp add: epoch_ms_def stores_up_def)

lemma redis_save_up:
  "stores_up s \<Longrightarrow> \<exists>r t. redis_save ord s = (r, t) \<and> stores_up t \<and> w_orders t = w_orders s \<and>
     (writable ord \<longrightarrow> (\<exists>b. r = Inr b))"
  by (auto simp: redis_save_def redis_call_def stores_up_def Let_def upsert_projection_if_newer_def
      writable_def split: prod.splits sum.splits if_splits)

lemma try_refresh_up:
  assumes "stores_up s"
  shows "\<exists>t. try_refresh ord s = (Inr (), t) \<and> stores_up t \<and> w_orders t = w_orders s"
proof -
  obtain r t where "redis_save ord s = (r, t)" "stores_up t" "w_orders t = w_orders s"
    using redis_save_up [OF assms] by blast
  then show ?thesis
    by (cases r) (auto simp: try_refresh_def refresh_order_projection_def prog_simps)
qed

lemma transition_order_up:
  assumes up: "stores_up s" and row: "w_orders s (o_order_id upd) = Some row"
    and ver: "o_version row = o_version cur"
  shows "\<exists>t. transition_order cur upd s = (Inr (upd\<lparr>o_version := o_version cur + 1\<rparr>), t) \<and>
    stores_up t \<and> w_orders t = (w_orders s)(o_order_id upd \<mapsto> transition_row upd row)"
proof -
  let ?t = "transitioned_world cur upd row s" and ?p = "upd\<lparr>o_version := o_version cur + 1\<rparr>"
  have tx: "transition_transaction cur upd s = (Inr ?p, ?t)"
    using up row ver
    by (simp add: transition_transaction_def pg_transaction_def stores_up_def Let_def prog_simps
        repo_transition_def outbox_write_def transitioned_world_def)
  have "stores_up ?t" using up by (simp add: stores_up_def transitioned_world_def)
  from try_refresh_up [OF this, of ?p] obtain u where
    "try_refresh ?p ?t = (Inr (), u)" "stores_up u" "w_orders u = w_orders ?t" by blast
  with tx show ?thesis
    by (simp add: transition_order_def prog_simps) (simp add: transitioned_world_def)
qed

definition known_field :: "field_update \<Rightarrow> bool" where
  "known_field f = (case f of FUnknownField _ \<Rightarrow> False | _ \<Rightarrow> True)"

lemma apply_fields_known: "list_all known_field kw \<Longrightarrow> \<exists>ord'. apply_fields kw ord = Inr ord'"
proof (induction kw arbitrary: ord)
  case (Cons f kw)
  then obtain mid where "apply_field f ord = Inr mid" by (cases f) (auto simp: known_field_def)
  with Cons show ?case by simp
qed simp

lemma terminal_no_step: "status_step st st' \<Longrightarrow> st \<notin> TERMINAL_STATUSES"
  by (auto simp: terminal_no_transition elim!: status_stepE)

text \<open>\<open>stamped\<close>: what \<open>set_status\<close> makes of the changed copy.\<close>

definition stamped :: "order_status \<Rightarrow> int \<Rightarrow> int \<Rightarrow> order \<Rightarrow> order" where
  "stamped st now v c =
     (if st = OS_FILLED \<and> o_filled_ts c = None then c\<lparr>o_filled_ts := Some now\<rparr> else c)\<lparr>o_version := v\<rparr>"

lemma set_status_written:
  assumes up: "stores_up s" and cur: "current ord s"
    and step: "use_machine \<Longrightarrow> status_step (o_status ord) st"
    and unprotected: "\<not> (protect \<and> o_status ord \<in> TERMINAL_STATUSES \<and> o_status ord \<noteq> st)"
    and known: "list_all known_field kw"
  shows "\<exists>now c t. apply_fields kw (ord\<lparr>o_status := st, o_updated_ts := now\<rparr>) = Inr c \<and>
    set_status ord st use_machine protect kw s = (Inr (stamped st now (o_version ord + 1) c), t) \<and>
    stores_up t \<and> current (stamped st now (o_version ord + 1) c) t"
proof -
  let ?now = "w_clock s (w_ticks s)"
  obtain s' where s': "epoch_ms s = (Inr ?now, s')" "stores_up s'" "w_orders s' = w_orders s"
    using epoch_ms_up [OF up] by blast
  obtain c where c: "apply_fields kw (ord\<lparr>o_status := st, o_updated_ts := ?now\<rparr>) = Inr c"
    using apply_fields_known [OF known] by blast
  define d where "d = (if st = OS_FILLED \<and> o_filled_ts c = None then c\<lparr>o_filled_ts := Some ?now\<rparr> else c)"
  have d: "status_candidate ?now st kw ord = Inr d" by (simp add: status_candidate_def c d_def)
  note core = status_candidate_core [OF d]
  obtain row where row: "w_orders s (o_order_id ord) = Some row" "o_version row = o_version ord"
    using cur by (auto simp: current_def)
  have id: "o_order_id d = o_order_id ord" using core(1) by (simp add: identity_eq)
  have assert: "(if use_machine then liftSum (assert_can_transition ord st) else ret ()) = (ret () :: unit wprog)"
    using step by (auto simp: assert_can_transition_def can_transition_def status_step_iff liftSum_def ret_def)
  obtain t where t: "transition_order ord d s' = (Inr (d\<lparr>o_version := o_version ord + 1\<rparr>), t)"
    "stores_up t" "w_orders t = (w_orders s')(o_order_id d \<mapsto> transition_row d row)"
    using transition_order_up [OF s'(2), of d row ord] row s'(3) id by auto
  have final: "stamped st ?now (o_version ord + 1) c = d\<lparr>o_version := o_version ord + 1\<rparr>"
    by (simp add: stamped_def d_def)
  have "set_status ord st use_machine protect kw s = (Inr (d\<lparr>o_version := o_version ord + 1\<rparr>), t)"
    using s'(1) t(1) d assert
    by (simp only: set_status_def unprotected if_False) (simp add: prog_simps catch_if_def)
  moreover have "current (d\<lparr>o_version := o_version ord + 1\<rparr>) t"
    using t(3) row(2) core(3) by (simp add: current_def)
  ultimately show ?thesis using c t(2) final by metis
qed

lemma set_status_up:
  assumes "stores_up s" and "current ord s" and "status_step (o_status ord) st" and "list_all known_field kw"
  shows "\<exists>now c t. apply_fields kw (ord\<lparr>o_status := st, o_updated_ts := now\<rparr>) = Inr c \<and>
    set_status ord st True p kw s = (Inr (stamped st now (o_version ord + 1) c), t) \<and>
    stores_up t \<and> current (stamped st now (o_version ord + 1) c) t"
  using set_status_written [OF assms(1,2) _ _ assms(4)] terminal_no_step [OF assms(3)] assms(3) by blast

lemma stamped_simps [simp]:
  "st \<noteq> OS_FILLED \<Longrightarrow> stamped st now v c = c\<lparr>o_version := v\<rparr>"
  "o_status (stamped st now v c) = o_status c" "o_order_id (stamped st now v c) = o_order_id c"
  "o_version (stamped st now v c) = v"
  by (simp_all add: stamped_def)

section \<open>Accepted requests make orders\<close>

lemma check_decimal_again: "check_decimal t = Inr u \<Longrightarrow> check_decimal u = Inr u"
  by (auto simp: check_decimal_def decimal_string_def split: if_splits)

lemma check_decimal_opt_again: "check_decimal_opt v = Inr w \<Longrightarrow> check_decimal_opt w = Inr w"
  by (cases v; cases "check_decimal (the v)")
    (auto simp: check_decimal_opt_def dest: check_decimal_again)

lemma zero_decimal: "check_decimal ''0'' = Inr ''0''"
  by code_simp

lemma position_metadata_again:
  "normalize_position_metadata_for_order mt side act = Inr (side', act') \<Longrightarrow>
     normalize_position_metadata_for_order mt side' act' = Inr (side', act')"
  by (auto simp: normalize_position_metadata_for_order_def Let_def split: if_splits)

lemma check_route_again: "check_route ty r = Inr r' \<Longrightarrow> check_route ty r' = Inr r'"
  by (auto simp: check_route_def split: if_splits)

text \<open>What a request that passed its validator satisfies.\<close>

lemma validated_request:
  assumes "validate_request req = Inr req'"
  shows "check_decimal (r_quantity req') = Inr (r_quantity req')"
    and "check_decimal_opt (r_price req') = Inr (r_price req')"
    and "check_decimal_opt (r_trigger_price req') = Inr (r_trigger_price req')"
    and "check_route (r_order_type req') (r_order_route req') = Inr (r_order_route req')"
    and "normalize_position_metadata_for_order (r_market_type req') (r_position_side req')
      (r_position_action req') = Inr (r_position_side req', r_position_action req')"
    and "validate_order_type_required_fields (r_order_type req') (r_price req') (r_trigger_price req')
      (r_time_in_force req') (r_reduce_only req') (r_close_position req') = Inr ()"
    and "upper (strip (r_symbol req')) = r_symbol req'"
proof -
  obtain mid where fields: "check_request_fields req = Inr mid"
    and norm: "normalize_request_after_validation mid = Inr req'"
    using assms by (auto simp: validate_request_def sum_bind_Inr_iff map_sum_Inr)
  obtain q p t u where parts: "check_decimal (r_quantity req) = Inr q" "check_decimal_opt (r_price req) = Inr p"
    "check_decimal_opt (r_trigger_price req) = Inr t" "check_decimal_opt (r_stop_price req) = Inr u"
    and mid: "mid = req\<lparr>r_quantity := q, r_price := p, r_trigger_price := t, r_stop_price := u\<rparr>"
    using fields unfolding check_request_fields_def by (elim sum_bind_InrE Inr_eqE)
  obtain route side act where steps:
    "check_route (r_order_type mid) (r_order_route mid) = Inr route"
    "normalize_position_metadata_for_order (r_market_type mid) (r_position_side mid) (r_position_action mid) = Inr (side, act)"
    "validate_order_type_required_fields (r_order_type mid) (r_price mid)
       (if r_trigger_price mid = None \<and> r_stop_price mid \<noteq> None then r_stop_price mid else r_trigger_price mid)
       (r_time_in_force mid) (r_reduce_only mid) (r_close_position mid) = Inr ()"
    and req': "req' = mid\<lparr>r_symbol := upper (strip (r_symbol mid)),
       r_trigger_price := (if r_trigger_price mid = None \<and> r_stop_price mid \<noteq> None then r_stop_price mid else r_trigger_price mid),
       r_order_route := route, r_position_side := side, r_position_action := act\<rparr>"
    using norm unfolding normalize_request_after_validation_def Let_def
    by (auto simp: sum_bind_Inr_iff split: if_splits)
  show "check_decimal (r_quantity req') = Inr (r_quantity req')"
    using check_decimal_again [OF parts(1)] by (simp add: req' mid)
  show "check_decimal_opt (r_price req') = Inr (r_price req')"
    using check_decimal_opt_again [OF parts(2)] by (simp add: req' mid)
  show "check_decimal_opt (r_trigger_price req') = Inr (r_trigger_price req')"
    using check_decimal_opt_again [OF parts(3)] check_decimal_opt_again [OF parts(4)] by (simp add: req' mid)
  show "check_route (r_order_type req') (r_order_route req') = Inr (r_order_route req')"
    using check_route_again [OF steps(1)] by (simp add: req')
  show "normalize_position_metadata_for_order (r_market_type req') (r_position_side req')
      (r_position_action req') = Inr (r_position_side req', r_position_action req')"
    using position_metadata_again [OF steps(2)] by (simp add: req')
  show "validate_order_type_required_fields (r_order_type req') (r_price req') (r_trigger_price req')
      (r_time_in_force req') (r_reduce_only req') (r_close_position req') = Inr ()"
    using steps(3) by (simp add: req')
  show "upper (strip (r_symbol req')) = r_symbol req'" by (simp add: req')
qed

text \<open>The order \<open>create_internal_order\<close> stores for such a request.\<close>

definition internal_order ::
  "string \<Rightarrow> order_request \<Rightarrow> order_source \<Rightarrow> string option \<Rightarrow> string option \<Rightarrow> int \<Rightarrow> order" where
  "internal_order new_id req source sig strat now =
     fill_order_ids new_id (order_from_request req source sig strat now)"

lemma request_order_valid:
  assumes "validate_request req = Inr req'"
  shows "validate_order new_id (order_from_request req' source sig strat now) =
    Inr (internal_order new_id req' source sig strat now)"
proof -
  note v = validated_request [OF assms]
  let ?ord = "order_from_request req' source sig strat now"
  have sel: "o_quantity ?ord = r_quantity req'" "o_price ?ord = r_price req'"
    "o_trigger_price ?ord = r_trigger_price req'" "o_detail_msg ?ord = None"
    "o_filled_quantity ?ord = ''0''" "o_avg_fill_price ?ord = ''0''" "o_symbol ?ord = r_symbol req'"
    "o_order_type ?ord = r_order_type req'" "o_order_route ?ord = r_order_route req'"
    "o_market_type ?ord = r_market_type req'" "o_position_side ?ord = r_position_side req'"
    "o_position_action ?ord = r_position_action req'" "o_time_in_force ?ord = r_time_in_force req'"
    "o_reduce_only ?ord = r_reduce_only req'" "o_close_position ?ord = r_close_position req'"
    by (simp_all add: order_from_request_def blank_order_def)
  have fields: "check_order_fields ?ord = Inr ?ord"
    by (simp add: check_order_fields_def sel v zero_decimal guard_sum_def order_from_request_def blank_order_def)
  have norm: "normalize_order_after_validation new_id ?ord = Inr (fill_order_ids new_id ?ord)"
    by (simp add: normalize_order_after_validation_def Let_def sel v)
      (simp add: order_from_request_def blank_order_def v)
  show ?thesis by (simp add: validate_order_def fields norm internal_order_def)
qed

section \<open>Creating the order\<close>

lemma collect_fields_total:
  "\<forall>f\<in>set fs. pf_required f \<longrightarrow> pf_value f ord \<noteq> None \<Longrightarrow> \<exists>es. collect_fields ord fs = Inr es"
proof (induction fs)
  case (Cons f fs)
  then obtain es where "collect_fields ord fs = Inr es" by auto
  with Cons.prems show ?case by (auto split: option.split)
qed simp

lemma order_writable:
  assumes "o_order_id ord \<noteq> []" and "o_symbol ord \<noteq> []" and "o_order_route ord \<noteq> None"
  shows "writable ord"
proof -
  have "\<forall>f\<in>set ORDER_FIELDS. pf_required f \<longrightarrow> pf_value f ord \<noteq> None"
    using assms(3) by (auto simp: ORDER_FIELDS_def required_def payload_def)
  from collect_fields_total [OF this] obtain es where es: "collect_fields ord ORDER_FIELDS = Inr es" ..
  have "map_of es = order_hash ord"
    using collect_fields_map [OF es] by (simp add: order_hash_def)
  moreover have "map pf_name (filter pf_required ORDER_FIELDS) =
      [''order_id'', ''version'', ''status'', ''updated_ts'', ''exchange'', ''market_type'', ''symbol'', ''order_route'']"
    by (simp add: ORDER_FIELDS_def required_def payload_def)
  ultimately have "missing_required ORDER_FIELDS es = []"
    using assms by (auto simp: missing_required_def exchange.val_upper market_type.val_upper upper_def)
  with es show ?thesis by (simp add: writable_def from_order_def from_source_def)
qed

definition next_order_id :: "exchange \<Rightarrow> market_type \<Rightarrow> world \<Rightarrow> string" where
  "next_order_id ex mt s = order_id_text ex mt (w_raw_ids s (w_next_id s))"

definition id_free :: "string \<Rightarrow> world \<Rightarrow> bool" where
  "id_free i s \<longleftrightarrow> w_orders s i = None \<and> w_intents s i = None"

lemma build_internal_order:
  assumes "validate_request req0 = Inr req"
  shows "build_order (order_from_request req source sig strat now) s =
    (Inr (internal_order (next_order_id (r_exchange req) (r_market_type req) s) req source sig strat now),
     s\<lparr>w_next_id := Suc (w_next_id s)\<rparr>)"
  using request_order_valid [OF assms]
  by (simp add: build_order_def Let_def next_order_id_def order_from_request_def blank_order_def)

lemma internal_order_parts:
  assumes "validate_request req0 = Inr req"
  shows "o_order_id (internal_order i req source sig strat now) = i"
    and "o_symbol (internal_order i req source sig strat now) = r_symbol req"
    and "o_order_route (internal_order i req source sig strat now) = Some (infer_order_route (r_order_type req))"
    and "o_exchange (internal_order i req source sig strat now) = r_exchange req"
    and "o_market_type (internal_order i req source sig strat now) = r_market_type req"
    and "o_status (internal_order i req source sig strat now) = OS_PENDING_NEW"
    and "o_version (internal_order i req source sig strat now) = 1"
    and "o_filled_ts (internal_order i req source sig strat now) = None"
    and "o_conditional_status (internal_order i req source sig strat now) = None"
proof -
  have "r_order_route req = Some (infer_order_route (r_order_type req))"
    using check_route_Inr [OF validated_request(4) [OF assms]] by auto
  then show "o_order_id (internal_order i req source sig strat now) = i"
    "o_symbol (internal_order i req source sig strat now) = r_symbol req"
    "o_order_route (internal_order i req source sig strat now) = Some (infer_order_route (r_order_type req))"
    "o_exchange (internal_order i req source sig strat now) = r_exchange req"
    "o_market_type (internal_order i req source sig strat now) = r_market_type req"
    "o_status (internal_order i req source sig strat now) = OS_PENDING_NEW"
    "o_version (internal_order i req source sig strat now) = 1"
    "o_filled_ts (internal_order i req source sig strat now) = None"
    "o_conditional_status (internal_order i req source sig strat now) = None"
    by (simp_all add: internal_order_def fill_order_ids_def Let_def order_from_request_def blank_order_def
        ORDER_VERSION_INITIAL_def)
qed

lemma create_order_up:
  assumes up: "stores_up s" and free: "id_free (o_order_id ord) s" and ok: "writable ord"
  shows "\<exists>t. create_order ord s = (Inr ord, t) \<and> stores_up t \<and> current ord t"
proof -
  have tx: "create_transaction ord s = (Inr (), created_world ord s)"
    using up free
    by (simp add: create_transaction_def pg_transaction_def stores_up_def Let_def prog_simps
        intent_insert_def insert_initial_def outbox_write_def created_world_def id_free_def)
  have "stores_up (created_world ord s)" using up by (simp add: stores_up_def created_world_def)
  from redis_save_up [OF this, of ord] ok obtain b t where
    t: "redis_save ord (created_world ord s) = (Inr b, t)" "stores_up t" "w_orders t = w_orders (created_world ord s)"
    by blast
  have "current ord t" using t(3) by (simp add: current_def created_world_def truncate_keeps)
  with tx t show ?thesis by (simp add: create_order_def prog_simps)
qed

lemma create_internal_order_up:
  assumes up: "stores_up s" and req: "validate_request req0 = Inr req" and sym: "r_symbol req \<noteq> []"
    and free: "id_free (next_order_id (r_exchange req) (r_market_type req) s) s"
  shows "\<exists>now t. create_internal_order req source sig strat s =
    (Inr (internal_order (next_order_id (r_exchange req) (r_market_type req) s) req source sig strat now), t) \<and>
    stores_up t \<and>
    current (internal_order (next_order_id (r_exchange req) (r_market_type req) s) req source sig strat now) t"
proof -
  let ?id = "next_order_id (r_exchange req) (r_market_type req) s"
  let ?now = "w_clock s (w_ticks s)"
  let ?s1 = "s\<lparr>w_ticks := Suc (w_ticks s)\<rparr>"
  let ?s2 = "?s1\<lparr>w_next_id := Suc (w_next_id s)\<rparr>"
  let ?ord = "internal_order ?id req source sig strat ?now"
  note parts = internal_order_parts [OF req]
  have id: "next_order_id (r_exchange req) (r_market_type req) ?s1 = ?id" by (simp add: next_order_id_def)
  have "writable ?ord"
    by (rule order_writable) (simp_all add: parts sym next_order_id_def)
  moreover have "stores_up ?s2" using up by (simp add: stores_up_def)
  moreover have "id_free (o_order_id ?ord) ?s2" using free by (simp add: parts id_free_def)
  ultimately obtain t where t: "create_order ?ord ?s2 = (Inr ?ord, t)" "stores_up t" "current ?ord t"
    using create_order_up by blast
  have "create_internal_order req source sig strat s = create_order ?ord ?s2"
    using build_internal_order [OF req, of source sig strat ?now ?s1]
    by (simp add: create_internal_order_def prog_simps epoch_ms_def id)
  with t show ?thesis by auto
qed

section \<open>The outcome\<close>

text \<open>A client call that answers at once: nothing else happens in the stores meanwhile.\<close>

definition answers :: "'a wprog \<Rightarrow> exn + 'a \<Rightarrow> bool" where
  "answers m r \<longleftrightarrow> (\<forall>s. m s = (r, s))"

definition outcome_of :: "exn + order_ack \<Rightarrow> order \<Rightarrow> bool" where
  "outcome_of r ord =
     (case r of
        Inr a \<Rightarrow> o_status ord = OS_ACKNOWLEDGED \<and> o_exchange_order_id ord = ack_exchange_order_id a \<and>
                 o_raw_exchange_response ord = Some (ack_raw a)
      | Inl (ExchangeApiError ex cat msg code raw) \<Rightarrow>
          if cat = EC_UNKNOWN_EXECUTION
          then o_status ord = OS_UNKNOWN \<and> o_reject_reason ord = Some RR_UNKNOWN_EXECUTION
          else o_status ord = OS_REJECTED \<and> o_reject_reason ord = Some (map_exchange_error_to_reason cat) \<and>
               o_exchange_error_code ord = code \<and> o_detail_msg ord = sanitize_detail_msg (Some msg)
      | Inl _ \<Rightarrow> o_status ord = OS_REJECTED \<and> o_reject_reason ord = Some RR_INTERNAL_ERROR)"

lemma mark_rejected_up:
  assumes "stores_up s" and "current ord s" and "o_status ord = OS_SUBMITTED"
  shows "\<exists>ord' t. mark_rejected ord reason code msg s = (Inr ord', t) \<and> stores_up t \<and> current ord' t \<and>
    o_status ord' = OS_REJECTED \<and> o_reject_reason ord' = Some reason \<and> o_exchange_error_code ord' = code \<and>
    o_detail_msg ord' = sanitize_detail_msg msg \<and> o_version ord' = o_version ord + 1"
  using set_status_up [OF assms(1,2), of OS_REJECTED
      "[FRejectReason (Some reason), FExchangeErrorCode code, FDetailMsg (sanitize_detail_msg msg)]" True] assms(3)
  by (auto simp: mark_rejected_def status_step_iff known_field_def)

lemma mark_unknown_up:
  assumes "stores_up s" and "current ord s" and "o_status ord = OS_SUBMITTED"
  shows "\<exists>ord' t. mark_unknown ord s = (Inr ord', t) \<and> stores_up t \<and> current ord' t \<and>
    o_status ord' = OS_UNKNOWN \<and> o_reject_reason ord' = Some RR_UNKNOWN_EXECUTION \<and>
    o_version ord' = o_version ord + 1"
  using set_status_up [OF assms(1,2), of OS_UNKNOWN "[FRejectReason (Some RR_UNKNOWN_EXECUTION)]" True] assms(3)
  by (auto simp: mark_unknown_def status_step_iff known_field_def)

lemma submit_failure_up:
  assumes "stores_up s" and "current ord s" and "o_status ord = OS_SUBMITTED"
  shows "\<exists>ord' t. submit_failure env ord e s = (Inr ord', t) \<and> stores_up t \<and> current ord' t \<and>
    outcome_of (Inl e) ord' \<and> o_version ord' = o_version ord + 1"
  using mark_rejected_up [OF assms] mark_unknown_up [OF assms]
  by (cases e) (simp_all add: submit_failure_def outcome_of_def, metis+)

lemma acknowledge_up:
  assumes "stores_up s" and "current ord s" and "o_status ord = OS_SUBMITTED"
  shows "\<exists>ord' t. acknowledge_exchange_ack ord (OrderAck a) c s = (Inr ord', t) \<and> stores_up t \<and> current ord' t \<and>
    outcome_of (Inr a) ord' \<and> o_version ord' = o_version ord + 1"
proof -
  obtain now s' where s': "epoch_ms s = (Inr now, s')" "stores_up s'" "w_orders s' = w_orders s"
    using epoch_ms_up [OF assms(1)] by blast
  have "current ord s'" using assms(2) s'(3) by (simp add: current_def)
  from set_status_up [OF s'(2) this, of OS_ACKNOWLEDGED
      "[FAcknowledgedTs (Some now), FRawExchangeResponse (Some (ack_raw a)), FExchangeOrderId (ack_exchange_order_id a)]" True]
  show ?thesis using s'(1) assms(3)
    by (auto simp: acknowledge_exchange_ack_def prog_simps status_step_iff known_field_def outcome_of_def)
qed


lemma place_and_acknowledge_up:
  assumes up: "stores_up s" and cur: "current ord s" and st: "o_status ord = OS_SUBMITTED"
    and route: "o_order_route ord = Some REGULAR"
    and reg: "env_clients env (o_exchange ord, o_market_type ord) = Some c"
    and ans: "answers (c_place_order c ord) r"
  shows "\<exists>ord' t. send_order env ord s = (Inr ord', t) \<and> stores_up t \<and> current ord' t \<and> outcome_of r ord' \<and>
    o_version ord' = o_version ord + 1"
proof -
  have client: "client_for_market env (o_exchange ord) (o_market_type ord) s = (Inr c, s)"
    by (simp add: client_for_market_def registry_get_def reg prog_simps)
  have place: "place_exchange_order env ord s = (map_sum id OrderAck r, s)"
    using ans client route
    by (cases r) (simp_all add: place_exchange_order_def prog_simps answers_def)
  show ?thesis
  proof (cases r)
    case (Inl e)
    with submit_failure_up [OF up cur st, of env e] client place show ?thesis
      by (simp add: send_order_def prog_simps)
  next
    case (Inr a)
    with acknowledge_up [OF up cur st, of a c] client place show ?thesis
      by (auto simp: send_order_def prog_simps)
  qed
qed

section \<open>Properties\<close>

definition accepted_buy :: order_request where
  "accepted_buy = market_buy\<lparr>r_order_route := Some REGULAR\<rparr>"

lemma accepted_buy: "validate_request market_buy = Inr accepted_buy"
  by code_simp

text \<open>C12: A request that passes its validator has a route that fits its type, the price, trigger and
  time in force its type needs and none it forbids, well-formed decimals and consistent position
  metadata, and the order built from it is accepted by the validator of \<open>Order\<close>, which only fills
  the ids in: \<open>create_internal_order\<close> never fails on a validated request.\<close>

theorem accepted_request_sound:
  assumes "validate_request req = Inr req'"
  shows "validate_order new_id (order_from_request req' source signal_id strategy_name now) =
      Inr (internal_order new_id req' source signal_id strategy_name now) \<and>
    r_order_route req' = Some (infer_order_route (r_order_type req')) \<and>
    (r_price req' \<noteq> None) = (r_order_type req' \<in> {LIMIT, STOP_LIMIT}) \<and>
    (r_trigger_price req' \<noteq> None) = (r_order_type req' \<in> {STOP_MARKET, STOP_LIMIT}) \<and>
    (r_order_type req' \<in> {LIMIT, STOP_LIMIT} \<longrightarrow> r_time_in_force req' \<noteq> None) \<and>
    \<not> (r_reduce_only req' \<and> r_close_position req') \<and>
    (r_market_type req' = SPOT) = (r_position_action req' = PA_NOT_APPLICABLE) \<and>
    decimal_pattern (r_quantity req')"
proof -
  note v = validated_request [OF assms]
  have route: "r_order_route req' = Some (infer_order_route (r_order_type req'))"
    using check_route_Inr [OF v(4)] by auto
  have fields: "\<not> (r_reduce_only req' \<and> r_close_position req')"
    "required_fields_by_type (r_order_type req') (r_price req') (r_trigger_price req') (r_time_in_force req') = Inr ()"
    using v(6) by (auto simp: validate_order_type_required_fields_def split: if_splits)
  have "(r_price req' \<noteq> None) = (r_order_type req' \<in> {LIMIT, STOP_LIMIT})"
    "(r_trigger_price req' \<noteq> None) = (r_order_type req' \<in> {STOP_MARKET, STOP_LIMIT})"
    "r_order_type req' \<in> {LIMIT, STOP_LIMIT} \<longrightarrow> r_time_in_force req' \<noteq> None"
    using fields(2) by (cases "r_order_type req'"; auto split: if_splits)+
  moreover have "(r_market_type req' = SPOT) = (r_position_action req' = PA_NOT_APPLICABLE)"
    using v(5) by (auto simp: normalize_position_metadata_for_order_def Let_def split: if_splits)
  moreover have "decimal_pattern (r_quantity req')"
    using v(1) by (auto simp: check_decimal_def decimal_string_def split: if_splits)
  ultimately show ?thesis using request_order_valid [OF assms] route fields(1) by blast
qed

lemma accepted_request_sound_witness:
  "validate_order ''N'' (order_from_request accepted_buy MANUAL None None 5) =
      Inr (internal_order ''N'' accepted_buy MANUAL None None 5) \<and>
    r_order_route accepted_buy = Some REGULAR \<and> r_price accepted_buy = None \<and> decimal_pattern (r_quantity accepted_buy)"
  using accepted_request_sound [OF accepted_buy, of "''N''" MANUAL None None 5]
  by (simp add: accepted_buy_def market_buy_def)

lemma submit_order_up:
  assumes "stores_up s" and "validate_request req0 = Inr req" and "r_symbol req \<noteq> []"
    and "r_leverage req = None" and "infer_order_route (r_order_type req) = REGULAR"
    and "id_free (next_order_id (r_exchange req) (r_market_type req) s) s"
    and "env_clients env (r_exchange req, r_market_type req) = Some c"
    and "\<And>ord. answers (c_place_order c ord) r"
  shows "\<exists>ord t. submit_order env req source signal_id strategy_name s = (Inr ord, t) \<and>
    stores_up t \<and> current ord t \<and> outcome_of r ord \<and> o_version ord = 3"
proof -
  let ?ord = "\<lambda>now. internal_order (next_order_id (r_exchange req) (r_market_type req) s) req source signal_id strategy_name now"
  note parts = internal_order_parts [OF assms(2), of "next_order_id (r_exchange req) (r_market_type req) s" source signal_id strategy_name]
  obtain now s1 where s1: "create_internal_order req source signal_id strategy_name s = (Inr (?ord now), s1)"
    "stores_up s1" "current (?ord now) s1"
    using create_internal_order_up [OF assms(1,2,3,6)] by blast
  obtain now' s2 where s2: "epoch_ms s1 = (Inr now', s2)" "stores_up s2" "w_orders s2 = w_orders s1"
    using epoch_ms_up [OF s1(2)] by blast
  have cur: "current (?ord now) s2" using s1(3) s2(3) by (simp add: current_def)
  obtain n d s3 where d: "apply_fields [FSubmittedTs (Some now')] (?ord now\<lparr>o_status := OS_SUBMITTED, o_updated_ts := n\<rparr>) = Inr d"
    and s3: "set_status (?ord now) OS_SUBMITTED True True [FSubmittedTs (Some now')] s2 =
      (Inr (d\<lparr>o_version := o_version (?ord now) + 1\<rparr>), s3)"
      "stores_up s3" "current (d\<lparr>o_version := o_version (?ord now) + 1\<rparr>) s3"
    using set_status_up [OF s2(2) cur, of OS_SUBMITTED "[FSubmittedTs (Some now')]" True]
    by (auto simp: parts status_step_iff known_field_def)
  let ?sub = "d\<lparr>o_version := o_version (?ord now) + 1\<rparr>"
  from d have sub: "o_status ?sub = OS_SUBMITTED" "o_order_route ?sub = Some REGULAR"
    "o_exchange ?sub = r_exchange req" "o_market_type ?sub = r_market_type req" "o_version ?sub = 2"
    using assms(5) by (auto simp: parts)
  obtain ord t where "send_order env ?sub s3 = (Inr ord, t)" "stores_up t" "current ord t" "outcome_of r ord"
    "o_version ord = o_version ?sub + 1"
    using place_and_acknowledge_up [OF s3(2,3) sub(1,2) _ assms(8), of env] assms(7) sub(3,4) by auto
  with s1(1) s2(1) s3(1) sub(5) show ?thesis
    by (simp add: submit_order_def prog_simps apply_order_request_leverage_if_present_def assms(4))
qed

text \<open>C6: When the stores answer and nothing else runs, submitting an accepted regular order
  returns an order that is the stored one at its third version, and its status and fields are those
  the exchange's answer asks for: acknowledged with the exchange's id, rejected with the mapped
  reason, or unknown when the exchange may have executed it.\<close>

theorem submit_order_outcome:
  assumes "stores_up s" and "validate_request req0 = Inr req" and "r_symbol req \<noteq> []"
    and "r_leverage req = None" and "infer_order_route (r_order_type req) = REGULAR"
    and "id_free (next_order_id (r_exchange req) (r_market_type req) s) s"
    and "env_clients env (r_exchange req, r_market_type req) = Some c"
    and "\<And>ord. answers (c_place_order c ord) r"
  shows "\<exists>ord t. submit_order env req source signal_id strategy_name s = (Inr ord, t) \<and>
    current ord t \<and> outcome_of r ord \<and> o_version ord = 3"
  using submit_order_up [OF assms, of source signal_id strategy_name] by blast

definition answering_client :: client where
  "answering_client = down_client\<lparr>c_place_order := (\<lambda>_. ret filled_ack)\<rparr>"

lemma answering_client_place: "answers (c_place_order answering_client ord) (Inr filled_ack)"
  by (simp add: answering_client_def answers_def prog_simps)


lemma submit_order_outcome_witness:
  "\<exists>ord t. submit_order (env_with answering_client) accepted_buy MANUAL None None blank_world = (Inr ord, t) \<and>
    current ord t \<and> outcome_of (Inr filled_ack) ord \<and> o_version ord = 3"
proof (rule submit_order_outcome [OF _ accepted_buy])
  show "answers (c_place_order answering_client ord) (Inr filled_ack)" for ord
    by (rule answering_client_place)
qed (simp_all add: stores_up_def blank_world_def accepted_buy_def market_buy_def id_free_def env_with_def)

text \<open>An order the exchange has accepted can end \<open>REJECTED\<close>: when the status in the
  acknowledgement of a conditional order is one the adapter has no text for, or the conditional
  machine refuses it, the acknowledgement raises inside the same \<open>try\<close> as the placement, and the
  handler rejects the order although it is live at the exchange.\<close>

lemma accepted_conditional_rejected:
  assumes "stores_up s" and "current ord s" and "o_status ord = OS_SUBMITTED"
    and "o_order_route ord = Some CONDITIONAL"
    and "env_clients env (o_exchange ord, o_market_type ord) = Some c"
    and "answers (c_place_conditional_order c ord) (Inr a)"
    and "c_exchange_conditional_status c (cack_conditional_status a) = None"
  shows "\<exists>ord' t. send_order env ord s = (Inr ord', t) \<and> current ord' t \<and>
    o_status ord' = OS_REJECTED \<and> o_reject_reason ord' = Some RR_INTERNAL_ERROR"
proof -
  have client: "client_for_market env (o_exchange ord) (o_market_type ord) s' = (Inr c, s')" for s'
    by (simp add: client_for_market_def registry_get_def assms(5) prog_simps)
  obtain now s1 where s1: "epoch_ms s = (Inr now, s1)" "stores_up s1" "w_orders s1 = w_orders s"
    using epoch_ms_up [OF assms(1)] by blast
  have cur: "current ord s1" using assms(2) s1(3) by (simp add: current_def)
  define refused where "refused = (case cond_assert_can_transition (o_conditional_status ord) (cack_conditional_status a) of
    Inl e \<Rightarrow> e | Inr _ \<Rightarrow> ValueError ''unsupported exchange conditional status'')"
  have ack: "acknowledge_exchange_ack ord (ConditionalAck a) c s = (Inl refused, s1)"
    by (simp add: acknowledge_exchange_ack_def prog_simps s1(1) assms(7) refused_def split: sum.split)
  have not_api: "\<forall>x1 x2 x3 x4 x5. refused \<noteq> ExchangeApiError x1 x2 x3 x4 x5"
    by (auto simp: refused_def cond_assert_can_transition_def split: sum.splits if_splits)
  have run: "send_order env ord s = submit_failure env ord refused s1"
    using client assms(4,6) ack by (simp add: send_order_def place_exchange_order_def prog_simps answers_def)
  from submit_failure_up [OF s1(2) cur assms(3), of env refused] show ?thesis
    using not_api by (cases refused) (auto simp: run outcome_of_def)
qed

definition conditional_client :: client where
  "conditional_client = down_client\<lparr>c_place_conditional_order := (\<lambda>_. ret
     \<lparr>cack_exchange_conditional_id = Some ''9'', cack_conditional_status = CS_NEW, cack_raw = []\<rparr>)\<rparr>"

lemma conditional_client_place: "answers (c_place_conditional_order conditional_client ord)
    (Inr \<lparr>cack_exchange_conditional_id = Some ''9'', cack_conditional_status = CS_NEW, cack_raw = []\<rparr>)"
  by (simp add: conditional_client_def answers_def prog_simps)

definition sent_conditional :: order where
  "sent_conditional = sample_open\<lparr>o_order_type := STOP_MARKET, o_order_route := Some CONDITIONAL,
     o_status := OS_SUBMITTED, o_reject_reason := None\<rparr>"



end
