(* ===== verification/StoreProperties.thy ===== *)
theory StoreProperties
  imports Samples
begin

text \<open>
  What the order store promises its callers: writes are atomic and leave an event, a version is
  spent once, and what is read back is the row that is stored.
\<close>

section \<open>Reads\<close>

text \<open>Programs that may refresh the projection but leave the tables alone: every read is one.\<close>

definition same_tables :: "world \<Rightarrow> world \<Rightarrow> bool" where
  "same_tables s t \<longleftrightarrow> w_orders t = w_orders s \<and> w_order_keys t = w_order_keys s \<and>
     w_intents t = w_intents s \<and> w_outbox t = w_outbox s"

abbreviation reading :: "'a wprog \<Rightarrow> bool" where
  "reading m \<equiv> safe (\<lambda>_. True) same_tables (\<lambda>_. True) m (\<lambda>_ _. True)"

interpretation tb: guarded_evolution "\<lambda>_. True" same_tables
  by unfold_locales (auto simp: same_tables_def)

lemma readingI: "(\<And>s r t. m s = (r, t) \<Longrightarrow> same_tables s t) \<Longrightarrow> reading m"
  by (rule safeI) simp

lemma readingD: "reading m \<Longrightarrow> m s = (r, t) \<Longrightarrow> same_tables s t"
  by (drule safeD(2)) simp_all

lemma reading_then: "reading m \<Longrightarrow> (\<And>x. reading (f x)) \<Longrightarrow> reading (andThen m f)"
  by (rule tb.safe_then)

lemma reading_ret: "reading (ret x)"
  by (simp add: tb.safe_ret)

lemma reading_liftSum: "reading (liftSum r)"
  by (simp add: tb.safe_liftSum)

lemma reading_catch: "reading m \<Longrightarrow> (\<And>e. reading (h e)) \<Longrightarrow> reading (catch m h)"
  by (rule tb.safe_catch) simp_all

lemma redis_save_reading: "reading (redis_save ord)"
  by (rule readingI)
    (auto simp: redis_save_def redis_call_def Let_def same_tables_def split: prod.splits sum.splits if_splits)

lemma redis_read_reading: "reading (redis_read f)"
  by (rule readingI) (auto dest!: redis_read_run simp: same_store_def same_tables_def)

lemma pg_read_reading: "reading (pg_read f)"
  by (rule readingI) (auto dest!: pg_read_run simp: same_store_def same_tables_def)

lemma build_order_reading: "reading (build_order ord)"
  by (rule readingI) (auto dest!: build_order_same_store simp: same_store_def same_tables_def)

lemma refresh_when_reading: "reading (refresh_when b ord)"
  unfolding refresh_when_def try_refresh_def refresh_order_projection_def
  by (cases b) (auto intro!: reading_catch reading_then redis_save_reading reading_ret)

lemmas reading_intros = reading_then reading_ret reading_liftSum reading_catch redis_save_reading
  redis_read_reading pg_read_reading build_order_reading refresh_when_reading

lemma load_from_postgres_reading: "reading (load_order_from_postgres i b)"
  unfolding load_order_from_postgres_def get_joined_order_def
  by (auto intro!: reading_intros split: option.split)

lemma load_order_reading: "reading (load_order i b)"
  unfolding load_order_def
  by (auto intro!: reading_intros load_from_postgres_reading split: option.split)

lemma load_repo_reading: "reading (load_order_from_repo i)"
  unfolding load_order_from_repo_def by (rule load_order_reading)

section \<open>Runs of the two writes\<close>

lemma create_order_run:
  assumes "create_order ord s = (r, t)"
  shows "(\<exists>e. r = Inl e \<and> same_store s t) \<or>
    (w_orders s (o_order_id ord) = None \<and> (\<forall>o'. r = Inr o' \<longrightarrow> o' = ord) \<and>
     w_orders t = w_orders (created_world ord s) \<and> w_intents t = w_intents (created_world ord s) \<and>
     w_outbox t = w_outbox (created_world ord s))"
proof -
  obtain q u where tx: "create_transaction ord s = (q, u)" by (cases "create_transaction ord s")
  from create_transaction_run [OF tx] show ?thesis
  proof
    assume "\<exists>e. q = Inl e \<and> same_store s u"
    with tx assms show ?thesis by (auto simp: create_order_def prog_simps)
  next
    assume q: "q = Inr () \<and> w_orders s (o_order_id ord) = None \<and> u = created_world ord s"
    with tx assms show ?thesis
      by (auto simp: create_order_def prog_simps redis_save_def redis_call_def Let_def
          split: sum.splits prod.splits if_splits)
  qed
qed

lemma try_refresh_tables:
  assumes "try_refresh ord s = (r, t)"
  shows "r = Inr () \<and> w_orders t = w_orders s \<and> w_intents t = w_intents s \<and> w_outbox t = w_outbox s"
  using assms
  by (auto simp: try_refresh_def refresh_order_projection_def redis_save_def redis_call_def Let_def prog_simps
      split: sum.splits prod.splits if_splits)

lemma transition_order_run:
  assumes "transition_order cur upd s = (r, t)"
  shows "(\<exists>e. r = Inl e \<and> same_store s t) \<or>
    (\<exists>row. w_orders s (o_order_id upd) = Some row \<and> o_version row = o_version cur \<and>
       r = Inr (upd\<lparr>o_version := o_version cur + 1\<rparr>) \<and>
       w_orders t = w_orders (transitioned_world cur upd row s) \<and> w_intents t = w_intents s \<and>
       w_outbox t = w_outbox (transitioned_world cur upd row s))"
proof -
  obtain q u where tx: "transition_transaction cur upd s = (q, u)" by (cases "transition_transaction cur upd s")
  from transition_transaction_run [OF tx] show ?thesis
  proof
    assume "\<exists>e. q = Inl e \<and> same_store s u"
    with tx assms show ?thesis by (auto simp: transition_order_def prog_simps)
  next
    assume "\<exists>row. w_orders s (o_order_id upd) = Some row \<and> o_version row = o_version cur \<and>
       q = Inr (upd\<lparr>o_version := o_version cur + 1\<rparr>) \<and> u = transitioned_world cur upd row s"
    then obtain row where row: "w_orders s (o_order_id upd) = Some row" "o_version row = o_version cur"
      "q = Inr (upd\<lparr>o_version := o_version cur + 1\<rparr>)" "u = transitioned_world cur upd row s" by blast
    obtain q' u' where fresh: "try_refresh (upd\<lparr>o_version := o_version cur + 1\<rparr>) u = (q', u')" by fastforce
    note kept = try_refresh_tables [OF fresh]
    have "w_intents (transitioned_world cur upd row s) = w_intents s" by (simp add: transitioned_world_def)
    with tx assms row fresh kept show ?thesis by (auto simp: transition_order_def prog_simps)
  qed
qed

section \<open>Properties\<close>

text \<open>Creating an order is atomic: either nothing is written and the caller sees an exception, or
  the order, its intent and the \<open>ORDER_CREATED\<close> event are all there and nothing else has changed,
  even when the projection write after the commit raises.\<close>

lemma create_order_atomic:
  assumes "create_order ord s = (r, t)"
  shows "((\<exists>e. r = Inl e) \<and> w_orders t = w_orders s \<and> w_intents t = w_intents s \<and> w_outbox t = w_outbox s) \<or>
    (w_orders s (o_order_id ord) = None \<and>
     w_orders t = (w_orders s)(o_order_id ord \<mapsto> orders_row.truncate ord) \<and>
     w_intents t = (w_intents s)(o_order_id ord \<mapsto> ord) \<and>
     order_events (o_order_id ord) (w_outbox t) = order_events (o_order_id ord) (w_outbox s) @ [OrderCreated ord] \<and>
     (\<forall>i. i \<noteq> o_order_id ord \<longrightarrow> order_events i (w_outbox t) = order_events i (w_outbox s)))"
  using create_order_run [OF assms] by (auto simp: same_store_def created_world_def order_events_same)

text \<open>C7: A version is spent once.  When two tasks read the same version of an order and one stores a
  transition, the other's transition raises whatever has happened in between, and it changes neither
  the rows nor the event log nor the projection: no update is lost.\<close>

theorem no_lost_update:
  assumes ids: "o_order_id upd1 = o_order_id cur" "o_order_id upd2 = o_order_id cur"
    and first: "transition_order cur upd1 s = (Inr p, t)" and between: "evolves T t u"
    and second: "transition_order cur upd2 u = (r, v)"
  shows "\<exists>e. r = Inl e \<and> w_orders v = w_orders u \<and> w_outbox v = w_outbox u \<and> w_redis v = w_redis u"
proof -
  obtain row where row: "w_orders s (o_order_id upd1) = Some row" "o_version row = o_version cur"
    "w_orders t = w_orders (transitioned_world cur upd1 row s)"
    using transition_order_run [OF first] by auto
  then have "w_orders t (o_order_id cur) = Some (transition_row upd1 row)"
    using ids(1) by (simp add: transitioned_world_def)
  then obtain row' where row': "w_orders u (o_order_id cur) = Some row'"
    "row_evolves T (transition_row upd1 row) row'"
    using evolvesD [OF between] by blast
  then have "o_version row' > o_version cur" using row(2) by (auto simp: row_evolves_def)
  with transition_order_run [OF second] row'(1) ids(2) show ?thesis
    by (auto simp: same_store_def)
qed

lemma no_lost_update_witness:
  "\<exists>e. fst (transition_order sample_open (sample_open\<lparr>o_status := OS_CANCELLED\<rparr>)
        (snd (transition_order sample_open sample_filled (holding sample_open)))) = Inl e \<and>
     w_orders (snd (transition_order sample_open (sample_open\<lparr>o_status := OS_CANCELLED\<rparr>)
        (snd (transition_order sample_open sample_filled (holding sample_open))))) =
       w_orders (snd (transition_order sample_open sample_filled (holding sample_open))) \<and>
     w_outbox (snd (transition_order sample_open (sample_open\<lparr>o_status := OS_CANCELLED\<rparr>)
        (snd (transition_order sample_open sample_filled (holding sample_open))))) =
       w_outbox (snd (transition_order sample_open sample_filled (holding sample_open))) \<and>
     w_redis (snd (transition_order sample_open (sample_open\<lparr>o_status := OS_CANCELLED\<rparr>)
        (snd (transition_order sample_open sample_filled (holding sample_open))))) =
       w_redis (snd (transition_order sample_open sample_filled (holding sample_open)))"
proof (rule no_lost_update)
  let ?p = "sample_filled\<lparr>o_version := o_version sample_open + 1\<rparr>"
  show "o_order_id sample_filled = o_order_id sample_open" by (simp add: sample_filled_def)
  have "transition_transaction sample_open sample_filled (holding sample_open) =
      (Inr ?p, transitioned_world sample_open sample_filled (orders_row.truncate sample_open) (holding sample_open))"
    by (simp add: transition_transaction_def pg_transaction_def Let_def prog_simps repo_transition_def
        outbox_write_def transitioned_world_def holding_def created_world_def blank_world_def truncate_keeps
        sample_filled_def)
  then have "fst (transition_order sample_open sample_filled (holding sample_open)) = Inr ?p"
    by (cases "try_refresh ?p (transitioned_world sample_open sample_filled (orders_row.truncate sample_open) (holding sample_open))")
      (auto simp: transition_order_def prog_simps dest: try_refresh_tables)
  then show "transition_order sample_open sample_filled (holding sample_open) =
      (Inr ?p, snd (transition_order sample_open sample_filled (holding sample_open)))"
    by (metis prod.collapse)
  show "evolves status_step (snd (transition_order sample_open sample_filled (holding sample_open)))
      (snd (transition_order sample_open sample_filled (holding sample_open)))" by (rule evolves_refl)
  show "o_order_id (sample_open\<lparr>o_status := OS_CANCELLED\<rparr>) = o_order_id sample_open" by simp
qed (rule surjective_pairing)

end
