(* ===== verification/Cancellation.thy ===== *)
theory Cancellation
  imports Submission
begin

text \<open>
  \<open>gateway/cancellation_service.py\<close> and \<open>dto/cancel_service_resp.py\<close>: cancelling one order, a
  batch of orders of a symbol, and all open orders of a symbol.  The orders are marked
  \<open>PENDING_CANCEL\<close> before the exchange is called; an unknown execution makes them \<open>UNKNOWN\<close>,
  another failure puts the previous status back, without asking the state machine.
\<close>

section \<open>Results\<close>

datatype batch_cancel_status = BC_CANCELLED | BC_SKIPPED | BC_FAILED | BC_UNKNOWN

text \<open>\<open>CancelBatchOrderResp\<close>; \<open>message\<close> may be whatever the exchange put under \<open>msg\<close>.\<close>

record cancel_item =
  ci_order_id :: string
  ci_result :: batch_cancel_status
  ci_reason :: "cancel_skip_reason option"
  ci_status :: "order_status option"
  ci_conditional_status :: "conditional_status option"
  ci_client_order_id :: "string option"
  ci_exchange_order_id :: "string option"
  ci_code :: "json option"
  ci_message :: "json option"
  ci_raw :: json_obj

definition batch_cancel_result_payload :: "string \<Rightarrow> batch_cancel_status \<Rightarrow> cancel_item" where
  "batch_cancel_result_payload i result =
     \<lparr>ci_order_id = i, ci_result = result, ci_reason = None, ci_status = None,
      ci_conditional_status = None, ci_client_order_id = None, ci_exchange_order_id = None,
      ci_code = None, ci_message = None, ci_raw = []\<rparr>"

definition terminal_cancel_skip_reason :: "order_status \<Rightarrow> cancel_skip_reason" where
  "terminal_cancel_skip_reason status =
     (if status = OS_CANCELLED then ALREADY_CANCELLED
      else if status = OS_FILLED then ALREADY_FILLED
      else if status = OS_REJECTED then ALREADY_REJECTED
      else if status = OS_EXPIRED then ALREADY_EXPIRED
      else CONDITIONAL_ORDER_NOT_CANCELABLE)"

fun http_status :: "cancel_skip_reason \<Rightarrow> int" where
  "http_status LOCAL_ORDER_NOT_FOUND = 404"
| "http_status ALREADY_CANCELLED = 200"
| "http_status ALREADY_FILLED = 409"
| "http_status ALREADY_REJECTED = 409"
| "http_status ALREADY_EXPIRED = 409"
| "http_status CONDITIONAL_ORDER_NOT_CANCELABLE = 409"

section \<open>One order\<close>

definition is_conditional_cancelable :: "order \<Rightarrow> bool" where
  "is_conditional_cancelable ord =
     (if o_order_route ord \<noteq> Some CONDITIONAL then False
      else if o_conditional_status ord \<in> Some ` CONDITIONAL_TERMINAL_STATUSES then False
      else if o_conditional_status ord = None then True
      else case cond_assert_can_transition (o_conditional_status ord) CS_CANCELLED of
             Inr _ \<Rightarrow> True | Inl _ \<Rightarrow> False)"

text \<open>Puts a status back: no machine, no protection of a terminal status.\<close>

definition put_back :: "order \<Rightarrow> order_status \<Rightarrow> unit wprog" where
  "put_back latest previous = andThen (set_status latest previous False False []) (\<lambda>_. ret ())"

definition unless_terminal :: "(order \<Rightarrow> unit wprog) \<Rightarrow> order option \<Rightarrow> unit wprog" where
  "unless_terminal m latest =
     (case latest of None \<Rightarrow> ret ()
      | Some ord \<Rightarrow> if o_status ord \<in> TERMINAL_STATUSES then ret () else m ord)"

definition make_unknown :: "order \<Rightarrow> unit wprog" where
  "make_unknown ord = andThen (mark_unknown ord) (\<lambda>_. ret ())"

text \<open>
  The \<open>except ExchangeApiError\<close> of both single cancels; \<open>reload\<close> is how each reads the order
  again.  Other exceptions pass through.
\<close>

definition cancel_failure :: "(string \<Rightarrow> order option wprog) \<Rightarrow> order \<Rightarrow> order_status \<Rightarrow> exn \<Rightarrow> 'a wprog" where
  "cancel_failure reload ord previous_status e =
     (case e of
        ExchangeApiError ex cat msg code raw \<Rightarrow>
          if cat = EC_UNKNOWN_EXECUTION then andThen (mark_unknown ord) (\<lambda>_. throw e)
          else
            andThen (reload (o_order_id ord)) (\<lambda>latest.
            andThen (unless_terminal (\<lambda>latest. put_back latest previous_status) latest) (\<lambda>_.
            throw e))
      | _ \<Rightarrow> throw e)"

text \<open>\<open>load_order_from_postgres\<close> takes keyword arguments only; this call passes the id by position.\<close>

definition load_order_from_postgres_positional :: "string \<Rightarrow> order option wprog" where
  "load_order_from_postgres_positional i =
     throw (TypeError ''load_order_from_postgres() takes 1 positional argument but 2 were given'')"

definition cancel_regular_order :: "gateway_env \<Rightarrow> order \<Rightarrow> order_status \<Rightarrow> cancel_result wprog" where
  "cancel_regular_order env ord previous_status =
     andThen (set_status ord OS_PENDING_CANCEL True True []) (\<lambda>ord.
     catch
       (andThen (client_for_market env (o_exchange ord) (o_market_type ord)) (\<lambda>c.
        andThen (c_cancel_order c ord) (\<lambda>resp.
        andThen epoch_ms (\<lambda>now.
        andThen (set_status ord OS_CANCELLED True True
                   [FCancelledTs (Some now), FRawExchangeResponse (Some (cr_raw resp))]) (\<lambda>_.
        ret resp)))))
       (cancel_failure load_order_from_postgres_positional ord previous_status))"

definition cancel_conditional_order :: "gateway_env \<Rightarrow> order \<Rightarrow> order_status \<Rightarrow> cancel_result wprog" where
  "cancel_conditional_order env ord previous_status =
     (if \<not> is_conditional_cancelable ord
      then throw (CancelOrderSkipped (o_order_id ord) CONDITIONAL_ORDER_NOT_CANCELABLE (Some (o_status ord))
                    (o_conditional_status ord) (o_triggered_order_id ord)
                    ''Conditional order is not cancelable in its current state.'')
      else
        andThen (set_status ord OS_PENDING_CANCEL True True []) (\<lambda>ord.
        catch
          (andThen (client_for_market env (o_exchange ord) (o_market_type ord)) (\<lambda>c.
           andThen (c_cancel_order c ord) (\<lambda>resp.
           andThen epoch_ms (\<lambda>now.
           andThen (set_status ord OS_CANCELLED True True
                      [FCancelledTs (Some now), FConditionalStatus (Some CS_CANCELLED),
                       FExchangeConditionalStatus (cr_raw_status resp),
                       FRawExchangeResponse (Some (cr_raw resp))]) (\<lambda>_.
           ret resp)))))
          (cancel_failure load_order_from_repo ord previous_status)))"

definition cancel_order :: "gateway_env \<Rightarrow> string \<Rightarrow> cancel_result wprog" where
  "cancel_order env i =
     andThen (load_order_from_repo i) (\<lambda>found. case found of
       None \<Rightarrow> throw (CancelOrderSkipped i LOCAL_ORDER_NOT_FOUND None None None
                 ''Local order was not found; exchange cancel target cannot be resolved.'')
     | Some ord \<Rightarrow>
         if o_status ord \<in> TERMINAL_STATUSES
         then throw (CancelOrderSkipped (o_order_id ord) (terminal_cancel_skip_reason (o_status ord))
                (Some (o_status ord)) (o_conditional_status ord) None
                (''Order is already terminal: '' @ order_status_value (o_status ord)))
         else if o_order_route ord = Some REGULAR then cancel_regular_order env ord (o_status ord)
         else if o_order_route ord = Some CONDITIONAL then cancel_conditional_order env ord (o_status ord)
         else throw (RuntimeError ''unsupported order_route for cancel''))"

section \<open>Batches\<close>

type_synonym cancel_results = "string \<Rightarrow> cancel_item option"

type_synonym statuses = "string \<Rightarrow> order_status option"

definition about_order :: "order \<Rightarrow> cancel_item \<Rightarrow> cancel_item" where
  "about_order ord item = item
     \<lparr>ci_status := Some (o_status ord), ci_conditional_status := o_conditional_status ord,
      ci_client_order_id := o_client_order_id ord, ci_exchange_order_id := o_exchange_order_id ord\<rparr>"

definition skipped :: "string \<Rightarrow> cancel_skip_reason \<Rightarrow> string \<Rightarrow> cancel_item" where
  "skipped i reason msg = (batch_cancel_result_payload i BC_SKIPPED)
     \<lparr>ci_reason := Some reason, ci_message := Some (JStr msg)\<rparr>"

definition skipped_terminal :: "order \<Rightarrow> string \<Rightarrow> cancel_item" where
  "skipped_terminal ord prefix = about_order ord (skipped (o_order_id ord)
     (terminal_cancel_skip_reason (o_status ord)) (prefix @ order_status_value (o_status ord)))"

text \<open>The first loop: which orders of the slice take part.\<close>

definition batch_cancel_load ::
  "exchange \<Rightarrow> market_type \<Rightarrow> string \<Rightarrow> string \<Rightarrow> order list \<times> statuses \<times> cancel_results \<Rightarrow>
     (order list \<times> statuses \<times> cancel_results) wprog" where
  "batch_cancel_load ex mt symb oid acc =
     (case acc of (eligible, previous, results) \<Rightarrow>
        andThen (load_order_from_repo oid) (\<lambda>found. case found of
          None \<Rightarrow> ret (eligible, previous, results(oid \<mapsto> skipped oid LOCAL_ORDER_NOT_FOUND
                    ''Local order was not found; exchange cancel target cannot be resolved.''))
        | Some ord \<Rightarrow>
            if o_status ord \<in> TERMINAL_STATUSES
            then ret (eligible, previous, results(oid \<mapsto> skipped_terminal ord ''Order is already terminal: ''))
            else if o_exchange ord \<noteq> ex \<or> o_market_type ord \<noteq> mt
            then throw (ValueError ''order market mismatch'')
            else if upper (o_symbol ord) \<noteq> symb
            then throw (ValueError ''symbol mismatch for batch cancel'')
            else if o_order_route ord \<noteq> Some REGULAR
            then ret (eligible, previous, results(oid \<mapsto> about_order ord
                   (skipped (o_order_id ord) CONDITIONAL_ORDER_NOT_CANCELABLE
                     ''Batch cancel supports only regular orders.'')))
            else ret (eligible @ [ord], previous(o_order_id ord \<mapsto> o_status ord), results)))"

definition batch_cancel_pend ::
  "order \<Rightarrow> order list \<times> cancel_results \<Rightarrow> (order list \<times> cancel_results) wprog" where
  "batch_cancel_pend ord acc =
     (case acc of (pending, results) \<Rightarrow>
        andThen (load_order_from_repo (o_order_id ord)) (\<lambda>found. case found of
          None \<Rightarrow> ret (pending, results(o_order_id ord \<mapsto> skipped (o_order_id ord) LOCAL_ORDER_NOT_FOUND
                    ''Local order disappeared before pending cancel.''))
        | Some latest \<Rightarrow>
            if o_status latest \<in> TERMINAL_STATUSES
            then ret (pending, results(o_order_id ord \<mapsto> skipped_terminal latest ''Order became terminal: ''))
            else andThen (set_status latest OS_PENDING_CANCEL True True []) (\<lambda>p.
                 ret (pending @ [p], results))))"

definition batch_cancel_match :: "order list \<Rightarrow> cancel_result \<Rightarrow> order option" where
  "batch_cancel_match pending resp =
     (let by_client = (if truthy (cr_client_order_id resp)
                       then batch_lookup pending (the (cr_client_order_id resp)) else None)
      in if by_client = None \<and> truthy (cr_exchange_order_id resp)
         then List.find (\<lambda>ord. truthy (o_exchange_order_id ord) \<and>
                                o_exchange_order_id ord = cr_exchange_order_id resp) (rev pending)
         else by_client)"

definition negative_code :: "json_obj \<Rightarrow> bool" where
  "negative_code raw = (case map_of raw ''code'' of Some (JInt n) \<Rightarrow> n < 0 | _ \<Rightarrow> False)"

text \<open>What a response says of the order read before it was applied.\<close>

definition response_item :: "batch_cancel_status \<Rightarrow> string \<Rightarrow> order option \<Rightarrow> cancel_result \<Rightarrow> cancel_item" where
  "response_item result i latest resp = (batch_cancel_result_payload i result)
     \<lparr>ci_status := map_option o_status latest,
      ci_conditional_status := (case latest of None \<Rightarrow> None | Some ord \<Rightarrow> o_conditional_status ord),
      ci_client_order_id := cr_client_order_id resp, ci_exchange_order_id := cr_exchange_order_id resp,
      ci_raw := cr_raw resp\<rparr>"

text \<open>\<open>rollback\<close>: the status an order had before this cancellation, when it is known.\<close>

definition put_back_previous :: "statuses \<Rightarrow> string \<Rightarrow> order option \<Rightarrow> unit wprog" where
  "put_back_previous previous i latest =
     (case (latest, previous i) of (Some ord, Some st) \<Rightarrow> put_back ord st | _ \<Rightarrow> ret ())"

definition rollback_previous :: "statuses \<Rightarrow> string \<Rightarrow> unit wprog" where
  "rollback_previous previous i = andThen (load_order_from_repo i) (put_back_previous previous i)"

definition unknown_unless_terminal :: "string \<Rightarrow> unit wprog" where
  "unknown_unless_terminal i = andThen (load_order_from_repo i) (unless_terminal make_unknown)"

definition batch_cancel_response ::
  "order list \<Rightarrow> statuses \<Rightarrow> cancel_result \<Rightarrow> string list \<times> cancel_results \<Rightarrow>
     (string list \<times> cancel_results) wprog" where
  "batch_cancel_response pending previous resp acc =
     (case batch_cancel_match pending resp of
        None \<Rightarrow> ret acc
      | Some ord \<Rightarrow>
          (let i = o_order_id ord; matched = i # fst acc; results = snd acc in
           andThen (load_order_from_repo i) (\<lambda>latest.
           if cr_unknown_execution resp
           then andThen (unless_terminal make_unknown latest) (\<lambda>_.
                ret (matched, results(i \<mapsto> (response_item BC_UNKNOWN i latest resp)
                  \<lparr>ci_message := Some (JStr ''Exchange cancel execution is unknown.'')\<rparr>)))
           else if negative_code (cr_raw resp)
           then andThen (put_back_previous previous i latest) (\<lambda>_.
                ret (matched, results(i \<mapsto> (response_item BC_FAILED i latest resp)
                  \<lparr>ci_code := map_of (cr_raw resp) ''code'', ci_message := map_of (cr_raw resp) ''msg''\<rparr>)))
           else
             andThen (case latest of
                 None \<Rightarrow> ret ()
               | Some ord' \<Rightarrow>
                   andThen epoch_ms (\<lambda>now.
                   andThen (set_status ord' OS_CANCELLED True True
                     [FCancelledTs (Some now), FRawExchangeResponse (Some (cr_raw resp))]) (\<lambda>_. ret ()))) (\<lambda>_.
             ret (matched, results(i \<mapsto> (response_item BC_CANCELLED i None resp)
                  \<lparr>ci_status := Some OS_CANCELLED\<rparr>))))))"

definition batch_cancel_missing ::
  "string list \<Rightarrow> order \<Rightarrow> cancel_results \<Rightarrow> cancel_results wprog" where
  "batch_cancel_missing matched ord results =
     (if o_order_id ord \<in> set matched then ret results
      else
        andThen (load_order_from_repo (o_order_id ord)) (\<lambda>latest.
        andThen (unless_terminal make_unknown latest) (\<lambda>_.
        ret (results(o_order_id ord \<mapsto> (batch_cancel_result_payload (o_order_id ord) BC_UNKNOWN)
          \<lparr>ci_status := map_option o_status latest,
           ci_conditional_status := (case latest of None \<Rightarrow> None | Some l \<Rightarrow> o_conditional_status l),
           ci_client_order_id := o_client_order_id ord, ci_exchange_order_id := o_exchange_order_id ord,
           ci_message := Some (JStr ''Missing exchange cancel response.'')\<rparr>)))))"

text \<open>The \<open>except\<close> clauses, shared with the cancel-all operations: the exception is raised again.\<close>

definition many_cancel_failure :: "string list \<Rightarrow> statuses \<Rightarrow> exn \<Rightarrow> 'a wprog" where
  "many_cancel_failure ids previous e =
     andThen
       (case e of
          ExchangeApiError ex cat msg code raw \<Rightarrow>
            if cat = EC_UNKNOWN_EXECUTION then forEach unknown_unless_terminal ids
            else forEach (rollback_previous previous) ids
        | _ \<Rightarrow> forEach (rollback_previous previous) ids)
       (\<lambda>_. throw e)"

definition batch_cancel_exchange ::
  "client \<Rightarrow> order list \<Rightarrow> statuses \<Rightarrow> cancel_results \<Rightarrow> cancel_results wprog" where
  "batch_cancel_exchange c pending previous results =
     andThen (c_cancel_batch_orders c pending) (\<lambda>responses.
     andThen (foldE (batch_cancel_response pending previous) responses ([], results)) (\<lambda>(matched, results).
     foldE (batch_cancel_missing matched) pending results))"

definition cancel_slice ::
  "client \<Rightarrow> exchange \<Rightarrow> market_type \<Rightarrow> string \<Rightarrow> string list \<Rightarrow> cancel_item list \<Rightarrow> cancel_item list wprog" where
  "cancel_slice c ex mt symb raw_batch results =
     andThen (foldE (batch_cancel_load ex mt symb) raw_batch ([], (\<lambda>_. None), (\<lambda>_. None))) (\<lambda>(eligible, previous, by_id).
     andThen (foldE batch_cancel_pend eligible ([], by_id)) (\<lambda>(pending, by_id).
     andThen (if pending = [] then ret by_id
              else catch (batch_cancel_exchange c pending previous by_id)
                     (many_cancel_failure (map o_order_id pending) previous)) (\<lambda>by_id.
     ret (results @ List.map_filter by_id raw_batch))))"

definition cancel_batch_orders ::
  "gateway_env \<Rightarrow> exchange \<Rightarrow> market_type \<Rightarrow> string \<Rightarrow> string list \<Rightarrow> cancel_item list wprog" where
  "cancel_batch_orders env ex mt symb order_ids =
     (if order_ids = [] then ret []
      else
        andThen (client_for_market env ex mt) (\<lambda>c.
        if \<not> c_supports_batch_cancel c then throw (RuntimeError ''batch cancel is not supported'')
        else if c_max_batch_cancel_size c \<le> 0 then throw (RuntimeError ''invalid max_batch_cancel_size'')
        else foldE (cancel_slice c ex mt (upper (strip symb)))
               (chunks (nat (c_max_batch_cancel_size c)) order_ids) []))"

section \<open>All open orders of a symbol\<close>

definition cancel_all_pend ::
  "(order \<Rightarrow> bool) \<Rightarrow> order \<Rightarrow> string list \<times> statuses \<Rightarrow> (string list \<times> statuses) wprog" where
  "cancel_all_pend wanted ord acc =
     (if o_order_id ord = [] then ret acc
      else andThen (load_order_from_repo (o_order_id ord)) (\<lambda>found. case found of
        None \<Rightarrow> ret acc
      | Some latest \<Rightarrow>
          if o_status latest \<in> TERMINAL_STATUSES then ret acc
          else if \<not> wanted latest then ret acc
          else andThen (set_status latest OS_PENDING_CANCEL True True []) (\<lambda>_.
               ret (fst acc @ [o_order_id latest], (snd acc)(o_order_id latest \<mapsto> o_status latest)))))"

definition cancel_all_orders ::
  "gateway_env \<Rightarrow> (order \<Rightarrow> bool) \<Rightarrow> (client \<Rightarrow> cancel_result wprog) \<Rightarrow> exchange \<Rightarrow> market_type \<Rightarrow> string \<Rightarrow>
     cancel_result wprog" where
  "cancel_all_orders env wanted call ex mt symb =
     andThen (safe_get_local_open_orders_by_symbol ex mt symb) (\<lambda>local_open.
     andThen (foldE (cancel_all_pend wanted) local_open ([], (\<lambda>_. None))) (\<lambda>(ids, previous).
     catch (andThen (client_for_market env ex mt) call)
       (many_cancel_failure ids previous)))"

definition cancel_all_regular_open_orders ::
  "gateway_env \<Rightarrow> exchange \<Rightarrow> market_type \<Rightarrow> string \<Rightarrow> cancel_result wprog" where
  "cancel_all_regular_open_orders env ex mt symb =
     cancel_all_orders env (\<lambda>ord. o_order_route ord = Some REGULAR) (\<lambda>c. c_cancel_all_regular c symb) ex mt symb"

definition cancel_all_conditional_open_orders ::
  "gateway_env \<Rightarrow> exchange \<Rightarrow> market_type \<Rightarrow> string \<Rightarrow> cancel_result wprog" where
  "cancel_all_conditional_open_orders env ex mt symb =
     cancel_all_orders env is_conditional_cancelable (\<lambda>c. c_cancel_all_conditional c symb) ex mt symb"

record cancel_all_report =
  ca_ok :: bool
  ca_exchange :: exchange
  ca_market_type :: market_type
  ca_symbol :: string
  ca_regular :: "exn + cancel_result"
  ca_conditional :: "exn + cancel_result"

definition cancel_all_open_orders ::
  "gateway_env \<Rightarrow> exchange \<Rightarrow> market_type \<Rightarrow> string \<Rightarrow> cancel_all_report wprog" where
  "cancel_all_open_orders env ex mt symb =
     (let symb = upper symb in
      andThen (attempt (cancel_all_regular_open_orders env ex mt symb)) (\<lambda>regular.
      andThen (attempt (cancel_all_conditional_open_orders env ex mt symb)) (\<lambda>conditional.
      ret \<lparr>ca_ok = (\<not> isl regular \<and> \<not> isl conditional), ca_exchange = ex, ca_market_type = mt, ca_symbol = symb,
           ca_regular = regular, ca_conditional = conditional\<rparr>)))"

section \<open>The store under a cancellation\<close>

text \<open>
  The status relations the rollbacks follow.  A single cancel reads the order again and leaves a
  terminal one alone, so it only moves between open statuses; the batch and cancel-all rollbacks do
  not look.
\<close>

definition open_step :: status_rel where
  "open_step a b \<longleftrightarrow> status_step a b \<or> (a \<notin> TERMINAL_STATUSES \<and> b \<notin> TERMINAL_STATUSES)"

definition reopening_step :: status_rel where
  "reopening_step a b \<longleftrightarrow> status_step a b \<or> b \<notin> TERMINAL_STATUSES"

lemma status_step_le [simp]: "status_step \<le> open_step" "status_step \<le> reopening_step"
  by (auto simp: open_step_def reopening_step_def)

lemma open_step_terminal:
  "open_step\<^sup>*\<^sup>* a b \<Longrightarrow> a \<in> TERMINAL_STATUSES \<Longrightarrow> b = a"
  by (induction rule: converse_rtranclp_induct)
    (auto simp: open_step_def terminal_no_transition elim!: status_stepE)

lemma put_back_safe:
  "T\<^sup>*\<^sup>* (o_status latest) previous \<Longrightarrow>
     safe gw_inv (evolves T) (loaded i latest) (put_back latest previous) (\<lambda>_ _. True)"
  unfolding put_back_def
  by (rule gw.safe_then [OF set_status_safe]) (auto simp: allowed_def intro: gw.safe_ret)

lemma make_unknown_safe:
  "status_step \<le> T \<Longrightarrow> safe gw_inv (evolves T) (loaded i ord) (make_unknown ord) (\<lambda>_ _. True)"
  unfolding make_unknown_def by (rule gw.safe_then [OF mark_unknown_safe]) (auto intro: gw.safe_ret)

definition loaded_opt :: "string \<Rightarrow> order option \<Rightarrow> world \<Rightarrow> bool" where
  "loaded_opt i found s \<longleftrightarrow> (\<forall>ord. found = Some ord \<longrightarrow> loaded i ord s)"

lemma loaded_opt_simps [simp]:
  "loaded_opt i None = (\<lambda>_. True)" "loaded_opt i (Some ord) = loaded i ord"
  by (simp_all add: loaded_opt_def fun_eq_iff)

lemma load_repo_safe: "safe gw_inv (evolves T) P (load_order_from_repo i) (loaded_opt i)"
  unfolding load_order_from_repo_def by (rule safe_post [OF load_order_safe]) (simp add: loaded_opt_def)

text \<open>Reading an order and continuing with it.\<close>

lemma with_loaded:
  assumes "stable gw_inv (evolves T) P" and "safe gw_inv (evolves T) P (f None) Q"
    and "\<And>ord. safe gw_inv (evolves T) (\<lambda>s. P s \<and> loaded i ord s) (f (Some ord)) Q"
  shows "safe gw_inv (evolves T) P (andThen (load_order_from_repo i) f) Q"
proof (rule gw.safe_andThen [OF load_repo_safe assms(1)])
  show "safe gw_inv (evolves T) (\<lambda>s. P s \<and> loaded_opt i found s) (f found) Q" for found
    using assms(2,3) by (cases found) simp_all
qed

lemma with_loaded_only:
  assumes "\<And>found. safe gw_inv (evolves T) (loaded_opt i found) (f found) Q"
  shows "safe gw_inv (evolves T) P (andThen (load_order_from_repo i) f) Q"
  by (rule gw.safe_then [OF load_repo_safe assms])

lemma unless_terminal_safe:
  assumes "\<And>ord. found = Some ord \<Longrightarrow> o_status ord \<notin> TERMINAL_STATUSES \<Longrightarrow>
    safe gw_inv (evolves T) (loaded i ord) (m ord) (\<lambda>_ _. True)"
  shows "safe gw_inv (evolves T) (loaded_opt i found) (unless_terminal m found) (\<lambda>_ _. True)"
  using assms by (cases found) (auto simp: unless_terminal_def intro!: gw.safe_ret)

lemma mark_pending_safe:
  "status_step \<le> T \<Longrightarrow> safe gw_inv (evolves T) (loaded i ord) (set_status ord OS_PENDING_CANCEL True True kw) (loaded i)"
  by (rule set_status_safe) simp

lemma mark_cancelled_safe:
  "status_step \<le> T \<Longrightarrow> safe gw_inv (evolves T) (loaded i ord)
     (andThen epoch_ms (\<lambda>now. andThen (set_status ord OS_CANCELLED True True (kw now)) (\<lambda>_. ret x))) (\<lambda>_ _. True)"
  by (rule with_epoch [OF loaded_stable], rule gw.safe_then [OF set_status_safe])
    (auto intro: gw.safe_ret)

subsection \<open>Single cancels\<close>

lemma cancel_failure_safe:
  assumes T: "status_step \<le> T" and opens: "\<And>a. a \<notin> TERMINAL_STATUSES \<Longrightarrow> T\<^sup>*\<^sup>* a previous"
    and reload: "\<And>P i. safe gw_inv (evolves T) P (reload i) (loaded_opt i)"
  shows "safe gw_inv (evolves T) (loaded i ord) (cancel_failure reload ord previous e) Q"
proof -
  have unknown: "safe gw_inv (evolves T) (loaded i ord) (andThen (mark_unknown ord) (\<lambda>_. throw e)) Q"
    by (rule gw.safe_then [OF mark_unknown_safe [OF T] gw.safe_throw])
  have reverts: "safe gw_inv (evolves T) (loaded i ord)
      (andThen (reload (o_order_id ord)) (\<lambda>latest.
       andThen (unless_terminal (\<lambda>latest. put_back latest previous) latest) (\<lambda>_. throw e))) Q"
    by (rule gw.safe_then [OF reload], rule gw.safe_then [OF unless_terminal_safe gw.safe_throw])
      (rule put_back_safe [OF opens])
  show ?thesis using unknown reverts by (simp add: cancel_failure_def gw.safe_throw split: exn.split)
qed

lemma cancel_try_safe:
  assumes ok: "env_ok T env" and T: "status_step \<le> T"
    and opens: "\<And>a. a \<notin> TERMINAL_STATUSES \<Longrightarrow> T\<^sup>*\<^sup>* a previous"
    and reload: "\<And>P i. safe gw_inv (evolves T) P (reload i) (loaded_opt i)"
  shows "safe gw_inv (evolves T) (loaded i ord)
    (andThen (set_status ord OS_PENDING_CANCEL True True []) (\<lambda>ord.
     catch
       (andThen (client_for_market env (o_exchange ord) (o_market_type ord)) (\<lambda>c.
        andThen (c_cancel_order c ord) (\<lambda>resp.
        andThen epoch_ms (\<lambda>now.
        andThen (set_status ord OS_CANCELLED True True (kw resp now)) (\<lambda>_. ret resp)))))
       (cancel_failure reload ord previous))) (\<lambda>_ _. True)"
proof (rule gw.safe_then [OF mark_pending_safe [OF T]], rule gw.safe_catch [OF _ loaded_stable])
  fix ord :: order
  show "safe gw_inv (evolves T) (loaded i ord)
     (andThen (client_for_market env (o_exchange ord) (o_market_type ord)) (\<lambda>c.
        andThen (c_cancel_order c ord) (\<lambda>resp.
        andThen epoch_ms (\<lambda>now.
        andThen (set_status ord OS_CANCELLED True True (kw resp now)) (\<lambda>_. ret resp))))) (\<lambda>_ _. True)"
    by (rule with_client [OF ok loaded_stable], rule with_call [OF client_calls(3) loaded_stable], assumption)
      (rule mark_cancelled_safe [OF T])
  show "safe gw_inv (evolves T) (loaded i ord) (cancel_failure reload ord previous e) (\<lambda>_ _. True)" for e
    by (rule cancel_failure_safe [OF T opens reload])
qed

lemma cancel_order_safe:
  assumes ok: "env_ok T env" and T: "open_step \<le> T"
  shows "safe gw_inv (evolves T) P (cancel_order env i) (\<lambda>_ _. True)"
proof -
  have steps: "status_step \<le> T" using status_step_le(1) T by (rule order_trans)
  have "safe gw_inv (evolves T) (\<lambda>_. True) (cancel_order env i) (\<lambda>_ _. True)"
    unfolding cancel_order_def
  proof (rule with_loaded [OF stable_True])
    fix ord :: order
    have reverts: "T\<^sup>*\<^sup>* a (o_status ord)" if "o_status ord \<notin> TERMINAL_STATUSES" "a \<notin> TERMINAL_STATUSES" for a
      using that by (intro r_into_rtranclp predicate2D [OF T]) (simp add: open_step_def)
    have regular: "safe gw_inv (evolves T) (loaded i ord) (cancel_regular_order env ord (o_status ord)) (\<lambda>_ _. True)"
      if "o_status ord \<notin> TERMINAL_STATUSES"
      unfolding cancel_regular_order_def
      by (rule cancel_try_safe [OF ok steps reverts [OF that]])
        (simp_all add: load_order_from_postgres_positional_def gw.safe_throw)
    have conditional: "safe gw_inv (evolves T) (loaded i ord) (cancel_conditional_order env ord (o_status ord)) (\<lambda>_ _. True)"
      if "o_status ord \<notin> TERMINAL_STATUSES"
      using cancel_try_safe [OF ok steps reverts [OF that] load_repo_safe]
      by (simp add: cancel_conditional_order_def gw.safe_throw)
    show "safe gw_inv (evolves T) (\<lambda>s. True \<and> loaded i ord s)
      (case Some ord of None \<Rightarrow> throw (CancelOrderSkipped i LOCAL_ORDER_NOT_FOUND None None None
                 ''Local order was not found; exchange cancel target cannot be resolved.'')
       | Some ord \<Rightarrow>
         if o_status ord \<in> TERMINAL_STATUSES
         then throw (CancelOrderSkipped (o_order_id ord) (terminal_cancel_skip_reason (o_status ord))
                (Some (o_status ord)) (o_conditional_status ord) None
                (''Order is already terminal: '' @ order_status_value (o_status ord)))
         else if o_order_route ord = Some REGULAR then cancel_regular_order env ord (o_status ord)
         else if o_order_route ord = Some CONDITIONAL then cancel_conditional_order env ord (o_status ord)
         else throw (RuntimeError ''unsupported order_route for cancel'')) (\<lambda>_ _. True)"
      by (auto simp: gw.safe_throw regular conditional)
  qed (simp add: gw.safe_throw)
  then show ?thesis by (rule safe_weak)
qed

subsection \<open>Batches and cancel-all\<close>

abbreviation quiet :: "status_rel \<Rightarrow> 'a wprog \<Rightarrow> bool" where
  "quiet T m \<equiv> safe gw_inv (evolves T) (\<lambda>_. True) m (\<lambda>_ _. True)"

lemma quiet_fold:
  assumes "\<And>x acc. quiet T (f x acc)"
  shows "quiet T (foldE f xs acc)"
proof -
  have "safe gw_inv (evolves T) (\<lambda>_. True \<and> True) (foldE f xs acc) (\<lambda>_ _. True)"
    by (rule gw.safe_foldE) (simp_all add: assms)
  then show ?thesis by simp
qed

lemma pure_fold:
  assumes "\<And>x acc. J acc \<Longrightarrow> safe gw_inv (evolves T) (\<lambda>_. True) (f x acc) (\<lambda>acc _. J acc)" and "J acc"
  shows "safe gw_inv (evolves T) (\<lambda>_. True) (foldE f xs acc) (\<lambda>acc _. J acc)"
proof -
  have "safe gw_inv (evolves T) (\<lambda>s. True \<and> J acc) (foldE f xs acc) (\<lambda>acc _. J acc)"
    by (rule gw.safe_foldE) (auto intro: safe_pure_only assms(1))
  with assms(2) show ?thesis by simp
qed

lemma quiet_then: "quiet T m \<Longrightarrow> (\<And>x. quiet T (f x)) \<Longrightarrow> quiet T (andThen m f)"
  by (rule gw.safe_then)

lemma quiet_ret: "quiet T (ret x)"
  by (simp add: gw.safe_ret)

lemma quiet_throw: "quiet T (throw e)"
  by (rule gw.safe_throw)

definition prev_ok :: "statuses \<Rightarrow> bool" where
  "prev_ok previous \<longleftrightarrow> (\<forall>i st. previous i = Some st \<longrightarrow> st \<notin> TERMINAL_STATUSES)"

text \<open>
  Batch and cancel-all: \<open>T\<close> is what any task may do to the statuses, the rollbacks included.
\<close>

locale reopening =
  fixes T :: status_rel
  assumes reopens: "reopening_step \<le> T"
begin

lemma steps: "status_step \<le> T"
  using status_step_le(2) reopens by (rule order_trans)

lemma reopened: "b \<notin> TERMINAL_STATUSES \<Longrightarrow> T\<^sup>*\<^sup>* a b"
  by (intro r_into_rtranclp predicate2D [OF reopens]) (simp add: reopening_step_def)

lemma put_back_previous_safe:
  "prev_ok previous \<Longrightarrow>
     safe gw_inv (evolves T) (loaded_opt i found) (put_back_previous previous j found) (\<lambda>_ _. True)"
  by (auto simp: put_back_previous_def prev_ok_def
      intro!: gw.safe_ret put_back_safe reopened split: option.split)

lemma rollback_previous_safe:
  "prev_ok previous \<Longrightarrow> quiet T (rollback_previous previous i)"
  unfolding rollback_previous_def by (rule with_loaded_only) (rule put_back_previous_safe)

lemma unknown_unless_terminal_safe: "status_step \<le> T \<Longrightarrow> quiet T (unknown_unless_terminal i)"
  unfolding unknown_unless_terminal_def
  by (rule with_loaded_only, rule unless_terminal_safe, rule make_unknown_safe)

lemma many_cancel_failure_safe:
  assumes "prev_ok previous"
  shows "safe gw_inv (evolves T) (\<lambda>_. True) (many_cancel_failure ids previous e) Q"
proof -
  have "quiet T (forEach (rollback_previous previous) ids)"
    "quiet T (forEach unknown_unless_terminal ids)"
    by (rule gw.safe_forEach; simp add: assms rollback_previous_safe unknown_unless_terminal_safe steps)+
  then show ?thesis
    unfolding many_cancel_failure_def
    by (intro gw.safe_then [where Q = "\<lambda>_ _. True"]) (auto simp: gw.safe_throw split: exn.split)
qed

lemma batch_cancel_load_safe:
  assumes "prev_ok (fst (snd acc))"
  shows "safe gw_inv (evolves T) (\<lambda>_. True) (batch_cancel_load ex mt symb oid acc) (\<lambda>acc _. prev_ok (fst (snd acc)))"
proof -
  obtain eligible previous results where acc: "acc = (eligible, previous, results)" by (metis prod_cases3)
  have p: "prev_ok previous" using assms acc by simp
  show ?thesis
    unfolding batch_cancel_load_def acc prod.case
  proof (rule with_loaded_only)
    fix found
    show "safe gw_inv (evolves T) (loaded_opt oid found) (case found of
          None \<Rightarrow> ret (eligible, previous, results(oid \<mapsto> skipped oid LOCAL_ORDER_NOT_FOUND
                    ''Local order was not found; exchange cancel target cannot be resolved.''))
        | Some ord \<Rightarrow>
            if o_status ord \<in> TERMINAL_STATUSES
            then ret (eligible, previous, results(oid \<mapsto> skipped_terminal ord ''Order is already terminal: ''))
            else if o_exchange ord \<noteq> ex \<or> o_market_type ord \<noteq> mt
            then throw (ValueError ''order market mismatch'')
            else if upper (o_symbol ord) \<noteq> symb
            then throw (ValueError ''symbol mismatch for batch cancel'')
            else if o_order_route ord \<noteq> Some REGULAR
            then ret (eligible, previous, results(oid \<mapsto> about_order ord
                   (skipped (o_order_id ord) CONDITIONAL_ORDER_NOT_CANCELABLE
                     ''Batch cancel supports only regular orders.'')))
            else ret (eligible @ [ord], previous(o_order_id ord \<mapsto> o_status ord), results)) (\<lambda>acc _. prev_ok (fst (snd acc)))"
      using p by (cases found) (auto simp: gw.safe_throw prev_ok_def intro!: gw.safe_ret split: if_splits)
  qed
qed

lemma batch_cancel_pend_safe: "status_step \<le> T \<Longrightarrow> quiet T (batch_cancel_pend ord acc)"
  unfolding batch_cancel_pend_def
  by (cases acc) (auto intro!: with_loaded gw.safe_ret gw.safe_then [OF mark_pending_safe]
      intro: safe_pre split: option.split)

lemma batch_cancel_response_safe:
  assumes "prev_ok previous"
  shows "quiet T (batch_cancel_response pending previous resp acc)"
proof -
  have unknown: "safe gw_inv (evolves T) (loaded_opt i found)
      (andThen (unless_terminal make_unknown found) (\<lambda>_. ret x)) (\<lambda>_ _. True)" for i found and x :: 'x
    by (rule gw.safe_then [OF unless_terminal_safe [OF make_unknown_safe]]) (simp_all add: gw.safe_ret steps)
  have failed: "safe gw_inv (evolves T) (loaded_opt i found)
      (andThen (put_back_previous previous j found) (\<lambda>_. ret x)) (\<lambda>_ _. True)" for i j found and x :: 'x
    by (rule gw.safe_then [OF put_back_previous_safe [OF assms]]) (simp add: gw.safe_ret)
  have cancelled: "safe gw_inv (evolves T) (loaded_opt i found)
      (andThen (case found of None \<Rightarrow> ret () | Some ord' \<Rightarrow>
                 andThen epoch_ms (\<lambda>now. andThen (set_status ord' OS_CANCELLED True True (kw now)) (\<lambda>_. ret ())))
         (\<lambda>_. ret x)) (\<lambda>_ _. True)" for i found kw and x :: 'x
    by (cases found) (auto intro!: gw.safe_then [OF mark_cancelled_safe [OF steps]] gw.safe_ret)
  show ?thesis
    unfolding batch_cancel_response_def Let_def
    by (cases "batch_cancel_match pending resp")
      (auto intro!: gw.safe_ret with_loaded_only unknown failed cancelled)
qed

lemma batch_cancel_missing_safe: "status_step \<le> T \<Longrightarrow> quiet T (batch_cancel_missing matched ord results)"
  unfolding batch_cancel_missing_def
  by (auto intro!: gw.safe_ret with_loaded_only gw.safe_then [OF unless_terminal_safe [OF make_unknown_safe]])

lemma cancel_slice_safe:
  assumes c: "client_ok T c"
  shows "quiet T (cancel_slice c ex mt symb raw_batch results)"
proof -
  have load: "safe gw_inv (evolves T) (\<lambda>_. True)
      (foldE (batch_cancel_load ex mt symb) raw_batch ([], (\<lambda>_. None), (\<lambda>_. None)))
      (\<lambda>acc _. prev_ok (fst (snd acc)))"
    by (rule pure_fold [OF batch_cancel_load_safe]) (simp_all add: prev_ok_def)
  have exchange: "quiet T (batch_cancel_exchange c pending previous by_id)"
    if "prev_ok previous" for pending previous by_id
    unfolding batch_cancel_exchange_def
    by (intro quiet_then harmless_safe [OF client_calls(6) [OF c]])
      (auto intro!: quiet_then quiet_fold batch_cancel_response_safe that
        batch_cancel_missing_safe [OF steps])
  have try_exchange: "quiet T (if pending = [] then ret by_id
      else catch (batch_cancel_exchange c pending previous by_id) (many_cancel_failure ids previous))"
    if "prev_ok previous" for pending previous by_id ids
    using that by (auto intro!: quiet_ret gw.safe_catch exchange many_cancel_failure_safe)
  have rest: "quiet T
      (andThen (foldE batch_cancel_pend eligible ([], by_id)) (\<lambda>(pending, by_id).
       andThen (if pending = [] then ret by_id
              else catch (batch_cancel_exchange c pending previous by_id)
                     (many_cancel_failure (map o_order_id pending) previous)) (\<lambda>by_id.
       ret (results @ List.map_filter by_id raw_batch))))" if "prev_ok previous" for eligible previous by_id
    by (rule quiet_then)
      (auto intro!: quiet_then quiet_fold batch_cancel_pend_safe [OF steps] try_exchange that quiet_ret)
  show ?thesis
    unfolding cancel_slice_def
  proof (rule gw.safe_then [OF load])
    fix x :: "order list \<times> statuses \<times> cancel_results"
    obtain eligible previous by_id where x: "x = (eligible, previous, by_id)" by (metis prod_cases3)
    show "safe gw_inv (evolves T) (\<lambda>_. prev_ok (fst (snd x)))
      ((\<lambda>(eligible, previous, by_id).
       andThen (foldE batch_cancel_pend eligible ([], by_id)) (\<lambda>(pending, by_id).
       andThen (if pending = [] then ret by_id
              else catch (batch_cancel_exchange c pending previous by_id)
                     (many_cancel_failure (map o_order_id pending) previous)) (\<lambda>by_id.
       ret (results @ List.map_filter by_id raw_batch)))) x) (\<lambda>_ _. True)"
    proof (rule safe_pure_only)
      assume "prev_ok (fst (snd x))"
      then have "prev_ok previous" by (simp add: x)
      from rest [OF this, of eligible by_id]
      show "quiet T ((\<lambda>(eligible, previous, by_id).
       andThen (foldE batch_cancel_pend eligible ([], by_id)) (\<lambda>(pending, by_id).
       andThen (if pending = [] then ret by_id
              else catch (batch_cancel_exchange c pending previous by_id)
                     (many_cancel_failure (map o_order_id pending) previous)) (\<lambda>by_id.
       ret (results @ List.map_filter by_id raw_batch)))) x)"
        by (simp only: x prod.case)
    qed
  qed
qed

lemma cancel_batch_safe:
  assumes "env_ok T env"
  shows "quiet T (cancel_batch_orders env ex mt symb order_ids)"
proof (cases "order_ids = []")
  case False
  have "quiet T (if \<not> c_supports_batch_cancel c then throw (RuntimeError ''batch cancel is not supported'')
        else if c_max_batch_cancel_size c \<le> 0 then throw (RuntimeError ''invalid max_batch_cancel_size'')
        else foldE (cancel_slice c ex mt (upper (strip symb)))
               (chunks (nat (c_max_batch_cancel_size c)) order_ids) [])" if "client_ok T c" for c
    by (simp add: quiet_throw quiet_fold cancel_slice_safe that)
  with False show ?thesis
    unfolding cancel_batch_orders_def by (simp only: if_False) (rule with_client [OF assms stable_True])
qed (simp add: cancel_batch_orders_def quiet_ret)

lemma cancel_all_pend_safe:
  assumes "status_step \<le> T" and "prev_ok (snd acc)"
  shows "safe gw_inv (evolves T) (\<lambda>_. True) (cancel_all_pend wanted ord acc) (\<lambda>acc _. prev_ok (snd acc))"
proof -
  have "safe gw_inv (evolves T) (\<lambda>_. True) (andThen (load_order_from_repo (o_order_id ord)) (\<lambda>found. case found of
        None \<Rightarrow> ret acc
      | Some latest \<Rightarrow>
          if o_status latest \<in> TERMINAL_STATUSES then ret acc
          else if \<not> wanted latest then ret acc
          else andThen (set_status latest OS_PENDING_CANCEL True True []) (\<lambda>_.
               ret (fst acc @ [o_order_id latest], (snd acc)(o_order_id latest \<mapsto> o_status latest)))))
    (\<lambda>acc _. prev_ok (snd acc))"
  proof (rule with_loaded [OF stable_True])
    fix latest :: order
    show "safe gw_inv (evolves T) (\<lambda>s. True \<and> loaded (o_order_id ord) latest s) (case Some latest of
        None \<Rightarrow> ret acc
      | Some latest \<Rightarrow>
          if o_status latest \<in> TERMINAL_STATUSES then ret acc
          else if \<not> wanted latest then ret acc
          else andThen (set_status latest OS_PENDING_CANCEL True True []) (\<lambda>_.
               ret (fst acc @ [o_order_id latest], (snd acc)(o_order_id latest \<mapsto> o_status latest))))
      (\<lambda>acc _. prev_ok (snd acc))"
      using assms by (auto simp: prev_ok_def intro!: gw.safe_ret gw.safe_then [OF mark_pending_safe] split: if_splits)
  qed (auto simp: assms intro: gw.safe_ret)
  then show ?thesis using assms(2) by (auto simp: cancel_all_pend_def intro: gw.safe_ret)
qed

lemma cancel_all_safe:
  assumes env: "env_ok T env" and call: "\<And>c. client_ok T c \<Longrightarrow> harmless T (call c)"
  shows "quiet T (cancel_all_orders env wanted call ex mt symb)"
proof -
  have pend: "safe gw_inv (evolves T) (\<lambda>_. True)
      (foldE (cancel_all_pend wanted) local_open ([], (\<lambda>_. None))) (\<lambda>acc _. prev_ok (snd acc))" for local_open
    by (rule pure_fold [OF cancel_all_pend_safe]) (simp_all add: prev_ok_def steps)
  have finish: "safe gw_inv (evolves T) (\<lambda>_. prev_ok (snd x))
      ((\<lambda>(ids, previous). catch (andThen (client_for_market env ex mt) call) (many_cancel_failure ids previous)) x)
      (\<lambda>_ _. True)" for x
  proof (rule safe_pure_only)
    assume "prev_ok (snd x)"
    then show "quiet T
      ((\<lambda>(ids, previous). catch (andThen (client_for_market env ex mt) call) (many_cancel_failure ids previous)) x)"
      by (cases x) (auto intro!: gw.safe_catch with_client [OF env stable_True] harmless_safe [OF call] many_cancel_failure_safe)
  qed
  show ?thesis
    unfolding cancel_all_orders_def safe_get_local_open_orders_by_symbol_def
    by (rule gw.safe_then [OF list_open_orders_by_symbol_safe], rule safe_weak, rule gw.safe_then [OF pend finish])
qed

lemma cancel_all_kinds_safe:
  assumes "env_ok T env"
  shows "quiet T (cancel_all_regular_open_orders env ex mt symb)"
    and "quiet T (cancel_all_conditional_open_orders env ex mt symb)"
  unfolding cancel_all_regular_open_orders_def cancel_all_conditional_open_orders_def
  by (rule cancel_all_safe [OF assms]; simp add: client_calls)+

lemma cancel_all_open_safe:
  assumes "env_ok T env"
  shows "quiet T (cancel_all_open_orders env ex mt symb)"
  unfolding cancel_all_open_orders_def Let_def
  by (intro quiet_then quiet_ret attempt_safe' [OF cancel_all_kinds_safe(1) [OF assms]]
      attempt_safe' [OF cancel_all_kinds_safe(2) [OF assms]]) simp_all

end

interpretation rollback: reopening reopening_step
  by unfold_locales simp

end
