(* ===== verification/CancelOutcome.thy ===== *)
theory CancelOutcome
  imports Cancellation SubmitOutcome
begin

text \<open>
  What cancelling does: the invariant and the lifecycle under interference, and the results and
  rows when nothing interferes.
\<close>

section \<open>Reading an order\<close>

text \<open>The order is read back as the current copy of its row, whichever store answers.\<close>

definition reads :: "string \<Rightarrow> order \<Rightarrow> world \<Rightarrow> bool" where
  "reads i ord s \<longleftrightarrow>
     (\<exists>t. load_order_from_repo i s = (Inr (Some ord), t) \<and> stores_up t \<and> current ord t)"

lemma readsE:
  assumes "reads i ord s"
  obtains t where "load_order_from_repo i s = (Inr (Some ord), t)" and "stores_up t" and "current ord t"
  using assms by (auto simp: reads_def)

lemma stored_reads:
  assumes up: "stores_up s" and live: "rd_live (w_redis s) i = None"
    and row: "joined_order s i = Some ord" and valid: "\<And>n. validate_order n ord = Inr ord"
    and id: "o_order_id ord = i" "i \<noteq> []"
  shows "reads i ord s"
proof -
  let ?u = "s\<lparr>w_rd_calls := Suc (w_rd_calls s), w_redis := w_redis s\<rparr>"
  let ?v = "?u\<lparr>w_pg_calls := Suc (w_pg_calls s)\<rparr>"
  have redis: "redis_read (\<lambda>rd. rd_live rd i) s = (Inr None, ?u)"
    using up live by (simp add: redis_read_def redis_call_def stores_up_def Let_def)
  have "same_store s ?v" by (simp add: same_store_def)
  then have row': "joined_order ?v i = Some ord" using row by (simp add: same_store_joined)
  have pg: "get_joined_order i ?u = (Inr (Some ord), ?v)"
    using up row' by (simp add: get_joined_order_def pg_read_def pg_transaction_def stores_up_def Let_def
        prog_simps)
  have build: "build_order ord ?v = (Inr ord, ?v)" using valid id by (simp add: build_order_def Let_def)
  have "stores_up ?v" using up by (simp add: stores_up_def)
  from try_refresh_up [OF this, of ord] obtain t where
    t: "try_refresh ord ?v = (Inr (), t)" "stores_up t" "w_orders t = w_orders ?v" by blast
  have "load_order_from_repo i s = (Inr (Some ord), t)"
    using redis pg build t(1)
    by (simp add: load_order_from_repo_def load_order_def load_order_from_postgres_def prog_simps refresh_when_def)
  moreover have "current ord t"
    using t(3) row id by (auto simp: current_def joined_order_def joined_row_def split: option.splits)
      (auto simp: orders_row.defs)
  ultimately show ?thesis using t(2) by (auto simp: reads_def)
qed

definition sample_live :: order where
  "sample_live = sample_open\<lparr>o_status := OS_ACKNOWLEDGED, o_reject_reason := None\<rparr>"

lemma samples_valid: "validate_order n sample_live = Inr sample_live" "validate_order n sample_filled = Inr sample_filled"
proof -
  have dec: "check_decimal ''0.5'' = Inr ''0.5''" "check_decimal ''60000'' = Inr ''60000''"
    "upper (strip ''BTCUSDT'') = ''BTCUSDT''"
    by code_simp+
  show "validate_order n sample_live = Inr sample_live" "validate_order n sample_filled = Inr sample_filled"
    by (simp_all add: validate_order_def check_order_fields_def sample_live_def sample_open_def sample_filled_def
        blank_order_def zero_decimal dec check_decimal_opt_def guard_sum_def normalize_order_after_validation_def
        Let_def check_route_def normalize_position_metadata_for_order_def validate_order_type_required_fields_def
        fill_order_ids_def)
qed

lemma holding_reads:
  assumes "\<And>n. validate_order n ord = Inr ord" and "o_order_id ord \<noteq> []"
  shows "reads (o_order_id ord) ord (holding ord)"
proof (rule stored_reads)
  show "stores_up (holding ord)" by (simp add: stores_up_def holding_def created_world_def blank_world_def)
  show "rd_live (w_redis (holding ord)) (o_order_id ord) = None"
    by (simp add: holding_def created_world_def blank_world_def empty_redis_def)
  show "joined_order (holding ord) (o_order_id ord) = Some ord"
    by (simp add: joined_order_def holding_def created_world_def joined_row_def orders_row.defs order.defs)
qed (use assms in auto)

section \<open>Runs without interference\<close>

lemma mark_pending_up:
  assumes "stores_up s" and "current ord s" and "status_step (o_status ord) OS_PENDING_CANCEL"
  shows "\<exists>ord' t. set_status ord OS_PENDING_CANCEL True True [] s = (Inr ord', t) \<and> stores_up t \<and>
    current ord' t \<and> o_status ord' = OS_PENDING_CANCEL \<and> identity ord' = identity ord"
  using set_status_up [OF assms(1,2,3), of "[]" True] by (auto simp: identity_def)

lemma mark_cancelled_up:
  assumes "stores_up s" and "current ord s" and "o_status ord = OS_PENDING_CANCEL"
  shows "\<exists>now ord' t. epoch_ms s = (Inr now, s\<lparr>w_ticks := Suc (w_ticks s)\<rparr>) \<and>
    set_status ord OS_CANCELLED True True [FCancelledTs (Some now), FRawExchangeResponse (Some raw)]
      (s\<lparr>w_ticks := Suc (w_ticks s)\<rparr>) = (Inr ord', t) \<and> current ord' t \<and>
    o_status ord' = OS_CANCELLED \<and> o_order_id ord' = o_order_id ord"
proof -
  let ?s = "s\<lparr>w_ticks := Suc (w_ticks s)\<rparr>" and ?now = "w_clock s (w_ticks s)"
  have "stores_up ?s" "current ord ?s" using assms by (simp_all add: stores_up_def current_def)
  from set_status_up [OF this, of OS_CANCELLED "[FCancelledTs (Some ?now), FRawExchangeResponse (Some raw)]" True] assms(3)
  show ?thesis by (auto simp: status_step_iff known_field_def epoch_ms_def)
qed

lemma current_row: "current ord s \<Longrightarrow> \<exists>row. w_orders s (o_order_id ord) = Some row \<and> o_status row = o_status ord"
  by (auto simp: current_def)

text \<open>What the caller gets, and the status the row is left with, for the exchange's answer.\<close>

definition cancel_outcome :: "exn + cancel_result \<Rightarrow> exn + cancel_result \<Rightarrow> order_status \<Rightarrow> bool" where
  "cancel_outcome answer result st =
     (case answer of
        Inr resp \<Rightarrow> result = Inr resp \<and> st = OS_CANCELLED
      | Inl (ExchangeApiError ex cat msg code raw) \<Rightarrow>
          if cat = EC_UNKNOWN_EXECUTION then result = answer \<and> st = OS_UNKNOWN
          else (\<exists>m. result = Inl (TypeError m)) \<and> st = OS_PENDING_CANCEL
      | Inl e \<Rightarrow> result = Inl e \<and> st = OS_PENDING_CANCEL)"

lemma cancel_failure_up:
  assumes up: "stores_up s" and cur: "current ord s" and st: "o_status ord = OS_PENDING_CANCEL"
  shows "\<exists>result t row. cancel_failure load_order_from_postgres_positional ord prev e s = (result, t) \<and>
    w_orders t (o_order_id ord) = Some row \<and> cancel_outcome (Inl e) result (o_status row)"
proof (cases "\<exists>ex cat msg code raw. e = ExchangeApiError ex cat msg code raw")
  case True
  then obtain ex cat msg code raw where e: "e = ExchangeApiError ex cat msg code raw" by blast
  show ?thesis
  proof (cases "cat = EC_UNKNOWN_EXECUTION")
    case True
    have "status_step (o_status ord) OS_UNKNOWN" using st by (simp add: status_step_iff)
    from set_status_up [OF up cur this, of "[FRejectReason (Some RR_UNKNOWN_EXECUTION)]" True]
    obtain ord' t where "mark_unknown ord s = (Inr ord', t)" "current ord' t" "o_status ord' = OS_UNKNOWN"
      "o_order_id ord' = o_order_id ord"
      by (auto simp: mark_unknown_def known_field_def)
    moreover from this obtain row where "w_orders t (o_order_id ord) = Some row" "o_status row = OS_UNKNOWN"
      using current_row by metis
    ultimately show ?thesis by (auto simp: cancel_failure_def e True prog_simps cancel_outcome_def)
  next
    case False
    with current_row [OF cur] st show ?thesis
      by (auto simp: cancel_failure_def e prog_simps load_order_from_postgres_positional_def cancel_outcome_def)
  qed
next
  case False
  then have "(cancel_failure load_order_from_postgres_positional ord prev e :: cancel_result wprog) s = (Inl e, s)"
    "cancel_outcome (Inl e) (Inl e) OS_PENDING_CANCEL"
    for s by (cases e; auto simp: cancel_failure_def prog_simps cancel_outcome_def)+
  with current_row [OF cur] st show ?thesis by auto
qed

section \<open>Properties\<close>

text \<open>C10: Cancelling an open regular order when nothing interferes.  The exchange's yes leaves the row
  \<open>CANCELLED\<close>, an unknown execution leaves it \<open>UNKNOWN\<close>.  But when the exchange refuses, the
  handler that should put the previous status back calls \<open>load_order_from_postgres\<close> by position,
  so the caller sees a \<open>TypeError\<close> and the row stays \<open>PENDING_CANCEL\<close>; any other exception
  leaves it there, too.\<close>

theorem regular_cancel_outcome:
  assumes "reads i ord s" and "o_status ord \<in> {OS_ACKNOWLEDGED, OS_PARTIALLY_FILLED}"
    and "o_order_route ord = Some REGULAR"
    and "env_clients env (o_exchange ord, o_market_type ord) = Some c"
    and "\<And>ord. answers (c_cancel_order c ord) answer"
  shows "\<exists>result t row. cancel_order env i s = (result, t) \<and> w_orders t (o_order_id ord) = Some row \<and>
    cancel_outcome answer result (o_status row)"
proof -
  obtain s1 where s1: "load_order_from_repo i s = (Inr (Some ord), s1)" "stores_up s1" "current ord s1"
    using assms(1) by (rule readsE)
  have "status_step (o_status ord) OS_PENDING_CANCEL" using assms(2) by (auto simp: status_step_iff)
  from mark_pending_up [OF s1(2,3) this] obtain p s2 where
    p: "set_status ord OS_PENDING_CANCEL True True [] s1 = (Inr p, s2)" "stores_up s2" "current p s2"
      "o_status p = OS_PENDING_CANCEL" "identity p = identity ord" by blast
  have ids: "o_order_id p = o_order_id ord" "client_for_market env (o_exchange p) (o_market_type p) = ret c"
    using p(5) assms(4) by (auto simp: identity_eq client_for_market_def registry_get_def liftSum_def ret_def)
  have run: "cancel_order env i s = cancel_regular_order env ord (o_status ord) s1"
    using s1(1) assms(2,3) by (auto simp: cancel_order_def prog_simps TERMINAL_STATUSES_def)
  show ?thesis
  proof (cases answer)
    case (Inl e)
    then have "c_cancel_order c p s2 = (Inl e, s2)" using assms(5) by (simp add: answers_def)
    with run p(1) ids have "cancel_order env i s =
        cancel_failure load_order_from_postgres_positional p (o_status ord) e s2"
      by (simp add: cancel_regular_order_def prog_simps)
    with cancel_failure_up [OF p(2,3,4)] Inl ids(1) show ?thesis by metis
  next
    case (Inr resp)
    then have call: "c_cancel_order c p s2 = (Inr resp, s2)" using assms(5) by (simp add: answers_def)
    from mark_cancelled_up [OF p(2,3,4), of "cr_raw resp"] obtain now ord' t where
      "epoch_ms s2 = (Inr now, s2\<lparr>w_ticks := Suc (w_ticks s2)\<rparr>)"
      "set_status p OS_CANCELLED True True [FCancelledTs (Some now), FRawExchangeResponse (Some (cr_raw resp))]
         (s2\<lparr>w_ticks := Suc (w_ticks s2)\<rparr>) = (Inr ord', t)"
      and t: "current ord' t" "o_status ord' = OS_CANCELLED" "o_order_id ord' = o_order_id p" by blast
    with run p(1) ids call have "cancel_order env i s = (Inr resp, t)"
      by (simp add: cancel_regular_order_def prog_simps)
    with current_row [OF t(1)] t(2,3) ids(1) Inr show ?thesis by (auto simp: cancel_outcome_def)
  qed
qed

definition refusing_client :: client where
  "refusing_client = down_client\<lparr>c_cancel_order := (\<lambda>_. throw (ExchangeApiError BINANCE EC_INVALID_PARAMETER ''no such order'' None []))\<rparr>"

lemma refusing_client_cancel:
  "answers (c_cancel_order refusing_client ord) (Inl (ExchangeApiError BINANCE EC_INVALID_PARAMETER ''no such order'' None []))"
  by (simp add: refusing_client_def answers_def prog_simps)

lemma refusing_client_ok: "client_ok T refusing_client"
  by (simp add: client_ok_def refusing_client_def down_client_def)

lemma regular_cancel_outcome_witness:
  "\<exists>result t row. cancel_order (env_with refusing_client) ''O-1'' (holding sample_live) = (result, t) \<and>
    w_orders t (o_order_id sample_live) = Some row \<and>
    cancel_outcome (Inl (ExchangeApiError BINANCE EC_INVALID_PARAMETER ''no such order'' None [])) result (o_status row)"
proof (rule regular_cancel_outcome [OF _ _ _ _ refusing_client_cancel])
  show "reads ''O-1'' sample_live (holding sample_live)"
    using holding_reads [OF samples_valid(1)] by (simp add: sample_live_def sample_open_def)
qed (simp_all add: sample_live_def sample_open_def env_with_def)

text \<open>C9: Cancelling one order, whatever the exchange does and whatever runs meanwhile: the store
  invariant holds afterwards, no order loses its identity or goes back in version, and an order that
  is terminal stays as it is, even on the path that puts the previous status back.\<close>

theorem cancel_order_keeps_terminal:
  assumes "gw_inv s" and "env_ok open_step env" and "cancel_order env i s = (r, t)"
    and "w_orders s j = Some row"
  shows "gw_inv t \<and> (\<exists>row'. w_orders t j = Some row' \<and> identity row' = identity row \<and>
    o_version row \<le> o_version row' \<and>
    (o_status row \<in> TERMINAL_STATUSES \<longrightarrow> o_status row' = o_status row))"
proof -
  note safeD(1,2) [OF cancel_order_safe [OF assms(2) order_refl] assms(1) TrueI assms(3)]
  with assms(4) show ?thesis by (auto simp: evolves_def row_evolves_def dest!: open_step_terminal)
qed

lemma cancel_order_keeps_terminal_witness:
  "gw_inv (snd (cancel_order (env_with refusing_client) ''O-1'' (holding sample_filled))) \<and>
   (\<exists>row'. w_orders (snd (cancel_order (env_with refusing_client) ''O-1'' (holding sample_filled))) ''O-1'' = Some row' \<and>
    o_status row' = OS_FILLED)"
proof -
  have "gw_inv (holding sample_filled)" "w_orders (holding sample_filled) ''O-1'' = Some (orders_row.truncate sample_filled)"
    by (rule holding_inv holding_row; simp add: row_ok_def sample_filled_def sample_open_def blank_order_def)+
  from cancel_order_keeps_terminal [OF this(1) env_with_ok [OF refusing_client_ok] surjective_pairing this(2), of "''O-1''"]
  show ?thesis by (auto simp: truncate_keeps sample_filled_def TERMINAL_STATUSES_def)
qed

text \<open>The batch and cancel-all operations keep the store invariant and the version order on every
  path, whatever interferes, and a row whose status they put back was last moved to an open
  status: between two reads of a row its status follows the machine or became open.\<close>

lemma cancel_many_keeps_store:
  assumes "gw_inv s" and "env_ok reopening_step env" and "w_orders s j = Some row"
    and "t \<in> {snd (cancel_batch_orders env ex mt symb ids s), snd (cancel_all_open_orders env ex mt symb s)}"
  shows "gw_inv t \<and> (\<exists>row'. w_orders t j = Some row' \<and> identity row' = identity row \<and>
    o_version row \<le> o_version row' \<and> (o_version row' = o_version row \<longrightarrow> row' = row) \<and>
    reopening_step\<^sup>*\<^sup>* (o_status row) (o_status row'))"
proof -
  from assms(4) have "gw_inv t \<and> evolves reopening_step s t"
  proof
    assume "t = snd (cancel_batch_orders env ex mt symb ids s)"
    with safeD(1,2) [OF rollback.cancel_batch_safe [OF assms(2)] assms(1) TrueI surjective_pairing] show ?thesis by blast
  next
    assume "t \<in> {snd (cancel_all_open_orders env ex mt symb s)}"
    with safeD(1,2) [OF rollback.cancel_all_open_safe [OF assms(2)] assms(1) TrueI surjective_pairing] show ?thesis by blast
  qed
  with assms(3) show ?thesis by (auto simp: evolves_def row_evolves_def)
qed

text \<open>C11: The rollback of the batch and cancel-all operations reopens a terminal order.  When the
  exchange fills an order while its cancellation is under way and then refuses the cancellation, the
  order is read as \<open>FILLED\<close> and its row is overwritten with the open status it had before.\<close>

theorem rollback_reopens_terminal:
  assumes "reads i ord s" and "o_status ord \<in> TERMINAL_STATUSES"
    and "previous i = Some st" and "st \<notin> TERMINAL_STATUSES"
  shows "\<exists>t row. rollback_previous previous i s = (Inr (), t) \<and> w_orders t (o_order_id ord) = Some row \<and>
    o_status row \<notin> TERMINAL_STATUSES \<and> o_version row = o_version ord + 1"
proof -
  obtain u where u: "load_order_from_repo i s = (Inr (Some ord), u)" "stores_up u" "current ord u"
    using assms(1) by (rule readsE)
  obtain now c t where c: "apply_fields [] (ord\<lparr>o_status := st, o_updated_ts := now\<rparr>) = Inr c"
    and t: "set_status ord st False False [] u = (Inr (stamped st now (o_version ord + 1) c), t)"
      "current (stamped st now (o_version ord + 1) c) t"
    using set_status_written [OF u(2,3), of False st False "[]"] by auto
  have "rollback_previous previous i s = (Inr (), t)"
    using u(1) t(1) assms(3) by (simp add: rollback_previous_def put_back_previous_def put_back_def prog_simps)
  moreover have "\<exists>row. w_orders t (o_order_id ord) = Some row \<and> o_status row = st \<and> o_version row = o_version ord + 1"
    using t(2) c by (auto simp: current_def)
  ultimately show ?thesis using assms(4) by auto
qed

lemma rollback_reopens_terminal_witness:
  "\<exists>t row. rollback_previous [''O-1'' \<mapsto> OS_ACKNOWLEDGED] ''O-1'' (holding sample_filled) = (Inr (), t) \<and>
    w_orders t (o_order_id sample_filled) = Some row \<and>
    o_status row \<notin> TERMINAL_STATUSES \<and> o_version row = o_version sample_filled + 1"
proof (rule rollback_reopens_terminal [where st = OS_ACKNOWLEDGED])
  show "reads ''O-1'' sample_filled (holding sample_filled)"
    using holding_reads [OF samples_valid(2)] by (simp add: sample_filled_def sample_open_def)
qed (simp_all add: sample_filled_def TERMINAL_STATUSES_def)

end
