(* ===== verification/GatewayCore.thy ===== *)
theory GatewayCore
  imports Cancellation
begin

text \<open>
  \<open>gateway/core.py\<close>: what the listeners and the reconciliation workers report of the exchange,
  applied to the local orders.  The events are \<open>schemas/order_update_event.py\<close> and
  \<open>conditional_order_event.py\<close>; fields no operation reads are left out.
\<close>

section \<open>Events\<close>

record order_update_event =
  ev_exchange :: exchange
  ev_market_type :: market_type
  ev_client_order_id :: string
  ev_exchange_order_id :: "string option"
  ev_target_status :: "order_status option"
  ev_filled_quantity :: "string option"
  ev_avg_fill_price :: "string option"
  ev_reject_reason_text :: "string option"

record conditional_order_event =
  ce_exchange :: exchange
  ce_market_type :: market_type
  ce_client_conditional_id :: "string option"
  ce_exchange_conditional_id :: "string option"
  ce_target_status :: conditional_status
  ce_exchange_conditional_status :: "string option"
  ce_triggered_order_id :: "string option"
  ce_triggered_client_order_id :: "string option"
  ce_filled_quantity :: "string option"
  ce_avg_fill_price :: "string option"
  ce_reject_reason_text :: "string option"
  ce_raw :: json_obj

section \<open>Regular order events\<close>

text \<open>\<open>if value:\<close> on an optional text, then a lookup by it.\<close>

definition lookup_truthy :: "string option \<Rightarrow> (string \<Rightarrow> order option wprog) \<Rightarrow> order option wprog" where
  "lookup_truthy v look = (if truthy v then look (the v) else ret None)"

definition or_else :: "order option wprog \<Rightarrow> order option wprog \<Rightarrow> order option wprog" where
  "or_else m n = andThen m (\<lambda>found. case found of Some ord \<Rightarrow> ret (Some ord) | None \<Rightarrow> n)"

definition resolve_order_for_order_update_event :: "order_update_event \<Rightarrow> order option wprog" where
  "resolve_order_for_order_update_event ev =
     or_else (load_order_from_repo (ev_client_order_id ev))
       (or_else (lookup_truthy (ev_exchange_order_id ev)
                  (\<lambda>v. load_order_by_exchange_order_id (ev_exchange ev) (ev_market_type ev) v True))
                (lookup_truthy (ev_exchange_order_id ev)
                  (\<lambda>v. load_order_by_triggered_order_id (ev_exchange ev) (ev_market_type ev) v True)))"

definition event_fields :: "order_update_event \<Rightarrow> order_status \<Rightarrow> field_update list" where
  "event_fields ev target_status =
     (case ev_exchange_order_id ev of None \<Rightarrow> [] | Some v \<Rightarrow> [FExchangeOrderId (Some v)]) @
     (case ev_filled_quantity ev of None \<Rightarrow> [] | Some v \<Rightarrow> [FFilledQuantity v]) @
     (case ev_avg_fill_price ev of None \<Rightarrow> [] | Some v \<Rightarrow> [FAvgFillPrice v]) @
     (if target_status = OS_REJECTED
      then FRejectReason (Some RR_EXCHANGE_REJECTED) #
           (if truthy (ev_reject_reason_text ev) then [FDetailMsg (ev_reject_reason_text ev)] else [])
      else [])"

definition apply_order_update_event :: "order_update_event \<Rightarrow> order option wprog" where
  "apply_order_update_event ev =
     andThen (resolve_order_for_order_update_event ev) (\<lambda>found. case found of
       None \<Rightarrow> ret None
     | Some ord \<Rightarrow>
         (case ev_target_status ev of
            None \<Rightarrow> ret (Some ord)
          | Some target_status \<Rightarrow>
              if \<not> can_transition ord target_status then ret (Some ord)
              else andThen (set_status ord target_status True True (event_fields ev target_status))
                     (\<lambda>updated. ret (Some updated))))"

section \<open>Reconciliation\<close>

definition apply_reconciliation_order_snapshot :: "string \<Rightarrow> order_snapshot \<Rightarrow> order option wprog" where
  "apply_reconciliation_order_snapshot i snapshot =
     andThen (load_order_from_repo i) (\<lambda>found. case found of
       None \<Rightarrow> ret None
     | Some ord \<Rightarrow>
         if o_status ord \<in> TERMINAL_STATUSES \<and> o_status ord \<noteq> sn_status snapshot then ret (Some ord)
         else
           andThen (set_status ord (sn_status snapshot) False False
                      [FExchangeOrderId (or_str (sn_exchange_order_id snapshot) (o_exchange_order_id ord)),
                       FFilledQuantity (sn_filled_quantity snapshot),
                       FAvgFillPrice (sn_avg_fill_price snapshot),
                       FRawExchangeResponse (Some (sn_raw snapshot))])
             (\<lambda>updated. ret (Some updated)))"

definition mark_reconciliation_unresolved ::
  "string \<Rightarrow> int option \<Rightarrow> string option \<Rightarrow> json_obj option \<Rightarrow> order option wprog" where
  "mark_reconciliation_unresolved i exchange_error_code detail_msg raw_exchange_response =
     andThen (load_order_from_repo i) (\<lambda>found. case found of
       None \<Rightarrow> ret None
     | Some ord \<Rightarrow>
         if o_status ord \<in> TERMINAL_STATUSES then ret (Some ord)
         else
           andThen (set_status ord OS_RECONCILE_UNRESOLVED False True
                      [FRejectReason (Some RR_UNKNOWN_EXECUTION), FExchangeErrorCode exchange_error_code,
                       FDetailMsg detail_msg, FRawExchangeResponse raw_exchange_response])
             (\<lambda>updated. ret (Some updated)))"

text \<open>Deprecated: the method raises.\<close>

definition apply_reconciliation_snapshot :: "string \<Rightarrow> json_obj \<Rightarrow> order option wprog" where
  "apply_reconciliation_snapshot i snapshot = throw NotImplementedError"

section \<open>Conditional orders\<close>

definition is_invalid_conditional :: "exn \<Rightarrow> bool" where
  "is_invalid_conditional e = (case e of InvalidConditionalTransitionError _ _ \<Rightarrow> True | _ \<Rightarrow> False)"

definition conditional_event_fields :: "conditional_order_event \<Rightarrow> field_update option list" where
  "conditional_event_fields ev =
     [map_option (\<lambda>v. FExchangeConditionalId (Some v)) (ce_exchange_conditional_id ev),
      map_option (\<lambda>v. FExchangeConditionalStatus (Some v)) (ce_exchange_conditional_status ev),
      map_option (\<lambda>v. FTriggeredOrderId (Some v)) (ce_triggered_order_id ev),
      map_option (\<lambda>v. FTriggeredClientOrderId (Some v)) (ce_triggered_client_order_id ev),
      map_option FFilledQuantity (ce_filled_quantity ev),
      map_option FAvgFillPrice (ce_avg_fill_price ev),
      map_option (\<lambda>v. FDetailMsg (Some v)) (ce_reject_reason_text ev),
      Some (FRawExchangeResponse (Some (ce_raw ev)))]"

definition resolve_conditional_order :: "conditional_order_event \<Rightarrow> order option wprog" where
  "resolve_conditional_order ev =
     or_else (lookup_truthy (ce_client_conditional_id ev)
                (\<lambda>v. load_order_by_client_conditional_id (ce_exchange ev) (ce_market_type ev) v True))
             (lookup_truthy (ce_exchange_conditional_id ev)
                (\<lambda>v. load_order_by_exchange_conditional_id (ce_exchange ev) (ce_market_type ev) v True))"

definition apply_conditional_order_event :: "conditional_order_event \<Rightarrow> order option wprog" where
  "apply_conditional_order_event ev =
     andThen (resolve_conditional_order ev) (\<lambda>found. case found of
       None \<Rightarrow> ret None
     | Some ord \<Rightarrow>
         catch_if is_invalid_conditional
           (andThen (set_conditional_status ord (ce_target_status ev) True True (conditional_event_fields ev))
              (\<lambda>updated. ret (Some updated)))
           (\<lambda>_. ret (Some ord)))"

definition snapshot_event :: "conditional_snapshot \<Rightarrow> conditional_order_event" where
  "snapshot_event sn =
     \<lparr>ce_exchange = cs_exchange sn, ce_market_type = cs_market_type sn,
      ce_client_conditional_id = cs_client_conditional_id sn,
      ce_exchange_conditional_id = cs_exchange_conditional_id sn,
      ce_target_status = cs_conditional_status sn,
      ce_exchange_conditional_status =
        or_str (cs_raw_status sn) (Some (conditional_status_value (cs_conditional_status sn))),
      ce_triggered_order_id = cs_triggered_order_id sn,
      ce_triggered_client_order_id = cs_triggered_client_order_id sn,
      ce_filled_quantity = cs_filled_quantity sn, ce_avg_fill_price = cs_avg_fill_price sn,
      ce_reject_reason_text = None, ce_raw = cs_raw sn\<rparr>"

definition apply_conditional_order_snapshot :: "conditional_snapshot \<Rightarrow> order option wprog" where
  "apply_conditional_order_snapshot sn =
     andThen epoch_ms (\<lambda>_. apply_conditional_order_event (snapshot_event sn))"

section \<open>The store under an event\<close>

text \<open>The weakest relation that leaves terminal statuses alone.\<close>

definition settling_step :: status_rel where
  "settling_step a b \<longleftrightarrow> a \<notin> TERMINAL_STATUSES \<or> b = a"

lemma settling_terminal: "settling_step\<^sup>*\<^sup>* a b \<Longrightarrow> a \<in> TERMINAL_STATUSES \<Longrightarrow> b = a"
  by (induction rule: converse_rtranclp_induct) (auto simp: settling_step_def)

lemma settling_le [simp]: "status_step \<le> settling_step" "open_step \<le> settling_step"
  by (auto simp: settling_step_def open_step_def terminal_no_transition elim!: status_stepE)

lemma settling_allowed:
  "o_status ord \<notin> TERMINAL_STATUSES \<or> o_status ord = st \<Longrightarrow> allowed settling_step False p ord st"
  by (auto simp: allowed_def settling_step_def)

text \<open>What the resolving reads return.\<close>

definition resolved :: "order option \<Rightarrow> world \<Rightarrow> bool" where
  "resolved found s \<longleftrightarrow> (\<forall>ord. found = Some ord \<longrightarrow> loaded (o_order_id ord) ord s)"

lemma resolved_simps [simp]: "resolved None = (\<lambda>_. True)" "resolved (Some ord) = loaded (o_order_id ord) ord"
  by (simp_all add: resolved_def fun_eq_iff)

lemma repo_resolved: "safe gw_inv (evolves T) P (load_order_from_repo i) resolved"
  by (rule safe_post [OF load_repo_safe]) (auto simp: loaded_opt_def resolved_def dest: loaded_own)

lemma or_else_safe:
  assumes "safe gw_inv (evolves T) P m resolved" and "safe gw_inv (evolves T) (\<lambda>_. True) n resolved"
  shows "safe gw_inv (evolves T) P (or_else m n) resolved"
  unfolding or_else_def
  by (rule gw.safe_then [OF assms(1)]) (auto intro: gw.safe_ret assms(2) split: option.split)

lemma lookup_truthy_safe:
  "(\<And>v. safe gw_inv (evolves T) P (look v) resolved) \<Longrightarrow> safe gw_inv (evolves T) P (lookup_truthy v look) resolved"
  by (auto simp: lookup_truthy_def intro: gw.safe_ret)

lemma load_by_resolved:
  "safe gw_inv (evolves T) P (load_order_by_exchange_order_id ex mt v b) resolved"
  "safe gw_inv (evolves T) P (load_order_by_triggered_order_id ex mt v b) resolved"
  "safe gw_inv (evolves T) P (load_order_by_client_conditional_id ex mt v b) resolved"
  "safe gw_inv (evolves T) P (load_order_by_exchange_conditional_id ex mt v b) resolved"
  by (rule safe_post [OF load_order_by_ids_safe(1)] safe_post [OF load_order_by_ids_safe(2)]
      safe_post [OF load_order_by_ids_safe(3)] safe_post [OF load_order_by_ids_safe(4)]; simp add: resolved_def)+

lemmas resolving = or_else_safe lookup_truthy_safe load_by_resolved repo_resolved

text \<open>Resolve, then act on the order that was found.\<close>

lemma resolve_then:
  assumes "safe gw_inv (evolves T) P m resolved" and "f None = ret None"
    and "\<And>ord. safe gw_inv (evolves T) (loaded (o_order_id ord) ord) (f (Some ord)) resolved"
  shows "safe gw_inv (evolves T) P (andThen m f) resolved"
proof (rule gw.safe_then [OF assms(1)])
  show "safe gw_inv (evolves T) (resolved found) (f found) resolved" for found
    using assms(2,3) by (cases found) (simp_all add: gw.safe_ret)
qed

lemma updated_resolved:
  "safe gw_inv (evolves T) P m (loaded i) \<Longrightarrow> safe gw_inv (evolves T) P (andThen m (\<lambda>ord. ret (Some ord))) resolved"
  by (rule gw.safe_then) (auto intro!: gw.safe_ret dest: loaded_own)

lemma apply_order_update_event_safe:
  assumes "status_step \<le> T"
  shows "safe gw_inv (evolves T) P (apply_order_update_event ev) resolved"
  unfolding apply_order_update_event_def resolve_order_for_order_update_event_def
  by (rule resolve_then)
    (auto intro!: resolving gw.safe_ret updated_resolved set_status_safe simp: assms split: option.split)

lemma apply_reconciliation_safe:
  "safe gw_inv (evolves settling_step) P (apply_reconciliation_order_snapshot i sn) resolved"
  unfolding apply_reconciliation_order_snapshot_def
  by (rule resolve_then)
    (auto intro!: resolving gw.safe_ret updated_resolved set_status_safe settling_allowed)

lemma mark_unresolved_safe:
  "safe gw_inv (evolves settling_step) P (mark_reconciliation_unresolved i code msg raw) resolved"
  unfolding mark_reconciliation_unresolved_def
  by (rule resolve_then)
    (auto intro!: resolving gw.safe_ret updated_resolved set_status_safe settling_allowed)

lemma apply_conditional_order_event_safe:
  "safe gw_inv (evolves T) P (apply_conditional_order_event ev) resolved"
  unfolding apply_conditional_order_event_def resolve_conditional_order_def
  by (rule resolve_then)
    (auto intro!: resolving catch_if_safe gw.safe_ret updated_resolved [OF set_conditional_status_safe])

lemma apply_conditional_order_snapshot_safe:
  "safe gw_inv (evolves T) P (apply_conditional_order_snapshot sn) resolved"
  unfolding apply_conditional_order_snapshot_def
  by (rule gw.safe_then [OF epoch_ms_safe]) (rule apply_conditional_order_event_safe)

end
