(* ===== verification/GatewayOutcome.thy ===== *)
theory GatewayOutcome
  imports GatewayCore CancelOutcome StoreProperties
begin

text \<open>
  What the events and the reconciliation do to the orders: lifecycle and invariant whatever the
  event, and the exact result when nothing interferes.
\<close>

section \<open>Runs without interference\<close>

lemma reads_tables:
  assumes "reads i ord s"
  obtains t where "load_order_from_repo i s = (Inr (Some ord), t)" and "stores_up t" and "current ord t"
    and "same_tables s t"
  using assms readingD [OF load_repo_reading] by (auto elim!: readsE)

lemma event_fields_known: "list_all known_field (event_fields ev st)"
  by (simp add: event_fields_def known_field_def split: option.split)

text \<open>The fields an event sets, on the copy that already has the new status.\<close>

definition event_shows :: "order_update_event \<Rightarrow> order_status \<Rightarrow> order \<Rightarrow> order \<Rightarrow> bool" where
  "event_shows ev st ord c \<longleftrightarrow>
     o_status c = st \<and>
     o_exchange_order_id c = (case ev_exchange_order_id ev of None \<Rightarrow> o_exchange_order_id ord | v \<Rightarrow> v) \<and>
     o_filled_quantity c = (case ev_filled_quantity ev of None \<Rightarrow> o_filled_quantity ord | Some q \<Rightarrow> q) \<and>
     o_avg_fill_price c = (case ev_avg_fill_price ev of None \<Rightarrow> o_avg_fill_price ord | Some q \<Rightarrow> q) \<and>
     o_reject_reason c = (if st = OS_REJECTED then Some RR_EXCHANGE_REJECTED else o_reject_reason ord) \<and>
     o_detail_msg c =
       (if st = OS_REJECTED \<and> truthy (ev_reject_reason_text ev) then ev_reject_reason_text ev else o_detail_msg ord)"

lemma event_fields_applied:
  "apply_fields (event_fields ev st) (ord\<lparr>o_status := st, o_updated_ts := now\<rparr>) = Inr c \<Longrightarrow> event_shows ev st ord c"
  by (auto simp: event_fields_def event_shows_def split: option.splits if_splits)

lemma event_shows_stamped: "event_shows ev st ord c \<Longrightarrow> event_shows ev st ord (stamped st now v c)"
  by (auto simp: event_shows_def stamped_def)

lemma set_conditional_up:
  assumes up: "stores_up s" and cur: "current ord s"
    and step: "cond_can_transition (o_conditional_status ord) target"
    and known: "list_all known_field (List.map_filter id kw)"
  shows "\<exists>now c t. apply_fields (List.map_filter id kw)
      (ord\<lparr>o_conditional_status := Some target, o_updated_ts := now\<rparr>) = Inr c \<and>
    o_conditional_status c = o_conditional_status (c\<lparr>o_version := o_version ord + 1\<rparr>) \<and>
    (\<exists>d. set_conditional_status ord target True True kw s = (Inr (d\<lparr>o_version := o_version ord + 1\<rparr>), t) \<and>
       (d = c \<or> d = c\<lparr>o_triggered_ts := Some now\<rparr>) \<and> current (d\<lparr>o_version := o_version ord + 1\<rparr>) t)"
proof -
  let ?now = "w_clock s (w_ticks s)"
  obtain s' where s': "epoch_ms s = (Inr ?now, s')" "stores_up s'" "w_orders s' = w_orders s"
    using epoch_ms_up [OF up] by blast
  obtain c where c: "apply_fields (List.map_filter id kw)
      (ord\<lparr>o_conditional_status := Some target, o_updated_ts := ?now\<rparr>) = Inr c"
    using apply_fields_known [OF known] by blast
  define d where "d = (if target = CS_TRIGGERED \<and> o_triggered_ts c = None then c\<lparr>o_triggered_ts := Some ?now\<rparr> else c)"
  have d: "conditional_candidate ?now target kw ord = Inr d" by (simp add: conditional_candidate_def c d_def)
  note core = conditional_candidate_core [OF d]
  obtain row where row: "w_orders s (o_order_id ord) = Some row" "o_version row = o_version ord"
    using cur by (auto simp: current_def)
  have id: "o_order_id d = o_order_id ord" using core(1) by (simp add: identity_eq)
  have unblocked: "(True \<and> cond_is_terminal (o_conditional_status ord) \<and> o_conditional_status ord \<noteq> Some target) = False"
    using step by (auto simp: cond_can_transition_def cond_is_terminal_def cond_terminal_no_transition)
  have assert: "(if True then liftSum (cond_assert_can_transition (o_conditional_status ord) target) else ret ()) =
      (ret () :: unit wprog)"
    using step by (simp add: cond_assert_can_transition_def liftSum_def ret_def)
  obtain t where t: "transition_order ord d s' = (Inr (d\<lparr>o_version := o_version ord + 1\<rparr>), t)"
    "w_orders t = (w_orders s')(o_order_id d \<mapsto> transition_row d row)"
    using transition_order_up [OF s'(2), of d row ord] row s'(3) id by auto
  have "set_conditional_status ord target True True kw s = (Inr (d\<lparr>o_version := o_version ord + 1\<rparr>), t)"
    using s'(1) t(1) d
    by (simp only: set_conditional_status_def unblocked if_False assert) (simp add: prog_simps)
  moreover have "current (d\<lparr>o_version := o_version ord + 1\<rparr>) t"
    using t(2) row(2) by (simp add: current_def)
  moreover have "d = c \<or> d = c\<lparr>o_triggered_ts := Some ?now\<rparr>" by (simp add: d_def)
  ultimately show ?thesis using c by fastforce
qed

lemma conditional_fields_known: "list_all known_field (List.map_filter id (conditional_event_fields ev))"
  by (auto simp: conditional_event_fields_def known_field_def List.map_filter_simps split: option.split)

lemma conditional_fields_keep:
  "apply_fields (List.map_filter id (conditional_event_fields ev)) b = Inr c \<Longrightarrow>
     o_conditional_status c = o_conditional_status b \<and> o_status c = o_status b \<and>
     o_triggered_order_id c =
       (case ce_triggered_order_id ev of None \<Rightarrow> o_triggered_order_id b | v \<Rightarrow> v)"
  by (cases "ce_exchange_conditional_id ev"; cases "ce_exchange_conditional_status ev";
      cases "ce_triggered_order_id ev"; cases "ce_triggered_client_order_id ev"; cases "ce_filled_quantity ev";
      cases "ce_avg_fill_price ev"; cases "ce_reject_reason_text ev")
    (auto simp: conditional_event_fields_def List.map_filter_simps)

text \<open>Finding the order of an event only reads the tables, by whichever of the three identifiers.\<close>

lemma load_order_by_reading:
  "(\<And>ex mt v. reading (look ex mt v)) \<Longrightarrow> (\<And>ord. reading (refresh ord)) \<Longrightarrow> reading (load_order_by look refresh ex mt v)"
  unfolding load_order_by_def by (auto intro!: reading_intros split: option.split)

lemma strict_refresh_reading: "reading (strict_refresh b ord)"
  by (auto simp: strict_refresh_def refresh_order_projection_def intro!: reading_intros)

lemma get_by_reading: "reading (get_by_exchange_order_id ex mt v)" "reading (get_by_triggered_order_id ex mt v)"
  by (simp_all add: get_by_exchange_order_id_def get_by_triggered_order_id_def get_by_def pg_read_reading)

lemma resolve_reading: "reading (resolve_order_for_order_update_event ev)"
proof -
  have "reading (or_else m n)" if "reading m" "reading n" for m n
    unfolding or_else_def by (rule reading_then [OF that(1)]) (auto intro: that reading_ret split: option.split)
  moreover have "reading (lookup_truthy v look)" if "\<And>x. reading (look x)" for v look
    by (simp add: lookup_truthy_def that reading_ret)
  ultimately show ?thesis
    unfolding resolve_order_for_order_update_event_def load_order_by_exchange_order_id_def
      load_order_by_triggered_order_id_def
    by (simp add: load_repo_reading load_order_by_reading get_by_reading strict_refresh_reading)
qed

section \<open>Properties\<close>

text \<open>C17: An order event that finds its order, by its client id, by the exchange's id or as the conditional
  order whose trigger made it, is applied exactly when it has a status the state machine allows: then the row takes
  the status, the fields the event carries and, for a rejection, the reason, and its version grows by
  one; otherwise (a late, repeated or uninformative event) the order is returned and the tables stay as they are.
  The fill quantity is taken as it comes: a late partial fill may lower it.\<close>

theorem order_event_applied:
  assumes "resolve_order_for_order_update_event ev s = (Inr (Some ord), u)" and "stores_up u" and "current ord u"
  shows "\<exists>r t. apply_order_update_event ev s = (Inr (Some r), t) \<and> current r t \<and>
    (case ev_target_status ev of
       Some st \<Rightarrow>
         if can_transition ord st then event_shows ev st ord r \<and> o_version r = o_version ord + 1
         else r = ord \<and> same_tables s t
     | None \<Rightarrow> r = ord \<and> same_tables s t)"
proof (cases "\<exists>st. ev_target_status ev = Some st \<and> can_transition ord st")
  case True
  then obtain st where st: "ev_target_status ev = Some st" "can_transition ord st" by blast
  then have "status_step (o_status ord) st" by (simp add: can_transition_def status_step_iff)
  from set_status_up [OF assms(2,3) this event_fields_known, of ev st True] obtain now c t where
    c: "apply_fields (event_fields ev st) (ord\<lparr>o_status := st, o_updated_ts := now\<rparr>) = Inr c"
    and t: "set_status ord st True True (event_fields ev st) u = (Inr (stamped st now (o_version ord + 1) c), t)"
      "current (stamped st now (o_version ord + 1) c) t" by blast
  have "event_shows ev st ord (stamped st now (o_version ord + 1) c)"
    by (rule event_shows_stamped, rule event_fields_applied, rule c)
  with assms(1) t st show ?thesis by (simp add: apply_order_update_event_def prog_simps)
next
  case False
  then have "apply_order_update_event ev s = (Inr (Some ord), u)"
    using assms(1) by (auto simp: apply_order_update_event_def prog_simps split: option.split)
  with False assms(3) readingD [OF resolve_reading assms(1)] show ?thesis by (auto split: option.split)
qed

definition fill_event :: order_update_event where
  "fill_event = \<lparr>ev_exchange = BINANCE, ev_market_type = PERP, ev_client_order_id = ''O-1'',
     ev_exchange_order_id = Some ''77'', ev_target_status = Some OS_PARTIALLY_FILLED,
     ev_filled_quantity = Some ''0.2'', ev_avg_fill_price = None, ev_reject_reason_text = None\<rparr>"

text \<open>Looking an order up by another column, and not finding one by its id, while the stores answer.\<close>

abbreviation one_read :: "world \<Rightarrow> world" where
  "one_read s \<equiv> s\<lparr>w_pg_calls := Suc (w_pg_calls s)\<rparr>"

lemma joined_one_read: "joined_orders (one_read s) = joined_orders s"
  by (rule joined_orders_same_store) (simp add: same_store_def)

lemma get_by_run:
  assumes "stores_up s"
  shows "get_by ex mt column v s = (Inr (List.find
    (\<lambda>ord. o_exchange ord = ex \<and> o_market_type ord = mt \<and> column ord = Some v) (joined_orders s)), one_read s)"
  using assms joined_one_read [of s]
  by (simp add: get_by_def pg_read_def pg_transaction_def Let_def prog_simps stores_up_def)

lemma looked_up:
  assumes up: "stores_up s" and valid: "\<And>n. validate_order n ord = Inr ord" and "o_order_id ord \<noteq> []" and "writable ord"
    and found: "List.find (\<lambda>ord. o_exchange ord = ex \<and> o_market_type ord = mt \<and> column ord = Some v) (joined_orders s) = Some ord"
  shows "\<exists>t. load_order_by (\<lambda>ex mt. get_by ex mt column) (strict_refresh True) ex mt v s = (Inr (Some ord), t) \<and>
    stores_up t \<and> w_orders t = w_orders s"
proof -
  have "stores_up (one_read s)" using up by (simp add: stores_up_def)
  from redis_save_up [OF this, of ord] assms(4) obtain b t where
    t: "redis_save ord (one_read s) = (Inr b, t)" "stores_up t" "w_orders t = w_orders s" by auto
  have "build_order ord (one_read s) = (Inr ord, one_read s)"
    using valid assms(3) by (simp add: build_order_def Let_def)
  with t get_by_run [OF up, of ex mt column v] found show ?thesis
    by (simp add: load_order_by_def strict_refresh_def refresh_order_projection_def prog_simps)
qed

lemma not_looked_up:
  assumes "stores_up s"
    and "List.find (\<lambda>ord. o_exchange ord = ex \<and> o_market_type ord = mt \<and> column ord = Some v) (joined_orders s) = None"
  shows "load_order_by (\<lambda>ex mt. get_by ex mt column) refresh ex mt v s = (Inr None, one_read s)"
  using assms get_by_run [OF assms(1), of ex mt column v] by (simp add: load_order_by_def prog_simps)

lemma unknown_id:
  assumes "stores_up s" and "rd_live (w_redis s) i = None" and "joined_order s i = None"
  shows "\<exists>t. load_order_from_repo i s = (Inr None, t) \<and> stores_up t \<and> same_store s t"
proof -
  let ?u = "s\<lparr>w_rd_calls := Suc (w_rd_calls s), w_redis := w_redis s\<rparr>"
  have same: "same_store s (one_read ?u)" by (simp add: same_store_def)
  have "redis_read (\<lambda>rd. rd_live rd i) s = (Inr None, ?u)"
    using assms by (simp add: redis_read_def redis_call_def stores_up_def Let_def)
  moreover have "joined_order (one_read ?u) i = None" using assms(3) same by (simp add: same_store_joined)
  then have "get_joined_order i ?u = (Inr None, one_read ?u)"
    using assms(1) by (simp add: get_joined_order_def pg_read_def pg_transaction_def stores_up_def Let_def prog_simps)
  ultimately have "load_order_from_repo i s = (Inr None, one_read ?u)"
    by (simp add: load_order_from_repo_def load_order_def load_order_from_postgres_def prog_simps)
  with same assms(1) show ?thesis by (auto simp: stores_up_def)
qed

definition held_conditional :: order where
  "held_conditional = sample_open\<lparr>o_order_type := STOP_MARKET, o_order_route := Some CONDITIONAL,
     o_price := None, o_trigger_price := Some ''60000'', o_client_order_id := None,
     o_client_conditional_id := Some ''O-1'', o_status := OS_ACKNOWLEDGED, o_reject_reason := None,
     o_conditional_status := Some CS_NEW\<rparr>"

text \<open>A conditional order of which the exchange has made the order 77, and the rejection of that order.\<close>

definition triggered_parent :: order where
  "triggered_parent = held_conditional\<lparr>o_status := OS_UNKNOWN, o_conditional_status := Some CS_TRIGGERED,
     o_triggered_order_id := Some ''77''\<rparr>"

definition rejected_event :: order_update_event where
  "rejected_event = \<lparr>ev_exchange = BINANCE, ev_market_type = PERP, ev_client_order_id = ''X-77'',
     ev_exchange_order_id = Some ''77'', ev_target_status = Some OS_REJECTED,
     ev_filled_quantity = None, ev_avg_fill_price = None, ev_reject_reason_text = Some ''margin''\<rparr>"

lemma held_valid: "validate_order n held_conditional = Inr held_conditional"
  "validate_order n triggered_parent = Inr triggered_parent"
proof -
  have dec: "check_decimal ''0.5'' = Inr ''0.5''" "check_decimal ''60000'' = Inr ''60000''"
    "upper (strip ''BTCUSDT'') = ''BTCUSDT''"
    by code_simp+
  show "validate_order n held_conditional = Inr held_conditional" "validate_order n triggered_parent = Inr triggered_parent"
    by (simp_all add: validate_order_def check_order_fields_def triggered_parent_def held_conditional_def sample_open_def
        blank_order_def zero_decimal dec check_decimal_opt_def guard_sum_def normalize_order_after_validation_def
        Let_def check_route_def normalize_position_metadata_for_order_def validate_order_type_required_fields_def
        fill_order_ids_def)
qed

lemma holding_joined: "o_order_id ord = i \<Longrightarrow> joined_orders (holding ord) = [ord]"
  by (simp add: joined_orders_def List.map_filter_simps joined_order_def holding_def created_world_def blank_world_def
      joined_row_def orders_row.defs order.defs)

lemma parent_resolves:
  "\<exists>u. resolve_order_for_order_update_event rejected_event (holding triggered_parent) = (Inr (Some triggered_parent), u) \<and>
     stores_up u \<and> current triggered_parent u"
proof -
  let ?s = "holding triggered_parent"
  have parent: "o_order_id triggered_parent = ''O-1''" "o_exchange triggered_parent = BINANCE"
    "o_market_type triggered_parent = PERP" "o_exchange_order_id triggered_parent = None"
    "o_triggered_order_id triggered_parent = Some ''77''"
    and "o_symbol triggered_parent \<noteq> []" "o_order_route triggered_parent \<noteq> None"
    by (simp_all add: triggered_parent_def held_conditional_def sample_open_def blank_order_def)
  then have wr: "writable triggered_parent" by (intro order_writable) simp_all
  have up: "stores_up ?s" by (simp add: stores_up_def holding_def created_world_def blank_world_def)
  have none: "rd_live (w_redis ?s) ''X-77'' = None" "joined_order ?s ''X-77'' = None"
    by (simp_all add: holding_def created_world_def blank_world_def empty_redis_def joined_order_def parent)
  obtain t where t: "load_order_from_repo ''X-77'' ?s = (Inr None, t)" "stores_up t" "same_store ?s t"
    using unknown_id [OF up none] by blast
  have rows: "joined_orders t = [triggered_parent]" "w_orders t = w_orders ?s"
    using joined_orders_same_store [OF t(3)] holding_joined [OF parent(1)] t(3) by (simp_all add: same_store_def)
  have miss: "load_order_by_exchange_order_id BINANCE PERP ''77'' True t = (Inr None, one_read t)"
    unfolding load_order_by_exchange_order_id_def get_by_exchange_order_id_def
    by (rule not_looked_up [OF t(2)]) (simp add: rows parent)
  have up': "stores_up (one_read t)" using t(2) by (simp add: stores_up_def)
  have by_trigger: "get_by_triggered_order_id = (\<lambda>ex mt. get_by ex mt o_triggered_order_id)"
    by (intro ext) (simp add: get_by_triggered_order_id_def)
  obtain u where u: "load_order_by_triggered_order_id BINANCE PERP ''77'' True (one_read t) = (Inr (Some triggered_parent), u)"
    "stores_up u" "w_orders u = w_orders (one_read t)"
    using looked_up [OF up' held_valid(2), of BINANCE PERP o_triggered_order_id "''77''"] wr parent rows joined_one_read [of t]
    by (auto simp: load_order_by_triggered_order_id_def by_trigger)
  have "resolve_order_for_order_update_event rejected_event ?s = (Inr (Some triggered_parent), u)"
    using t(1) miss u(1)
    by (simp add: resolve_order_for_order_update_event_def or_else_def lookup_truthy_def rejected_event_def truthy_def prog_simps)
  moreover have "current triggered_parent u"
    using u(3) rows(2) by (simp add: current_def holding_row parent truncate_keeps)
  ultimately show ?thesis using u(2) by blast
qed

lemma order_event_applied_witness:
  "\<exists>r t. apply_order_update_event rejected_event (holding triggered_parent) = (Inr (Some r), t) \<and> current r t \<and>
     o_order_id triggered_parent = ''O-1'' \<and> o_status r = OS_REJECTED \<and> o_exchange_order_id r = Some ''77'' \<and>
     o_reject_reason r = Some RR_EXCHANGE_REJECTED \<and> o_detail_msg r = Some ''margin'' \<and> o_version r = 4"
proof -
  obtain u where u: "resolve_order_for_order_update_event rejected_event (holding triggered_parent) =
      (Inr (Some triggered_parent), u)" "stores_up u" "current triggered_parent u" using parent_resolves by blast
  have "can_transition triggered_parent OS_REJECTED" "o_version triggered_parent = 3" "o_order_id triggered_parent = ''O-1''"
    by (simp_all add: can_transition_def triggered_parent_def held_conditional_def sample_open_def)
  with order_event_applied [OF u] show ?thesis
    by (auto simp: rejected_event_def event_shows_def truthy_def)
qed

text \<open>C18: Reconciliation takes an open order to the status, the fills and the raw answer the exchange
  reported, without asking the state machine; an order that is terminal is changed only by a snapshot
  of the same status and otherwise left with its tables untouched.\<close>

theorem reconciliation_applied:
  assumes "reads i ord s"
  shows "\<exists>r t. apply_reconciliation_order_snapshot i sn s = (Inr (Some r), t) \<and> current r t \<and>
    (if o_status ord \<notin> TERMINAL_STATUSES \<or> o_status ord = sn_status sn
     then o_status r = sn_status sn \<and> o_filled_quantity r = sn_filled_quantity sn \<and>
       o_avg_fill_price r = sn_avg_fill_price sn \<and> o_raw_exchange_response r = Some (sn_raw sn) \<and>
       o_version r = o_version ord + 1
     else r = ord \<and> same_tables s t)"
proof -
  obtain u where u: "load_order_from_repo i s = (Inr (Some ord), u)"
    "stores_up u" "current ord u" "same_tables s u"
    using assms(1) by (rule reads_tables)
  show ?thesis
  proof (cases "o_status ord \<notin> TERMINAL_STATUSES \<or> o_status ord = sn_status sn")
    case True
    let ?kw = "[FExchangeOrderId (or_str (sn_exchange_order_id sn) (o_exchange_order_id ord)),
       FFilledQuantity (sn_filled_quantity sn), FAvgFillPrice (sn_avg_fill_price sn),
       FRawExchangeResponse (Some (sn_raw sn))]"
    have "list_all known_field ?kw" by (simp add: known_field_def)
    from set_status_written [OF u(2,3) _ _ this, of False "sn_status sn" False] obtain now c t where
      c: "apply_fields ?kw (ord\<lparr>o_status := sn_status sn, o_updated_ts := now\<rparr>) = Inr c"
      and t: "set_status ord (sn_status sn) False False ?kw u =
          (Inr (stamped (sn_status sn) now (o_version ord + 1) c), t)"
        "current (stamped (sn_status sn) now (o_version ord + 1) c) t" by auto
    from c have shows_sn: "o_status c = sn_status sn" "o_filled_quantity c = sn_filled_quantity sn"
      "o_avg_fill_price c = sn_avg_fill_price sn" "o_raw_exchange_response c = Some (sn_raw sn)" by auto
    have guard: "(o_status ord \<in> TERMINAL_STATUSES \<and> o_status ord \<noteq> sn_status sn) = False" using True by blast
    have "apply_reconciliation_order_snapshot i sn s =
        (Inr (Some (stamped (sn_status sn) now (o_version ord + 1) c)), t)"
      by (simp only: apply_reconciliation_order_snapshot_def andThen_run u(1) prod.case sum.case option.case
          guard if_False t(1) ret_run)
    with t(2) shows_sn True show ?thesis by (auto simp: stamped_def)
  next
    case False
    with u show ?thesis by (simp add: apply_reconciliation_order_snapshot_def prog_simps)
  qed
qed

definition fill_snapshot :: order_snapshot where
  "fill_snapshot = \<lparr>sn_symbol = ''BTCUSDT'', sn_status = OS_FILLED, sn_client_order_id = None, sn_exchange_order_id = Some ''77'',
     sn_filled_quantity = ''0.5'', sn_avg_fill_price = ''60000'', sn_raw_status = None, sn_raw = []\<rparr>"

lemma reconciliation_applied_witness:
  "\<exists>r t. apply_reconciliation_order_snapshot ''O-1'' fill_snapshot (holding sample_live) = (Inr (Some r), t) \<and>
     current r t \<and> o_status r = OS_FILLED \<and> o_version r = 4"
proof -
  have "reads ''O-1'' sample_live (holding sample_live)"
    using holding_reads [OF samples_valid(1)] by (simp add: sample_live_def sample_open_def)
  from reconciliation_applied [OF this, of fill_snapshot] show ?thesis
    by (auto simp: fill_snapshot_def sample_live_def sample_open_def TERMINAL_STATUSES_def)
qed

text \<open>Nothing the exchange reports, through order events, conditional events, snapshots or a
  reconciliation that gives up, reopens a terminal order, breaks the store invariant or takes a row
  back to an older version, whichever of the store calls fail.\<close>

lemma reports_keep_terminal:
  assumes "gw_inv s" and "w_orders s j = Some row"
    and "t \<in> {snd (apply_order_update_event ev s), snd (apply_reconciliation_order_snapshot i sn s),
      snd (mark_reconciliation_unresolved i code msg raw s), snd (apply_conditional_order_event ce s),
      snd (apply_conditional_order_snapshot cs s)}"
  shows "gw_inv t \<and> (\<exists>row'. w_orders t j = Some row' \<and> identity row' = identity row \<and>
    o_version row \<le> o_version row' \<and> (o_status row \<in> TERMINAL_STATUSES \<longrightarrow> o_status row' = o_status row))"
proof -
  have keeps: "gw_inv (snd (m s)) \<and> evolves settling_step s (snd (m s))"
    if "safe gw_inv (evolves settling_step) (\<lambda>_. True) m resolved" for m
    using safeD(1,2) [OF that assms(1) TrueI surjective_pairing] by blast
  have "gw_inv t \<and> evolves settling_step s t"
    using assms(3) keeps [OF apply_order_update_event_safe [OF settling_le(1)]] keeps [OF apply_reconciliation_safe]
      keeps [OF mark_unresolved_safe] keeps [OF apply_conditional_order_event_safe]
      keeps [OF apply_conditional_order_snapshot_safe] by blast
  with assms(2) show ?thesis by (auto simp: evolves_def row_evolves_def dest!: settling_terminal)
qed

text \<open>C19: A conditional event that finds its order moves the conditional status exactly when the
  conditional machine allows it and records the triggered order; an event it refuses is dropped and
  the tables stay as they are.  Either way the order status itself is untouched: an order whose
  condition was cancelled or has expired at the exchange stays open here.\<close>

theorem conditional_event_applied:
  assumes "resolve_conditional_order ev s = (Inr (Some ord), u)" and "stores_up u" and "current ord u"
  shows "\<exists>r t. apply_conditional_order_event ev s = (Inr (Some r), t) \<and> o_status r = o_status ord \<and> current r t \<and>
    (if cond_can_transition (o_conditional_status ord) (ce_target_status ev)
     then o_conditional_status r = Some (ce_target_status ev) \<and> o_version r = o_version ord + 1 \<and>
       o_triggered_order_id r =
         (case ce_triggered_order_id ev of None \<Rightarrow> o_triggered_order_id ord | v \<Rightarrow> v)
     else r = ord \<and> w_orders t = w_orders u \<and> w_outbox t = w_outbox u)"
proof (cases "cond_can_transition (o_conditional_status ord) (ce_target_status ev)")
  case True
  obtain now c t d where
    c: "apply_fields (List.map_filter id (conditional_event_fields ev))
      (ord\<lparr>o_conditional_status := Some (ce_target_status ev), o_updated_ts := now\<rparr>) = Inr c"
    and d: "set_conditional_status ord (ce_target_status ev) True True (conditional_event_fields ev) u =
        (Inr (d\<lparr>o_version := o_version ord + 1\<rparr>), t)"
      "d = c \<or> d = c\<lparr>o_triggered_ts := Some now\<rparr>" "current (d\<lparr>o_version := o_version ord + 1\<rparr>) t"
    using set_conditional_up [OF assms(2,3) True conditional_fields_known] by blast
  have kept: "o_conditional_status d = Some (ce_target_status ev)" "o_status d = o_status ord"
    "o_triggered_order_id d = (case ce_triggered_order_id ev of None \<Rightarrow> o_triggered_order_id ord | v \<Rightarrow> v)"
    using conditional_fields_keep [OF c] d(2) by (auto split: option.split)
  have "apply_conditional_order_event ev s = (Inr (Some (d\<lparr>o_version := o_version ord + 1\<rparr>)), t)"
    using assms(1) d(1) by (simp add: apply_conditional_order_event_def prog_simps catch_if_def)
  with True kept d(3) show ?thesis by simp
next
  case False
  have refused: "set_conditional_status ord (ce_target_status ev) True True (conditional_event_fields ev) u \<in>
      {(Inr ord, u\<lparr>w_ticks := Suc (w_ticks u)\<rparr>),
       (Inl (InvalidConditionalTransitionError (o_conditional_status ord) (ce_target_status ev)), u\<lparr>w_ticks := Suc (w_ticks u)\<rparr>)}"
    using False by (auto simp: set_conditional_status_def prog_simps epoch_ms_def cond_assert_can_transition_def)
  then have "apply_conditional_order_event ev s = (Inr (Some ord), u\<lparr>w_ticks := Suc (w_ticks u)\<rparr>)"
    using assms(1)
    by (auto simp: apply_conditional_order_event_def prog_simps catch_if_def is_invalid_conditional_def)
  with False assms(3) show ?thesis by (simp add: current_def)
qed

definition cancelled_event :: conditional_order_event where
  "cancelled_event = \<lparr>ce_exchange = BINANCE, ce_market_type = PERP, ce_client_conditional_id = Some ''O-1'',
     ce_exchange_conditional_id = None, ce_target_status = CS_CANCELLED, ce_exchange_conditional_status = None,
     ce_triggered_order_id = None, ce_triggered_client_order_id = None, ce_filled_quantity = None,
     ce_avg_fill_price = None, ce_reject_reason_text = None, ce_raw = []\<rparr>"

lemma held_resolves:
  "\<exists>u. resolve_conditional_order cancelled_event (holding held_conditional) = (Inr (Some held_conditional), u) \<and>
     stores_up u \<and> current held_conditional u"
proof -
  let ?s = "holding held_conditional"
  let ?u = "?s\<lparr>w_pg_calls := Suc (w_pg_calls ?s)\<rparr>"
  have same: "same_store ?s ?u" by (simp add: same_store_def)
  have id: "o_order_id held_conditional = ''O-1''" by (simp add: held_conditional_def sample_open_def)
  have "joined_orders ?s = [held_conditional]" by (rule holding_joined [OF id])
  then have joined: "joined_orders ?u = [held_conditional]"
    using joined_orders_same_store [OF same] by simp
  have found: "get_by_client_conditional_id BINANCE PERP ''O-1'' ?s = (Inr (Some held_conditional), ?u)"
    using joined by (simp add: get_by_client_conditional_id_def get_by_def pg_read_def pg_transaction_def Let_def
        prog_simps holding_def created_world_def blank_world_def)
      (simp add: held_conditional_def sample_open_def blank_order_def)
  have up: "stores_up ?u" by (simp add: stores_up_def holding_def created_world_def blank_world_def)
  obtain t where t: "try_refresh held_conditional ?u = (Inr (), t)" "stores_up t" "w_orders t = w_orders ?u"
    using try_refresh_up [OF up] by blast
  have build: "build_order held_conditional ?u = (Inr held_conditional, ?u)"
    using held_valid id by (simp add: build_order_def Let_def)
  have "load_order_by_client_conditional_id BINANCE PERP ''O-1'' True ?s = (Inr (Some held_conditional), t)"
    using found build t(1)
    by (simp add: load_order_by_client_conditional_id_def load_order_by_def prog_simps refresh_when_def)
  then have "resolve_conditional_order cancelled_event ?s = (Inr (Some held_conditional), t)"
    by (simp add: resolve_conditional_order_def or_else_def lookup_truthy_def cancelled_event_def prog_simps)
  moreover have "current held_conditional t"
    using t(3) by (simp add: current_def holding_row id truncate_keeps)
  ultimately show ?thesis using t(2) by blast
qed

lemma conditional_event_applied_witness:
  "\<exists>r t. apply_conditional_order_event cancelled_event (holding held_conditional) = (Inr (Some r), t) \<and>
     o_status r = OS_ACKNOWLEDGED \<and> o_conditional_status r = Some CS_CANCELLED"
proof -
  obtain u where "resolve_conditional_order cancelled_event (holding held_conditional) = (Inr (Some held_conditional), u)"
    "stores_up u" "current held_conditional u" using held_resolves by blast
  from conditional_event_applied [OF this] show ?thesis
    by (auto simp: cancelled_event_def held_conditional_def cond_can_transition_def)
qed

end
