(* ===== verification/OutboxPublisher.thy ===== *)
theory OutboxPublisher
  imports StoreProperties
begin

text \<open>
  \<open>publishers/outbox_publisher.py\<close>: claims unpublished outbox events, sends them to the topic and
  records the outcome.  The broker keeps the messages it accepted; \<open>bk_ok\<close> says which sends get
  through.  The state is the stores together with the broker.  The sleeping of the loop and its
  start and stop are not modelled: \<open>run_loop n\<close> is \<open>n\<close> rounds of it.
\<close>

section \<open>Broker and publisher\<close>

record message =
  msg_topic :: string
  msg_key :: string
  msg_event_id :: int
  msg_aggregate_type :: string
  msg_aggregate_id :: string
  msg_event_type :: string
  msg_payload :: outbox_payload
  msg_created_ts :: int

record broker =
  bk_log :: "message list"
  bk_ok :: "nat \<Rightarrow> bool"
  bk_calls :: nat

record publisher =
  pub_id :: string
  pub_topic :: string
  pub_batch_size :: nat
  pub_lock_ttl_ms :: int
  pub_retry_delay_ms :: int
  pub_max_retry_count :: int

record publish_stats =
  st_claimed :: nat
  st_published :: nat
  st_failed :: nat

type_synonym 'a pprog = "(world \<times> broker, exn, 'a) prog"

definition on_world :: "'a wprog \<Rightarrow> 'a pprog" where
  "on_world m = (\<lambda>(w, b). case m w of (r, w') \<Rightarrow> (r, (w', b)))"

definition on_outbox :: "(outbox \<Rightarrow> 'a \<times> outbox) \<Rightarrow> 'a wprog" where
  "on_outbox f = (\<lambda>s. case f (w_outbox s) of (x, ob) \<Rightarrow> (Inr x, s\<lparr>w_outbox := ob\<rparr>))"

section \<open>One round\<close>

definition event_message :: "publisher \<Rightarrow> outbox_event \<Rightarrow> message" where
  "event_message p e =
     \<lparr>msg_topic = pub_topic p, msg_key = ob_aggregate_id e, msg_event_id = ob_event_id e,
      msg_aggregate_type = ob_aggregate_type e, msg_aggregate_id = ob_aggregate_id e,
      msg_event_type = ob_event_type e, msg_payload = ob_payload e, msg_created_ts = ob_created_ts e\<rparr>"

definition publish_event :: "publisher \<Rightarrow> outbox_event \<Rightarrow> unit pprog" where
  "publish_event p e = (\<lambda>(w, b).
     if bk_ok b (bk_calls b)
     then (Inr (), (w, b\<lparr>bk_log := bk_log b @ [event_message p e], bk_calls := Suc (bk_calls b)\<rparr>))
     else (Inl (OtherError ''publish''), (w, b\<lparr>bk_calls := Suc (bk_calls b)\<rparr>)))"

definition compute_retry_delay_ms :: "publisher \<Rightarrow> int \<Rightarrow> int" where
  "compute_retry_delay_ms p retry_count = pub_retry_delay_ms p * min (2 ^ nat retry_count) 12"

definition record_published :: "publisher \<Rightarrow> outbox_event \<Rightarrow> bool wprog" where
  "record_published p e = pg_transaction
     (andThen epoch_ms (\<lambda>now. on_outbox (mark_published (pub_id p) (ob_event_id e) now)))"

text \<open>\<open>mark_failed\<close> takes keyword arguments only; this call passes the connection by position, so
  it raises after its arguments have been evaluated.\<close>

definition mark_failed_positional :: "int \<Rightarrow> int \<Rightarrow> bool wprog" where
  "mark_failed_positional now retry_delay =
     throw (TypeError ''mark_failed() takes 1 positional argument but 2 positional arguments were given'')"

definition record_failed :: "publisher \<Rightarrow> outbox_event \<Rightarrow> bool wprog" where
  "record_failed p e = pg_transaction
     (andThen epoch_ms (\<lambda>now. mark_failed_positional now (compute_retry_delay_ms p (ob_retry_count e))))"

definition publish_one :: "publisher \<Rightarrow> outbox_event \<Rightarrow> publish_stats \<Rightarrow> publish_stats pprog" where
  "publish_one p e stats =
     catch
       (andThen (publish_event p e) (\<lambda>_.
        andThen (on_world (record_published p e)) (\<lambda>_.
        ret (stats\<lparr>st_published := Suc (st_published stats)\<rparr>))))
       (\<lambda>_.
        andThen (on_world (record_failed p e)) (\<lambda>_.
        ret (stats\<lparr>st_failed := Suc (st_failed stats)\<rparr>)))"

definition claim_events :: "publisher \<Rightarrow> int \<Rightarrow> outbox_event list wprog" where
  "claim_events p now = pg_transaction (on_outbox
     (claim_unpublished (pub_id p) now (pub_batch_size p) (pub_lock_ttl_ms p) (pub_max_retry_count p)))"

definition publish_once :: "publisher \<Rightarrow> publish_stats pprog" where
  "publish_once p =
     andThen (on_world epoch_ms) (\<lambda>now.
     andThen (on_world (claim_events p now)) (\<lambda>events.
     foldE (publish_one p) events \<lparr>st_claimed = length events, st_published = 0, st_failed = 0\<rparr>))"

primrec run_loop :: "publisher \<Rightarrow> nat \<Rightarrow> unit pprog" where
  "run_loop p 0 = ret ()"
| "run_loop p (Suc n) =
     andThen (catch (andThen (publish_once p) (\<lambda>_. ret ())) (\<lambda>_. ret ())) (\<lambda>_. run_loop p n)"

section \<open>What the rounds keep\<close>

text \<open>The message of an event, whatever else changed on the event's row.\<close>

definition sent :: "broker \<Rightarrow> outbox_event \<Rightarrow> bool" where
  "sent b e \<longleftrightarrow> (\<exists>m\<in>set (bk_log b). msg_event_id m = ob_event_id e \<and> msg_key m = ob_aggregate_id e \<and>
     msg_payload m = ob_payload e)"

definition event_key :: "outbox_event \<Rightarrow> int \<times> string \<times> string \<times> outbox_payload" where
  "event_key e = (ob_event_id e, ob_aggregate_id e, ob_event_type e, ob_payload e)"

lemma same_events_keys: "same_events rows rows' \<longleftrightarrow> map event_key rows = map event_key rows'"
  by (simp add: same_events_def event_key_def [abs_def])

lemma sent_key: "event_key e = event_key e' \<Longrightarrow> sent b e = sent b e'"
  by (simp add: event_key_def sent_def)

definition pub_inv :: "world \<times> broker \<Rightarrow> bool" where
  "pub_inv s \<longleftrightarrow> distinct (map ob_event_id (w_outbox (fst s))) \<and>
     (\<forall>e\<in>set (w_outbox (fst s)). ob_published_ts e \<noteq> None \<longrightarrow> sent (snd s) e)"

text \<open>Outside the outbox rows' bookkeeping the stores do not change, and messages are only added.\<close>

definition publishes :: "world \<times> broker \<Rightarrow> world \<times> broker \<Rightarrow> bool" where
  "publishes s t \<longleftrightarrow> w_orders (fst t) = w_orders (fst s) \<and> w_order_keys (fst t) = w_order_keys (fst s) \<and>
     w_intents (fst t) = w_intents (fst s) \<and> w_redis (fst t) = w_redis (fst s) \<and>
     same_events (w_outbox (fst s)) (w_outbox (fst t)) \<and> (\<exists>ms. bk_log (snd t) = bk_log (snd s) @ ms)"

lemma publishes_refl: "publishes s s"
  by (simp add: publishes_def same_events_def)

lemma publishes_trans: "publishes s t \<Longrightarrow> publishes t u \<Longrightarrow> publishes s u"
  by (auto simp: publishes_def same_events_def)

interpretation pb: guarded_evolution pub_inv publishes
  by unfold_locales (auto simp: publishes_refl intro: publishes_trans)

lemma sent_grows: "publishes s t \<Longrightarrow> sent (snd s) e \<Longrightarrow> sent (snd t) e"
  by (auto simp: publishes_def sent_def)

definition known :: "outbox_event \<Rightarrow> world \<times> broker \<Rightarrow> bool" where
  "known e s \<longleftrightarrow> event_key e \<in> set (map event_key (w_outbox (fst s)))"

lemma known_stable [simp]: "stable pub_inv publishes (known e)"
  by (auto simp: stable_def known_def publishes_def same_events_keys)

lemma sent_stable [simp]: "stable pub_inv publishes (\<lambda>s. sent (snd s) e)"
  unfolding stable_def using sent_grows by blast

definition same_but_outbox :: "world \<Rightarrow> world \<Rightarrow> bool" where
  "same_but_outbox s t \<longleftrightarrow> w_orders t = w_orders s \<and> w_order_keys t = w_order_keys s \<and>
     w_intents t = w_intents s \<and> w_redis t = w_redis s"

lemma claim_run:
  assumes "claim_events p now w = (r, w')"
  shows "same_but_outbox w w' \<and> ((\<exists>e. r = Inl e \<and> w_outbox w' = w_outbox w) \<or>
    (r, w_outbox w') = map_prod Inr id (claim_unpublished (pub_id p) now (pub_batch_size p) (pub_lock_ttl_ms p)
       (pub_max_retry_count p) (w_outbox w)))"
  using assms
  by (auto simp: claim_events_def pg_transaction_def on_outbox_def Let_def same_but_outbox_def
      split: prod.splits if_splits)

lemma record_published_run:
  assumes "record_published p e w = (r, w')"
  shows "same_but_outbox w w'" and "w_outbox w' = w_outbox w \<or>
    w_outbox w' = snd (mark_published (pub_id p) (ob_event_id e) (w_clock w (w_ticks w)) (w_outbox w))"
  using assms
  by (auto simp: record_published_def pg_transaction_def on_outbox_def Let_def same_but_outbox_def prog_simps
      epoch_ms_def split: prod.splits if_splits)

lemma record_failed_run:
  assumes "record_failed p e w = (r, w')"
  shows "same_but_outbox w w' \<and> (\<exists>x. r = Inl x) \<and> w_outbox w' = w_outbox w"
  using assms
  by (auto simp: record_failed_def mark_failed_positional_def pg_transaction_def Let_def same_but_outbox_def
      prog_simps epoch_ms_def split: if_splits)

lemma pub_step:
  assumes inv: "pub_inv (w, b)" and same: "same_but_outbox w w'" and ev: "same_events (w_outbox w) (w_outbox w')"
    and pub: "\<And>e'. e' \<in> set (w_outbox w') \<Longrightarrow> ob_published_ts e' \<noteq> None \<Longrightarrow>
      sent b e' \<or> (\<exists>e\<in>set (w_outbox w). event_key e = event_key e' \<and> ob_published_ts e \<noteq> None)"
  shows "pub_inv (w', b) \<and> publishes (w, b) (w', b)"
proof -
  have "map ob_event_id (w_outbox w') = map (fst \<circ> event_key) (w_outbox w')" by (simp add: event_key_def)
  also have "\<dots> = map (fst \<circ> event_key) (w_outbox w)" using arg_cong [OF ev [unfolded same_events_keys], of "map fst"] by simp
  also have "\<dots> = map ob_event_id (w_outbox w)" by (simp add: event_key_def)
  finally have "distinct (map ob_event_id (w_outbox w'))" using inv by (simp add: pub_inv_def)
  moreover have "sent b e'" if "e' \<in> set (w_outbox w')" "ob_published_ts e' \<noteq> None" for e'
    using pub [OF that] inv by (auto simp: pub_inv_def dest: sent_key)
  ultimately have "pub_inv (w', b)" by (simp add: pub_inv_def)
  moreover have "publishes (w, b) (w', b)" using same ev by (simp add: publishes_def same_but_outbox_def)
  ultimately show ?thesis by simp
qed

lemma claim_keys: "e' \<in> set (snd (claim_unpublished p now n ttl m rows)) \<Longrightarrow>
    \<exists>e\<in>set rows. event_key e = event_key e' \<and> ob_published_ts e = ob_published_ts e'"
  by (auto simp: claim_unpublished_def Let_def event_key_def)

lemma find_in: "List.find P xs = Some x \<Longrightarrow> x \<in> set xs"
  by (auto simp: find_Some_iff)

lemma map_filter_find_in: "e \<in> set (List.map_filter (\<lambda>i. List.find (Q i) xs) is) \<Longrightarrow> e \<in> set xs"
  by (auto simp: List.map_filter_def dest: find_in)

lemma claimed_in: "e \<in> set (fst (claim_unpublished p now n ttl m rows)) \<Longrightarrow>
    e \<in> set (snd (claim_unpublished p now n ttl m rows))"
  unfolding claim_unpublished_def Let_def fst_conv snd_conv by (rule map_filter_find_in)

lemma claim_safe:
  "safe pub_inv publishes (\<lambda>_. True) (on_world (claim_events p now)) (\<lambda>es s. \<forall>e\<in>set es. known e s)"
proof (rule safeI)
  fix s r t
  assume inv: "pub_inv s" and run: "on_world (claim_events p now) s = (r, t)"
  obtain w b w' where s: "s = (w, b)" "t = (w', b)" "claim_events p now w = (r, w')"
    using run by (cases s) (auto simp: on_world_def split: prod.splits)
  note c = claim_run [OF s(3)]
  then consider e where "r = Inl e" "w_outbox w' = w_outbox w" |
    "(r, w_outbox w') = map_prod Inr id (claim_unpublished (pub_id p) now (pub_batch_size p) (pub_lock_ttl_ms p)
       (pub_max_retry_count p) (w_outbox w))" by blast
  then show "pub_inv t \<and> publishes s t \<and> (\<forall>es. r = Inr es \<longrightarrow> (\<forall>e\<in>set es. known e t))"
  proof cases
    case 1
    have "pub_inv (w', b) \<and> publishes (w, b) (w', b)"
      by (rule pub_step) (use inv s c 1 in \<open>auto simp: same_events_def\<close>)
    with s 1 show ?thesis by simp
  next
    case 2
    obtain es ob where claim: "claim_unpublished (pub_id p) now (pub_batch_size p) (pub_lock_ttl_ms p)
       (pub_max_retry_count p) (w_outbox w) = (es, ob)" by fastforce
    with 2 have r: "r = Inr es" "w_outbox w' = ob" by simp_all
    have "pub_inv (w', b) \<and> publishes (w, b) (w', b)"
    proof (rule pub_step)
      show "same_events (w_outbox w) (w_outbox w')"
        using claim_same_events [of "w_outbox w"] claim r by (metis snd_conv)
      show "sent b e' \<or> (\<exists>e\<in>set (w_outbox w). event_key e = event_key e' \<and> ob_published_ts e \<noteq> None)"
        if "e' \<in> set (w_outbox w')" "ob_published_ts e' \<noteq> None" for e'
        using claim_keys [of e'] claim r that by (metis snd_conv)
    qed (use inv s c in auto)
    moreover have "known e (w', b)" if "e \<in> set es" for e
      using claimed_in [of e] claim r that by (metis fst_conv image_eqI known_def list.set_map snd_conv)
    ultimately show ?thesis using s r by simp
  qed
qed

lemma publish_event_safe:
  "safe pub_inv publishes (\<lambda>_. True) (publish_event p e) (\<lambda>_ s. sent (snd s) e)"
proof (rule safeI)
  fix s r t
  assume inv: "pub_inv s" and run: "publish_event p e s = (r, t)"
  obtain w b where s: "s = (w, b)" by (cases s)
  have t: "fst t = w" "publishes s t" "r = Inr x \<longrightarrow> sent (snd t) e" for x
    using run s by (auto simp: publish_event_def publishes_def same_events_def sent_def event_message_def split: if_splits)
  with inv s have "pub_inv t" by (auto simp: pub_inv_def intro: sent_grows)
  with t show "pub_inv t \<and> publishes s t \<and> (\<forall>x. r = Inr x \<longrightarrow> sent (snd t) e)" by auto
qed

lemma record_published_safe:
  "safe pub_inv publishes (\<lambda>s. known e s \<and> sent (snd s) e) (on_world (record_published p e)) (\<lambda>_ _. True)"
proof (rule safeI)
  fix s r t
  assume inv: "pub_inv s" and pre: "known e s \<and> sent (snd s) e" and run: "on_world (record_published p e) s = (r, t)"
  obtain w b w' where s: "s = (w, b)" "t = (w', b)" "record_published p e w = (r, w')"
    using run by (cases s) (auto simp: on_world_def split: prod.splits)
  note c = record_published_run [OF s(3)]
  have "pub_inv (w', b) \<and> publishes (w, b) (w', b)"
  proof (rule pub_step)
    show "same_events (w_outbox w) (w_outbox w')"
      using c(2) by (auto simp: mark_published_same_events) (simp add: same_events_def)
    show "sent b e' \<or> (\<exists>e\<in>set (w_outbox w). event_key e = event_key e' \<and> ob_published_ts e \<noteq> None)"
      if e': "e' \<in> set (w_outbox w')" "ob_published_ts e' \<noteq> None" for e'
    proof -
      from c e' obtain e0 where e0: "e0 \<in> set (w_outbox w)" "event_key e0 = event_key e'"
        "ob_published_ts e0 \<noteq> None \<or> ob_event_id e0 = ob_event_id e"
        by (auto simp: mark_published_def update_owned_def owned_by_def event_key_def split: if_splits)
      obtain e1 where e1: "e1 \<in> set (w_outbox w)" "event_key e1 = event_key e"
        using pre s by (auto simp: known_def)
      show ?thesis
      proof (cases "ob_published_ts e0 = None")
        case True
        then have "ob_event_id e0 = ob_event_id e1" using e0 e1 by (simp add: event_key_def)
        then have "e0 = e1"
          using inv s e0(1) e1(1) by (auto simp: pub_inv_def distinct_map inj_on_def)
        then have "event_key e' = event_key e" using e0 e1 by simp
        from sent_key [OF this] have "sent b e'" using pre s(1) by simp
        then show ?thesis by (rule disjI1)
      qed (use e0 in auto)
    qed
  qed (use inv s c in auto)
  with s show "pub_inv t \<and> publishes s t \<and> (\<forall>x. r = Inr x \<longrightarrow> True)" by simp
qed

lemma record_failed_safe: "safe pub_inv publishes P (on_world (record_failed p e)) (\<lambda>_ _. False)"
proof (rule safeI)
  fix s r t
  assume inv: "pub_inv s" and run: "on_world (record_failed p e) s = (r, t)"
  obtain w b w' where s: "s = (w, b)" "t = (w', b)" "record_failed p e w = (r, w')"
    using run by (cases s) (auto simp: on_world_def split: prod.splits)
  have "pub_inv (w', b) \<and> publishes (w, b) (w', b)"
    by (rule pub_step) (use inv s record_failed_run [OF s(3)] in \<open>auto simp: same_events_def\<close>)
  with s record_failed_run [OF s(3)] show "pub_inv t \<and> publishes s t \<and> (\<forall>x. r = Inr x \<longrightarrow> False)" by auto
qed

lemma epoch_pub_safe: "safe pub_inv publishes P (on_world epoch_ms) (\<lambda>_ _. True)"
  by (rule safeI) (auto simp: on_world_def epoch_ms_def pub_inv_def publishes_def same_events_def)

lemma publish_one_safe:
  "safe pub_inv publishes (known e) (publish_one p e stats) (\<lambda>_ _. True)"
proof -
  have "safe pub_inv publishes (known e) (andThen (publish_event p e) (\<lambda>_.
      andThen (on_world (record_published p e)) (\<lambda>_. ret (stats\<lparr>st_published := Suc (st_published stats)\<rparr>)))) (\<lambda>_ _. True)"
  proof (rule pb.safe_andThen [OF safe_weak [OF publish_event_safe] known_stable])
    show "safe pub_inv publishes (\<lambda>s. known e s \<and> sent (snd s) e) (andThen (on_world (record_published p e))
        (\<lambda>_. ret (stats\<lparr>st_published := Suc (st_published stats)\<rparr>))) (\<lambda>_ _. True)"
      by (rule pb.safe_then [OF record_published_safe]) (simp add: pb.safe_ret)
  qed
  then show ?thesis
    unfolding publish_one_def
    by (rule pb.safe_catch [OF _ known_stable]) (rule pb.safe_then [OF record_failed_safe], simp add: pb.safe_ret)
qed

lemma publish_once_safe: "safe pub_inv publishes (\<lambda>_. True) (publish_once p) (\<lambda>_ _. True)"
proof -
  have fold: "safe pub_inv publishes (\<lambda>s. \<forall>e\<in>set es. known e s) (foldE (publish_one p) es stats) (\<lambda>_ _. True)" for es stats
  proof (rule safe_pre)
    show "safe pub_inv publishes (\<lambda>s. (\<forall>e\<in>set es. known e s) \<and> True) (foldE (publish_one p) es stats) (\<lambda>_ _. True)"
      by (rule pb.safe_foldE) (auto intro!: safe_pre [OF publish_one_safe])
  qed simp
  show ?thesis
    unfolding publish_once_def
    by (rule pb.safe_then [OF epoch_pub_safe], rule pb.safe_then [OF claim_safe fold])
qed

lemma run_loop_safe: "safe pub_inv publishes (\<lambda>_. True) (run_loop p n) (\<lambda>_ _. True)"
proof (induction n)
  case (Suc n)
  have "safe pub_inv publishes (\<lambda>_. True) (catch (andThen (publish_once p) (\<lambda>_. ret ())) (\<lambda>_. ret ())) (\<lambda>_ _. True)"
    by (intro pb.safe_catch pb.safe_then [OF publish_once_safe]) (simp_all add: pb.safe_ret)
  then show ?case unfolding run_loop.simps by (rule pb.safe_then) (rule Suc)
qed (simp add: pb.safe_ret)

section \<open>Claims\<close>

lemma candidates_distinct:
  assumes "distinct (map ob_event_id rows)"
  shows "distinct (claim_candidates now n m rows)"
proof -
  let ?sorted = "sort_key ob_created_ts (sort_key ob_event_id (filter (claimable now m) rows))"
  have "distinct (map ob_event_id (filter (claimable now m) rows))"
    using assms by (rule distinct_map_filter)
  then have "distinct (map ob_event_id ?sorted)" by (simp add: distinct_map)
  then have "distinct (take n (map ob_event_id ?sorted))" by (rule distinct_take)
  then show ?thesis by (simp add: claim_candidates_def take_map)
qed

lemma candidate_claimable:
  assumes "i \<in> set (claim_candidates now n m rows)"
  obtains e where "e \<in> set rows" and "ob_event_id e = i" and "claimable now m e"
proof -
  from assms obtain e where "e \<in> set (take n (sort_key ob_created_ts (sort_key ob_event_id (filter (claimable now m) rows))))"
    and "ob_event_id e = i" by (auto simp: claim_candidates_def)
  with in_set_takeD [OF this(1)] show thesis by (intro that [of e]) simp_all
qed

text \<open>The events a claim returns: distinct, and each one the locked row of a claimable event.\<close>

lemma claimed_events:
  assumes claim: "claim_unpublished p now n ttl m rows = (es, rows')" and dist: "distinct (map ob_event_id rows)"
  shows "distinct (map ob_event_id es)"
    and "e \<in> set es \<Longrightarrow> e \<in> set rows' \<and> owned_by p (ob_event_id e) e \<and>
      ob_locked_until_ts e = Some (now + ttl) \<and> ob_event_id e \<in> set (claim_candidates now n m rows)"
proof -
  let ?ids = "claim_candidates now n m rows"
  let ?lock = "\<lambda>e. e\<lparr>ob_locked_by := Some p, ob_locked_until_ts := Some (now + ttl)\<rparr>"
  have rows': "rows' = map (\<lambda>e. if ob_event_id e \<in> set ?ids then ?lock e else e) rows"
    and es: "es = List.map_filter (\<lambda>i. List.find (\<lambda>e. ob_event_id e = i) rows') ?ids"
    using claim by (auto simp: claim_unpublished_def Let_def)
  have find_id: "ob_event_id e = i \<and> e \<in> set rows'" if "List.find (\<lambda>e. ob_event_id e = i) rows' = Some e" for i e
    using that by (auto simp: find_Some_iff)
  have ids: "map ob_event_id (List.map_filter (\<lambda>i. List.find (\<lambda>e. ob_event_id e = i) rows') is) =
      filter (\<lambda>i. List.find (\<lambda>e. ob_event_id e = i) rows' \<noteq> None) is" for "is"
    by (induction "is") (auto simp: List.map_filter_simps dest: find_id split: option.split)
  show "distinct (map ob_event_id es)"
    using candidates_distinct [OF dist] by (simp add: es ids)
  show "e \<in> set rows' \<and> owned_by p (ob_event_id e) e \<and> ob_locked_until_ts e = Some (now + ttl) \<and>
      ob_event_id e \<in> set ?ids" if "e \<in> set es"
  proof -
    from that obtain i where i: "i \<in> set ?ids" "List.find (\<lambda>e. ob_event_id e = i) rows' = Some e"
      by (auto simp: es List.map_filter_def)
    note e = find_id [OF i(2)]
    then obtain e0 where e0: "e0 \<in> set rows" "ob_event_id e0 = i" "e = ?lock e0"
      using i(1) by (auto simp: rows' split: if_splits)
    obtain e1 where e1: "e1 \<in> set rows" "ob_event_id e1 = i" "claimable now m e1"
      using i(1) by (rule candidate_claimable)
    then have "e1 = e0" using e0 dist by (auto simp: distinct_map inj_on_def)
    with e1 e e0 i(1) show ?thesis by (simp add: owned_by_def claimable_def)
  qed
qed

section \<open>A round without failures\<close>

lemma mark_published_row:
  assumes "row \<in> set rows" and "owned_by p i row"
  shows "\<exists>row'\<in>set (snd (mark_published p i ts rows)). ob_event_id row' = i \<and> ob_published_ts row' \<noteq> None"
proof -
  let ?f = "\<lambda>e. e\<lparr>ob_published_ts := Some ts, ob_locked_by := None, ob_locked_until_ts := None, ob_last_error := None\<rparr>"
  have "?f row \<in> set (snd (mark_published p i ts rows))"
    using assms by (auto simp: mark_published_def update_owned_def intro!: image_eqI [where x = row])
  moreover have "ob_event_id (?f row) = i" using assms(2) by (simp add: owned_by_def)
  ultimately show ?thesis by (intro bexI [of _ "?f row"]) simp_all
qed

lemma mark_published_other:
  assumes "row \<in> set rows" and "ob_event_id row \<noteq> i"
  shows "row \<in> set (snd (mark_published p i ts rows))"
  using assms by (force simp: mark_published_def update_owned_def owned_by_def)

lemma mark_published_kept:
  assumes "row \<in> set rows" and "ob_published_ts row \<noteq> None"
  shows "row \<in> set (snd (mark_published p i ts rows))"
  using assms by (force simp: mark_published_def update_owned_def owned_by_def)

lemma publish_one_up:
  assumes "w_pg_ok w (w_pg_calls w)" and "bk_ok b (bk_calls b)"
  shows "\<exists>w'. publish_one p e stats (w, b) =
      (Inr (stats\<lparr>st_published := Suc (st_published stats)\<rparr>),
       (w', b\<lparr>bk_log := bk_log b @ [event_message p e], bk_calls := Suc (bk_calls b)\<rparr>)) \<and>
    w_outbox w' = snd (mark_published (pub_id p) (ob_event_id e) (w_clock w (w_ticks w)) (w_outbox w)) \<and>
    w_pg_ok w' = w_pg_ok w"
  using assms
  by (auto simp: publish_one_def publish_event_def on_world_def record_published_def pg_transaction_def
      on_outbox_def prog_simps Let_def epoch_ms_def split: prod.splits)

lemma fold_publishes:
  assumes "\<forall>n. w_pg_ok w n" and "\<forall>n. bk_ok b n" and "distinct (map ob_event_id es)"
    and "\<forall>e\<in>set es. \<exists>row\<in>set (w_outbox w). owned_by (pub_id p) (ob_event_id e) row"
  shows "\<exists>w' b'. foldE (publish_one p) es stats (w, b) =
      (Inr (stats\<lparr>st_published := st_published stats + length es\<rparr>), (w', b')) \<and>
    bk_log b' = bk_log b @ map (event_message p) es \<and>
    (\<forall>e\<in>set es. \<exists>row\<in>set (w_outbox w'). ob_event_id row = ob_event_id e \<and> ob_published_ts row \<noteq> None) \<and>
    (\<forall>row\<in>set (w_outbox w). ob_published_ts row \<noteq> None \<longrightarrow> row \<in> set (w_outbox w'))"
  using assms
proof (induction es arbitrary: w b stats)
  case (Cons e es)
  let ?b = "b\<lparr>bk_log := bk_log b @ [event_message p e], bk_calls := Suc (bk_calls b)\<rparr>"
  let ?stats = "stats\<lparr>st_published := Suc (st_published stats)\<rparr>"
  let ?rows = "snd (mark_published (pub_id p) (ob_event_id e) (w_clock w (w_ticks w)) (w_outbox w))"
  obtain w1 where w1: "publish_one p e stats (w, b) = (Inr ?stats, (w1, ?b))" "w_outbox w1 = ?rows" "w_pg_ok w1 = w_pg_ok w"
    using publish_one_up [of w b p e stats] Cons.prems(1,2) by blast
  have owned: "\<forall>x\<in>set es. \<exists>row\<in>set (w_outbox w1). owned_by (pub_id p) (ob_event_id x) row"
  proof
    fix x assume x: "x \<in> set es"
    then obtain row where row: "row \<in> set (w_outbox w)" "owned_by (pub_id p) (ob_event_id x) row"
      using Cons.prems(4) by auto
    moreover have "ob_event_id row \<noteq> ob_event_id e"
      using Cons.prems(3) row(2) imageI [OF x, of ob_event_id] by (auto simp: owned_by_def)
    ultimately show "\<exists>row\<in>set (w_outbox w1). owned_by (pub_id p) (ob_event_id x) row"
      using mark_published_other w1(2) by metis
  qed
  obtain row where row: "row \<in> set (w_outbox w)" "owned_by (pub_id p) (ob_event_id e) row"
    using Cons.prems(4) by auto
  obtain row' where row': "row' \<in> set (w_outbox w1)" "ob_event_id row' = ob_event_id e" "ob_published_ts row' \<noteq> None"
    using mark_published_row [OF row] w1(2) by metis
  have "\<forall>n. w_pg_ok w1 n" "\<forall>n. bk_ok ?b n" "distinct (map ob_event_id es)"
    using Cons.prems w1(3) by simp_all
  from Cons.IH [OF this owned, of ?stats] obtain w' b' where
    run: "foldE (publish_one p) es ?stats (w1, ?b) =
        (Inr (?stats\<lparr>st_published := st_published ?stats + length es\<rparr>), (w', b'))"
    and log: "bk_log b' = bk_log ?b @ map (event_message p) es"
    and done_es: "\<forall>e\<in>set es. \<exists>row\<in>set (w_outbox w'). ob_event_id row = ob_event_id e \<and> ob_published_ts row \<noteq> None"
    and kept: "\<forall>row\<in>set (w_outbox w1). ob_published_ts row \<noteq> None \<longrightarrow> row \<in> set (w_outbox w')" by blast
  have "foldE (publish_one p) (e # es) stats (w, b) =
      (Inr (stats\<lparr>st_published := st_published stats + length (e # es)\<rparr>), (w', b'))"
    using w1(1) run by (simp add: prog_simps)
  moreover have "bk_log b' = bk_log b @ map (event_message p) (e # es)" using log by simp
  moreover have "row' \<in> set (w_outbox w')" using kept row' by blast
  moreover have "\<forall>row\<in>set (w_outbox w). ob_published_ts row \<noteq> None \<longrightarrow> row \<in> set (w_outbox w')"
    using kept mark_published_kept w1(2) by metis
  ultimately show ?case using done_es row'(2,3) by (metis set_ConsD)
qed (auto simp: prog_simps)

section \<open>Properties\<close>

text \<open>C15: At-least-once delivery: an outbox event is recorded as published only when the broker has
  accepted its message.  This holds after any number of rounds, whichever sends and store calls fail,
  and the rounds change neither the orders nor what the event log says of them.\<close>

theorem published_was_sent:
  assumes "distinct (map ob_event_id (w_outbox w))"
    and "\<forall>e\<in>set (w_outbox w). ob_published_ts e \<noteq> None \<longrightarrow> sent b e"
    and "run_loop p n (w, b) = (r, (w', b'))"
  shows "(\<forall>e\<in>set (w_outbox w'). ob_published_ts e \<noteq> None \<longrightarrow> sent b' e) \<and>
    w_orders w' = w_orders w \<and> order_events i (w_outbox w') = order_events i (w_outbox w)"
proof -
  have inv: "pub_inv (w, b)" using assms(1,2) by (simp add: pub_inv_def)
  note kept = safeD(1,2) [OF run_loop_safe inv TrueI assms(3)]
  have "same_events (w_outbox w) (w_outbox w')" using kept(2) by (simp add: publishes_def)
  from same_events_order_events [OF this] have "order_events i (w_outbox w') = order_events i (w_outbox w)" by simp
  with kept show ?thesis by (simp add: pub_inv_def publishes_def)
qed

definition sample_publisher :: publisher where
  "sample_publisher = \<lparr>pub_id = ''p'', pub_topic = ''orders'', pub_batch_size = 100, pub_lock_ttl_ms = 30000,
     pub_retry_delay_ms = 5000, pub_max_retry_count = 20\<rparr>"

definition sample_broker :: broker where
  "sample_broker = \<lparr>bk_log = [], bk_ok = (\<lambda>_. True), bk_calls = 0\<rparr>"

lemma published_was_sent_witness:
  "order_events ''O-1'' (w_outbox (fst (snd (run_loop sample_publisher 3 (holding sample_open, sample_broker))))) =
   order_events ''O-1'' (w_outbox (holding sample_open))"
proof -
  have "distinct (map ob_event_id (w_outbox (holding sample_open)))"
    "\<forall>e\<in>set (w_outbox (holding sample_open)). ob_published_ts e \<noteq> None \<longrightarrow> sent sample_broker e"
    by (simp_all add: holding_def created_world_def blank_world_def outbox_insert_def)
  moreover have "run_loop sample_publisher 3 (holding sample_open, sample_broker) =
     (fst (run_loop sample_publisher 3 (holding sample_open, sample_broker)),
      fst (snd (run_loop sample_publisher 3 (holding sample_open, sample_broker))),
      snd (snd (run_loop sample_publisher 3 (holding sample_open, sample_broker))))" by simp
  ultimately show ?thesis by (rule published_was_sent [THEN conjunct2, THEN conjunct2])
qed

text \<open>C16: While a claim is locked no other claim returns its events: two publishers whose claims follow
  each other within the lock time never work on the same event.\<close>

theorem claims_exclusive:
  assumes "distinct (map ob_event_id rows)"
    and "claim_unpublished p1 now1 n1 ttl m1 rows = (es1, rows1)"
    and "claim_unpublished p2 now2 n2 ttl2 m2 rows1 = (es2, rows2)"
    and "now2 < now1 + ttl"
  shows "set (map ob_event_id es1) \<inter> set (map ob_event_id es2) = {}"
proof -
  have dist1: "distinct (map ob_event_id rows1)"
  proof -
    have "same_events rows rows1" using claim_same_events assms(2) by (metis snd_conv)
    from arg_cong [OF this [unfolded same_events_keys], of "map fst"]
    have "map ob_event_id rows = map ob_event_id rows1" by (simp add: event_key_def comp_def)
    with assms(1) show ?thesis by simp
  qed
  have False if e1: "e1 \<in> set es1" and e2: "e2 \<in> set es2" and eq: "ob_event_id e1 = ob_event_id e2" for e1 e2
  proof -
    note c1 = claimed_events(2) [OF assms(2,1) e1] and c2 = claimed_events(2) [OF assms(3) dist1 e2]
    from c2 obtain e where e: "e \<in> set rows1" "ob_event_id e = ob_event_id e2" "claimable now2 m2 e"
      by (auto elim: candidate_claimable)
    then have "e = e1" using c1 dist1 eq by (auto simp: distinct_map inj_on_def)
    with c1 e(3) assms(4) show False by (simp add: claimable_def due_def)
  qed
  then show ?thesis by fastforce
qed

lemma claims_exclusive_witness:
  "set (map ob_event_id (fst (claim_unpublished ''a'' 0 5 30 3 (w_outbox (holding sample_open))))) \<inter>
   set (map ob_event_id (fst (claim_unpublished ''b'' 10 5 30 3
     (snd (claim_unpublished ''a'' 0 5 30 3 (w_outbox (holding sample_open))))))) = {}"
  by (rule claims_exclusive [OF _ surjective_pairing surjective_pairing])
    (simp_all add: holding_def created_world_def blank_world_def outbox_insert_def)

text \<open>When the stores and the broker answer, a round sends exactly the events it claimed, once each
  and in the order of the claim, and all of them are recorded as published.\<close>

lemma publish_once_delivers:
  assumes "\<forall>n. w_pg_ok w n" and "\<forall>n. bk_ok b n" and "distinct (map ob_event_id (w_outbox w))"
    and "claim_unpublished (pub_id p) (w_clock w (w_ticks w)) (pub_batch_size p) (pub_lock_ttl_ms p)
      (pub_max_retry_count p) (w_outbox w) = (es, rows)"
  shows "\<exists>w' b'. publish_once p (w, b) =
      (Inr \<lparr>st_claimed = length es, st_published = length es, st_failed = 0\<rparr>, (w', b')) \<and>
    bk_log b' = bk_log b @ map (event_message p) es \<and>
    (\<forall>e\<in>set es. \<exists>row\<in>set (w_outbox w'). ob_event_id row = ob_event_id e \<and> ob_published_ts row \<noteq> None)"
proof -
  let ?w = "w\<lparr>w_ticks := Suc (w_ticks w), w_pg_calls := Suc (w_pg_calls w), w_outbox := rows\<rparr>"
  have claim: "claim_events p (w_clock w (w_ticks w)) (w\<lparr>w_ticks := Suc (w_ticks w)\<rparr>) = (Inr es, ?w)"
    using assms(1,4) by (simp add: claim_events_def pg_transaction_def on_outbox_def Let_def)
  note events = claimed_events [OF assms(4,3)]
  have "\<forall>e\<in>set es. \<exists>row\<in>set (w_outbox ?w). owned_by (pub_id p) (ob_event_id e) row"
    using events(2) by auto
  moreover have "\<forall>n. w_pg_ok ?w n" using assms(1) by simp
  ultimately obtain w' b' where "foldE (publish_one p) es \<lparr>st_claimed = length es, st_published = 0, st_failed = 0\<rparr> (?w, b) =
      (Inr \<lparr>st_claimed = length es, st_published = length es, st_failed = 0\<rparr>, (w', b'))"
    "bk_log b' = bk_log b @ map (event_message p) es"
    "\<forall>e\<in>set es. \<exists>row\<in>set (w_outbox w'). ob_event_id row = ob_event_id e \<and> ob_published_ts row \<noteq> None"
    using fold_publishes [of ?w b es p "\<lparr>st_claimed = length es, st_published = 0, st_failed = 0\<rparr>"] assms(2) events(1)
    by auto
  with claim show ?thesis
    by (simp add: publish_once_def on_world_def prog_simps epoch_ms_def)
qed

text \<open>A send that fails ends the round with an exception instead of a retry: \<open>mark_failed\<close> is called
  with a positional argument, so neither the retry count nor the next attempt of the event is
  recorded, and none of the events claimed after it is sent.\<close>

lemma failed_send_ends_round:
  assumes "\<not> bk_ok b (bk_calls b)"
  shows "\<exists>x w'. foldE (publish_one p) (e # es) stats (w, b) = (Inl x, (w', b\<lparr>bk_calls := Suc (bk_calls b)\<rparr>)) \<and>
    w_outbox w' = w_outbox w"
proof -
  have send: "publish_event p e (w, b) = (Inl (OtherError ''publish''), (w, b\<lparr>bk_calls := Suc (bk_calls b)\<rparr>))"
    using assms by (simp add: publish_event_def)
  obtain q w' where rec_failed: "record_failed p e w = (q, w')" by fastforce
  with record_failed_run obtain x where "q = Inl x" "w_outbox w' = w_outbox w" by blast
  with send rec_failed show ?thesis by (simp add: publish_one_def prog_simps on_world_def)
qed

end
