(* ===== verification/PositionStore.thy ===== *)
theory PositionStore
  imports Store PyDecimal
begin

text \<open>
  Positions and where they are kept: \<open>schemas/position.py\<close>, the table and its upsert
  (\<open>postgres/domain/position_table.py\<close>, \<open>postgres/position_repo.py\<close>), the Redis
  projection (\<open>redis/domain/position_projection_schema.py\<close>,
  \<open>redis/position_state_repo.py\<close>).  A position record is parametric in its numeric fields:
  texts in memory, decimals in the table.  The outbox rows of positions (aggregate type
  \<open>POSITION\<close>) are kept apart from those of the orders.  An index set of Redis is the list of
  its members; \<open>SSCAN\<close> may return them in any order, here it is the order of insertion.
\<close>

section \<open>Positions\<close>

record 'n position_data =
  p_position_id :: string
  p_exchange :: exchange
  p_market_type :: market_type
  p_symbol :: string
  p_position_side :: position_side
  p_status :: position_status
  p_position_amt :: 'n
  p_entry_price :: "'n option"
  p_break_even_price :: "'n option"
  p_mark_price :: "'n option"
  p_unrealized_pnl :: "'n option"
  p_isolated_margin :: "'n option"
  p_isolated_wallet :: "'n option"
  p_margin_type :: "string option"
  p_leverage :: "int option"
  p_liquidation_price :: "'n option"
  p_notional :: "'n option"
  p_update_reason :: "string option"
  p_last_event_time :: "int option"
  p_last_transaction_time :: "int option"
  p_opened_ts :: "int option"
  p_closed_ts :: "int option"
  p_updated_ts :: int
  p_version :: int

type_synonym position = "string position_data"
type_synonym position_row = "pydecimal position_data"

text \<open>The numeric fields, and a position with each of them converted.\<close>

definition numerics :: "'a position_data \<Rightarrow> 'a list" where
  "numerics p = p_position_amt p # List.map_filter (\<lambda>f. f p)
     [p_entry_price, p_break_even_price, p_mark_price, p_unrealized_pnl, p_isolated_margin,
      p_isolated_wallet, p_liquidation_price, p_notional]"

definition map_numeric :: "('a \<Rightarrow> 'b) \<Rightarrow> 'a position_data \<Rightarrow> 'b position_data" where
  "map_numeric f p =
     \<lparr>p_position_id = p_position_id p, p_exchange = p_exchange p, p_market_type = p_market_type p,
      p_symbol = p_symbol p, p_position_side = p_position_side p, p_status = p_status p,
      p_position_amt = f (p_position_amt p), p_entry_price = map_option f (p_entry_price p),
      p_break_even_price = map_option f (p_break_even_price p), p_mark_price = map_option f (p_mark_price p),
      p_unrealized_pnl = map_option f (p_unrealized_pnl p), p_isolated_margin = map_option f (p_isolated_margin p),
      p_isolated_wallet = map_option f (p_isolated_wallet p), p_margin_type = p_margin_type p,
      p_leverage = p_leverage p, p_liquidation_price = map_option f (p_liquidation_price p),
      p_notional = map_option f (p_notional p), p_update_reason = p_update_reason p,
      p_last_event_time = p_last_event_time p, p_last_transaction_time = p_last_transaction_time p,
      p_opened_ts = p_opened_ts p, p_closed_ts = p_closed_ts p, p_updated_ts = p_updated_ts p,
      p_version = p_version p\<rparr>"

lemma map_numeric_simps [simp]:
  "p_position_id (map_numeric f p) = p_position_id p" "p_exchange (map_numeric f p) = p_exchange p"
  "p_market_type (map_numeric f p) = p_market_type p" "p_symbol (map_numeric f p) = p_symbol p"
  "p_position_side (map_numeric f p) = p_position_side p" "p_status (map_numeric f p) = p_status p"
  "p_position_amt (map_numeric f p) = f (p_position_amt p)"
  "p_last_event_time (map_numeric f p) = p_last_event_time p" "p_opened_ts (map_numeric f p) = p_opened_ts p"
  "p_closed_ts (map_numeric f p) = p_closed_ts p" "p_updated_ts (map_numeric f p) = p_updated_ts p"
  "p_version (map_numeric f p) = p_version p"
  by (simp_all add: map_numeric_def)

definition make_position_id :: "exchange \<Rightarrow> market_type \<Rightarrow> string \<Rightarrow> position_side \<Rightarrow> string" where
  "make_position_id ex mt symb side =
     upper (exchange_value ex) @ '':'' @ upper (market_type_value mt) @ '':'' @ upper symb @ '':'' @
     upper (position_side_value side)"

text \<open>A text that is no number counts as zero; comparing a signalling NaN raises outside the \<open>try\<close>.\<close>

definition infer_position_status :: "string \<Rightarrow> exn + position_status" where
  "infer_position_status amt =
     (case decimal_of_string amt of
        None \<Rightarrow> Inr PS_FLAT
      | Some d \<Rightarrow> (case dec_eq_zero d of
          None \<Rightarrow> Inl InvalidOperation
        | Some zero \<Rightarrow> Inr (if zero then PS_FLAT else PS_OPEN)))"

text \<open>\<open>Position(...)\<close> and \<open>Position.model_validate\<close>; the empty id stands for none.\<close>

definition validate_position :: "position \<Rightarrow> exn + position" where
  "validate_position p =
     (let expected = make_position_id (p_exchange p) (p_market_type p) (upper (p_symbol p)) (p_position_side p) in
      if p_position_id p \<noteq> [] \<and> p_position_id p \<noteq> expected then Inl (ValidationError ''position_id mismatch'')
      else sum_bind (infer_position_status (p_position_amt p)) (\<lambda>st.
             Inr (p\<lparr>p_symbol := upper (p_symbol p), p_position_id := expected, p_status := st\<rparr>)))"

section \<open>The positions table\<close>

text \<open>A \<open>numeric\<close> column keeps the digits after the point, but no positive exponent, no sign of a
  zero and one NaN.\<close>

fun pg_numeric :: "pydecimal \<Rightarrow> pydecimal" where
  "pg_numeric (DFin neg c e) =
     DFin (neg \<and> c \<noteq> 0) (if 0 \<le> e then c * 10 ^ nat e else c) (min e 0)"
| "pg_numeric (DInf neg) = DInf neg"
| "pg_numeric (DNaN _) = DNaN False"

fun numeric_zero :: "pydecimal \<Rightarrow> bool" where
  "numeric_zero (DFin _ c _) = (c = 0)"
| "numeric_zero _ = False"

definition rstrip_char :: "char \<Rightarrow> string \<Rightarrow> string" where
  "rstrip_char c t = rev (dropWhile (\<lambda>x. x = c) (rev t))"

definition decimal_str :: "pydecimal \<Rightarrow> string" where
  "decimal_str d =
     (let t = dec_format_f d in
      if CHR ''.'' \<in> set t then rstrip_char (CHR ''.'') (rstrip_char (CHR ''0'') t) else t)"

definition parse_dec :: "string \<Rightarrow> pydecimal" where
  "parse_dec t = (case decimal_of_string t of None \<Rightarrow> DNaN False | Some d \<Rightarrow> d)"

text \<open>\<open>upsert_insert_values\<close> and the casts to \<open>numeric\<close>: the row a position would be inserted as.\<close>

definition upsert_insert_values :: "position \<Rightarrow> exn + position_row" where
  "upsert_insert_values p =
     (case decimal_of_string (p_position_amt p) of
        None \<Rightarrow> Inl InvalidOperation
      | Some d \<Rightarrow> (case dec_eq_zero d of
          None \<Rightarrow> Inl InvalidOperation
        | Some zero \<Rightarrow>
            if \<not> list_all (\<lambda>t. decimal_of_string t \<noteq> None) (numerics p) then Inl (OtherError ''numeric'')
            else Inr ((map_numeric (\<lambda>t. pg_numeric (parse_dec t)) p)
                   \<lparr>p_symbol := upper (p_symbol p),
                    p_opened_ts := (if zero then None else Some (p_updated_ts p)),
                    p_closed_ts := (if zero then Some (p_updated_ts p) else None),
                    p_version := 1\<rparr>)))"

text \<open>The guard and the \<open>SET\<close> clause of the upsert; \<open>new\<close> is \<open>EXCLUDED\<close>.\<close>

definition upsert_guard :: "position_row \<Rightarrow> position_row \<Rightarrow> bool" where
  "upsert_guard new row =
     (case (p_last_event_time row, p_last_event_time new) of
        (Some t, Some u) \<Rightarrow> t \<le> u
      | _ \<Rightarrow> True)"

definition upsert_row :: "position_row \<Rightarrow> position_row \<Rightarrow> position_row" where
  "upsert_row new row = row
     \<lparr>p_status := p_status new,
      p_position_amt := p_position_amt new,
      p_entry_price := p_entry_price new,
      p_break_even_price := p_break_even_price new,
      p_mark_price := p_mark_price new,
      p_unrealized_pnl := p_unrealized_pnl new,
      p_isolated_margin := p_isolated_margin new,
      p_isolated_wallet := p_isolated_wallet new,
      p_margin_type := p_margin_type new,
      p_leverage := p_leverage new,
      p_liquidation_price := p_liquidation_price new,
      p_notional := p_notional new,
      p_update_reason := p_update_reason new,
      p_last_event_time := p_last_event_time new,
      p_last_transaction_time := p_last_transaction_time new,
      p_updated_ts := p_updated_ts new,
      p_opened_ts :=
        (if numeric_zero (p_position_amt row) \<and> \<not> numeric_zero (p_position_amt new) then Some (p_updated_ts new)
         else if p_opened_ts row = None \<and> \<not> numeric_zero (p_position_amt new) then Some (p_updated_ts new)
         else p_opened_ts row),
      p_closed_ts := (if numeric_zero (p_position_amt new) then Some (p_updated_ts new) else None),
      p_version := p_version row + 1\<rparr>"

text \<open>\<open>_row_to_dict\<close> and \<open>Position.model_validate\<close>.\<close>

definition position_of_row :: "position_row \<Rightarrow> exn + position" where
  "position_of_row row = validate_position (map_numeric decimal_str row)"

section \<open>The state\<close>

record position_event =
  pe_aggregate_id :: string
  pe_event_type :: string
  pe_position :: position
  pe_created_ts :: int

record position_store =
  ps_clock :: "nat \<Rightarrow> int"
  ps_ticks :: nat
  ps_pg_ok :: "nat \<Rightarrow> bool"
  ps_pg_calls :: nat
  ps_rd_ok :: "nat \<Rightarrow> bool"
  ps_rd_calls :: nat
  ps_rows :: "string \<Rightarrow> position_row option"
  ps_keys :: "string list"
  ps_outbox :: "position_event list"
  ps_live :: "string \<Rightarrow> live_hash option"
  ps_ttl :: "string \<Rightarrow> int option"
  ps_open :: "market_key \<Rightarrow> string list"
  ps_symbol :: "string \<times> string \<times> string \<Rightarrow> string list"

type_synonym 'a psprog = "(position_store, exn, 'a) prog"

definition ps_now :: "int psprog" where
  "ps_now = (\<lambda>s. (Inr (ps_clock s (ps_ticks s)), s\<lparr>ps_ticks := Suc (ps_ticks s)\<rparr>))"

definition ps_transaction :: "'a psprog \<Rightarrow> 'a psprog" where
  "ps_transaction body = (\<lambda>s.
     let ok = ps_pg_ok s (ps_pg_calls s); s = s\<lparr>ps_pg_calls := Suc (ps_pg_calls s)\<rparr> in
     if \<not> ok then (Inl (OtherError ''postgres''), s)
     else case body s of
            (Inr x, t) \<Rightarrow> (Inr x, t)
          | (Inl e, t) \<Rightarrow> (Inl e, t\<lparr>ps_rows := ps_rows s, ps_keys := ps_keys s, ps_outbox := ps_outbox s\<rparr>))"

definition ps_redis :: "(position_store \<Rightarrow> (exn + 'a) \<times> position_store) \<Rightarrow> 'a psprog" where
  "ps_redis f = (\<lambda>s.
     let ok = ps_rd_ok s (ps_rd_calls s); s = s\<lparr>ps_rd_calls := Suc (ps_rd_calls s)\<rparr> in
     if ok then f s else (Inl RedisError, s))"

section \<open>The repository\<close>

definition put_row :: "string \<Rightarrow> position_row \<Rightarrow> position_store \<Rightarrow> position_store" where
  "put_row i row s = s\<lparr>ps_rows := (ps_rows s)(i \<mapsto> row),
     ps_keys := (if i \<in> set (ps_keys s) then ps_keys s else ps_keys s @ [i])\<rparr>"

definition repo_upsert :: "position \<Rightarrow> position psprog" where
  "repo_upsert p =
     andThen (liftSum (upsert_insert_values p)) (\<lambda>new s.
       case ps_rows s (p_position_id p) of
         None \<Rightarrow> (position_of_row new, put_row (p_position_id p) new s)
       | Some row \<Rightarrow>
           if upsert_guard new row
           then (position_of_row (upsert_row new row), put_row (p_position_id p) (upsert_row new row) s)
           else (position_of_row row, s))"

definition repo_get :: "string \<Rightarrow> position_store \<Rightarrow> position_row option" where
  "repo_get i s = ps_rows s i"

definition repo_list_all :: "position_store \<Rightarrow> position_row list" where
  "repo_list_all s = sort_key (\<lambda>row. - p_updated_ts row) (List.map_filter (ps_rows s) (ps_keys s))"

definition repo_list_open :: "position_store \<Rightarrow> position_row list" where
  "repo_list_open s = sort_key (\<lambda>row. - p_updated_ts row)
     (filter (\<lambda>row. p_status row = PS_OPEN) (List.map_filter (ps_rows s) (ps_keys s)))"

definition collect_sum :: "('e + 'a) list \<Rightarrow> 'e + 'a list" where
  "collect_sum rs = foldr (\<lambda>r acc. sum_bind r (\<lambda>x. map_sum id ((#) x) acc)) rs (Inr [])"

text \<open>The projection reads cast the numeric columns to text in SQL and keep their trailing zeros.\<close>

definition repo_list_open_for_projection :: "position_store \<Rightarrow> exn + position list" where
  "repo_list_open_for_projection s =
     collect_sum (map (\<lambda>row. validate_position (map_numeric dec_format_f row))
       (sort_key p_updated_ts (sort_key p_position_id
         (filter (\<lambda>row. p_status row = PS_OPEN) (List.map_filter (ps_rows s) (ps_keys s))))))"

section \<open>The Redis projection\<close>

definition POSITION_FIELDS :: "position projection_field list" where
  "POSITION_FIELDS =
    [required ''position_id'' (\<lambda>p. Some (p_position_id p)),
     required ''version'' (\<lambda>p. Some (show_int (p_version p))),
     required ''status'' (\<lambda>p. Some (position_status_value (p_status p))),
     required ''updated_ts'' (\<lambda>p. Some (show_int (p_updated_ts p))),
     required ''exchange'' (\<lambda>p. Some (upper (exchange_value (p_exchange p)))),
     required ''market_type'' (\<lambda>p. Some (upper (market_type_value (p_market_type p)))),
     required ''symbol'' (\<lambda>p. Some (upper (p_symbol p))),
     required ''position_side'' (\<lambda>p. Some (upper (position_side_value (p_position_side p)))),
     required ''position_amt'' (\<lambda>p. Some (p_position_amt p)),
     payload ''entry_price'' p_entry_price,
     payload ''break_even_price'' p_break_even_price,
     payload ''mark_price'' p_mark_price,
     payload ''unrealized_pnl'' p_unrealized_pnl,
     payload ''isolated_margin'' p_isolated_margin,
     payload ''isolated_wallet'' p_isolated_wallet,
     payload ''margin_type'' p_margin_type,
     payload ''leverage'' (\<lambda>p. map_option show_int (p_leverage p)),
     payload ''liquidation_price'' p_liquidation_price,
     payload ''notional'' p_notional,
     payload ''update_reason'' p_update_reason,
     payload ''last_event_time'' (\<lambda>p. map_option show_int (p_last_event_time p)),
     payload ''last_transaction_time'' (\<lambda>p. map_option show_int (p_last_transaction_time p)),
     payload ''opened_ts'' (\<lambda>p. map_option show_int (p_opened_ts p)),
     payload ''closed_ts'' (\<lambda>p. map_option show_int (p_closed_ts p))]"

definition from_position :: "position \<Rightarrow> exn + (string \<times> hval) list" where
  "from_position p = from_source POSITION_FIELDS p"

definition FLAT_TTL_SEC :: int where
  "FLAT_TTL_SEC = 7 * 24 * 60 * 60"

definition lower_char :: "char \<Rightarrow> char" where
  "lower_char c =
     (let n = (of_char c :: nat) in if 65 \<le> n \<and> n \<le> 90 then char_of (n + 32) else c)"

definition lower :: "string \<Rightarrow> string" where
  "lower t = map lower_char t"

definition sadd :: "string \<Rightarrow> string list \<Rightarrow> string list" where
  "sadd x xs = (if x \<in> set xs then xs else xs @ [x])"

definition srem :: "string \<Rightarrow> string list \<Rightarrow> string list" where
  "srem x xs = filter (\<lambda>y. y \<noteq> x) xs"

definition open_key :: "string \<Rightarrow> string \<Rightarrow> market_key" where
  "open_key ex mt = (ex, lower mt)"

definition pos_symbol_key :: "string \<Rightarrow> string \<Rightarrow> string \<Rightarrow> string \<times> string \<times> string" where
  "pos_symbol_key ex mt symb = (ex, mt, upper symb)"

text \<open>One \<open>MULTI\<close> pipeline; no version is compared.\<close>

definition position_pipeline :: "position \<Rightarrow> (string \<times> hval) list \<Rightarrow> position_store \<Rightarrow> position_store" where
  "position_pipeline p entries s =
     (let i = p_position_id p; ex = upper (exchange_value (p_exchange p));
          mt = upper (market_type_value (p_market_type p));
          k = open_key ex mt; q = pos_symbol_key ex mt (upper (p_symbol p));
          change = (if p_status p = PS_OPEN then sadd i else srem i)
      in s\<lparr>ps_live := (ps_live s)(i \<mapsto> hset entries (ps_live s i)),
           ps_open := (ps_open s)(k := change (ps_open s k)),
           ps_symbol := (ps_symbol s)(q := change (ps_symbol s q)),
           ps_ttl := (ps_ttl s)(i := (if p_status p = PS_OPEN then None else Some FLAT_TTL_SEC))\<rparr>)"

definition save_position :: "position \<Rightarrow> unit psprog" where
  "save_position p =
     andThen (liftSum (from_position p)) (\<lambda>entries. ps_redis (\<lambda>s. (Inr (), position_pipeline p entries s)))"

definition redis_get_position :: "string \<Rightarrow> position_store \<Rightarrow> live_hash option" where
  "redis_get_position i s = ps_live s i"

definition load_many :: "string list \<Rightarrow> position_store \<Rightarrow> live_hash list" where
  "load_many ids s = List.map_filter (\<lambda>i. redis_get_position i s) ids"

definition redis_list_open_positions :: "string \<Rightarrow> string \<Rightarrow> nat \<Rightarrow> position_store \<Rightarrow> live_hash list" where
  "redis_list_open_positions ex mt limit s = load_many (take limit (ps_open s (open_key ex mt))) s"

definition redis_list_by_symbol :: "string \<Rightarrow> string \<Rightarrow> string \<Rightarrow> nat \<Rightarrow> position_store \<Rightarrow> live_hash list" where
  "redis_list_by_symbol ex mt symb limit s = load_many (take limit (ps_symbol s (pos_symbol_key ex mt symb))) s"

definition redis_delete_position :: "string \<Rightarrow> position_store \<Rightarrow> position_store" where
  "redis_delete_position i s =
     (let gone = s\<lparr>ps_live := (ps_live s)(i := None), ps_ttl := (ps_ttl s)(i := None)\<rparr> in
      case redis_get_position i s of
        None \<Rightarrow> gone
      | Some h \<Rightarrow>
          let ex = hash_text h ''exchange''; mt = hash_text h ''market_type''; symb = hash_text h ''symbol'';
              k = open_key ex mt; q = pos_symbol_key ex mt symb;
              gone = (if ex = [] \<or> mt = [] then gone
                      else gone\<lparr>ps_open := (ps_open s)(k := srem i (ps_open s k))\<rparr>)
          in if ex = [] \<or> mt = [] \<or> symb = [] then gone
             else gone\<lparr>ps_symbol := (ps_symbol s)(q := srem i (ps_symbol s q))\<rparr>)"

definition redis_clear_positions :: "bool \<Rightarrow> position_store \<Rightarrow> position_store" where
  "redis_clear_positions include_live s =
     (let s = (if include_live then s\<lparr>ps_live := (\<lambda>_. None), ps_ttl := (\<lambda>_. None)\<rparr> else s)
      in s\<lparr>ps_open := (\<lambda>_. []), ps_symbol := (\<lambda>_. [])\<rparr>)"

end
