(* ===== verification/DecimalText.thy ===== *)
theory DecimalText
  imports PositionStore
begin

text \<open>
  Printing decimals and reading them back: \<open>format(x, "f")\<close> (\<open>dec_format_f\<close>) and the
  repository's \<open>_decimal_str\<close> (\<open>decimal_str\<close>) yield texts that parse to the same value.
\<close>

section \<open>Plain decimal texts\<close>

definition digits :: "string \<Rightarrow> bool" where
  "digits t = list_all is_digit t"

definition text_value :: "string \<Rightarrow> nat" where
  "text_value t = digits_value 10 (map char_digit t)"

text \<open>Sign, integer part and, when there is one, the point and the fraction.\<close>

definition plain :: "bool \<Rightarrow> string \<Rightarrow> string \<Rightarrow> string" where
  "plain neg a b = (if neg then ''-'' else []) @ a @ (if b = [] then [] else CHR ''.'' # b)"

lemma digit_plain:
  assumes "is_digit c"
  shows "\<not> is_blank c" "c \<noteq> CHR ''_''" "c \<noteq> CHR ''-''" "c \<noteq> CHR ''+''" "c \<noteq> CHR ''.''"
    "c \<noteq> CHR ''I''" "c \<noteq> CHR ''N''" "c \<noteq> CHR ''S''" "upper_char c = c"
  using assms by (auto simp: is_digit_def is_blank_def upper_char_def Let_def)

lemma signs_plain: "\<not> is_blank (CHR ''-'')" "\<not> is_blank (CHR ''.'')" "\<not> is_digit (CHR ''.'')"
  by (simp_all add: is_blank_def is_digit_def Let_def)

lemma digits_last: "digits t \<Longrightarrow> t \<noteq> [] \<Longrightarrow> is_digit (last t)"
  by (simp add: digits_def list_all_iff)

lemma plain_strip:
  assumes "digits a" and "a \<noteq> []" and "digits b"
  shows "filter (\<lambda>c. c \<noteq> CHR ''_'') (strip (plain neg a b)) = plain neg a b"
proof -
  have "\<not> is_blank (hd (plain neg a b))"
    using assms(1,2) by (cases a) (auto simp: plain_def digits_def signs_plain dest: digit_plain)
  moreover have "\<not> is_blank (last (plain neg a b))"
    using digits_last [OF assms(1,2)] digits_last [OF assms(3)] assms(2)
    by (auto simp: plain_def dest: digit_plain)
  ultimately have "strip (plain neg a b) = plain neg a b" by (intro strip_fix) simp
  moreover have "CHR ''_'' \<notin> set (plain neg a b)"
    using assms(1,3) digit_plain(2) by (auto simp: plain_def digits_def list_all_iff)
  ultimately show ?thesis by (simp add: filter_id_conv) metis
qed

lemma parse_special_digit: "is_digit c \<Longrightarrow> parse_special neg (c # t) = None"
  using digit_plain [of c] by (auto simp: parse_special_def upper_def Let_def)

lemma parse_unsigned_plain:
  assumes "digits a" and "a \<noteq> []" and "digits b"
  shows "parse_unsigned neg (plain False a b) = Some (DFin neg (text_value (a @ b)) (- int (length b)))"
proof -
  have a: "\<And>c. c \<in> set a \<Longrightarrow> is_digit c" and b: "\<And>c. c \<in> set b \<Longrightarrow> is_digit c"
    using assms by (auto simp: digits_def list_all_iff)
  have whole: "takeWhile is_digit a = a" "dropWhile is_digit a = []"
    "takeWhile is_digit b = b" "dropWhile is_digit b = []"
    using a b by (simp_all add: takeWhile_eq_all_conv dropWhile_eq_Nil_conv)
  have split: "takeWhile is_digit (a @ CHR ''.'' # b) = a" "dropWhile is_digit (a @ CHR ''.'' # b) = CHR ''.'' # b"
    using a by (simp_all add: takeWhile_append2 dropWhile_append2 signs_plain)
  show ?thesis
  proof (cases "b = []")
    case True
    with assms(2) show ?thesis
      by (simp add: parse_unsigned_def plain_def text_value_def parse_exponent_def Let_def whole)
  next
    case False
    with assms(2) show ?thesis
      by (simp add: parse_unsigned_def plain_def text_value_def parse_exponent_def Let_def whole split)
  qed
qed

lemma parse_plain:
  assumes "digits a" and "a \<noteq> []" and "digits b"
  shows "decimal_of_string (plain neg a b) = Some (DFin neg (text_value (a @ b)) (- int (length b)))"
proof -
  obtain c t where a: "a = c # t" using assms(2) by (cases a) auto
  then have c: "is_digit c" using assms(1) by (simp add: digits_def)
  have body: "parse_body neg (plain False a b) = Some (DFin neg (text_value (a @ b)) (- int (length b)))" for neg
    using parse_unsigned_plain [OF assms] parse_special_digit [OF c] by (simp add: parse_body_def plain_def a)
  have "plain False a b = c # t @ (if b = [] then [] else CHR ''.'' # b)" by (simp add: plain_def a)
  with body [of False] body [of True] plain_strip [OF assms, of neg] digit_plain(3,4) [OF c] show ?thesis
    by (cases neg) (auto simp: decimal_of_string_def plain_def)
qed

section \<open>Printing\<close>

lemma char_digit_zero [simp]: "char_digit (CHR ''0'') = 0"
  by (simp add: char_digit_def)

lemma digit_zero [simp]: "is_digit (CHR ''0'')"
  by (simp add: is_digit_def)

lemma text_value_snoc [simp]: "text_value (t @ [c]) = text_value t * 10 + char_digit c"
  by (simp add: text_value_def)

lemma text_value_zeros [simp]: "text_value (t @ replicate n (CHR ''0'')) = text_value t * 10 ^ n"
proof (induction n)
  case (Suc n)
  have "t @ replicate (Suc n) (CHR ''0'') = (t @ replicate n (CHR ''0'')) @ [CHR ''0'']"
    by (simp add: replicate_append_same)
  then have "text_value (t @ replicate (Suc n) (CHR ''0'')) = text_value (t @ replicate n (CHR ''0'')) * 10"
    by (simp only: text_value_snoc char_digit_zero add_0_right)
  with Suc show ?case by simp
qed simp

lemma text_value_lead [simp]: "text_value (replicate n (CHR ''0'') @ t) = text_value t"
proof (induction t rule: rev_induct)
  case Nil
  have "text_value ([] @ replicate n (CHR ''0'')) = text_value [] * 10 ^ n" by (rule text_value_zeros)
  then show ?case by (simp add: text_value_def digits_value_def)
next
  case (snoc c t)
  have "replicate n (CHR ''0'') @ t @ [c] = (replicate n (CHR ''0'') @ t) @ [c]" by simp
  with snoc show ?case by (simp only: text_value_snoc)
qed

lemma text_value_show [simp]: "text_value (show_nat n) = n"
proof -
  have "parse_nat (show_nat n) = Some n" by simp
  then show ?thesis by (simp add: parse_nat_def text_value_def split: if_splits)
qed

lemma digits_show [simp]: "digits (show_nat n)"
  by (simp add: digits_def list_all_iff show_nat_digits)

text \<open>The shape of a printed coefficient: where the point goes, nothing is lost.\<close>

lemma format_fixed_shape:
  obtains a b where "format_fixed c e = plain False a b" and "digits a" and "a \<noteq> []" and "digits b"
    and "text_value (a @ b) = (if 0 \<le> e then c * 10 ^ nat e else c)" and "int (length b) = - min e 0"
proof (cases "0 \<le> e")
  case True
  let ?a = "if c = 0 then ''0'' else show_nat c @ replicate (nat e) (CHR ''0'')"
  have "text_value ''0'' = 0" by (simp add: text_value_def)
  then have "text_value (?a @ []) = c * 10 ^ nat e" by simp
  moreover have "digits ?a" "?a \<noteq> []"
    using digits_show [of c] by (auto simp: digits_def list_all_iff)
  ultimately show ?thesis
    using True by (intro that [of ?a "[]"]) (simp_all add: format_fixed_def plain_def digits_def)
next
  case False
  define k where "k = nat (- e)"
  define padded where "padded = replicate (Suc k - length (show_nat c)) (CHR ''0'') @ show_nat c"
  have ds: "(if length (show_nat c) \<le> k then replicate (Suc k - length (show_nat c)) (CHR ''0'') @ show_nat c
      else show_nat c) = padded"
    by (simp add: padded_def)
  have len: "k < length padded" by (simp add: padded_def)
  have pd: "digits padded" using digits_show [of c] by (auto simp: padded_def digits_def list_all_iff)
  let ?a = "take (length padded - k) padded" and ?b = "drop (length padded - k) padded"
  have "digits ?a" "digits ?b" using pd by (auto simp: digits_def list_all_iff dest: in_set_takeD in_set_dropD)
  moreover have "length ?b = k" "?a \<noteq> []" using len by auto
  moreover have "?b \<noteq> []" using len False by (simp add: k_def)
  moreover have "text_value (?a @ ?b) = c" unfolding append_take_drop_id by (simp add: padded_def)
  moreover have "format_fixed c e = ?a @ CHR ''.'' # ?b"
    using False ds by (simp add: format_fixed_def Let_def flip: k_def)
  ultimately show ?thesis using False by (intro that [of ?a ?b]) (simp_all add: plain_def k_def)
qed

lemma plain_neg: "plain True a b = CHR ''-'' # plain False a b"
  by (simp add: plain_def)

lemma format_shape:
  obtains a b where "dec_format_f (DFin neg c e) = plain neg a b" and "digits a" and "a \<noteq> []" and "digits b"
    and "text_value (a @ b) = (if 0 \<le> e then c * 10 ^ nat e else c)" and "int (length b) = - min e 0"
  by (rule format_fixed_shape [of c e]) (auto simp: plain_neg intro: that split: if_splits)

lemma parse_format: "decimal_of_string (dec_format_f (DFin neg c e)) =
    Some (DFin neg (if 0 \<le> e then c * 10 ^ nat e else c) (min e 0))"
proof -
  obtain a b where ab: "dec_format_f (DFin neg c e) = plain neg a b" "digits a" "a \<noteq> []" "digits b"
    "text_value (a @ b) = (if 0 \<le> e then c * 10 ^ nat e else c)" "int (length b) = - min e 0"
    by (rule format_shape)
  from parse_plain [OF ab(2-4), of neg] show ?thesis unfolding ab(1,5,6) by simp
qed

lemma power_int_nat: "0 \<le> e \<Longrightarrow> power_int (10::rat) e = 10 ^ nat e"
  by (simp add: power_int_def)

lemma format_round_trip:
  assumes "dec_finite d"
  obtains d' where "decimal_of_string (dec_format_f d) = Some d'" and "dec_finite d'" and "dval d' = dval d"
    and "dec_neg d' = dec_neg d"
proof -
  obtain neg c e where d: "d = DFin neg c e" using assms by (cases d) auto
  have "dval (DFin neg (if 0 \<le> e then c * 10 ^ nat e else c) (min e 0)) = dval d"
    by (simp add: d dval_fin_def power_int_nat min_def)
  then show ?thesis using that parse_format [of neg c e] d by simp
qed

section \<open>Stripping zeros\<close>

lemma rstrip_split: "\<exists>n. t = rstrip_char c t @ replicate n c"
proof -
  have "rev t = takeWhile (\<lambda>x. x = c) (rev t) @ dropWhile (\<lambda>x. x = c) (rev t)" by simp
  then have "t = rev (dropWhile (\<lambda>x. x = c) (rev t)) @ rev (takeWhile (\<lambda>x. x = c) (rev t))"
    by (metis rev_append rev_rev_ident)
  moreover have "takeWhile (\<lambda>x. x = c) u = replicate (length (takeWhile (\<lambda>x. x = c) u)) c" for u
    by (induction u) auto
  ultimately show ?thesis unfolding rstrip_char_def by (metis rev_replicate)
qed

lemma rstrip_last: "t = [] \<or> last t \<noteq> c \<Longrightarrow> rstrip_char c t = t"
  by (cases t rule: rev_cases) (simp_all add: rstrip_char_def)

lemma rstrip_end: "rstrip_char c t = [] \<or> last (rstrip_char c t) \<noteq> c"
proof (cases "rstrip_char c t = []")
  case False
  then have "dropWhile (\<lambda>x. x = c) (rev t) \<noteq> []" by (simp add: rstrip_char_def)
  from hd_dropWhile [OF this] show ?thesis by (simp add: rstrip_char_def last_rev)
qed simp

lemma rstrip_append: "rstrip_char c (s @ t) = (if rstrip_char c t = [] then rstrip_char c s else s @ rstrip_char c t)"
proof -
  have "dropWhile (\<lambda>x. x = c) (rev t @ rev s) =
      (if dropWhile (\<lambda>x. x = c) (rev t) = [] then dropWhile (\<lambda>x. x = c) (rev s)
       else dropWhile (\<lambda>x. x = c) (rev t) @ rev s)"
    by (simp add: dropWhile_append)
  then show ?thesis by (simp add: rstrip_char_def)
qed

lemma decimal_str_parse:
  obtains c' e' where "decimal_of_string (decimal_str (DFin neg c e)) = Some (DFin neg c' e')"
    and "dval_fin neg c' e' = dval_fin neg c e"
proof -
  obtain a b where ab: "dec_format_f (DFin neg c e) = plain neg a b" "digits a" "a \<noteq> []" "digits b"
    "text_value (a @ b) = (if 0 \<le> e then c * 10 ^ nat e else c)" "int (length b) = - min e 0"
    by (rule format_shape)
  let ?b = "rstrip_char (CHR ''0'') b"
  obtain n where n: "b = ?b @ replicate n (CHR ''0'')" using rstrip_split by metis
  then have db: "digits ?b" using ab(4) by (metis digits_def list_all_append)
  have no_point: "CHR ''.'' \<notin> set a" "CHR ''.'' \<notin> set b"
    using ab(2,4) digit_plain(5) by (auto simp: digits_def list_all_iff)
  have a_end: "rstrip_char (CHR ''.'') ((if neg then ''-'' else []) @ a) = (if neg then ''-'' else []) @ a"
    using ab(3) digits_last [OF ab(2,3)] digit_plain(5) by (intro rstrip_last) auto
  have b_end: "rstrip_char (CHR ''.'') ?b = ?b"
    using db digits_last digit_plain(5) by (intro rstrip_last) auto
  have "decimal_str (DFin neg c e) = plain neg a ?b"
  proof (cases "b = []")
    case True
    then have "?b = []" by (simp add: rstrip_char_def)
    with True no_point ab(1) show ?thesis by (auto simp: decimal_str_def plain_def Let_def)
  next
    case False
    have zeros: "rstrip_char (CHR ''0'') (CHR ''.'' # b) = CHR ''.'' # ?b"
      using rstrip_append [of "CHR ''0''" "''.''" b] by (auto simp: rstrip_char_def)
    have "rstrip_char (CHR ''0'') (plain neg a b) = ((if neg then ''-'' else []) @ a) @ CHR ''.'' # ?b"
      using False zeros rstrip_append [of "CHR ''0''" "(if neg then ''-'' else []) @ a" "CHR ''.'' # b"]
      by (simp add: plain_def)
    moreover have "rstrip_char (CHR ''.'') (((if neg then ''-'' else []) @ a) @ CHR ''.'' # ?b) = plain neg a ?b"
    proof (cases "?b = []")
      case True
      have "rstrip_char (CHR ''.'') ''.'' = []" by (simp add: rstrip_char_def)
      with True a_end show ?thesis
        using rstrip_append [of "CHR ''.''" "(if neg then ''-'' else []) @ a" "''.''"] by (simp add: plain_def)
    next
      case F: False
      have "last (((if neg then ''-'' else []) @ a) @ CHR ''.'' # ?b) \<noteq> CHR ''.''"
        using F digits_last [OF db F] digit_plain(5) by auto
      then show ?thesis using F by (subst rstrip_last) (auto simp: plain_def)
    qed
    ultimately show ?thesis using False ab(1) by (simp add: decimal_str_def Let_def plain_def)
  qed
  then have parsed: "decimal_of_string (decimal_str (DFin neg c e)) =
      Some (DFin neg (text_value (a @ ?b)) (- int (length ?b)))"
    using parse_plain [OF ab(2,3) db] by simp
  have val: "text_value (a @ b) = text_value (a @ ?b) * 10 ^ n"
    using text_value_zeros [of "a @ ?b" n] n by (metis append.assoc)
  have len: "length b = length ?b + n" using n by (metis length_append length_replicate)
  have "rat_of_nat (text_value (a @ ?b)) * power_int 10 (- int (length ?b)) =
      rat_of_nat (text_value (a @ b)) * power_int 10 (- int (length b))"
  proof -
    have "power_int (10::rat) (- int (length b)) * 10 ^ n = power_int 10 (- int (length ?b))"
      using power_int_add [of "10::rat" "- int (length b)" "int n"] by (simp add: len power_int_nat)
    then show ?thesis by (simp add: val mult.commute [of _ "10 ^ n"])
  qed
  also have "\<dots> = rat_of_nat c * power_int 10 e"
    using ab(5,6) by (auto simp: power_int_nat min_def split: if_splits)
  finally have "dval_fin neg (text_value (a @ ?b)) (- int (length ?b)) = dval_fin neg c e"
    by (simp add: dval_fin_def)
  with parsed that show ?thesis by blast
qed

end
