(* ===== verification/PositionService.thy ===== *)
theory PositionService
  imports DecimalText Exchange
begin

text \<open>
  \<open>services/position_state_service.py\<close> and \<open>workers/position_reconciliation_worker.py\<close>:
  the snapshots an exchange reports are written to the table and the outbox in one transaction and
  then projected to Redis; a failing projection is ignored.  The snapshots of an event stream are
  \<open>schemas/position_update_event.py\<close>.
\<close>

section \<open>Snapshots\<close>

record normalized_snapshot =
  np_exchange :: exchange
  np_market_type :: market_type
  np_symbol :: string
  np_position_side :: position_side
  np_status :: position_status
  np_position_amt :: string
  np_entry_price :: "string option"
  np_break_even_price :: "string option"
  np_mark_price :: "string option"
  np_unrealized_pnl :: "string option"
  np_isolated_margin :: "string option"
  np_isolated_wallet :: "string option"
  np_margin_type :: "string option"
  np_leverage :: "int option"
  np_liquidation_price :: "string option"
  np_notional :: "string option"
  np_update_reason :: "string option"
  np_event_time :: int
  np_transaction_time :: "int option"

definition to_position :: "normalized_snapshot \<Rightarrow> exn + position" where
  "to_position sn = validate_position
     \<lparr>p_position_id = make_position_id (np_exchange sn) (np_market_type sn) (np_symbol sn) (np_position_side sn),
      p_exchange = np_exchange sn, p_market_type = np_market_type sn, p_symbol = upper (np_symbol sn),
      p_position_side = np_position_side sn, p_status = np_status sn, p_position_amt = np_position_amt sn,
      p_entry_price = np_entry_price sn, p_break_even_price = np_break_even_price sn,
      p_mark_price = np_mark_price sn, p_unrealized_pnl = np_unrealized_pnl sn,
      p_isolated_margin = np_isolated_margin sn, p_isolated_wallet = np_isolated_wallet sn,
      p_margin_type = np_margin_type sn, p_leverage = np_leverage sn,
      p_liquidation_price = np_liquidation_price sn, p_notional = np_notional sn,
      p_update_reason = np_update_reason sn, p_last_event_time = Some (np_event_time sn),
      p_last_transaction_time = np_transaction_time sn, p_opened_ts = None, p_closed_ts = None,
      p_updated_ts = or_int (np_transaction_time sn) (np_event_time sn), p_version = 1\<rparr>"

definition position_status_from_amt :: "string \<Rightarrow> exn + position_status" where
  "position_status_from_amt amt =
     (case decimal_of_string amt of
        None \<Rightarrow> Inl InvalidOperation
      | Some d \<Rightarrow> (case dec_eq_zero d of
          None \<Rightarrow> Inl InvalidOperation
        | Some zero \<Rightarrow> Inr (if zero then PS_FLAT else PS_OPEN)))"

definition parse_position_from_exchange_snapshot :: "position_snapshot \<Rightarrow> int \<Rightarrow> exn + position" where
  "parse_position_from_exchange_snapshot sn event_time =
     (let updated_ts = or_int (xp_updated_ts sn) event_time in
      sum_bind (position_status_from_amt (xp_position_amt sn)) (\<lambda>st. validate_position
        \<lparr>p_position_id = [], p_exchange = xp_exchange sn, p_market_type = xp_market_type sn,
         p_symbol = xp_symbol sn, p_position_side = xp_position_side sn, p_status = st,
         p_position_amt = xp_position_amt sn, p_entry_price = xp_entry_price sn,
         p_break_even_price = xp_break_even_price sn, p_mark_price = xp_mark_price sn,
         p_unrealized_pnl = xp_unrealized_pnl sn, p_isolated_margin = xp_isolated_margin sn,
         p_isolated_wallet = xp_isolated_wallet sn, p_margin_type = xp_margin_type sn,
         p_leverage = xp_leverage sn, p_liquidation_price = xp_liquidation_price sn,
         p_notional = xp_notional sn, p_update_reason = Some ''POSITION_SNAPSHOT_REFRESH'',
         p_last_event_time = Some updated_ts, p_last_transaction_time = Some updated_ts,
         p_opened_ts = None, p_closed_ts = None, p_updated_ts = updated_ts, p_version = 1\<rparr>))"

section \<open>The service\<close>

definition event_insert :: "string \<Rightarrow> position \<Rightarrow> unit psprog" where
  "event_insert event_type p = modify (\<lambda>s. s\<lparr>ps_outbox := ps_outbox s @
     [\<lparr>pe_aggregate_id = p_position_id p, pe_event_type = event_type, pe_position = p,
       pe_created_ts = p_updated_ts p\<rparr>]\<rparr>)"

definition persist_transaction :: "position \<Rightarrow> string \<Rightarrow> position psprog" where
  "persist_transaction p event_type =
     ps_transaction (andThen (repo_upsert p) (\<lambda>persisted.
       andThen (event_insert event_type persisted) (\<lambda>_. ret persisted)))"

definition try_save :: "position \<Rightarrow> unit psprog" where
  "try_save p = catch (save_position p) (\<lambda>_. ret ())"

definition persist_position :: "position \<Rightarrow> string \<Rightarrow> position psprog" where
  "persist_position p event_type =
     andThen (persist_transaction p event_type) (\<lambda>persisted.
     andThen (try_save persisted) (\<lambda>_. ret persisted))"

text \<open>A snapshot that cannot be applied ends a refresh; an event stream goes on with the next one.\<close>

definition refresh_one :: "int \<Rightarrow> position_snapshot \<Rightarrow> position list \<Rightarrow> position list psprog" where
  "refresh_one now sn acc =
     andThen (liftSum (parse_position_from_exchange_snapshot sn now)) (\<lambda>p.
     andThen (persist_position p ''POSITION_SNAPSHOT_REFRESHED'') (\<lambda>persisted. ret (acc @ [persisted])))"

definition refresh_position_snapshots :: "position_snapshot list \<Rightarrow> int option \<Rightarrow> position list psprog" where
  "refresh_position_snapshots snapshots event_time =
     andThen (case event_time of Some t \<Rightarrow> if t \<noteq> 0 then ret t else ps_now | None \<Rightarrow> ps_now) (\<lambda>now.
     foldE (refresh_one now) snapshots [])"

definition apply_one :: "string \<Rightarrow> normalized_snapshot \<Rightarrow> position list \<Rightarrow> position list psprog" where
  "apply_one event_type sn acc =
     catch (andThen (liftSum (to_position sn)) (\<lambda>p.
            andThen (persist_position p event_type) (\<lambda>persisted. ret (acc @ [persisted]))))
       (\<lambda>_. ret acc)"

definition apply_position_snapshots :: "normalized_snapshot list \<Rightarrow> string \<Rightarrow> position list psprog" where
  "apply_position_snapshots snapshots event_type = foldE (apply_one event_type) snapshots []"

definition ps_read :: "(position_store \<Rightarrow> 'a) \<Rightarrow> 'a psprog" where
  "ps_read f = ps_transaction (gets f)"

definition load_position :: "string \<Rightarrow> bool \<Rightarrow> position option psprog" where
  "load_position i refresh_projection =
     andThen (ps_read (repo_get i)) (\<lambda>found. case found of
       None \<Rightarrow> ret None
     | Some row \<Rightarrow>
         andThen (liftSum (position_of_row row)) (\<lambda>p.
         andThen (if refresh_projection then try_save p else ret ()) (\<lambda>_. ret (Some p))))"

definition load_open_positions :: "position list psprog" where
  "load_open_positions =
     andThen (ps_read repo_list_open) (\<lambda>rows. liftSum (collect_sum (map position_of_row rows)))"

section \<open>The reconciliation worker\<close>

text \<open>Programs on both stores.\<close>

type_synonym 'a xprog = "(world \<times> position_store, exn, 'a) prog"

definition on_gateway :: "'a wprog \<Rightarrow> 'a xprog" where
  "on_gateway m = (\<lambda>(w, ps). case m w of (r, w') \<Rightarrow> (r, (w', ps)))"

definition on_positions :: "'a psprog \<Rightarrow> 'a xprog" where
  "on_positions m = (\<lambda>(w, ps). case m ps of (r, ps') \<Rightarrow> (r, (w, ps')))"

definition refresh_from :: "client \<Rightarrow> string option \<Rightarrow> nat xprog" where
  "refresh_from c symb =
     andThen (on_gateway (c_get_positions c symb)) (\<lambda>snapshots.
     andThen (on_positions (refresh_position_snapshots snapshots None)) (\<lambda>updated. ret (length updated)))"

definition reconcile_market :: "gateway_env \<Rightarrow> string list \<Rightarrow> exchange \<times> market_type \<Rightarrow> nat \<Rightarrow> nat xprog" where
  "reconcile_market env active_symbols key count =
     andThen (on_gateway (client_for_market env (fst key) (snd key))) (\<lambda>c.
       if \<not> c_supports_position_snapshot c then ret count
       else if active_symbols = [] then andThen (refresh_from c None) (\<lambda>n. ret (count + n))
       else foldE (\<lambda>symb count. andThen (refresh_from c (Some symb)) (\<lambda>n. ret (count + n))) active_symbols count)"

definition positions_reconcile_once :: "gateway_env \<Rightarrow> (exchange \<times> market_type) list \<Rightarrow> string list \<Rightarrow> nat xprog" where
  "positions_reconcile_once env markets active_symbols =
     foldE (reconcile_market env active_symbols) markets 0"

section \<open>The table and its log\<close>

definition position_events :: "string \<Rightarrow> position_store \<Rightarrow> position list" where
  "position_events i s = map pe_position (filter (\<lambda>e. pe_aggregate_id e = i) (ps_outbox s))"

text \<open>A row of the table: its id, a status that fits the amount, and the opening and closing times that
  fit the status.\<close>

definition position_row_ok :: "string \<Rightarrow> position_row \<Rightarrow> bool" where
  "position_row_ok i row \<longleftrightarrow>
     i = make_position_id (p_exchange row) (p_market_type row) (p_symbol row) (p_position_side row) \<and>
     p_position_id row = i \<and> pg_numeric (p_position_amt row) = p_position_amt row \<and> upper (p_symbol row) = p_symbol row \<and> 1 \<le> p_version row \<and>
     (p_status row = PS_OPEN) = (\<not> numeric_zero (p_position_amt row)) \<and>
     (numeric_zero (p_position_amt row) \<or> p_opened_ts row \<noteq> None) \<and>
     p_closed_ts row = (if numeric_zero (p_position_amt row) then Some (p_updated_ts row) else None)"

definition pos_entry_ok :: "position_store \<Rightarrow> string \<Rightarrow> bool" where
  "pos_entry_ok s i \<longleftrightarrow>
     (case ps_rows s i of
        None \<Rightarrow> position_events i s = []
      | Some row \<Rightarrow> position_row_ok i row \<and> position_events i s \<noteq> [] \<and>
          position_of_row row = Inr (last (position_events i s)) \<and>
          p_version row \<le> int (length (position_events i s)))"

definition pos_inv :: "position_store \<Rightarrow> bool" where
  "pos_inv s \<longleftrightarrow> set (ps_keys s) = dom (ps_rows s) \<and> distinct (ps_keys s) \<and> (\<forall>i. pos_entry_ok s i)"

text \<open>Between two states: rows stay, and a newer version never carries an older event time.\<close>

definition newer_event :: "int option \<Rightarrow> int option \<Rightarrow> bool" where
  "newer_event old new \<longleftrightarrow> (case (old, new) of (Some t, Some u) \<Rightarrow> t \<le> u | _ \<Rightarrow> True)"

definition pos_evolves :: "position_store \<Rightarrow> position_store \<Rightarrow> bool" where
  "pos_evolves s t \<longleftrightarrow>
     (\<forall>i row. ps_rows s i = Some row \<longrightarrow> (\<exists>row'. ps_rows t i = Some row' \<and>
        p_version row \<le> p_version row' \<and> (p_version row' = p_version row \<longrightarrow> row' = row))) \<and>
     (\<exists>es. ps_outbox t = ps_outbox s @ es)"

lemma pos_evolves_refl: "pos_evolves s s"
  by (simp add: pos_evolves_def)

lemma pos_evolves_trans:
  assumes "pos_evolves s t" and "pos_evolves t u"
  shows "pos_evolves s u"
proof -
  have "\<exists>row'. ps_rows u i = Some row' \<and> p_version row \<le> p_version row' \<and> (p_version row' = p_version row \<longrightarrow> row' = row)"
    if row: "ps_rows s i = Some row" for i row
  proof -
    obtain r1 where r1: "ps_rows t i = Some r1" "p_version row \<le> p_version r1" "p_version r1 = p_version row \<longrightarrow> r1 = row"
      using assms(1) row unfolding pos_evolves_def by blast
    obtain r2 where "ps_rows u i = Some r2" "p_version r1 \<le> p_version r2" "p_version r2 = p_version r1 \<longrightarrow> r2 = r1"
      using assms(2) r1(1) unfolding pos_evolves_def by blast
    with r1 show ?thesis by auto
  qed
  moreover have "\<exists>es. ps_outbox u = ps_outbox s @ es" using assms unfolding pos_evolves_def by (metis append.assoc)
  ultimately show ?thesis by (simp add: pos_evolves_def)
qed

interpretation pos: guarded_evolution pos_inv pos_evolves
  by unfold_locales (auto simp: pos_evolves_refl intro: pos_evolves_trans)

text \<open>Steps that leave the tables alone.\<close>

definition same_positions :: "position_store \<Rightarrow> position_store \<Rightarrow> bool" where
  "same_positions s t \<longleftrightarrow> ps_rows t = ps_rows s \<and> ps_keys t = ps_keys s \<and> ps_outbox t = ps_outbox s"

lemma same_positions_keeps:
  assumes "same_positions s t"
  shows "pos_inv t = pos_inv s" and "pos_evolves s t" and "position_events i t = position_events i s"
    and "pos_evolves u t = pos_evolves u s"
proof -
  show "position_events i t = position_events i s" for i
    using assms by (simp add: same_positions_def position_events_def)
  then have "pos_entry_ok t i = pos_entry_ok s i" for i
    using assms by (cases "ps_rows s i") (simp_all add: same_positions_def pos_entry_ok_def)
  then show "pos_inv t = pos_inv s" using assms by (simp add: same_positions_def pos_inv_def)
  show "pos_evolves s t" "pos_evolves u t = pos_evolves u s"
    using assms by (simp_all add: same_positions_def pos_evolves_def)
qed

lemma silent_safe:
  assumes "\<And>s. same_positions s (snd (m s))"
  shows "safe pos_inv pos_evolves P m (\<lambda>_ _. True)"
proof (rule safeI)
  fix s r t assume "pos_inv s" "m s = (r, t)"
  then show "pos_inv t \<and> pos_evolves s t \<and> (\<forall>x. r = Inr x \<longrightarrow> True)"
    using assms [of s] same_positions_keeps by auto
qed

lemma try_save_same: "same_positions s (snd (try_save p s))"
  by (auto simp: try_save_def save_position_def ps_redis_def position_pipeline_def same_positions_def prog_simps Let_def
      split: sum.split)

lemma ps_now_same: "same_positions s (snd (ps_now s))"
  by (simp add: ps_now_def same_positions_def)

lemma ps_read_same: "same_positions s (snd (ps_read f s))"
  by (simp add: ps_read_def ps_transaction_def prog_simps same_positions_def Let_def)

section \<open>Validated rows\<close>

lemma position_status_exhaust: "(st = PS_OPEN) = (st \<noteq> PS_FLAT)"
  by (cases st) simp_all

text \<open>What a decimal printed by \<open>_decimal_str\<close> is when it is read again: zero or not as before.\<close>

lemma pg_numeric_idem [simp]: "pg_numeric (pg_numeric d) = pg_numeric d"
  by (cases d) auto

lemma infer_decimal_str: "\<exists>st. infer_position_status (decimal_str (pg_numeric d)) = Inr st \<and>
    (st = PS_OPEN) = (\<not> numeric_zero (pg_numeric d))"
proof (cases d)
  case (DFin neg c e)
  define n where "n = (neg \<and> c \<noteq> 0)"
  define c0 where "c0 = (if 0 \<le> e then c * 10 ^ nat e else c)"
  obtain c' e' where ce: "decimal_of_string (decimal_str (DFin n c0 (min e 0))) = Some (DFin n c' e')"
    "dval_fin n c' e' = dval_fin n c0 (min e 0)" by (rule decimal_str_parse)
  then have "(c' = 0) = (c0 = 0)" by (auto simp: dval_fin_def split: if_splits)
  with ce(1) show ?thesis
    by (simp add: DFin infer_position_status_def flip: n_def c0_def) (simp add: n_def c0_def)
next
  case (DInf neg)
  have "decimal_of_string ''Infinity'' = Some (DInf False)" "decimal_of_string ''-Infinity'' = Some (DInf True)"
    by code_simp+
  with DInf show ?thesis by (simp add: decimal_str_def infer_position_status_def Let_def)
next
  case (DNaN signalling)
  have "decimal_of_string ''NaN'' = Some (DNaN False)" by code_simp
  with DNaN show ?thesis by (simp add: decimal_str_def infer_position_status_def Let_def)
qed

text \<open>The row of a validated position.\<close>

lemma validate_position_shape:
  assumes "validate_position p = Inr q"
  shows "p_position_id q = make_position_id (p_exchange q) (p_market_type q) (p_symbol q) (p_position_side q)"
    and "upper (p_symbol q) = p_symbol q" and "infer_position_status (p_position_amt q) = Inr (p_status q)"
  using assms by (auto simp: validate_position_def Let_def sum_bind_Inr_iff split: if_splits)

definition valid_position :: "position \<Rightarrow> bool" where
  "valid_position p \<longleftrightarrow>
     p_position_id p = make_position_id (p_exchange p) (p_market_type p) (p_symbol p) (p_position_side p) \<and>
     upper (p_symbol p) = p_symbol p \<and> infer_position_status (p_position_amt p) = Inr (p_status p)"

lemma validated: "validate_position p = Inr q \<Longrightarrow> valid_position q"
  using validate_position_shape by (simp add: valid_position_def)

lemma insert_values_ok:
  assumes "upsert_insert_values p = Inr new" and "valid_position p"
  shows "position_row_ok (p_position_id p) new" and "p_version new = 1"
proof -
  obtain d zero where d: "decimal_of_string (p_position_amt p) = Some d" "dec_eq_zero d = Some zero"
    and new: "new = (map_numeric (\<lambda>t. pg_numeric (parse_dec t)) p)
        \<lparr>p_symbol := upper (p_symbol p), p_opened_ts := (if zero then None else Some (p_updated_ts p)),
         p_closed_ts := (if zero then Some (p_updated_ts p) else None), p_version := 1\<rparr>"
    using assms(1) by (auto simp: upsert_insert_values_def split: option.splits if_splits)
  have amt: "p_position_amt new = pg_numeric d" using d(1) by (simp add: new parse_dec_def)
  have "numeric_zero (pg_numeric d) = zero" using d(2) by (cases d) (auto split: if_splits)
  moreover have "p_status p = (if zero then PS_FLAT else PS_OPEN)"
    using assms(2) d by (simp add: valid_position_def infer_position_status_def)
  ultimately show "position_row_ok (p_position_id p) new" "p_version new = 1"
    using assms(2) by (auto simp: position_row_ok_def valid_position_def amt) (simp_all add: new)
qed

lemma upsert_row_ok:
  assumes "position_row_ok i row" and "position_row_ok i new"
  shows "position_row_ok i (upsert_row new row)"
  using assms by (auto simp: position_row_ok_def upsert_row_def)

lemma position_of_row_ok:
  assumes "position_row_ok i row"
  obtains q where "position_of_row row = Inr q" and "valid_position q" and "p_position_id q = i"
    and "p_version q = p_version row" and "p_status q = p_status row"
proof -
  obtain st where st: "infer_position_status (decimal_str (p_position_amt row)) = Inr st"
    "(st = PS_OPEN) = (\<not> numeric_zero (p_position_amt row))"
    using infer_decimal_str [of "p_position_amt row"] assms by (auto simp: position_row_ok_def)
  then have "st = p_status row"
    using assms by (cases st; cases "p_status row") (auto simp: position_row_ok_def)
  moreover have "\<exists>q. position_of_row row = Inr q \<and> p_position_id q = i \<and> p_version q = p_version row \<and> p_status q = st"
    using assms st(1) by (simp add: position_of_row_def validate_position_def position_row_ok_def Let_def)
  ultimately show ?thesis using that validated by (auto simp: position_of_row_def)
qed

section \<open>Persisting\<close>

text \<open>What a committed upsert makes of the tables.\<close>

definition stored_row :: "position_row \<Rightarrow> position_row option \<Rightarrow> position_row" where
  "stored_row new found =
     (case found of
        None \<Rightarrow> new
      | Some row \<Rightarrow> if upsert_guard new row then upsert_row new row else row)"

lemma put_row_same: "pos_inv s \<Longrightarrow> ps_rows s i = Some row \<Longrightarrow> put_row i row s = s"
  by (auto simp: put_row_def pos_inv_def fun_upd_idem)

lemma repo_upsert_run:
  assumes "pos_inv s"
  shows "repo_upsert p s =
     (case upsert_insert_values p of
        Inl e \<Rightarrow> (Inl e, s)
      | Inr new \<Rightarrow>
          (position_of_row (stored_row new (ps_rows s (p_position_id p))),
           put_row (p_position_id p) (stored_row new (ps_rows s (p_position_id p))) s))"
  using put_row_same [OF assms]
  by (auto simp: repo_upsert_def prog_simps stored_row_def split: sum.split option.split)

text \<open>The store after a committed transaction.\<close>

definition persisted_store :: "position \<Rightarrow> string \<Rightarrow> position_row \<Rightarrow> position \<Rightarrow> position_store \<Rightarrow> position_store" where
  "persisted_store p event_type row q s =
     (put_row (p_position_id p) row s)\<lparr>ps_pg_calls := Suc (ps_pg_calls s),
       ps_outbox := ps_outbox s @ [\<lparr>pe_aggregate_id = p_position_id q, pe_event_type = event_type,
         pe_position = q, pe_created_ts = p_updated_ts q\<rparr>]\<rparr>"

lemma stored_row_ok:
  assumes "pos_inv s" and "upsert_insert_values p = Inr new" and "valid_position p"
  shows "position_row_ok (p_position_id p) (stored_row new (ps_rows s (p_position_id p)))"
proof (cases "ps_rows s (p_position_id p)")
  case None
  then show ?thesis using insert_values_ok [OF assms(2,3)] by (simp add: stored_row_def)
next
  case (Some row)
  have "pos_entry_ok s (p_position_id p)" using assms(1) by (simp add: pos_inv_def)
  with Some have "position_row_ok (p_position_id p) row" by (simp add: pos_entry_ok_def)
  with Some show ?thesis
    using insert_values_ok(1) [OF assms(2,3)] upsert_row_ok by (simp add: stored_row_def)
qed

lemma persist_transaction_up:
  assumes inv: "pos_inv s" and up: "ps_pg_ok s (ps_pg_calls s)" and new: "upsert_insert_values p = Inr new"
    and valid: "valid_position p"
  obtains q where "persist_transaction p event_type s =
      (Inr q, persisted_store p event_type (stored_row new (ps_rows s (p_position_id p))) q s)"
    and "position_of_row (stored_row new (ps_rows s (p_position_id p))) = Inr q" and "p_position_id q = p_position_id p"
proof -
  let ?s = "s\<lparr>ps_pg_calls := Suc (ps_pg_calls s)\<rparr>"
  have "same_positions s ?s" by (simp add: same_positions_def)
  from same_positions_keeps(1) [OF this] inv have inv': "pos_inv ?s" by simp
  obtain q where q: "position_of_row (stored_row new (ps_rows s (p_position_id p))) = Inr q" "p_position_id q = p_position_id p"
    using position_of_row_ok [OF stored_row_ok [OF inv new valid]] by metis
  have "persist_transaction p event_type s =
      (Inr q, persisted_store p event_type (stored_row new (ps_rows s (p_position_id p))) q s)"
    using up new q repo_upsert_run [OF inv', of p]
    by (auto simp: persist_transaction_def ps_transaction_def prog_simps Let_def event_insert_def persisted_store_def put_row_def)
  with q that show ?thesis by blast
qed

lemma persist_transaction_run:
  assumes inv: "pos_inv s" and valid: "valid_position p" and run: "persist_transaction p event_type s = (r, t)"
  obtains (failed) e where "r = Inl e" and "same_positions s t"
  | (stored) new q where "upsert_insert_values p = Inr new" and "r = Inr q"
      and "position_of_row (stored_row new (ps_rows s (p_position_id p))) = Inr q" and "p_position_id q = p_position_id p"
      and "t = persisted_store p event_type (stored_row new (ps_rows s (p_position_id p))) q s"
proof (cases "ps_pg_ok s (ps_pg_calls s)")
  case False
  then have "r = Inl (OtherError ''postgres'')" "same_positions s t"
    using run by (auto simp: persist_transaction_def ps_transaction_def same_positions_def Let_def)
  then show ?thesis by (rule failed)
next
  case True
  let ?s = "s\<lparr>ps_pg_calls := Suc (ps_pg_calls s)\<rparr>"
  have "same_positions s ?s" by (simp add: same_positions_def)
  from same_positions_keeps(1) [OF this] inv have inv': "pos_inv ?s" by simp
  show ?thesis
  proof (cases "upsert_insert_values p")
    case (Inl e)
    then have "r = Inl e" "same_positions s t"
      using run True repo_upsert_run [OF inv', of p]
      by (auto simp: persist_transaction_def ps_transaction_def prog_simps same_positions_def Let_def)
    then show ?thesis by (rule failed)
  next
    case (Inr new)
    from persist_transaction_up [OF inv True Inr valid, of event_type] obtain q where
      "persist_transaction p event_type s =
        (Inr q, persisted_store p event_type (stored_row new (ps_rows s (p_position_id p))) q s)"
      "position_of_row (stored_row new (ps_rows s (p_position_id p))) = Inr q" "p_position_id q = p_position_id p" .
    with run Inr show ?thesis by (intro stored [of new q]) simp_all
  qed
qed

lemma persisted_store_keeps:
  assumes inv: "pos_inv s" and new: "upsert_insert_values p = Inr new" and valid: "valid_position p"
    and q: "position_of_row (stored_row new (ps_rows s (p_position_id p))) = Inr q" "p_position_id q = p_position_id p"
  shows "pos_inv (persisted_store p ev (stored_row new (ps_rows s (p_position_id p))) q s)"
    and "pos_evolves s (persisted_store p ev (stored_row new (ps_rows s (p_position_id p))) q s)"
proof -
  let ?i = "p_position_id p"
  let ?row = "stored_row new (ps_rows s ?i)"
  let ?t = "persisted_store p ev ?row q s"
  have rows: "ps_rows ?t = (ps_rows s)(?i \<mapsto> ?row)" by (simp add: persisted_store_def put_row_def)
  have events: "position_events j ?t = (if j = ?i then position_events j s @ [q] else position_events j s)" for j
    using q(2) by (simp add: persisted_store_def position_events_def put_row_def)
  have version: "p_version ?row = (case ps_rows s ?i of None \<Rightarrow> 1
      | Some row \<Rightarrow> if upsert_guard new row then p_version row + 1 else p_version row)"
    using insert_values_ok(2) [OF new valid] by (simp add: stored_row_def upsert_row_def split: option.split)
  have len: "case ps_rows s ?i of None \<Rightarrow> True | Some row \<Rightarrow> p_version row \<le> int (length (position_events ?i s))"
    using inv by (auto simp: pos_inv_def pos_entry_ok_def split: option.splits dest!: spec [of _ ?i])
  have "pos_entry_ok ?t j" for j
  proof (cases "j = ?i")
    case True
    have "p_version ?row \<le> int (length (position_events ?i ?t))"
      using version len events [of ?i] by (auto split: option.splits)
    with True show ?thesis
      using stored_row_ok [OF inv new valid] q(1) events [of ?i] rows by (simp add: pos_entry_ok_def)
  next
    case False
    moreover have "pos_entry_ok s j" using inv by (simp add: pos_inv_def)
    ultimately show ?thesis using events [of j] rows
      by (cases "ps_rows s j") (simp_all add: pos_entry_ok_def)
  qed
  moreover have "set (ps_keys ?t) = dom (ps_rows ?t)" "distinct (ps_keys ?t)"
    using inv by (auto simp: persisted_store_def put_row_def pos_inv_def)
  ultimately show "pos_inv ?t" by (simp add: pos_inv_def)
  have "\<exists>row'. ps_rows ?t j = Some row' \<and> p_version r \<le> p_version row' \<and> (p_version row' = p_version r \<longrightarrow> row' = r)"
    if "ps_rows s j = Some r" for j r
  proof (cases "j = ?i")
    case True
    have "p_version r \<le> p_version ?row \<and> (p_version ?row = p_version r \<longrightarrow> ?row = r)"
      using that True by (simp add: stored_row_def upsert_row_def)
    with True rows show ?thesis by simp
  next
    case False
    with that rows show ?thesis by simp
  qed
  moreover have "\<exists>es. ps_outbox ?t = ps_outbox s @ es" by (simp add: persisted_store_def put_row_def)
  ultimately show "pos_evolves s ?t" unfolding pos_evolves_def by blast
qed

lemma persist_transaction_safe:
  assumes "valid_position p"
  shows "safe pos_inv pos_evolves P (persist_transaction p ev) (\<lambda>_ _. True)"
proof (rule safeI)
  fix s r t assume inv: "pos_inv s" and run: "persist_transaction p ev s = (r, t)"
  show "pos_inv t \<and> pos_evolves s t \<and> (\<forall>x. r = Inr x \<longrightarrow> True)"
    by (rule persist_transaction_run [OF inv assms run])
      (use inv same_positions_keeps persisted_store_keeps [OF inv _ assms] in \<open>auto\<close>)
qed

lemma try_save_safe: "safe pos_inv pos_evolves P (try_save p) (\<lambda>_ _. True)"
  by (rule silent_safe) (rule try_save_same)

lemma persist_position_safe:
  assumes "valid_position p"
  shows "safe pos_inv pos_evolves P (persist_position p ev) (\<lambda>_ _. True)"
  unfolding persist_position_def
  by (rule pos.safe_then [OF persist_transaction_safe [OF assms]], rule pos.safe_then [OF try_save_safe])
    (simp add: pos.safe_ret)

lemma lift_valid_safe:
  assumes "\<And>p. valid_position p \<Longrightarrow> safe pos_inv pos_evolves (\<lambda>_. True) (f p) (\<lambda>_ _. True)"
    and "\<And>q. r = Inr q \<Longrightarrow> valid_position q"
  shows "safe pos_inv pos_evolves P (andThen (liftSum r) f) (\<lambda>_ _. True)"
proof (cases r)
  case (Inl e)
  then have "andThen (liftSum r) f = throw e" by (simp add: fun_eq_iff prog_simps)
  then show ?thesis by (simp add: pos.safe_throw)
next
  case (Inr q)
  then have "andThen (liftSum r) f = f q" by (simp add: fun_eq_iff prog_simps)
  then show ?thesis using safe_weak [OF assms(1)] assms(2) [OF Inr] by simp
qed

lemma parsed_valid: "parse_position_from_exchange_snapshot sn now = Inr p \<Longrightarrow> valid_position p"
  by (auto simp: parse_position_from_exchange_snapshot_def Let_def sum_bind_Inr_iff dest: validated)

lemma to_position_valid: "to_position sn = Inr p \<Longrightarrow> valid_position p"
  unfolding to_position_def by (rule validated)

lemma positions_fold:
  assumes "\<And>x acc. safe pos_inv pos_evolves (\<lambda>_. True) (f x acc) (\<lambda>_ _. True)"
  shows "safe pos_inv pos_evolves P (foldE f xs acc) (\<lambda>_ _. True)"
proof -
  have "safe pos_inv pos_evolves (\<lambda>_. True \<and> True) (foldE f xs acc) (\<lambda>_ _. True)"
    by (rule pos.safe_foldE) (simp_all add: assms)
  then have "safe pos_inv pos_evolves (\<lambda>_. True) (foldE f xs acc) (\<lambda>_ _. True)" by simp
  then show ?thesis by (rule safe_weak)
qed

lemma refresh_position_snapshots_safe:
  "safe pos_inv pos_evolves P (refresh_position_snapshots sns event_time) (\<lambda>_ _. True)"
proof -
  have one: "safe pos_inv pos_evolves (\<lambda>_. True) (refresh_one now sn acc) (\<lambda>_ _. True)" for now sn acc
    unfolding refresh_one_def
    by (rule lift_valid_safe) (auto intro!: pos.safe_then [OF persist_position_safe] pos.safe_ret dest: parsed_valid)
  have now: "safe pos_inv pos_evolves P ps_now (\<lambda>_ _. True)" for P
    by (rule silent_safe) (rule ps_now_same)
  have "safe pos_inv pos_evolves P (case event_time of Some t \<Rightarrow> if t \<noteq> 0 then ret t else ps_now | None \<Rightarrow> ps_now) (\<lambda>_ _. True)"
    by (cases event_time) (simp_all add: now pos.safe_ret)
  then show ?thesis
    unfolding refresh_position_snapshots_def by (rule pos.safe_then) (rule positions_fold, rule one)
qed

lemma apply_position_snapshots_safe:
  "safe pos_inv pos_evolves P (apply_position_snapshots sns ev) (\<lambda>_ _. True)"
proof -
  have inner: "safe pos_inv pos_evolves (\<lambda>_. True) (andThen (liftSum (to_position sn)) (\<lambda>p.
      andThen (persist_position p ev) (\<lambda>q. ret (acc @ [q])))) (\<lambda>_ _. True)" for sn acc
    by (rule lift_valid_safe [OF pos.safe_then [OF persist_position_safe] to_position_valid])
      (assumption | rule pos.safe_ret | rule TrueI)+
  have "safe pos_inv pos_evolves (\<lambda>_. True) (apply_one ev sn acc) (\<lambda>_ _. True)" for sn acc
    unfolding apply_one_def by (rule pos.safe_catch [OF inner]) (simp_all add: pos.safe_ret)
  then show ?thesis unfolding apply_position_snapshots_def by (rule positions_fold)
qed

end
