(* ===== verification/DecimalArith.thy ===== *)
theory DecimalArith
  imports OrderModel
begin

text \<open>
  More of Python's \<open>decimal.Decimal\<close>: \<open>-\<close>, \<open>*\<close>, \<open>/\<close>, \<open>min\<close>, \<open>normalize\<close> and
  \<open>to_integral_value(ROUND_DOWN)\<close>.  \<open>None\<close> is the exception the operation raises
  (\<open>InvalidOperation\<close>, \<open>DivisionByZero\<close>).  \<open>near\<close> bounds what rounding to 28 digits can do to
  a chain of operations: \<open>k\<close> roundings change a value by at most a factor of
  \<open>(1 - 10^-27)^k\<close> in either direction.
\<close>

section \<open>Operations\<close>

text \<open>Where an operation raises \<open>InvalidOperation\<close>.\<close>

definition or_invalid :: "'a option \<Rightarrow> exn + 'a" where
  "or_invalid v = (case v of None \<Rightarrow> Inl InvalidOperation | Some x \<Rightarrow> Inr x)"

lemma or_invalid_Inr [simp]: "or_invalid v = Inr x \<longleftrightarrow> v = Some x"
  by (cases v) (simp_all add: or_invalid_def)

fun dec_negate :: "pydecimal \<Rightarrow> pydecimal" where
  "dec_negate (DFin b c e) = DFin (\<not> b) c e"
| "dec_negate (DInf b) = DInf (\<not> b)"
| "dec_negate (DNaN s) = DNaN s"

definition dec_sub :: "pydecimal \<Rightarrow> pydecimal \<Rightarrow> pydecimal option" where
  "dec_sub x y = dec_add x (dec_negate y)"

fun dec_is_zero :: "pydecimal \<Rightarrow> bool" where
  "dec_is_zero (DFin _ c _) = (c = 0)"
| "dec_is_zero _ = False"

definition nan_result :: "pydecimal \<Rightarrow> pydecimal \<Rightarrow> pydecimal option" where
  "nan_result x y = (if x = DNaN True \<or> y = DNaN True then None else Some (DNaN False))"

fun dec_mul :: "pydecimal \<Rightarrow> pydecimal \<Rightarrow> pydecimal option" where
  "dec_mul (DFin b c e) (DFin b' c' e') = Some (dec_fix (b \<noteq> b') (c * c') (e + e'))"
| "dec_mul (DNaN s) y = nan_result (DNaN s) y"
| "dec_mul x (DNaN s) = nan_result x (DNaN s)"
| "dec_mul x y = (if dec_is_zero x \<or> dec_is_zero y then None else Some (DInf (dec_neg x \<noteq> dec_neg y)))"

text \<open>An exact quotient is brought back towards the exponent \<open>e - e'\<close>.\<close>

function strip_zeros :: "nat \<Rightarrow> int \<Rightarrow> int \<Rightarrow> nat \<times> int" where
  "strip_zeros c e ideal = (if e < ideal \<and> c mod 10 = 0 then strip_zeros (c div 10) (e + 1) ideal else (c, e))"
  by pat_completeness auto
termination
  by (relation "measure (\<lambda>(c, e, ideal). nat (ideal - e))") auto

declare strip_zeros.simps [simp del]

definition dec_etiny :: int where
  "dec_etiny = - 1000026"

definition div_parts :: "nat \<Rightarrow> int \<Rightarrow> nat \<Rightarrow> int \<Rightarrow> nat \<times> int" where
  "div_parts c e c' e' =
     (let shift = int (length (digits_base 10 c')) - int (length (digits_base 10 c)) + int dec_precision + 1;
          a = c * 10 ^ nat shift; b = c' * 10 ^ nat (- shift); q = a div b; ex = e - e' - shift
      in if a mod b \<noteq> 0 then (if q mod 5 = 0 then q + 1 else q, ex) else strip_zeros q ex (e - e'))"

definition div_fin :: "bool \<Rightarrow> nat \<Rightarrow> int \<Rightarrow> nat \<Rightarrow> int \<Rightarrow> pydecimal" where
  "div_fin neg c e c' e' = (case div_parts c e c' e' of (q, ex) \<Rightarrow> dec_fix neg q ex)"

fun dec_div :: "pydecimal \<Rightarrow> pydecimal \<Rightarrow> pydecimal option" where
  "dec_div (DFin b c e) (DFin b' c' e') =
     (if c' = 0 then None
      else if c = 0 then Some (DFin (b \<noteq> b') 0 (e - e'))
      else Some (div_fin (b \<noteq> b') c e c' e'))"
| "dec_div (DNaN s) y = nan_result (DNaN s) y"
| "dec_div x (DNaN s) = nan_result x (DNaN s)"
| "dec_div (DInf _) (DInf _) = None"
| "dec_div (DInf b) (DFin b' _ _) = Some (DInf (b \<noteq> b'))"
| "dec_div (DFin b _ _) (DInf b') = Some (DFin (b \<noteq> b') 0 dec_etiny)"

text \<open>\<open>x <= y\<close>, and the builtin \<open>min\<close>, which keeps the first of equal values.\<close>

definition dec_le :: "pydecimal \<Rightarrow> pydecimal \<Rightarrow> bool option" where
  "dec_le x y = map_option Not (dec_less y x)"

definition dec_min :: "pydecimal \<Rightarrow> pydecimal \<Rightarrow> pydecimal option" where
  "dec_min x y = map_option (\<lambda>less. if less then y else x) (dec_less y x)"

fun dec_trunc :: "pydecimal \<Rightarrow> pydecimal option" where
  "dec_trunc (DFin b c e) = Some (if 0 \<le> e then DFin b c e else DFin b (c div 10 ^ nat (- e)) 0)"
| "dec_trunc (DInf b) = Some (DInf b)"
| "dec_trunc (DNaN s) = nan_result (DNaN s) (DNaN s)"

function strip_all :: "nat \<Rightarrow> int \<Rightarrow> nat \<times> int" where
  "strip_all c e = (if c \<noteq> 0 \<and> c mod 10 = 0 then strip_all (c div 10) (e + 1) else (c, e))"
  by pat_completeness auto
termination
  by (relation "measure fst") auto

declare strip_all.simps [simp del]

fun normalized_fin :: "pydecimal \<Rightarrow> pydecimal" where
  "normalized_fin (DFin b c e) =
     (if c = 0 then DFin b 0 0 else case strip_all c e of (c', e') \<Rightarrow> DFin b c' e')"
| "normalized_fin x = x"

fun dec_normalize :: "pydecimal \<Rightarrow> pydecimal option" where
  "dec_normalize (DFin b c e) = Some (normalized_fin (dec_fix b c e))"
| "dec_normalize (DInf b) = Some (DInf b)"
| "dec_normalize (DNaN s) = nan_result (DNaN s) (DNaN s)"

section \<open>Rounding\<close>

definition tiny :: rat where
  "tiny = 1 / 10 ^ 27"

definition near :: "nat \<Rightarrow> rat \<Rightarrow> rat \<Rightarrow> bool" where
  "near k x y \<longleftrightarrow> 0 \<le> x \<and> 0 \<le> y \<and> y * (1 - tiny) ^ k \<le> x \<and> x * (1 - tiny) ^ k \<le> y"

lemma tiny_bounds: "0 < 1 - tiny" "1 - tiny \<le> 1"
  by (simp_all add: tiny_def)

lemma near_refl: "0 \<le> x \<Longrightarrow> near 0 x x"
  by (simp add: near_def)

lemma near_sym: "near k x y \<Longrightarrow> near k y x"
  by (auto simp: near_def)

lemma near_trans:
  assumes "near j x y" and "near k y z"
  shows "near (j + k) x z"
proof -
  have p: "0 \<le> (1 - tiny) ^ j" "0 \<le> (1 - tiny) ^ k" using tiny_bounds by simp_all
  have "z * (1 - tiny) ^ (j + k) \<le> y * (1 - tiny) ^ j"
    using assms(2) mult_right_mono [OF _ p(1), of "z * (1 - tiny) ^ k" y] by (simp add: near_def power_add ac_simps)
  moreover have "x * (1 - tiny) ^ (j + k) \<le> y * (1 - tiny) ^ k"
    using assms(1) mult_right_mono [OF _ p(2), of "x * (1 - tiny) ^ j" y] by (simp add: near_def power_add ac_simps)
  ultimately show ?thesis using assms by (auto simp: near_def)
qed

lemma near_positive: "near k x y \<Longrightarrow> 0 < x \<Longrightarrow> 0 < y"
proof -
  assume "near k x y" and "0 < x"
  moreover from this(2) have "0 < x * (1 - tiny) ^ k" using tiny_bounds by simp
  ultimately show "0 < y" by (simp add: near_def)
qed

lemma near_more: "near 1 x y \<Longrightarrow> near 2 x y"
proof -
  assume n: "near 1 x y"
  have "z * (1 - tiny) ^ 2 \<le> z * (1 - tiny)" if "0 \<le> z" for z
    using mult_left_mono [OF mult_left_le [of "1 - tiny" "1 - tiny"] that] tiny_bounds by (simp add: power2_eq_square)
  with n show ?thesis by (fastforce simp: near_def)
qed

lemma near_mult:
  assumes "near j x y" and "near k z w"
  shows "near (j + k) (x * z) (y * w)"
proof -
  have p: "0 \<le> (1 - tiny) ^ j" "0 \<le> (1 - tiny) ^ k" using tiny_bounds by simp_all
  have "(y * (1 - tiny) ^ j) * (w * (1 - tiny) ^ k) \<le> x * z"
    using assms p by (intro mult_mono) (auto simp: near_def)
  moreover have "(x * (1 - tiny) ^ j) * (z * (1 - tiny) ^ k) \<le> y * w"
    using assms p by (intro mult_mono) (auto simp: near_def)
  ultimately show ?thesis using assms by (simp add: near_def power_add ac_simps)
qed

lemma near_inverse:
  assumes "near k x y" and "0 < x" and "0 < y"
  shows "near k (1 / x) (1 / y)"
proof -
  have p: "0 < (1 - tiny) ^ k" using tiny_bounds by simp
  have "(1 - tiny) ^ k / y \<le> 1 / x" "(1 - tiny) ^ k / x \<le> 1 / y"
    using assms p by (auto simp: near_def divide_simps mult.commute)
  with assms show ?thesis by (simp add: near_def)
qed

lemma near_divide:
  assumes "near j x y" and "near k z w" and "0 < z" and "0 < w"
  shows "near (j + k) (x / z) (y / w)"
  using near_mult [OF assms(1) near_inverse [OF assms(2-4)]] by simp

text \<open>The digits of a coefficient, and one rounding.\<close>

lemma digits_bounds: "0 < c \<Longrightarrow> 10 ^ (length (digits_base 10 c) - 1) \<le> c \<and> c < 10 ^ length (digits_base 10 c)"
proof (induction c rule: less_induct)
  case (less c)
  show ?case
  proof (cases "c < 10")
    case True
    then show ?thesis using less.prems by (simp add: digits_base.simps [of 10 c])
  next
    case False
    then have d: "digits_base 10 c = digits_base 10 (c div 10) @ [c mod 10]" by (simp add: digits_base.simps [of 10 c])
    let ?n = "length (digits_base 10 (c div 10))"
    have n: "0 < ?n" by simp
    have IH: "10 ^ (?n - 1) \<le> c div 10" "c div 10 < 10 ^ ?n" using less.IH [of "c div 10"] False by auto
    have "(10::nat) ^ ?n = 10 * 10 ^ (?n - 1)" using n by (metis Suc_diff_1 power_Suc)
    then have "10 ^ ?n \<le> 10 * (c div 10)" using IH(1) by simp
    also have "\<dots> \<le> c" by simp
    finally have "10 ^ ?n \<le> c" .
    moreover have "c < 10 * 10 ^ ?n" using IH(2) by linarith
    ultimately show ?thesis by (simp add: d)
  qed
qed

lemma near_abs:
  assumes "0 \<le> x" and "0 \<le> y" and "\<bar>x - y\<bar> \<le> y * tiny"
  shows "near 1 x y"
proof -
  have "x \<le> y * (1 + tiny)" "y * (1 - tiny) \<le> x" using assms(3) by (simp_all add: algebra_simps abs_le_iff)
  moreover from this(1) have "x * (1 - tiny) \<le> y * (1 + tiny) * (1 - tiny)"
    using tiny_bounds by (intro mult_right_mono) simp_all
  moreover have "y * (1 + tiny) * (1 - tiny) \<le> y"
    using assms(2) by (simp add: algebra_simps tiny_def)
  ultimately show ?thesis using assms by (simp add: near_def)
qed

lemma round_error:
  fixes c k :: nat
  defines "q \<equiv> c div 10 ^ k" and "r \<equiv> c mod 10 ^ k"
  shows "\<bar>of_nat (if P then q + 1 else q) * (10::rat) ^ k - of_nat c\<bar> \<le> 10 ^ k"
proof -
  have c: "c = q * 10 ^ k + r" "r < 10 ^ k" by (simp_all only: q_def r_def div_mult_mod_eq) simp
  have "(of_nat c :: rat) = of_nat (q * 10 ^ k + r)" using c(1) by (rule arg_cong)
  also have "\<dots> = of_nat q * 10 ^ k + of_nat r" by simp
  finally have "(of_nat c :: rat) = of_nat q * 10 ^ k + of_nat r" .
  moreover have "(of_nat r :: rat) < 10 ^ k" using c(2) by (metis of_nat_less_iff of_nat_numeral of_nat_power)
  ultimately show ?thesis by (simp add: algebra_simps)
qed

lemma power_int_split: "power_int (10::rat) (e + int k) = 10 ^ k * power_int 10 e"
  by (simp add: power_int_add)

lemma dec_fix_sign: "dec_fix neg c e = (case dec_fix False c e of DFin _ c' e' \<Rightarrow> DFin neg c' e' | d \<Rightarrow> d)"
  by (simp add: dec_fix_def Let_def)

lemma dval_sign: "dval (DFin neg c e) = (if neg then - dval (DFin False c e) else dval (DFin False c e))"
  by (simp add: dval_fin_def)

lemma dval_fix_sign: "dval (dec_fix neg c e) = (if neg then - dval (dec_fix False c e) else dval (dec_fix False c e))"
  by (subst dec_fix_sign) (cases "dec_fix False c e"; simp add: dval_fin_def; simp add: dec_fix_def Let_def split: if_splits)

lemma near_fix: "near 1 (dval (dec_fix False c e)) (of_nat c * power_int 10 e)"
proof (cases "length (digits_base 10 c) \<le> dec_precision")
  case True
  then have "dval (dec_fix False c e) = of_nat c * power_int 10 e" by (simp add: dec_fix_def dval_fin_def)
  then show ?thesis by (intro near_abs) (simp_all add: tiny_def)
next
  case False
  let ?n = "length (digits_base 10 c)"
  define k where "k = ?n - dec_precision"
  define q where "q = (if 2 * (c mod 10 ^ k) > 10 ^ k \<or> (2 * (c mod 10 ^ k) = 10 ^ k \<and> odd (c div 10 ^ k))
    then c div 10 ^ k + 1 else c div 10 ^ k)"
  have val: "dval (dec_fix False c e) = of_nat q * 10 ^ k * power_int 10 e"
  proof -
    have run: "dec_fix False c e =
        (if q = 10 ^ dec_precision then DFin False (10 ^ (dec_precision - 1)) (e + int k + 1) else DFin False q (e + int k))"
      using False unfolding dec_fix_def Let_def k_def [symmetric] q_def [symmetric] by (simp only: if_False)
    have "power_int (10::rat) (e + int k + 1) = 10 * (10 ^ k * power_int 10 e)"
      using power_int_split [of e "Suc k"] by (simp add: ac_simps)
    then show ?thesis
      by (cases "q = 10 ^ dec_precision") (simp_all add: run dval_fin_def power_int_split, simp add: dec_precision_def)
  qed
  have pos: "0 < c" using False by (cases "c = 0") (simp_all add: digits_base.simps [of 10 0] dec_precision_def)
  have "\<bar>of_nat q * (10::rat) ^ k - of_nat c\<bar> \<le> 10 ^ k" unfolding q_def by (rule round_error)
  also have "(10::rat) ^ k \<le> of_nat c * tiny"
  proof -
    have "10 ^ (k + 27) \<le> c" using digits_bounds [OF pos] False by (simp add: k_def dec_precision_def)
    then have "(10::rat) ^ (k + 27) \<le> of_nat c" by (metis of_nat_le_iff of_nat_numeral of_nat_power)
    then show ?thesis by (simp add: tiny_def power_add)
  qed
  finally have err: "\<bar>of_nat q * 10 ^ k - of_nat c\<bar> \<le> of_nat c * tiny" .
  have p: "0 \<le> power_int (10::rat) e" by simp
  have "\<bar>of_nat q * 10 ^ k * power_int 10 e - of_nat c * power_int 10 e\<bar> =
      \<bar>of_nat q * 10 ^ k - of_nat c\<bar> * power_int (10::rat) e"
    using p by (simp add: abs_mult left_diff_distrib [symmetric])
  also have "\<dots> \<le> of_nat c * tiny * power_int 10 e" using err p by (rule mult_right_mono)
  finally show ?thesis unfolding val by (intro near_abs) (simp_all add: ac_simps)
qed

section \<open>What each operation does to the value\<close>

lemma near_sub:
  assumes "dec_finite x" and "dec_finite y"
  shows "\<exists>z. dec_sub x y = Some z \<and> dec_finite z \<and> near 1 \<bar>dval z\<bar> \<bar>dval x - dval y\<bar>"
proof -
  obtain b c e b' c' e' where xy: "x = DFin b c e" "y = DFin b' c' e'" using assms by (cases x; cases y) auto
  let ?m = "min e e'"
  define v where "v = scaled ?m b c e + scaled ?m (\<not> b') c' e'"
  have val: "of_int v * power_int 10 ?m = dval x - dval y"
    using scaled_dval [of ?m e b c] scaled_dval [of ?m e' "\<not> b'" c']
    by (simp add: v_def xy distrib_right) (simp add: dval_fin_def)
  obtain s where z: "dec_sub x y = Some (dec_fix s (nat \<bar>v\<bar>) ?m)"
    by (simp add: dec_sub_def xy Let_def flip: v_def)
  have "\<bar>dval (dec_fix s (nat \<bar>v\<bar>) ?m)\<bar> = dval (dec_fix False (nat \<bar>v\<bar>) ?m)"
    using near_fix [of "nat \<bar>v\<bar>" ?m] by (simp add: dval_fix_sign [of s] near_def)
  moreover have "\<bar>dval x - dval y\<bar> = of_nat (nat \<bar>v\<bar>) * power_int 10 ?m"
    by (simp add: abs_mult flip: val)
  ultimately have "near 1 \<bar>dval (dec_fix s (nat \<bar>v\<bar>) ?m)\<bar> \<bar>dval x - dval y\<bar>"
    using near_fix [of "nat \<bar>v\<bar>" ?m] by simp
  with z show ?thesis by simp
qed

lemma near_abs_dec: "dec_finite x \<Longrightarrow> \<exists>z. dec_abs x = Some z \<and> dec_finite z \<and> near 1 (dval z) \<bar>dval x\<bar>"
  using near_fix by (cases x) (auto simp: dval_fin_def abs_mult)

lemma dval_magnitude: "\<bar>dval (DFin b c e)\<bar> = of_nat c * power_int 10 e"
  by (simp add: dval_fin_def abs_mult)

lemma dval_nonneg: "0 \<le> dval (DFin True c e) \<Longrightarrow> c = 0"
proof (rule ccontr)
  assume "0 \<le> dval (DFin True c e)" and "c \<noteq> 0"
  moreover from this(2) have "0 < of_nat c * power_int (10::rat) e" by simp
  ultimately show False by (simp add: dval_fin_def)
qed

text \<open>The sign of a result is the sign of the exact one.\<close>

lemma dval_signed: "dval (DFin b c e) = (if b then - 1 else 1) * (of_nat c * power_int 10 e)"
  by (simp add: dval_fin_def)

lemma fix_value:
  assumes "near k (dval (dec_fix False c e)) v"
  shows "near k \<bar>dval (dec_fix s c e)\<bar> v" and "0 < dval (dec_fix s c e) \<Longrightarrow> \<not> s \<and> 0 < v"
proof -
  have p: "0 \<le> dval (dec_fix False c e)" using assms by (simp add: near_def)
  then show "near k \<bar>dval (dec_fix s c e)\<bar> v" using assms by (simp add: dval_fix_sign [of s])
  assume pos: "0 < dval (dec_fix s c e)"
  then have "\<not> s" using p by (auto simp: dval_fix_sign [of s] split: if_splits)
  moreover from this pos have "0 < dval (dec_fix False c e) * (1 - tiny) ^ k" using tiny_bounds by simp
  ultimately show "\<not> s \<and> 0 < v" using assms by (auto simp: near_def)
qed

lemma mul_value:
  assumes "dec_finite x" and "dec_finite y"
  shows "\<exists>z. dec_mul x y = Some z \<and> dec_finite z \<and> near 1 \<bar>dval z\<bar> \<bar>dval x * dval y\<bar> \<and>
    (0 < dval z \<longrightarrow> 0 < dval x * dval y)"
proof -
  obtain b c e b' c' e' where xy: "x = DFin b c e" "y = DFin b' c' e'" using assms by (cases x; cases y) auto
  have v: "dval x * dval y = (if b \<noteq> b' then - 1 else 1) * (of_nat (c * c') * power_int 10 (e + e'))"
    unfolding xy dval_signed by (simp add: power_int_add)
  then have "\<bar>dval x * dval y\<bar> = of_nat (c * c') * power_int 10 (e + e')" by (simp add: abs_mult)
  with near_fix [of "c * c'" "e + e'"]
  have n: "near 1 (dval (dec_fix False (c * c') (e + e'))) \<bar>dval x * dval y\<bar>" by simp
  have "0 < dval x * dval y" if "0 < dval (dec_fix (b \<noteq> b') (c * c') (e + e'))"
  proof -
    have "b = b'" "0 < \<bar>dval x * dval y\<bar>" using fix_value(2) [OF n that] by simp_all
    moreover have "0 \<le> dval x * dval y" unfolding v using \<open>b = b'\<close> by simp
    ultimately show ?thesis by simp
  qed
  with fix_value(1) [OF n, of "b \<noteq> b'"] show ?thesis by (simp add: xy)
qed

lemma strip_zeros_value:
  "strip_zeros c e ideal = (c', e') \<Longrightarrow> of_nat c' * power_int (10::rat) e' = of_nat c * power_int 10 e"
proof (induction c e ideal arbitrary: c' e' rule: strip_zeros.induct)
  case (1 c e ideal)
  show ?case
  proof (cases "e < ideal \<and> c mod 10 = 0")
    case True
    then have run: "strip_zeros (c div 10) (e + 1) ideal = (c', e')" using "1.prems" by (simp add: strip_zeros.simps [of c])
    have "c = 10 * (c div 10)" using True by presburger
    then have "(of_nat c :: rat) = 10 * of_nat (c div 10)" by (metis of_nat_mult of_nat_numeral)
    with "1.IH" [OF True run] show ?thesis by (simp add: power_int_add)
  qed (use "1.prems" in \<open>auto simp: strip_zeros.simps [of c]\<close>)
qed

lemma shift_fraction:
  fixes u v x y z w :: rat
  assumes "u \<noteq> 0" and "v \<noteq> 0"
  shows "x * y / (z * w) = x * u / (z * v) * (y / w / (u / v))"
  using assms by simp

lemma near_quotient:
  assumes "0 < c" and "0 < c'"
  shows "near 2 (dval (div_fin False c e c' e')) (of_nat c * power_int 10 e / (of_nat c' * power_int 10 e'))"
proof -
  define shift where "shift = int (length (digits_base 10 c')) - int (length (digits_base 10 c)) + int dec_precision + 1"
  define a where "a = c * 10 ^ nat shift"
  define b where "b = c' * 10 ^ nat (- shift)"
  define q where "q = a div b"
  define ex where "ex = e - e' - shift"
  have b: "0 < b" using assms(2) by (simp add: b_def)
  have shifted: "power_int (10::rat) shift = 10 ^ nat shift / 10 ^ nat (- shift)"
    by (cases "0 \<le> shift") (simp_all add: power_int_def power_one_over)
  have "power_int (10::rat) (e - e' - shift) = power_int 10 e / power_int 10 e' / power_int 10 shift"
    by (simp add: power_int_diff)
  then have ex: "power_int (10::rat) ex = power_int 10 e / power_int 10 e' / (10 ^ nat shift / 10 ^ nat (- shift))"
    unfolding ex_def shifted .
  have a: "(of_nat a :: rat) = of_nat c * 10 ^ nat shift" and b': "(of_nat b :: rat) = of_nat c' * 10 ^ nat (- shift)"
    by (simp_all add: a_def b_def)
  have val: "of_nat c * power_int 10 e / (of_nat c' * power_int 10 e') = (of_nat a / of_nat b :: rat) * power_int 10 ex"
    unfolding ex a b' by (rule shift_fraction) simp_all
  have run: "div_parts c e c' e' =
      (if a mod b \<noteq> 0 then (if q mod 5 = 0 then q + 1 else q, ex) else strip_zeros q ex (e - e'))"
    unfolding div_parts_def Let_def shift_def [symmetric] a_def [symmetric] b_def [symmetric] q_def [symmetric] ex_def [symmetric] ..
  show ?thesis
  proof (cases "a mod b = 0")
    case True
    obtain q' ex' where strip: "strip_zeros q ex (e - e') = (q', ex')" by fastforce
    have "div_fin False c e c' e' = dec_fix False q' ex'"
      using True strip by (simp add: run div_fin_def)
    moreover have "(of_nat a / of_nat b :: rat) = of_nat q"
    proof -
      have "(of_nat a :: rat) = of_nat (q * b)" using True by (simp add: q_def mod_eq_0_iff_dvd)
      with b show ?thesis by (simp add: nonzero_divide_eq_eq)
    qed
    ultimately show ?thesis using near_more [OF near_fix [of q' ex']] by (simp add: strip_zeros_value [OF strip] val)
  next
    case False
    define q' where "q' = (if q mod 5 = 0 then q + 1 else q)"
    have run': "div_fin False c e c' e' = dec_fix False q' ex" using False by (simp add: run q'_def div_fin_def)
    have big: "(10::rat) ^ 28 \<le> of_nat a / of_nat b"
    proof -
      have "10 ^ (length (digits_base 10 c) - 1) \<le> c" "c' \<le> 10 ^ length (digits_base 10 c')"
        using digits_bounds assms by (auto intro: less_imp_le)
      moreover have len: "nat shift + (length (digits_base 10 c) - 1) = 28 + length (digits_base 10 c') + nat (- shift)"
        unfolding shift_def dec_precision_def using digits_base_nonempty [of 10 c] length_greater_0_conv [of "digits_base 10 c"]
        by linarith
      ultimately have "10 ^ 28 * b \<le> 10 ^ 28 * (10 ^ length (digits_base 10 c') * 10 ^ nat (- shift))"
        "10 ^ (length (digits_base 10 c) - 1) * 10 ^ nat shift \<le> a"
        by (simp_all add: a_def b_def)
      moreover have "(10::nat) ^ 28 * (10 ^ length (digits_base 10 c') * 10 ^ nat (- shift)) =
          10 ^ (length (digits_base 10 c) - 1) * 10 ^ nat shift"
        using len by (metis (no_types) add.assoc add.commute power_add)
      ultimately have "10 ^ 28 * b \<le> a" by linarith
      then have "(10::rat) ^ 28 * of_nat b \<le> of_nat a" by (metis of_nat_le_iff of_nat_mult of_nat_numeral of_nat_power)
      with b show ?thesis by (simp add: field_simps)
    qed
    have "(of_nat a :: rat) = of_nat q * of_nat b + of_nat (a mod b)"
      unfolding q_def by (metis div_mult_mod_eq of_nat_add of_nat_mult)
    moreover have "(of_nat (a mod b) :: rat) < of_nat b" using b by simp
    ultimately have "of_nat q \<le> (of_nat a / of_nat b :: rat)" "(of_nat a / of_nat b :: rat) \<le> of_nat q + 1"
      using b by (simp_all add: field_simps)
    then have "\<bar>of_nat q' - of_nat a / of_nat b\<bar> \<le> (1::rat)" by (simp add: q'_def)
    also have "1 \<le> of_nat a / of_nat b * tiny" using big by (simp add: tiny_def field_simps)
    finally have "near 1 (of_nat q') (of_nat a / of_nat b)" by (intro near_abs) simp_all
    from near_mult [OF this near_refl, of "power_int 10 ex"] near_fix [of q' ex]
    have "near 2 (dval (dec_fix False q' ex)) (of_nat a / of_nat b * power_int 10 ex)"
      using near_trans [of 1 "dval (dec_fix False q' ex)" "of_nat q' * power_int 10 ex" 1] by (simp add: numeral_2_eq_2)
    with run' val show ?thesis by simp
  qed
qed

lemma div_value:
  assumes "dec_finite x" and "dec_finite y" and "dval y \<noteq> 0"
  shows "\<exists>z. dec_div x y = Some z \<and> dec_finite z \<and> near 2 \<bar>dval z\<bar> (\<bar>dval x\<bar> / \<bar>dval y\<bar>) \<and>
    (0 < dval z \<longrightarrow> 0 < dval x / dval y)"
proof -
  obtain b c e b' c' e' where xy: "x = DFin b c e" "y = DFin b' c' e'" using assms by (cases x; cases y) auto
  have c': "0 < c'" using assms(3) by (auto simp: xy dval_fin_def)
  show ?thesis
  proof (cases "c = 0")
    case True
    with c' show ?thesis by (simp add: xy dval_fin_def near_def)
  next
    case False
    obtain q ex where "div_parts c e c' e' = (q, ex)" by fastforce
    then have fixed: "div_fin s c e c' e' = dec_fix s q ex" for s by (simp add: div_fin_def)
    have v: "\<bar>dval x\<bar> / \<bar>dval y\<bar> = of_nat c * power_int 10 e / (of_nat c' * power_int 10 e')"
      unfolding xy dval_magnitude ..
    have n: "near 2 (dval (dec_fix False q ex)) (\<bar>dval x\<bar> / \<bar>dval y\<bar>)"
      using near_quotient [of c c' e e'] False c' unfolding v fixed by simp
    have run: "dec_div x y = Some (dec_fix (b \<noteq> b') q ex)" using False c' by (simp add: xy fixed)
    have "0 < dval x / dval y" if "0 < dval (dec_fix (b \<noteq> b') q ex)"
    proof -
      have same: "b = b'" and "0 < \<bar>dval x\<bar> / \<bar>dval y\<bar>" using fix_value(2) [OF n that] by simp_all
      then have "0 < of_nat c * power_int (10::rat) e" "0 < of_nat c' * power_int (10::rat) e'" using False c' by simp_all
      with same show ?thesis unfolding xy dval_signed by (simp add: zero_less_divide_iff)
    qed
    with run fix_value(1) [OF n, of "b \<noteq> b'"] show ?thesis by simp
  qed
qed

lemma dec_neg_fix [simp]: "dec_neg (dec_fix s c e) = s"
  by (simp add: dec_fix_def Let_def)

lemma dec_neg_mul: "dec_finite x \<Longrightarrow> dec_finite y \<Longrightarrow> dec_mul x y = Some z \<Longrightarrow> dec_neg z = (dec_neg x \<noteq> dec_neg y)"
  by (cases x; cases y) auto

lemma dec_neg_div: "dec_finite x \<Longrightarrow> dec_finite y \<Longrightarrow> dec_div x y = Some z \<Longrightarrow> dec_neg z = (dec_neg x \<noteq> dec_neg y)"
  by (cases x; cases y) (auto simp: div_fin_def split: if_splits prod.splits)

lemma not_neg_dval: "\<not> dec_neg x \<Longrightarrow> 0 \<le> dval x"
  by (cases x) (simp_all add: dval_fin_def)

lemma dval_not_neg: "0 < dval x \<Longrightarrow> \<not> dec_neg x"
proof
  assume pos: "0 < dval x" and "dec_neg x"
  then obtain c e where x: "x = DFin True c e" by (cases x) auto
  then have "c = 0" using pos dval_nonneg [of c e] by simp
  with pos show False by (simp add: x dval_fin_def)
qed

lemma trunc_value:
  assumes "dec_finite x"
  shows "\<exists>z. dec_trunc x = Some z \<and> dec_finite z \<and> \<bar>dval z\<bar> \<le> \<bar>dval x\<bar> \<and> (0 < dval z \<longrightarrow> 0 < dval x)"
proof -
  obtain b c e where x: "x = DFin b c e" using assms by (cases x) auto
  show ?thesis
  proof (cases "0 \<le> e")
    case True
    then show ?thesis by (simp add: x)
  next
    case False
    define k where "k = nat (- e)"
    have e: "power_int (10::rat) e = 1 / 10 ^ k" using False by (simp add: k_def power_int_def power_one_over)
    have "c div 10 ^ k * 10 ^ k \<le> c" by (rule div_times_less_eq_dividend)
    then have "(of_nat (c div 10 ^ k * 10 ^ k) :: rat) \<le> of_nat c" by (simp only: of_nat_le_iff)
    then have le: "of_nat (c div 10 ^ k) \<le> (of_nat c :: rat) * power_int 10 e" by (simp add: e field_simps)
    have run: "dec_trunc x = Some (DFin b (c div 10 ^ k) 0)" using False by (simp add: x k_def)
    have "0 < dval x" if "0 < dval (DFin b (c div 10 ^ k) 0)"
    proof -
      have "\<not> b" "0 < c div 10 ^ k" using that by (auto simp: dval_signed simp del: dval.simps split: if_splits)
      moreover from this(2) have "0 < c" by (cases "c = 0") simp_all
      ultimately show ?thesis unfolding x dval_signed by simp
    qed
    with run le show ?thesis by (simp add: x dval_magnitude del: dval.simps)
  qed
qed

end
