(* ===== verification/PositionOrders.thy ===== *)
theory PositionOrders
  imports PositionService Submission DecimalArith
begin

text \<open>
  \<open>services/position_order_service.py\<close>: orders meant for a position.  Each operation loads the
  position, checks what it is meant to do, builds an \<open>OrderRequest\<close> and hands it to the gateway.
  The keyword arguments come in the order of the code, \<open>source\<close>, \<open>signal_id\<close> and
  \<open>strategy_name\<close> last.  \<open>Decimal\<close> raises \<open>InvalidOperation\<close> for a text that is no number
  and for comparisons with a NaN.
\<close>

section \<open>Helpers\<close>

definition to_decimal :: "string \<Rightarrow> exn + pydecimal" where
  "to_decimal t = or_invalid (decimal_of_string t)"

definition decimal_abs :: "string \<Rightarrow> exn + pydecimal" where
  "decimal_abs t = sum_bind (to_decimal t) (\<lambda>d. or_invalid (dec_abs d))"

definition decimal_abs_str :: "string \<Rightarrow> exn + string" where
  "decimal_abs_str t = map_sum id dec_format_f (decimal_abs t)"

definition validate_positive_quantity :: "string \<Rightarrow> exn + pydecimal" where
  "validate_positive_quantity t =
     sum_bind (to_decimal t) (\<lambda>qty.
     sum_bind (or_invalid (dec_less dec_zero qty)) (\<lambda>positive.
     if positive then Inr qty else Inl (PositionOrderError ''must be positive'')))"

definition validate_perp_or_futures :: "market_type \<Rightarrow> exn + unit" where
  "validate_perp_or_futures mt =
     (if mt \<in> {PERP, FUTURES} then Inr () else Inl (PositionOrderError ''supports only PERP/FUTURES''))"

text \<open>The side of an order in the direction of the position, and its opposite.\<close>

definition side_by_amount :: "exn \<Rightarrow> order_side \<Rightarrow> order_side \<Rightarrow> position \<Rightarrow> exn + order_side" where
  "side_by_amount flat long short p =
     sum_bind (to_decimal (p_position_amt p)) (\<lambda>amt.
     case p_position_side p of
       LONG \<Rightarrow> Inr long
     | SHORT \<Rightarrow> Inr short
     | BOTH \<Rightarrow>
         sum_bind (or_invalid (dec_less dec_zero amt)) (\<lambda>positive.
         if positive then Inr long
         else sum_bind (or_invalid (dec_less amt dec_zero)) (\<lambda>negative.
              if negative then Inr short else Inl flat)))"

definition opposite_side_for_position :: "position \<Rightarrow> exn + order_side" where
  "opposite_side_for_position = side_by_amount (ClosePositionError ''no opposite side'') SELL BUY"

definition same_direction_side_for_position :: "position \<Rightarrow> exn + order_side" where
  "same_direction_side_for_position = side_by_amount (PositionOrderError ''no same-direction side'') BUY SELL"

definition reduce_only_for_position :: "position \<Rightarrow> bool" where
  "reduce_only_for_position p = (p_position_side p = BOTH)"

definition validate_open_side :: "position_side \<Rightarrow> order_side \<Rightarrow> exn + unit" where
  "validate_open_side pside side =
     (if pside = BOTH then Inr ()
      else if pside = LONG \<and> side \<noteq> BUY then Inl (OpenPositionError ''LONG'')
      else if pside = SHORT \<and> side \<noteq> SELL then Inl (OpenPositionError ''SHORT'')
      else Inr ())"

definition validate_increase_side :: "position \<Rightarrow> order_side \<Rightarrow> pydecimal \<Rightarrow> exn + unit" where
  "validate_increase_side p side amt =
     (case p_position_side p of
        BOTH \<Rightarrow>
          sum_bind (or_invalid (dec_less dec_zero amt)) (\<lambda>positive.
          if positive \<and> side \<noteq> BUY then Inl (ClosePositionError ''LONG one-way'')
          else sum_bind (or_invalid (dec_less amt dec_zero)) (\<lambda>negative.
               if negative \<and> side \<noteq> SELL then Inl (ClosePositionError ''SHORT one-way'')
               else sum_bind (or_invalid (dec_eq_zero amt)) (\<lambda>zero.
                    if zero then Inl (ClosePositionError ''flat one-way'') else Inr ())))
      | LONG \<Rightarrow> if side \<noteq> BUY then Inl (ClosePositionError ''LONG hedge'') else Inr ()
      | SHORT \<Rightarrow> if side \<noteq> SELL then Inl (ClosePositionError ''SHORT hedge'') else Inr ())"

definition assert_position_open :: "position \<Rightarrow> exn + unit" where
  "assert_position_open p =
     (if p_status p \<noteq> PS_OPEN then Inl (ClosePositionError ''position is not open'')
      else sum_bind (to_decimal (p_position_amt p)) (\<lambda>amt.
           sum_bind (or_invalid (dec_eq_zero amt)) (\<lambda>zero.
           if zero then Inl (ClosePositionError ''position quantity is zero'') else Inr ())))"

text \<open>The checks the four reduce operations share.\<close>

definition reduce_quantity :: "position \<Rightarrow> string \<Rightarrow> exn + pydecimal" where
  "reduce_quantity p quantity =
     sum_bind (decimal_abs (p_position_amt p)) (\<lambda>current_abs.
     sum_bind (validate_positive_quantity quantity) (\<lambda>reduce_qty.
     sum_bind (or_invalid (dec_less current_abs reduce_qty)) (\<lambda>exceeds.
     if exceeds then Inl (ClosePositionError ''reduce quantity exceeds position size'') else Inr reduce_qty)))"

section \<open>Loading\<close>

definition load_order_position ::
  "exchange \<Rightarrow> market_type \<Rightarrow> string \<Rightarrow> position_side \<Rightarrow> position xprog" where
  "load_order_position ex mt symb pside =
     andThen (liftSum (validate_perp_or_futures mt)) (\<lambda>_.
     andThen (on_positions (load_position (make_position_id ex mt symb pside) True)) (\<lambda>found.
     case found of None \<Rightarrow> throw (ClosePositionError ''position not found'') | Some p \<Rightarrow> ret p))"

definition try_load_position ::
  "exchange \<Rightarrow> market_type \<Rightarrow> string \<Rightarrow> position_side \<Rightarrow> position option xprog" where
  "try_load_position ex mt symb pside =
     catch (andThen (load_order_position ex mt symb pside) (\<lambda>p. ret (Some p)))
       (\<lambda>e. case e of ClosePositionError _ \<Rightarrow> ret None | _ \<Rightarrow> throw e)"

definition load_open_position ::
  "exchange \<Rightarrow> market_type \<Rightarrow> string \<Rightarrow> position_side \<Rightarrow> position xprog" where
  "load_open_position ex mt symb pside =
     andThen (load_order_position ex mt symb pside) (\<lambda>p.
     andThen (liftSum (assert_position_open p)) (\<lambda>_. ret p))"

text \<open>\<open>OrderRequest(...)\<close>, validated by its constructor, and the call of the gateway.\<close>

definition position_request ::
  "exchange \<Rightarrow> market_type \<Rightarrow> string \<Rightarrow> order_side \<Rightarrow> order_type \<Rightarrow> order_route \<Rightarrow> time_in_force option \<Rightarrow>
   string \<Rightarrow> string option \<Rightarrow> string option \<Rightarrow> bool \<Rightarrow> bool \<Rightarrow> position_side \<Rightarrow> position_action \<Rightarrow> order_request" where
  "position_request ex mt symb side ty route tif quantity price trigger reduce close pside act =
     \<lparr>r_exchange = ex, r_market_type = mt, r_symbol = symb, r_side = side, r_order_type = ty,
      r_order_route = Some route, r_time_in_force = tif, r_quantity = quantity, r_price = price,
      r_trigger_price = trigger, r_stop_price = None, r_reduce_only = reduce, r_close_position = close,
      r_leverage = None, r_position_side = pside, r_position_action = act\<rparr>"

definition submit_request ::
  "gateway_env \<Rightarrow> order_request \<Rightarrow> order_source \<Rightarrow> string option \<Rightarrow> string option \<Rightarrow> order xprog" where
  "submit_request env req source sig strat =
     andThen (liftSum (validate_request req)) (\<lambda>req. on_gateway (submit_order env req source sig strat))"

section \<open>Closing\<close>

definition close_position_market ::
  "gateway_env \<Rightarrow> exchange \<Rightarrow> market_type \<Rightarrow> string \<Rightarrow> position_side \<Rightarrow>
   order_source \<Rightarrow> string option \<Rightarrow> string option \<Rightarrow> order xprog" where
  "close_position_market env ex mt symb pside source sig strat =
     andThen (load_open_position ex mt symb pside) (\<lambda>p.
     andThen (liftSum (decimal_abs_str (p_position_amt p))) (\<lambda>quantity.
     andThen (liftSum (opposite_side_for_position p)) (\<lambda>side.
     submit_request env
       (position_request ex mt (p_symbol p) side MARKET REGULAR None quantity None None
          (reduce_only_for_position p) False (p_position_side p) PA_CLOSE) source sig strat)))"

definition close_position_limit ::
  "gateway_env \<Rightarrow> exchange \<Rightarrow> market_type \<Rightarrow> string \<Rightarrow> string \<Rightarrow> position_side \<Rightarrow> time_in_force \<Rightarrow>
   order_source \<Rightarrow> string option \<Rightarrow> string option \<Rightarrow> order xprog" where
  "close_position_limit env ex mt symb price pside tif source sig strat =
     andThen (load_open_position ex mt symb pside) (\<lambda>p.
     andThen (liftSum (decimal_abs_str (p_position_amt p))) (\<lambda>quantity.
     andThen (liftSum (opposite_side_for_position p)) (\<lambda>side.
     submit_request env
       (position_request ex mt (p_symbol p) side LIMIT REGULAR (Some tif) quantity (Some price) None
          (reduce_only_for_position p) False (p_position_side p) PA_CLOSE) source sig strat)))"

definition close_position_stop_market ::
  "gateway_env \<Rightarrow> exchange \<Rightarrow> market_type \<Rightarrow> string \<Rightarrow> string \<Rightarrow> position_side \<Rightarrow> bool \<Rightarrow>
   order_source \<Rightarrow> string option \<Rightarrow> string option \<Rightarrow> order xprog" where
  "close_position_stop_market env ex mt symb trigger_price pside use_close_position source sig strat =
     andThen (load_open_position ex mt symb pside) (\<lambda>p.
     andThen (liftSum (if use_close_position then Inr ''0'' else decimal_abs_str (p_position_amt p))) (\<lambda>quantity.
     andThen (liftSum (opposite_side_for_position p)) (\<lambda>side.
     submit_request env
       (position_request ex mt (p_symbol p) side STOP_MARKET CONDITIONAL None quantity None (Some trigger_price)
          (if use_close_position then False else reduce_only_for_position p) use_close_position
          (p_position_side p) PA_CLOSE) source sig strat)))"

definition close_position_stop_limit ::
  "gateway_env \<Rightarrow> exchange \<Rightarrow> market_type \<Rightarrow> string \<Rightarrow> string \<Rightarrow> string \<Rightarrow> position_side \<Rightarrow> time_in_force \<Rightarrow>
   order_source \<Rightarrow> string option \<Rightarrow> string option \<Rightarrow> order xprog" where
  "close_position_stop_limit env ex mt symb trigger_price price pside tif source sig strat =
     andThen (load_open_position ex mt symb pside) (\<lambda>p.
     andThen (liftSum (decimal_abs_str (p_position_amt p))) (\<lambda>quantity.
     andThen (liftSum (opposite_side_for_position p)) (\<lambda>side.
     submit_request env
       (position_request ex mt (p_symbol p) side STOP_LIMIT CONDITIONAL (Some tif) quantity (Some price)
          (Some trigger_price) (reduce_only_for_position p) False (p_position_side p) PA_CLOSE) source sig strat)))"

section \<open>Reducing\<close>

definition reduce_position_market ::
  "gateway_env \<Rightarrow> exchange \<Rightarrow> market_type \<Rightarrow> string \<Rightarrow> string \<Rightarrow> position_side \<Rightarrow>
   order_source \<Rightarrow> string option \<Rightarrow> string option \<Rightarrow> order xprog" where
  "reduce_position_market env ex mt symb quantity pside source sig strat =
     andThen (load_open_position ex mt symb pside) (\<lambda>p.
     andThen (liftSum (reduce_quantity p quantity)) (\<lambda>reduce_qty.
     andThen (liftSum (opposite_side_for_position p)) (\<lambda>side.
     submit_request env
       (position_request ex mt (p_symbol p) side MARKET REGULAR None (dec_format_f reduce_qty) None None
          (reduce_only_for_position p) False (p_position_side p) PA_REDUCE) source sig strat)))"

definition reduce_position_limit ::
  "gateway_env \<Rightarrow> exchange \<Rightarrow> market_type \<Rightarrow> string \<Rightarrow> string \<Rightarrow> string \<Rightarrow> position_side \<Rightarrow> time_in_force \<Rightarrow>
   order_source \<Rightarrow> string option \<Rightarrow> string option \<Rightarrow> order xprog" where
  "reduce_position_limit env ex mt symb quantity price pside tif source sig strat =
     andThen (load_open_position ex mt symb pside) (\<lambda>p.
     andThen (liftSum (reduce_quantity p quantity)) (\<lambda>reduce_qty.
     andThen (liftSum (opposite_side_for_position p)) (\<lambda>side.
     submit_request env
       (position_request ex mt (p_symbol p) side LIMIT REGULAR (Some tif) (dec_format_f reduce_qty) (Some price)
          None (reduce_only_for_position p) False (p_position_side p) PA_REDUCE) source sig strat)))"

definition reduce_position_stop_market ::
  "gateway_env \<Rightarrow> exchange \<Rightarrow> market_type \<Rightarrow> string \<Rightarrow> string \<Rightarrow> string \<Rightarrow> position_side \<Rightarrow>
   order_source \<Rightarrow> string option \<Rightarrow> string option \<Rightarrow> order xprog" where
  "reduce_position_stop_market env ex mt symb quantity trigger_price pside source sig strat =
     andThen (load_open_position ex mt symb pside) (\<lambda>p.
     andThen (liftSum (reduce_quantity p quantity)) (\<lambda>reduce_qty.
     andThen (liftSum (opposite_side_for_position p)) (\<lambda>side.
     submit_request env
       (position_request ex mt (p_symbol p) side STOP_MARKET CONDITIONAL None (dec_format_f reduce_qty) None
          (Some trigger_price) (reduce_only_for_position p) False (p_position_side p) PA_REDUCE) source sig strat)))"

definition reduce_position_stop_limit ::
  "gateway_env \<Rightarrow> exchange \<Rightarrow> market_type \<Rightarrow> string \<Rightarrow> string \<Rightarrow> string \<Rightarrow> string \<Rightarrow> position_side \<Rightarrow>
   time_in_force \<Rightarrow> order_source \<Rightarrow> string option \<Rightarrow> string option \<Rightarrow> order xprog" where
  "reduce_position_stop_limit env ex mt symb quantity trigger_price price pside tif source sig strat =
     andThen (load_open_position ex mt symb pside) (\<lambda>p.
     andThen (liftSum (reduce_quantity p quantity)) (\<lambda>reduce_qty.
     andThen (liftSum (opposite_side_for_position p)) (\<lambda>side.
     submit_request env
       (position_request ex mt (p_symbol p) side STOP_LIMIT CONDITIONAL (Some tif) (dec_format_f reduce_qty)
          (Some price) (Some trigger_price) (reduce_only_for_position p) False (p_position_side p) PA_REDUCE)
       source sig strat)))"

section \<open>Opening, increasing and flipping\<close>

definition open_position_market ::
  "gateway_env \<Rightarrow> exchange \<Rightarrow> market_type \<Rightarrow> string \<Rightarrow> order_side \<Rightarrow> string \<Rightarrow> position_side \<Rightarrow>
   order_source \<Rightarrow> string option \<Rightarrow> string option \<Rightarrow> order xprog" where
  "open_position_market env ex mt symb side quantity pside source sig strat =
     andThen (liftSum (validate_perp_or_futures mt)) (\<lambda>_.
     andThen (liftSum (validate_open_side pside side)) (\<lambda>_.
     andThen (liftSum (validate_positive_quantity quantity)) (\<lambda>open_qty.
     submit_request env
       (position_request ex mt (upper symb) side MARKET REGULAR None (dec_format_f open_qty) None None
          False False pside PA_OPEN) source sig strat)))"

definition increase_position_market ::
  "gateway_env \<Rightarrow> exchange \<Rightarrow> market_type \<Rightarrow> string \<Rightarrow> order_side \<Rightarrow> string \<Rightarrow> position_side \<Rightarrow>
   order_source \<Rightarrow> string option \<Rightarrow> string option \<Rightarrow> order xprog" where
  "increase_position_market env ex mt symb side quantity pside source sig strat =
     andThen (liftSum (validate_positive_quantity quantity)) (\<lambda>increase_qty.
     andThen (load_open_position ex mt symb pside) (\<lambda>p.
     andThen (liftSum (to_decimal (p_position_amt p))) (\<lambda>amt.
     andThen (liftSum (validate_increase_side p side amt)) (\<lambda>_.
     submit_request env
       (position_request ex mt (p_symbol p) side MARKET REGULAR None (dec_format_f increase_qty) None None
          False False (p_position_side p) PA_INCREASE) source sig strat))))"

text \<open>The action, symbol and side of the combined operation.\<close>

definition open_or_increase ::
  "position option \<Rightarrow> string \<Rightarrow> order_side \<Rightarrow> position_side \<Rightarrow> exn + position_action \<times> string \<times> position_side" where
  "open_or_increase found symb side pside =
     (case found of
        None \<Rightarrow> sum_bind (validate_open_side pside side) (\<lambda>_. Inr (PA_OPEN, upper symb, pside))
      | Some p \<Rightarrow>
          sum_bind (to_decimal (p_position_amt p)) (\<lambda>amt.
          sum_bind (if p_status p \<noteq> PS_OPEN then Inr True else or_invalid (dec_eq_zero amt)) (\<lambda>flat.
          if flat
          then sum_bind (validate_open_side (p_position_side p) side) (\<lambda>_. Inr (PA_OPEN, p_symbol p, p_position_side p))
          else sum_bind (validate_increase_side p side amt) (\<lambda>_. Inr (PA_INCREASE, p_symbol p, p_position_side p)))))"

definition open_or_increase_position_market ::
  "gateway_env \<Rightarrow> exchange \<Rightarrow> market_type \<Rightarrow> string \<Rightarrow> order_side \<Rightarrow> string \<Rightarrow> position_side \<Rightarrow>
   order_source \<Rightarrow> string option \<Rightarrow> string option \<Rightarrow> order xprog" where
  "open_or_increase_position_market env ex mt symb side quantity pside source sig strat =
     andThen (liftSum (validate_positive_quantity quantity)) (\<lambda>order_qty.
     andThen (try_load_position ex mt symb pside) (\<lambda>found.
     andThen (liftSum (open_or_increase found symb side pside)) (\<lambda>(act, order_symbol, order_pside).
     submit_request env
       (position_request ex mt order_symbol side MARKET REGULAR None (dec_format_f order_qty) None None
          False False order_pside act) source sig strat)))"

definition flip_quantity :: "position \<Rightarrow> pydecimal \<Rightarrow> exn + pydecimal" where
  "flip_quantity p target_qty =
     (if \<not> reduce_only_for_position p then Inl (FlipPositionError ''only for one-way position_side=BOTH'')
      else sum_bind (decimal_abs (p_position_amt p)) (\<lambda>current_abs.
           sum_bind (or_invalid (dec_less dec_zero current_abs)) (\<lambda>positive.
           if \<not> positive then Inl (ClosePositionError ''position amount is zero'')
           else or_invalid (dec_add current_abs target_qty))))"

definition flip_position_market ::
  "gateway_env \<Rightarrow> exchange \<Rightarrow> market_type \<Rightarrow> string \<Rightarrow> string \<Rightarrow> position_side \<Rightarrow>
   order_source \<Rightarrow> string option \<Rightarrow> string option \<Rightarrow> order xprog" where
  "flip_position_market env ex mt symb target_quantity pside source sig strat =
     andThen (liftSum (validate_positive_quantity target_quantity)) (\<lambda>target_qty.
     andThen (load_open_position ex mt symb pside) (\<lambda>p.
     andThen (liftSum (flip_quantity p target_qty)) (\<lambda>order_qty.
     andThen (liftSum (opposite_side_for_position p)) (\<lambda>side.
     submit_request env
       (position_request ex mt (p_symbol p) side MARKET REGULAR None (dec_format_f order_qty) None None
          False False (p_position_side p) PA_FLIP) source sig strat))))"

end
