(* ===== verification/PositionOutcome.thy ===== *)
theory PositionOutcome
  imports PositionService
begin

text \<open>
  What the position service guarantees: the table follows its event log, late and repeated snapshots
  converge to the newest, a stale one changes nothing but is logged, and the Redis projection shows
  whoever wrote last.
\<close>

section \<open>Concrete states\<close>

definition empty_positions :: position_store where
  "empty_positions =
     \<lparr>ps_clock = (\<lambda>n. 1000 + int n), ps_ticks = 0, ps_pg_ok = (\<lambda>_. True), ps_pg_calls = 0,
      ps_rd_ok = (\<lambda>_. True), ps_rd_calls = 0, ps_rows = (\<lambda>_. None), ps_keys = [], ps_outbox = [],
      ps_live = (\<lambda>_. None), ps_ttl = (\<lambda>_. None), ps_open = (\<lambda>_. []), ps_symbol = (\<lambda>_. [])\<rparr>"

lemma empty_positions_inv: "pos_inv empty_positions"
  by (simp add: pos_inv_def pos_entry_ok_def empty_positions_def position_events_def)

definition sample_snapshot :: "string \<Rightarrow> int \<Rightarrow> normalized_snapshot" where
  "sample_snapshot amt time =
     \<lparr>np_exchange = BINANCE, np_market_type = PERP, np_symbol = ''BTCUSDT'', np_position_side = BOTH,
      np_status = PS_OPEN, np_position_amt = amt, np_entry_price = Some ''60.5'', np_break_even_price = None,
      np_mark_price = None, np_unrealized_pnl = None, np_isolated_margin = None, np_isolated_wallet = None,
      np_margin_type = None, np_leverage = Some 5, np_liquidation_price = None, np_notional = None,
      np_update_reason = Some ''ORDER'', np_event_time = time, np_transaction_time = Some time\<rparr>"

section \<open>Properties\<close>

text \<open>C20: Whatever snapshots arrive and whichever store calls fail: every position row is the position
  its last outbox event carries, was written at most as often as it has events, is \<open>OPEN\<close> exactly when
  its amount is not zero, has an opening time then, and has a closing time exactly when it is flat,
  namely the time of its last update.\<close>

theorem position_table_follows_log:
  assumes "pos_inv s"
    and "t = snd (apply_position_snapshots sns ev (snd (refresh_position_snapshots xs now s)))"
    and "ps_rows t i = Some row"
  shows "p_position_id row = i \<and> position_of_row row = Inr (last (position_events i t)) \<and>
    p_version row \<le> int (length (position_events i t)) \<and>
    (p_status row = PS_OPEN) = (\<not> numeric_zero (p_position_amt row)) \<and>
    (numeric_zero (p_position_amt row) \<or> p_opened_ts row \<noteq> None) \<and>
    p_closed_ts row = (if numeric_zero (p_position_amt row) then Some (p_updated_ts row) else None)"
proof -
  have "pos_inv (snd (refresh_position_snapshots xs now s))"
    using safeD(1) [OF refresh_position_snapshots_safe assms(1) TrueI surjective_pairing] .
  from safeD(1) [OF apply_position_snapshots_safe this TrueI surjective_pairing]
  have "pos_inv t" using assms(2) by simp
  then have "pos_entry_ok t i" by (simp add: pos_inv_def)
  with assms(3) have "position_row_ok i row" "position_of_row row = Inr (last (position_events i t))"
    "p_version row \<le> int (length (position_events i t))" by (simp_all add: pos_entry_ok_def)
  then show ?thesis unfolding position_row_ok_def by blast
qed

section \<open>Convergence\<close>

text \<open>The columns an update overwrites: the others are blanked.\<close>

definition content :: "position_row \<Rightarrow> position_row" where
  "content row = row\<lparr>p_position_id := [], p_exchange := BINANCE, p_market_type := SPOT, p_symbol := [],
     p_position_side := BOTH, p_opened_ts := None, p_closed_ts := None, p_version := 0\<rparr>"

lemma content_upsert [simp]: "content (upsert_row new row) = content new"
  by (simp add: content_def upsert_row_def)

lemma content_time: "content a = content b \<Longrightarrow> p_last_event_time a = p_last_event_time b"
  by (drule arg_cong [where f = p_last_event_time]) (simp add: content_def)

definition row_after :: "position_row list \<Rightarrow> position_row option \<Rightarrow> position_row option" where
  "row_after news found = fold (\<lambda>new found. Some (stored_row new found)) news found"

lemma row_after_newest:
  assumes "\<forall>x\<in>set news. \<exists>t. p_last_event_time x = Some t \<and> t \<le> latest \<and> (t = latest \<longrightarrow> x = new)"
    and "p_last_event_time new = Some latest" and "new \<in> set news \<or> content cur = content new"
    and "\<exists>t. p_last_event_time cur = Some t \<and> t \<le> latest \<and> (t = latest \<longrightarrow> content cur = content new)"
  shows "\<exists>row. row_after news (Some cur) = Some row \<and> content row = content new"
  using assms
proof (induction news arbitrary: cur)
  case Nil
  then show ?case by (simp add: row_after_def)
next
  case (Cons x news)
  obtain t where t: "p_last_event_time x = Some t" "t \<le> latest" "t = latest \<longrightarrow> x = new" using Cons.prems(1) by auto
  obtain u where u: "p_last_event_time cur = Some u" "u \<le> latest" "u = latest \<longrightarrow> content cur = content new"
    using Cons.prems(4) by auto
  let ?cur = "stored_row x (Some cur)"
  have cur: "content ?cur = (if u \<le> t then content x else content cur)"
    by (simp add: stored_row_def upsert_guard_def t u)
  have "new \<in> set news \<or> content ?cur = content new"
    using Cons.prems(2,3) t u cur by (auto dest: content_time)
  moreover have "\<exists>v. p_last_event_time ?cur = Some v \<and> v \<le> latest \<and> (v = latest \<longrightarrow> content ?cur = content new)"
  proof (cases "u \<le> t")
    case True
    then have "content ?cur = content x" by (simp add: cur)
    from content_time [OF this] this t show ?thesis by auto
  next
    case False
    then have "content ?cur = content cur" by (simp add: cur)
    from content_time [OF this] this u show ?thesis by auto
  qed
  moreover have "\<forall>x\<in>set news. \<exists>t. p_last_event_time x = Some t \<and> t \<le> latest \<and> (t = latest \<longrightarrow> x = new)"
    using Cons.prems(1) by simp
  ultimately show ?case
    using Cons.IH [OF _ Cons.prems(2)] by (simp add: row_after_def)
qed

lemma persist_rows:
  assumes inv: "pos_inv s" and up: "\<forall>n. ps_pg_ok s n" and valid: "valid_position p"
    and new: "upsert_insert_values p = Inr new"
  shows "ps_rows (snd (persist_transaction p ev s)) (p_position_id p) =
      Some (stored_row new (ps_rows s (p_position_id p)))"
    and "ps_pg_ok (snd (persist_transaction p ev s)) = ps_pg_ok s"
    and "pos_inv (snd (persist_transaction p ev s))"
proof -
  have "ps_pg_ok s (ps_pg_calls s)" using up by simp
  from persist_transaction_up [OF inv this new valid, of ev] obtain q where
    "persist_transaction p ev s = (Inr q, persisted_store p ev (stored_row new (ps_rows s (p_position_id p))) q s)" .
  then show "ps_rows (snd (persist_transaction p ev s)) (p_position_id p) = Some (stored_row new (ps_rows s (p_position_id p)))"
    and "ps_pg_ok (snd (persist_transaction p ev s)) = ps_pg_ok s"
    by (simp_all add: persisted_store_def put_row_def)
  show "pos_inv (snd (persist_transaction p ev s))"
    using safeD(1) [OF persist_transaction_safe [OF valid] inv TrueI surjective_pairing] .
qed

definition persist_all :: "string \<Rightarrow> position list \<Rightarrow> position_store \<Rightarrow> position_store" where
  "persist_all ev qs s = fold (\<lambda>p s. snd (persist_transaction p ev s)) qs s"

lemma persist_all_rows:
  assumes "pos_inv s" and "\<forall>n. ps_pg_ok s n"
    and "list_all2 (\<lambda>p new. valid_position p \<and> p_position_id p = i \<and> upsert_insert_values p = Inr new) qs news"
  shows "ps_rows (persist_all ev qs s) i = row_after news (ps_rows s i)"
  using assms
proof (induction qs arbitrary: s news)
  case (Cons p qs)
  then obtain new news' where news: "news = new # news'" and p: "valid_position p" "p_position_id p = i" "upsert_insert_values p = Inr new"
    and rest: "list_all2 (\<lambda>p new. valid_position p \<and> p_position_id p = i \<and> upsert_insert_values p = Inr new) qs news'"
    by (cases news) auto
  note rows = persist_rows [OF Cons.prems(1,2) p(1,3), of ev]
  have "ps_rows (persist_all ev qs (snd (persist_transaction p ev s))) i =
      row_after news' (ps_rows (snd (persist_transaction p ev s)) i)"
    by (rule Cons.IH [OF rows(3) _ rest]) (simp add: rows(2) Cons.prems(2))
  with rows(1) p(2) show ?case by (simp add: persist_all_def news row_after_def)
qed (simp add: persist_all_def row_after_def)

text \<open>C21: Position snapshots may be delivered late, out of order and repeatedly: when the one with the
  latest event time has been delivered, the row shows its content, in whatever order they came.\<close>

theorem position_snapshots_converge:
  assumes "pos_inv s" and "\<forall>n. ps_pg_ok s n" and "ps_rows s i = None" and "new \<in> set qs"
    and "list_all (\<lambda>p. valid_position p \<and> p_position_id p = i \<and> isl (upsert_insert_values p) = False) qs"
    and "p_last_event_time new = Some latest"
    and "list_all (\<lambda>p. \<exists>t. p_last_event_time p = Some t \<and> (p = new \<or> t < latest)) qs"
  shows "\<exists>row x. ps_rows (persist_all ev qs s) i = Some row \<and> upsert_insert_values new = Inr x \<and> content row = content x"
proof -
  let ?ins = "\<lambda>p. projr (upsert_insert_values p)"
  have ins: "upsert_insert_values p = Inr (?ins p)" if "p \<in> set qs" for p
    using assms(5) that by (cases "upsert_insert_values p") (auto simp: list_all_iff)
  have time: "p_last_event_time (?ins p) = p_last_event_time p" if "p \<in> set qs" for p
    using ins [OF that] by (auto simp: upsert_insert_values_def split: option.splits if_splits)
  have all: "list_all2 (\<lambda>p new. valid_position p \<and> p_position_id p = i \<and> upsert_insert_values p = Inr new) qs (map ?ins qs)"
    using assms(5) ins by (auto simp: list_all2_conv_all_nth list_all_length)
  have times: "\<exists>t. p_last_event_time x = Some t \<and> t \<le> latest \<and> (t = latest \<longrightarrow> x = ?ins new)" if "x \<in> set (map ?ins qs)" for x
  proof -
    obtain p where p: "p \<in> set qs" "x = ?ins p" using \<open>x \<in> set (map ?ins qs)\<close> by auto
    with assms(6,7) time [OF p(1)] show ?thesis by (force simp: list_all_iff)
  qed
  obtain p qs' where qs: "qs = p # qs'" using assms(4) by (cases qs) auto
  have first: "row_after (map ?ins qs) None = row_after (map ?ins qs') (Some (?ins p))"
    by (simp add: qs row_after_def stored_row_def)
  have "\<exists>row. row_after (map ?ins qs') (Some (?ins p)) = Some row \<and> content row = content (?ins new)"
  proof (rule row_after_newest)
    show "\<forall>x\<in>set (map ?ins qs'). \<exists>t. p_last_event_time x = Some t \<and> t \<le> latest \<and> (t = latest \<longrightarrow> x = ?ins new)"
      using times by (simp add: qs)
    show "p_last_event_time (?ins new) = Some latest" using time assms(4,6) by simp
    show "?ins new \<in> set (map ?ins qs') \<or> content (?ins p) = content (?ins new)" using assms(4) by (auto simp: qs)
    show "\<exists>t. p_last_event_time (?ins p) = Some t \<and> t \<le> latest \<and> (t = latest \<longrightarrow> content (?ins p) = content (?ins new))"
      using times [of "?ins p"] by (auto simp: qs)
  qed
  with persist_all_rows [OF assms(1,2) all, of ev] assms(3) first ins [OF assms(4)] show ?thesis by auto
qed

text \<open>A snapshot older than the row leaves the row as it is; it is nevertheless logged: the outbox
  gets one more event, which repeats the current row.\<close>

lemma stale_snapshot_logged:
  assumes "pos_inv s" and "ps_pg_ok s (ps_pg_calls s)" and "valid_position p"
    and "upsert_insert_values p = Inr new" and "ps_rows s (p_position_id p) = Some row"
    and "\<not> upsert_guard new row"
  shows "\<exists>q t. persist_transaction p ev s = (Inr q, t) \<and> ps_rows t = ps_rows s \<and> position_of_row row = Inr q \<and>
    position_events (p_position_id p) t = position_events (p_position_id p) s @ [q]"
proof -
  have row: "stored_row new (ps_rows s (p_position_id p)) = row" using assms(5,6) by (simp add: stored_row_def)
  from persist_transaction_up [OF assms(1,2,4,3), of ev] obtain q where
    q: "persist_transaction p ev s = (Inr q, persisted_store p ev row q s)" "position_of_row row = Inr q"
      "p_position_id q = p_position_id p"
    unfolding row .
  have "ps_rows (persisted_store p ev row q s) = ps_rows s"
    using assms(5) by (simp add: persisted_store_def put_row_def fun_upd_idem)
  moreover have "position_events (p_position_id p) (persisted_store p ev row q s) =
      position_events (p_position_id p) s @ [q]"
    using q(3) by (simp add: persisted_store_def put_row_def position_events_def)
  ultimately show ?thesis using q by blast
qed

text \<open>The Redis projection of positions has no version guard: the save that comes last decides. A
  reader that refreshes the projection with a row it read before an update puts the old version back,
  and the open index follows it.\<close>

lemma position_projection_last_writer:
  assumes "\<forall>n. ps_rd_ok s n" and "from_position new = Inr es" and "from_position old = Inr es'"
    and "p_position_id old = p_position_id new" and "p_version old < p_version new"
    and "t = snd (save_position old (snd (save_position new s)))"
  shows "\<exists>f. ps_live t (p_position_id new) = Some f \<and> f ''version'' = Some (HText (show_int (p_version old))) \<and>
    f ''position_amt'' = Some (HText (p_position_amt old)) \<and>
    (p_position_id new \<in> set (ps_open t (open_key (upper (exchange_value (p_exchange old)))
       (upper (market_type_value (p_market_type old)))))) = (p_status old = PS_OPEN)"
proof -
  have stored: "map_of es' k = stored_field old POSITION_FIELDS k" for k
    using from_source_stored assms(3) by (metis from_position_def)
  have fields: "stored_field old POSITION_FIELDS ''version'' = Some (HText (show_int (p_version old)))"
    "stored_field old POSITION_FIELDS ''position_amt'' = Some (HText (p_position_amt old))"
    by (simp_all add: POSITION_FIELDS_def required_def payload_def)
  have t: "t = position_pipeline old es' ((position_pipeline new es (s\<lparr>ps_rd_calls := Suc (ps_rd_calls s)\<rparr>))
      \<lparr>ps_rd_calls := Suc (Suc (ps_rd_calls s))\<rparr>)"
    using assms(1,2,3,6) by (simp add: save_position_def ps_redis_def prog_simps Let_def position_pipeline_def)
  have "hset es' h ''version'' = Some (HText (show_int (p_version old)))"
    "hset es' h ''position_amt'' = Some (HText (p_position_amt old))" for h
    using stored fields by (cases h; simp add: hset_def map_add_Some_iff)+
  then show ?thesis
    unfolding t position_pipeline_def Let_def using assms(4) by (auto simp: sadd_def srem_def)
qed

section \<open>Instances\<close>

definition sample_position :: "string \<Rightarrow> int \<Rightarrow> position" where
  "sample_position amt time =
     \<lparr>p_position_id = ''BINANCE:PERP:BTCUSDT:BOTH'', p_exchange = BINANCE, p_market_type = PERP,
      p_symbol = ''BTCUSDT'', p_position_side = BOTH,
      p_status = (if amt = ''0'' then PS_FLAT else PS_OPEN), p_position_amt = amt,
      p_entry_price = Some ''60.5'', p_break_even_price = None, p_mark_price = None, p_unrealized_pnl = None,
      p_isolated_margin = None, p_isolated_wallet = None, p_margin_type = None, p_leverage = Some 5,
      p_liquidation_price = None, p_notional = None, p_update_reason = Some ''ORDER'',
      p_last_event_time = Some time, p_last_transaction_time = Some time, p_opened_ts = None,
      p_closed_ts = None, p_updated_ts = time, p_version = 1\<rparr>"

lemma sample_texts:
  "make_position_id BINANCE PERP ''BTCUSDT'' BOTH = ''BINANCE:PERP:BTCUSDT:BOTH''" "upper ''BTCUSDT'' = ''BTCUSDT''"
  "decimal_of_string ''0.50'' = Some (DFin False 50 (- 2))" "decimal_of_string ''0'' = Some (DFin False 0 0)"
  "decimal_of_string ''60.5'' = Some (DFin False 605 (- 1))"
  by code_simp+

lemma sample_statuses:
  "infer_position_status ''0.50'' = Inr PS_OPEN" "infer_position_status ''0'' = Inr PS_FLAT"
  by (simp_all add: infer_position_status_def sample_texts)

lemma samples_valid_position:
  "valid_position (sample_position ''0.50'' t)" "valid_position (sample_position ''0'' t)"
  by (simp_all add: valid_position_def sample_position_def sample_texts sample_statuses)

lemma sample_position_at:
  "p_position_id (sample_position amt t) = ''BINANCE:PERP:BTCUSDT:BOTH''"
  "p_last_event_time (sample_position amt t) = Some t"
  "isl (upsert_insert_values (sample_position ''0.50'' t)) \<longleftrightarrow> False"
  "isl (upsert_insert_values (sample_position ''0'' t)) = False"
  by (simp_all add: upsert_insert_values_def sample_position_def sample_texts numerics_def List.map_filter_simps)

text \<open>A store that holds one flat position.\<close>

definition flat_positions :: position_store where
  "flat_positions = snd (persist_transaction (sample_position ''0'' 200) ''POSITION_UPDATED'' empty_positions)"

lemma flat_positions_row:
  obtains x where "upsert_insert_values (sample_position ''0'' 200) = Inr x"
    and "ps_rows flat_positions ''BINANCE:PERP:BTCUSDT:BOTH'' = Some x" and "pos_inv flat_positions"
    and "\<And>n. ps_pg_ok flat_positions n" and "p_last_event_time x = Some 200"
    and "length (position_events ''BINANCE:PERP:BTCUSDT:BOTH'' flat_positions) = 1"
proof -
  obtain x where x: "upsert_insert_values (sample_position ''0'' 200) = Inr x"
    using sample_position_at(4) [of 200] by (cases "upsert_insert_values (sample_position ''0'' 200)") auto
  have up: "\<forall>n. ps_pg_ok empty_positions n" by (simp add: empty_positions_def)
  note s = persist_rows [OF empty_positions_inv up samples_valid_position(2) x, of "''POSITION_UPDATED''"]
  have "ps_pg_ok empty_positions (ps_pg_calls empty_positions)" using up by simp
  from persist_transaction_up [OF empty_positions_inv this x samples_valid_position(2), of "''POSITION_UPDATED''"]
  obtain q where q: "flat_positions = persisted_store (sample_position ''0'' 200) ''POSITION_UPDATED''
      (stored_row x (ps_rows empty_positions (p_position_id (sample_position ''0'' 200)))) q empty_positions"
    "p_position_id q = ''BINANCE:PERP:BTCUSDT:BOTH''"
    unfolding flat_positions_def by (metis sample_position_at(1) snd_conv)
  have "length (position_events ''BINANCE:PERP:BTCUSDT:BOTH'' flat_positions) = 1"
    by (simp add: q persisted_store_def put_row_def position_events_def empty_positions_def)
  moreover have "p_last_event_time x = Some 200"
    using x sample_position_at(2) by (auto simp: upsert_insert_values_def split: option.splits if_splits)
  moreover have "stored_row x None = x" by (simp add: stored_row_def)
  ultimately show ?thesis
    using that x s up by (simp add: flat_positions_def sample_position_at empty_positions_def)
qed

lemma position_table_follows_log_witness:
  "\<exists>row. ps_rows (snd (apply_position_snapshots [sample_snapshot ''0.50'' 300] ''POSITION_UPDATED''
      (snd (refresh_position_snapshots [] None flat_positions)))) ''BINANCE:PERP:BTCUSDT:BOTH'' = Some row \<and>
    (p_status row = PS_OPEN) = (\<not> numeric_zero (p_position_amt row))"
proof -
  let ?s = "snd (refresh_position_snapshots [] None flat_positions)"
  obtain x where x: "ps_rows flat_positions ''BINANCE:PERP:BTCUSDT:BOTH'' = Some x" "pos_inv flat_positions"
    by (rule flat_positions_row) blast
  have s: "pos_inv ?s" "pos_evolves flat_positions ?s"
    using safeD(1,2) [OF refresh_position_snapshots_safe x(2) TrueI surjective_pairing] by blast+
  have "pos_evolves ?s (snd (apply_position_snapshots [sample_snapshot ''0.50'' 300] ''POSITION_UPDATED'' ?s))"
    using safeD(2) [OF apply_position_snapshots_safe s(1) TrueI surjective_pairing] .
  with s(2) x(1) obtain row where
    row: "ps_rows (snd (apply_position_snapshots [sample_snapshot ''0.50'' 300] ''POSITION_UPDATED'' ?s))
      ''BINANCE:PERP:BTCUSDT:BOTH'' = Some row"
    using pos_evolves_trans unfolding pos_evolves_def by blast
  from position_table_follows_log [OF x(2) refl row] row show ?thesis by blast
qed

lemma position_snapshots_converge_witness:
  "\<exists>row x. ps_rows (persist_all ''POSITION_UPDATED'' [sample_position ''0'' 200, sample_position ''0.50'' 100] empty_positions)
      ''BINANCE:PERP:BTCUSDT:BOTH'' = Some row \<and>
    upsert_insert_values (sample_position ''0'' 200) = Inr x \<and> content row = content x"
proof -
  have "list_all (\<lambda>p. valid_position p \<and> p_position_id p = ''BINANCE:PERP:BTCUSDT:BOTH'' \<and> isl (upsert_insert_values p) = False)
      [sample_position ''0'' 200, sample_position ''0.50'' 100]"
    by (simp add: samples_valid_position sample_position_at)
  from position_snapshots_converge [OF empty_positions_inv _ _ _ this sample_position_at(2)] show ?thesis
    by (simp add: empty_positions_def sample_position_at)
qed

end
