(* ===== verification/PositionOrderOutcome.thy ===== *)
theory PositionOrderOutcome
  imports PositionOrders PositionOutcome Samples
begin

text \<open>
  What the orders of \<open>PositionOrders\<close> do to a position: closing leaves nothing, reducing never
  crosses zero, increasing keeps the direction, flipping ends on the other side.  Any operation
  that raises before its order is built leaves the gateway alone.
\<close>

section \<open>Calls\<close>

datatype position_call =
    CloseMarket
  | CloseLimit string time_in_force
  | CloseStopMarket string bool
  | CloseStopLimit string string time_in_force
  | ReduceMarket string
  | ReduceLimit string string time_in_force
  | ReduceStopMarket string string
  | ReduceStopLimit string string string time_in_force
  | OpenMarket order_side string
  | IncreaseMarket order_side string
  | OpenOrIncreaseMarket order_side string
  | FlipMarket string

fun run_position_call ::
  "gateway_env \<Rightarrow> position_call \<Rightarrow> exchange \<Rightarrow> market_type \<Rightarrow> string \<Rightarrow> position_side \<Rightarrow>
   order_source \<Rightarrow> string option \<Rightarrow> string option \<Rightarrow> order xprog" where
  "run_position_call env CloseMarket ex mt symb pside = close_position_market env ex mt symb pside"
| "run_position_call env (CloseLimit price tif) ex mt symb pside =
     close_position_limit env ex mt symb price pside tif"
| "run_position_call env (CloseStopMarket trigger use_close) ex mt symb pside =
     close_position_stop_market env ex mt symb trigger pside use_close"
| "run_position_call env (CloseStopLimit trigger price tif) ex mt symb pside =
     close_position_stop_limit env ex mt symb trigger price pside tif"
| "run_position_call env (ReduceMarket q) ex mt symb pside = reduce_position_market env ex mt symb q pside"
| "run_position_call env (ReduceLimit q price tif) ex mt symb pside =
     reduce_position_limit env ex mt symb q price pside tif"
| "run_position_call env (ReduceStopMarket q trigger) ex mt symb pside =
     reduce_position_stop_market env ex mt symb q trigger pside"
| "run_position_call env (ReduceStopLimit q trigger price tif) ex mt symb pside =
     reduce_position_stop_limit env ex mt symb q trigger price pside tif"
| "run_position_call env (OpenMarket side q) ex mt symb pside = open_position_market env ex mt symb side q pside"
| "run_position_call env (IncreaseMarket side q) ex mt symb pside =
     increase_position_market env ex mt symb side q pside"
| "run_position_call env (OpenOrIncreaseMarket side q) ex mt symb pside =
     open_or_increase_position_market env ex mt symb side q pside"
| "run_position_call env (FlipMarket q) ex mt symb pside = flip_position_market env ex mt symb q pside"

text \<open>The number a text stands for, what an order makes of an amount once it is filled, and what each
  call promises of the amount before and after.\<close>

definition amount :: "string \<Rightarrow> rat" where
  "amount t = dval (parse_dec t)"

definition direction :: "order_side \<Rightarrow> rat" where
  "direction side = (if side = BUY then 1 else - 1)"

definition order_effect :: "order_request \<Rightarrow> rat \<Rightarrow> rat" where
  "order_effect req a = (if r_close_position req then 0 else a + direction (r_side req) * amount (r_quantity req))"

fun intended :: "position_call \<Rightarrow> rat \<Rightarrow> rat \<Rightarrow> bool" where
  "intended (ReduceMarket q) a b = (\<bar>b\<bar> = \<bar>a\<bar> - amount q \<and> \<bar>b\<bar> < \<bar>a\<bar> \<and> 0 \<le> a * b)"
| "intended (ReduceLimit q _ _) a b = (\<bar>b\<bar> = \<bar>a\<bar> - amount q \<and> \<bar>b\<bar> < \<bar>a\<bar> \<and> 0 \<le> a * b)"
| "intended (ReduceStopMarket q _) a b = (\<bar>b\<bar> = \<bar>a\<bar> - amount q \<and> \<bar>b\<bar> < \<bar>a\<bar> \<and> 0 \<le> a * b)"
| "intended (ReduceStopLimit q _ _ _) a b = (\<bar>b\<bar> = \<bar>a\<bar> - amount q \<and> \<bar>b\<bar> < \<bar>a\<bar> \<and> 0 \<le> a * b)"
| "intended (OpenMarket side q) a b = (b = a + direction side * amount q \<and> 0 < amount q)"
| "intended (IncreaseMarket side q) a b = (\<bar>b\<bar> = \<bar>a\<bar> + amount q \<and> \<bar>a\<bar> < \<bar>b\<bar> \<and> 0 < a * b)"
| "intended (OpenOrIncreaseMarket side q) a b = (\<bar>b\<bar> = \<bar>a\<bar> + amount q \<and> \<bar>a\<bar> < \<bar>b\<bar> \<and> 0 < direction side * b)"
| "intended (FlipMarket q) a b = (\<bar>b\<bar> = amount q \<and> a * b < 0)"
| "intended _ a b = (b = 0)"

definition exit_call :: "position_call \<Rightarrow> bool" where
  "exit_call call = (case call of
     OpenMarket _ _ \<Rightarrow> False | IncreaseMarket _ _ \<Rightarrow> False | OpenOrIncreaseMarket _ _ \<Rightarrow> False
   | FlipMarket _ \<Rightarrow> False | _ \<Rightarrow> True)"

text \<open>A run either raises before any order or is the gateway's \<open>submit_order\<close> of one request.\<close>

definition submits ::
  "gateway_env \<Rightarrow> order_source \<Rightarrow> string option \<Rightarrow> string option \<Rightarrow> (order_request \<Rightarrow> bool) \<Rightarrow>
   order xprog \<Rightarrow> world \<times> position_store \<Rightarrow> bool" where
  "submits env source sig strat P m s \<longleftrightarrow>
     (\<exists>ps. same_positions (snd s) ps \<and>
        ((\<exists>e. m s = (Inl e, (fst s, ps))) \<or>
         (\<exists>req. P req \<and> m s = on_gateway (submit_order env req source sig strat) (fst s, ps))))"

lemma same_positions_refl [simp]: "same_positions s s"
  by (simp add: same_positions_def)

lemma same_positions_trans: "same_positions s t \<Longrightarrow> same_positions t u \<Longrightarrow> same_positions s u"
  by (simp add: same_positions_def)

lemma submits_liftSum:
  assumes "\<And>x. r = Inr x \<Longrightarrow> submits env source sig strat P (f x) s"
  shows "submits env source sig strat P (andThen (liftSum r) f) s"
proof (cases r)
  case (Inl e)
  then have "andThen (liftSum r) f s = (Inl e, (fst s, snd s))" by (simp add: prog_simps)
  then show ?thesis using same_positions_refl unfolding submits_def by blast
next
  case (Inr x)
  then have "andThen (liftSum r) f s = f x s" by (simp add: prog_simps)
  with assms [OF Inr] show ?thesis by (simp add: submits_def)
qed

lemma submits_request:
  assumes "\<And>r. validate_request req = Inr r \<Longrightarrow> P r"
  shows "submits env source sig strat P (submit_request env req source sig strat) s"
  unfolding submit_request_def
proof (rule submits_liftSum)
  fix r assume "validate_request req = Inr r"
  with assms have "P r" by simp
  moreover have "s = (fst s, snd s)" by simp
  ultimately show "submits env source sig strat P (on_gateway (submit_order env r source sig strat)) s"
    using same_positions_refl unfolding submits_def by metis
qed

text \<open>Loading a position changes its projection at most.\<close>

lemma try_save_returns:
  obtains t where "try_save p s = (Inr (), t)"
  by (cases "save_position p s"; cases "fst (save_position p s)") (auto simp: try_save_def prog_simps)

lemma load_position_run:
  obtains e ps' where "load_position i True ps = (Inl e, ps')" and "same_positions ps ps'"
      and "e = OtherError ''postgres'' \<or> (\<exists>row. ps_rows ps i = Some row \<and> position_of_row row = Inl e)"
  | ps' where "load_position i True ps = (Inr None, ps')" and "same_positions ps ps'" and "ps_rows ps i = None"
  | p row ps' where "load_position i True ps = (Inr (Some p), ps')" and "same_positions ps ps'"
      and "ps_rows ps i = Some row" and "position_of_row row = Inr p"
proof -
  obtain r t where rt: "ps_read (repo_get i) ps = (r, t)" by fastforce
  have t: "same_positions ps t" using ps_read_same [of ps "repo_get i"] by (simp add: rt)
  have r: "r = Inl (OtherError ''postgres'') \<or> r = Inr (ps_rows ps i)"
    using rt by (auto simp: ps_read_def ps_transaction_def prog_simps Let_def repo_get_def split: if_splits)
  show ?thesis
  proof (cases r)
    case (Inl e)
    with rt have "load_position i True ps = (Inl e, t)" by (simp add: load_position_def prog_simps)
    with t that(1) r Inl show ?thesis by blast
  next
    case (Inr found)
    show ?thesis
    proof (cases found)
      case None
      with Inr r rt t that(2) show ?thesis by (simp add: load_position_def prog_simps)
    next
      case (Some row)
      show ?thesis
      proof (cases "position_of_row row")
        case (Inl e)
        with Inr Some rt have "load_position i True ps = (Inl e, t)" by (simp add: load_position_def prog_simps)
        with t that(1) r Inr Some Inl show ?thesis by (metis Inl_Inr_False sum.inject(2))
      next
        case p: (Inr p)
        obtain u where u: "try_save p t = (Inr (), u)" by (rule try_save_returns)
        then have "same_positions ps u"
          using same_positions_trans [OF t] try_save_same [of t p] by simp
        moreover have row: "ps_rows ps i = Some row" using r Inr Some by simp
        moreover have "ps_read (repo_get i) ps = (Inr (Some row), t)" using rt Inr Some by simp
        then have "load_position i True ps = (Inr (Some p), u)" using u p by (simp add: load_position_def prog_simps)
        ultimately show ?thesis using p that(3) by blast
      qed
    qed
  qed
qed

text \<open>What the table holds for a position, and what loading it yields.\<close>

definition stored ::
  "exchange \<Rightarrow> market_type \<Rightarrow> string \<Rightarrow> position_side \<Rightarrow> position_store \<Rightarrow> position option \<Rightarrow> bool" where
  "stored ex mt symb pside ps found \<longleftrightarrow>
     (case ps_rows ps (make_position_id ex mt symb pside) of
        None \<Rightarrow> found = None
      | Some row \<Rightarrow> \<exists>p. found = Some p \<and> position_of_row row = Inr p)"

lemma submits_moved:
  assumes "submits env source sig strat P m (w, ps')" and "same_positions ps ps'" and "m' (w, ps) = m (w, ps')"
  shows "submits env source sig strat P m' (w, ps)"
proof -
  obtain q where q: "same_positions ps' q" "(\<exists>e. m (w, ps') = (Inl e, (w, q))) \<or>
      (\<exists>req. P req \<and> m (w, ps') = on_gateway (submit_order env req source sig strat) (w, q))"
    using assms(1) unfolding submits_def by auto
  from same_positions_trans [OF assms(2) q(1)] q(2) show ?thesis
    unfolding submits_def fst_conv snd_conv assms(3) by blast
qed

lemma load_order_position_run:
  assumes "stored ex mt symb pside ps found"
  obtains e ps' where "load_order_position ex mt symb pside (w, ps) = (Inl e, (w, ps'))" and "same_positions ps ps'"
      and "\<And>t. e = ClosePositionError t \<Longrightarrow> mt \<noteq> SPOT \<and> found = None"
  | p ps' where "load_order_position ex mt symb pside (w, ps) = (Inr p, (w, ps'))" and "same_positions ps ps'"
      and "mt \<noteq> SPOT" and "found = Some p"
proof (cases "mt = SPOT")
  case True
  then have "load_order_position ex mt symb pside (w, ps) = (Inl (PositionOrderError ''supports only PERP/FUTURES''), (w, ps))"
    by (simp add: load_order_position_def validate_perp_or_futures_def prog_simps)
  then show ?thesis using that(1) same_positions_refl by blast
next
  case False
  then have mt: "validate_perp_or_futures mt = Inr ()" by (cases mt) (simp_all add: validate_perp_or_futures_def)
  let ?i = "make_position_id ex mt symb pside"
  show ?thesis
  proof (cases rule: load_position_run [of ?i ps])
    case (1 e ps')
    then have "load_order_position ex mt symb pside (w, ps) = (Inl e, (w, ps'))"
      by (simp add: load_order_position_def mt on_positions_def prog_simps)
    moreover have "e \<noteq> ClosePositionError t" for t
      using assms 1(3) by (auto simp: stored_def)
    ultimately show ?thesis using that(1) 1 by blast
  next
    case (2 ps')
    then have "load_order_position ex mt symb pside (w, ps) = (Inl (ClosePositionError ''position not found''), (w, ps'))"
      by (simp add: load_order_position_def mt on_positions_def prog_simps)
    moreover have "found = None" using assms 2 by (simp add: stored_def)
    ultimately show ?thesis using that(1) False 2 by blast
  next
    case (3 p row ps')
    then have "load_order_position ex mt symb pside (w, ps) = (Inr p, (w, ps'))"
      by (simp add: load_order_position_def mt on_positions_def prog_simps)
    moreover have "found = Some p" using assms 3 by (simp add: stored_def)
    ultimately show ?thesis using that(2) False 3 by blast
  qed
qed

lemma submits_load:
  assumes "stored ex mt symb pside ps found"
    and "\<And>p ps'. found = Some p \<Longrightarrow> mt \<noteq> SPOT \<Longrightarrow> submits env source sig strat P (f p) (w, ps')"
  shows "submits env source sig strat P (andThen (load_order_position ex mt symb pside) f) (w, ps)"
proof (cases rule: load_order_position_run [OF assms(1), of w])
  case (1 e ps')
  then have "andThen (load_order_position ex mt symb pside) f (w, ps) = (Inl e, (w, ps'))"
    by (simp add: prog_simps)
  with 1(2) show ?thesis unfolding submits_def by (metis fst_conv snd_conv)
next
  case (2 p ps')
  from assms(2) [OF 2(4,3)] show ?thesis
    by (rule submits_moved [OF _ 2(2)]) (simp add: 2(1) prog_simps)
qed

lemma submits_load_open:
  assumes "stored ex mt symb pside ps found"
    and "\<And>p ps'. found = Some p \<Longrightarrow> mt \<noteq> SPOT \<Longrightarrow> assert_position_open p = Inr () \<Longrightarrow>
      submits env source sig strat P (f p) (w, ps')"
  shows "submits env source sig strat P (andThen (load_open_position ex mt symb pside) f) (w, ps)"
  unfolding load_open_position_def andThen_assoc
  using assms(2) by (intro submits_load [OF assms(1)] submits_liftSum) simp

lemma submits_try_load:
  assumes "stored ex mt symb pside ps found"
    and "\<And>ps'. mt \<noteq> SPOT \<Longrightarrow> submits env source sig strat P (f found) (w, ps')"
  shows "submits env source sig strat P (andThen (try_load_position ex mt symb pside) f) (w, ps)"
proof (cases rule: load_order_position_run [OF assms(1), of w])
  case (1 e ps')
  show ?thesis
  proof (cases "\<exists>t. e = ClosePositionError t")
    case True
    with 1(3) have "mt \<noteq> SPOT" "found = None" by auto
    with True have "submits env source sig strat P (f None) (w, ps')" using assms(2) by simp
    then show ?thesis
      by (rule submits_moved [OF _ 1(2)]) (use True in \<open>auto simp: try_load_position_def 1(1) prog_simps\<close>)
  next
    case False
    then have "andThen (try_load_position ex mt symb pside) f (w, ps) = (Inl e, (w, ps'))"
      by (cases e) (auto simp: try_load_position_def 1(1) prog_simps)
    with 1(2) show ?thesis unfolding submits_def by (metis fst_conv snd_conv)
  qed
next
  case (2 p ps')
  from assms(2) [OF 2(3)] have "submits env source sig strat P (f (Some p)) (w, ps')" by (simp add: 2(4))
  then show ?thesis
    by (rule submits_moved [OF _ 2(2)]) (simp add: try_load_position_def 2(1) prog_simps)
qed

section \<open>Requests\<close>

lemma decimal_of_stripped: "decimal_of_string (strip t) = decimal_of_string t"
  by (simp add: decimal_of_string_def)

text \<open>What the constructor of \<open>OrderRequest\<close> leaves of the fields the effect depends on.\<close>

lemma map_sum_as_validation: "map_sum as_validation id r = Inr x \<longleftrightarrow> r = Inr x"
  by (cases r) simp_all

lemma validated_position_request:
  assumes "validate_request (position_request ex mt symb side ty route tif q pr tr reduce close pside act) = Inr req"
    and "mt \<noteq> SPOT"
  shows "r_side req = side" and "amount (r_quantity req) = amount q" and "r_reduce_only req = reduce"
    and "r_close_position req = close" and "r_position_side req = pside" and "r_position_action req = act"
    and "decimal_pattern (strip q)"
proof -
  obtain r where r: "check_request_fields (position_request ex mt symb side ty route tif q pr tr reduce close pside act) = Inr r"
    "normalize_request_after_validation r = Inr req"
    using assms(1) by (auto simp: validate_request_def sum_bind_Inr_iff map_sum_as_validation)
  then have f: "r_side r = side" "r_quantity r = strip q" "r_reduce_only r = reduce" "r_close_position r = close"
    "r_position_side r = pside" "r_position_action r = act" "r_market_type r = mt" "decimal_pattern (strip q)"
    by (auto simp: check_request_fields_def position_request_def sum_bind_Inr_iff check_decimal_def decimal_string_def
        split: option.splits if_splits)
  then show "r_side req = side" and "amount (r_quantity req) = amount q" and "r_reduce_only req = reduce"
    and "r_close_position req = close" and "r_position_side req = pside" and "r_position_action req = act"
    and "decimal_pattern (strip q)"
    using r(2) assms(2)
    by (auto simp: normalize_request_after_validation_def Let_def sum_bind_Inr_iff amount_def parse_dec_def
        decimal_of_stripped normalize_position_metadata_for_order_def split: if_splits)
qed

text \<open>A quantity the services print is valid when it is a finite number, and prints that number.\<close>

lemma printed_amount:
  assumes "decimal_pattern (strip (dec_format_f d))"
  shows "dec_finite d" and "amount (dec_format_f d) = dval d"
proof -
  show fin: "dec_finite d"
  proof (cases d)
    case (DInf neg)
    have "decimal_pattern (strip ''Infinity'') = False" "decimal_pattern (strip ''-Infinity'') = False" by code_simp+
    with assms DInf show ?thesis by (cases neg) simp_all
  next
    case (DNaN signalling)
    have "decimal_pattern (strip ''NaN'') = False" "decimal_pattern (strip ''sNaN'') = False" by code_simp+
    with assms DNaN show ?thesis by (cases signalling) simp_all
  qed simp
  then show "amount (dec_format_f d) = dval d"
    by (rule format_round_trip) (simp add: amount_def parse_dec_def)
qed

section \<open>Amounts\<close>

text \<open>An amount \<open>abs\<close> does not round, with the sign of its side in hedge mode.\<close>

definition exact_position :: "position \<Rightarrow> bool" where
  "exact_position p \<longleftrightarrow>
     (case decimal_of_string (p_position_amt p) of
        None \<Rightarrow> False
      | Some d \<Rightarrow> dec_exact d \<and> (p_position_side p = LONG \<longrightarrow> 0 \<le> dval d) \<and> (p_position_side p = SHORT \<longrightarrow> dval d \<le> 0))"

lemma exact_positionE:
  assumes "exact_position p"
  obtains d where "decimal_of_string (p_position_amt p) = Some d" and "to_decimal (p_position_amt p) = Inr d"
    and "dec_exact d" and "amount (p_position_amt p) = dval d"
    and "p_position_side p = LONG \<longrightarrow> 0 \<le> dval d" and "p_position_side p = SHORT \<longrightarrow> dval d \<le> 0"
  using assms that
  by (auto simp: exact_position_def amount_def parse_dec_def to_decimal_def or_invalid_def split: option.splits)

lemma dec_exact_less:
  assumes "dec_finite x"
  shows "dec_less dec_zero x = Some (0 < dval x)" and "dec_less x dec_zero = Some (dval x < 0)"
  using assms by (simp_all add: dec_less_dval)

lemma or_invalid_Some [simp]: "or_invalid (Some x) = Inr x"
  by simp

lemma side_by_amount_sign:
  assumes "exact_position p" and "side_by_amount e long short p = Inr side" and "amount (p_position_amt p) \<noteq> 0"
  shows "side = (if 0 < amount (p_position_amt p) then long else short)"
proof -
  obtain d where d: "to_decimal (p_position_amt p) = Inr d" "dec_exact d" "amount (p_position_amt p) = dval d"
    "p_position_side p = LONG \<longrightarrow> 0 \<le> dval d" "p_position_side p = SHORT \<longrightarrow> dval d \<le> 0"
    using exact_positionE [OF assms(1)] by metis
  with assms(2,3) show ?thesis
    by (cases "p_position_side p") (auto simp: side_by_amount_def dec_exact_less split: if_splits)
qed

lemma opposite_direction:
  assumes "exact_position p" and "opposite_side_for_position p = Inr side" and "amount (p_position_amt p) \<noteq> 0"
  shows "direction side = - sgn (amount (p_position_amt p))"
  using side_by_amount_sign [OF assms(1) assms(2) [unfolded opposite_side_for_position_def] assms(3)] assms(3)
  by (auto simp: direction_def sgn_if)

lemma open_amount:
  assumes "exact_position p" and "assert_position_open p = Inr ()"
  shows "amount (p_position_amt p) \<noteq> 0"
proof (rule exact_positionE [OF assms(1)])
  fix d assume d: "to_decimal (p_position_amt p) = Inr d" "dec_exact d" "amount (p_position_amt p) = dval d"
  then show ?thesis
    using assms(2) by (simp add: assert_position_open_def dec_eq_zero_dval split: if_splits)
qed

lemma abs_amount:
  assumes "exact_position p" and "decimal_abs (p_position_amt p) = Inr x"
  shows "dec_finite x \<and> dval x = \<bar>amount (p_position_amt p)\<bar>"
proof (rule exact_positionE [OF assms(1)])
  fix d assume d: "to_decimal (p_position_amt p) = Inr d" "dec_exact d" "amount (p_position_amt p) = dval d"
  then have "dec_abs d = Some x" using assms(2) by (simp add: decimal_abs_def)
  from dec_abs_exact [OF d(2) this] d(3) show ?thesis by simp
qed

lemma positive_quantity:
  assumes "validate_positive_quantity t = Inr x"
  shows "amount t = dval x" and "dec_finite x \<Longrightarrow> 0 < dval x"
  using assms by (auto simp: validate_positive_quantity_def to_decimal_def or_invalid_def amount_def parse_dec_def
      sum_bind_Inr_iff dec_exact_less split: option.splits if_splits)

lemma increase_direction:
  assumes "exact_position p" and "to_decimal (p_position_amt p) = Inr amt" and "validate_increase_side p side amt = Inr ()"
  shows "0 \<le> direction side * amount (p_position_amt p)"
proof -
  obtain d where d: "to_decimal (p_position_amt p) = Inr d" "dec_exact d" "amount (p_position_amt p) = dval d"
    "p_position_side p = LONG \<longrightarrow> 0 \<le> dval d" "p_position_side p = SHORT \<longrightarrow> dval d \<le> 0"
    using exact_positionE [OF assms(1)] by metis
  with assms(2,3) show ?thesis
    by (cases "p_position_side p"; cases side)
      (auto simp: validate_increase_side_def dec_exact_less direction_def split: if_splits)
qed

lemma same_direction_sum:
  fixes a q :: rat
  assumes "0 \<le> direction side * a" and "0 < q"
  shows "\<bar>a + direction side * q\<bar> = \<bar>a\<bar> + q" and "0 < direction side * (a + direction side * q)"
    and "a \<noteq> 0 \<Longrightarrow> 0 < a * (a + direction side * q)"
  using assms by (auto simp: direction_def zero_less_mult_iff split: if_splits)

lemma opposite_direction_sum:
  fixes a q :: rat
  assumes "direction side = - sgn a" and "a \<noteq> 0" and "0 < q"
  shows "q \<le> \<bar>a\<bar> \<Longrightarrow> \<bar>a + direction side * q\<bar> = \<bar>a\<bar> - q \<and> 0 \<le> a * (a + direction side * q)"
    and "q = \<bar>a\<bar> \<Longrightarrow> a + direction side * q = 0"
    and "q = \<bar>a\<bar> + r \<Longrightarrow> 0 < r \<Longrightarrow> \<bar>a + direction side * q\<bar> = r \<and> a * (a + direction side * q) < 0"
  using assms by (auto simp: sgn_if zero_le_mult_iff mult_less_0_iff split: if_splits)

definition exact_sum :: "pydecimal \<Rightarrow> pydecimal \<Rightarrow> bool" where
  "exact_sum x y = (case (x, y) of
     (DFin b c e, DFin b' c' e') \<Rightarrow>
        length (digits_base 10 (nat \<bar>scaled (min e e') b c e + scaled (min e e') b' c' e'\<bar>)) \<le> dec_precision
   | _ \<Rightarrow> False)"

lemma dec_add_exact:
  assumes "exact_sum x y" and "dec_add x y = Some z"
  shows "dec_finite x" and "dec_finite y" and "dec_finite z" and "dval z = dval x + dval y"
proof -
  obtain b c e b' c' e' where xy: "x = DFin b c e" "y = DFin b' c' e'"
    using assms(1) by (auto simp: exact_sum_def split: pydecimal.splits)
  then show "dec_finite x" "dec_finite y" by simp_all
  define m where "m = min e e'"
  define v where "v = scaled m b c e + scaled m b' c' e'"
  have z: "z = DFin (v < 0 \<or> (v = 0 \<and> b \<and> b')) (nat \<bar>v\<bar>) m"
    using assms by (simp add: xy exact_sum_def dec_fix_def Let_def flip: m_def v_def)
  then show "dec_finite z" by simp
  have "dval z = of_int v * power_int 10 m"
    unfolding z by (auto simp: dval_fin_def)
  also have "\<dots> = of_int (scaled m b c e) * power_int 10 m + of_int (scaled m b' c' e') * power_int 10 m"
    by (simp add: v_def distrib_right)
  finally show "dval z = dval x + dval y"
    by (simp add: xy scaled_dval m_def)
qed

section \<open>Effects\<close>

text \<open>The amount a position has, none counting as zero, and what makes the arithmetic of a call exact.\<close>

definition held :: "position option \<Rightarrow> rat" where
  "held found = (case found of None \<Rightarrow> 0 | Some p \<Rightarrow> amount (p_position_amt p))"

definition exact_call :: "position_call \<Rightarrow> position option \<Rightarrow> bool" where
  "exact_call call found =
     (case found of
        None \<Rightarrow> True
      | Some p \<Rightarrow> exact_position p \<and>
          (case call of
             FlipMarket q \<Rightarrow>
               (case (decimal_abs (p_position_amt p), decimal_of_string q) of
                  (Inr x, Some y) \<Rightarrow> exact_sum x y | _ \<Rightarrow> True)
           | _ \<Rightarrow> True))"

definition serves :: "position_call \<Rightarrow> rat \<Rightarrow> order_request \<Rightarrow> bool" where
  "serves call a req \<longleftrightarrow> intended call a (order_effect req a) \<and>
     r_reduce_only req = (exit_call call \<and> r_position_side req = BOTH \<and> \<not> r_close_position req)"

lemma serves_request:
  assumes "validate_request (position_request ex mt symb side ty route tif q pr tr reduce close pside act) = Inr req"
    and "mt \<noteq> SPOT" and "reduce = (exit_call call \<and> pside = BOTH \<and> \<not> close)"
    and "decimal_pattern (strip q) \<Longrightarrow> intended call a (if close then 0 else a + direction side * amount q)"
  shows "serves call a req"
  using validated_position_request [OF assms(1,2)] assms(3,4) by (cases close) (simp_all add: serves_def order_effect_def)

text \<open>Closing orders with a quantity, and reducing orders.\<close>

lemma close_submits:
  assumes "stored ex mt symb pside ps found" and "exact_call call found" and "exit_call call"
    and "\<And>b. intended call (held found) b \<longleftrightarrow> b = 0"
  shows "submits env source sig strat (serves call (held found))
    (andThen (load_open_position ex mt symb pside) (\<lambda>p.
     andThen (liftSum (decimal_abs_str (p_position_amt p))) (\<lambda>quantity.
     andThen (liftSum (opposite_side_for_position p)) (\<lambda>side.
     submit_request env
       (position_request ex mt (p_symbol p) side ty route tif quantity price trigger
          (reduce_only_for_position p) False (p_position_side p) act) source sig strat)))) (w, ps)"
proof (intro submits_load_open [OF assms(1)] submits_liftSum submits_request)
  fix p ps' quantity side req
  assume p: "found = Some p" "mt \<noteq> SPOT" "assert_position_open p = Inr ()"
    and q: "decimal_abs_str (p_position_amt p) = Inr quantity" and side: "opposite_side_for_position p = Inr side"
    and req: "validate_request (position_request ex mt (p_symbol p) side ty route tif quantity price trigger
      (reduce_only_for_position p) False (p_position_side p) act) = Inr req"
  have exact: "exact_position p" using assms(2) p(1) by (simp add: exact_call_def)
  obtain x where x: "decimal_abs (p_position_amt p) = Inr x" "quantity = dec_format_f x"
    using q by (cases "decimal_abs (p_position_amt p)") (auto simp: decimal_abs_str_def)
  let ?a = "amount (p_position_amt p)"
  have a: "?a \<noteq> 0" by (rule open_amount [OF exact p(3)])
  have h: "held found = ?a" by (simp add: held_def p(1))
  have "held found + direction side * dval x = 0" if "dec_finite x"
    using opposite_direction_sum(2) [OF opposite_direction [OF exact side a] a, of "\<bar>?a\<bar>"] abs_amount [OF exact x(1)] a h
    by simp
  then show "serves call (held found) req"
    by (intro serves_request [OF req p(2)])
      (simp_all add: assms(3,4) reduce_only_for_position_def x(2) printed_amount)
qed

lemma reduce_submits:
  assumes "stored ex mt symb pside ps found" and "exact_call call found" and "exit_call call"
    and "\<And>a b. intended call a b \<longleftrightarrow> \<bar>b\<bar> = \<bar>a\<bar> - amount q \<and> \<bar>b\<bar> < \<bar>a\<bar> \<and> 0 \<le> a * b"
  shows "submits env source sig strat (serves call (held found))
    (andThen (load_open_position ex mt symb pside) (\<lambda>p.
     andThen (liftSum (reduce_quantity p q)) (\<lambda>reduce_qty.
     andThen (liftSum (opposite_side_for_position p)) (\<lambda>side.
     submit_request env
       (position_request ex mt (p_symbol p) side ty route tif (dec_format_f reduce_qty) price trigger
          (reduce_only_for_position p) False (p_position_side p) act) source sig strat)))) (w, ps)"
proof (intro submits_load_open [OF assms(1)] submits_liftSum submits_request)
  fix p ps' x side req
  assume p: "found = Some p" "mt \<noteq> SPOT" "assert_position_open p = Inr ()"
    and x: "reduce_quantity p q = Inr x" and side: "opposite_side_for_position p = Inr side"
    and req: "validate_request (position_request ex mt (p_symbol p) side ty route tif (dec_format_f x) price trigger
      (reduce_only_for_position p) False (p_position_side p) act) = Inr req"
  have exact: "exact_position p" using assms(2) p(1) by (simp add: exact_call_def)
  let ?a = "amount (p_position_amt p)"
  have a: "?a \<noteq> 0" by (rule open_amount [OF exact p(3)])
  obtain y where y: "decimal_abs (p_position_amt p) = Inr y" "validate_positive_quantity q = Inr x" "dec_less y x = Some False"
    using x by (auto simp: reduce_quantity_def sum_bind_Inr_iff split: if_splits)
  note y' = abs_amount [OF exact y(1)] positive_quantity [OF y(2)]
  have "0 < dval x \<and> dval x \<le> \<bar>?a\<bar> \<and> amount q = dval x" if "dec_finite x"
    using y' y(3) that by (simp add: dec_less_dval)
  then have "intended call ?a (?a + direction side * dval x)" if "dec_finite x"
    using opposite_direction_sum(1) [OF opposite_direction [OF exact side a] a, of "dval x"] that
    by (simp add: assms(4))
  then show "serves call (held found) req"
    by (intro serves_request [OF req p(2)])
      (simp_all add: assms(3) reduce_only_for_position_def held_def p(1) printed_amount)
qed

lemma close_whole_submits:
  assumes "stored ex mt symb pside ps found"
  shows "submits env source sig strat (serves (CloseStopMarket t True) (held found))
    (close_position_stop_market env ex mt symb t pside True source sig strat) (w, ps)"
  unfolding close_position_stop_market_def if_True
  by (intro submits_load_open [OF assms] submits_liftSum submits_request, rule serves_request, assumption, assumption)
    (simp_all add: exit_call_def)

lemma printed_positive:
  assumes "validate_positive_quantity q = Inr x" and "decimal_pattern (strip (dec_format_f x))"
  shows "amount (dec_format_f x) = amount q" and "0 < amount q"
  using positive_quantity [OF assms(1)] printed_amount [OF assms(2)] by simp_all

lemma increase_submits:
  assumes "stored ex mt symb pside ps found" and "exact_call (IncreaseMarket side q) found"
  shows "submits env source sig strat (serves (IncreaseMarket side q) (held found))
    (increase_position_market env ex mt symb side q pside source sig strat) (w, ps)"
  unfolding increase_position_market_def
proof (intro submits_liftSum submits_load_open [OF assms(1)] submits_request)
  fix x p ps' amt u req
  assume x: "validate_positive_quantity q = Inr x"
    and p: "found = Some p" "mt \<noteq> SPOT" "assert_position_open p = Inr ()"
    and amt: "to_decimal (p_position_amt p) = Inr amt" and side: "validate_increase_side p side amt = Inr u"
    and req: "validate_request (position_request ex mt (p_symbol p) side MARKET REGULAR None (dec_format_f x) None None
      False False (p_position_side p) PA_INCREASE) = Inr req"
  have exact: "exact_position p" using assms(2) p(1) by (simp add: exact_call_def)
  let ?a = "amount (p_position_amt p)"
  have a: "?a \<noteq> 0" by (rule open_amount [OF exact p(3)])
  have dir: "0 \<le> direction side * ?a" using increase_direction [OF exact amt] side by simp
  have h: "held found = ?a" by (simp add: held_def p(1))
  have "intended (IncreaseMarket side q) ?a (?a + direction side * amount q)" if "0 < amount q"
    using same_direction_sum [OF dir that] a that by simp
  then show "serves (IncreaseMarket side q) (held found) req"
    by (intro serves_request [OF req p(2)]) (simp_all add: exit_call_def h printed_positive [OF x])
qed

lemma open_side_held:
  assumes "found = Some p" and "position_of_row row = Inr p" and "exact_position p" and "p_status p \<noteq> PS_OPEN \<or> dec_eq_zero amt = Some True"
    and "to_decimal (p_position_amt p) = Inr amt"
  shows "held found = 0"
proof (rule exact_positionE [OF assms(3)])
  fix d assume d: "decimal_of_string (p_position_amt p) = Some d" "to_decimal (p_position_amt p) = Inr d" "dec_exact d"
    "amount (p_position_amt p) = dval d"
  have "infer_position_status (p_position_amt p) = Inr (p_status p)"
    using assms(2) validate_position_shape(3) by (simp add: position_of_row_def)
  with d have "(p_status p = PS_FLAT) = (dval d = 0)"
    by (auto simp: infer_position_status_def dec_eq_zero_dval split: if_splits)
  with assms d show ?thesis
    by (auto simp: held_def dec_eq_zero_dval position_status_exhaust split: if_splits)
qed

lemma open_or_increase_submits:
  assumes "stored ex mt symb pside ps found" and "exact_call (OpenOrIncreaseMarket side q) found"
  shows "submits env source sig strat (serves (OpenOrIncreaseMarket side q) (held found))
    (open_or_increase_position_market env ex mt symb side q pside source sig strat) (w, ps)"
  unfolding open_or_increase_position_market_def
proof (intro submits_liftSum submits_try_load [OF assms(1)])
  fix x ps' r
  assume x: "validate_positive_quantity q = Inr x" and mt: "mt \<noteq> SPOT"
    and r: "open_or_increase found symb side pside = Inr r"
  obtain act order_symbol order_pside where abc: "r = (act, order_symbol, order_pside)" by (cases r)
  have dir: "0 \<le> direction side * held found"
  proof (cases found)
    case None
    then show ?thesis by (simp add: held_def)
  next
    case (Some p)
    have exact: "exact_position p" using assms(2) Some by (simp add: exact_call_def)
    obtain row where row: "position_of_row row = Inr p"
      using assms(1) Some by (auto simp: stored_def split: option.splits)
    obtain amt where amt: "to_decimal (p_position_amt p) = Inr amt"
      using r Some by (auto simp: open_or_increase_def sum_bind_Inr_iff)
    show ?thesis
    proof (cases "p_status p \<noteq> PS_OPEN \<or> dec_eq_zero amt = Some True")
      case True
      from open_side_held [OF Some row exact this amt] show ?thesis by simp
    next
      case False
      then have "validate_increase_side p side amt = Inr ()"
        using r Some amt by (auto simp: open_or_increase_def sum_bind_Inr_iff split: if_splits)
      from increase_direction [OF exact amt this] show ?thesis by (simp add: held_def Some)
    qed
  qed
  have ok: "intended (OpenOrIncreaseMarket side q) (held found) (held found + direction side * amount q)" if "0 < amount q"
    using same_direction_sum [OF dir that] that by simp
  show "submits env source sig strat (serves (OpenOrIncreaseMarket side q) (held found))
      (case r of (act, order_symbol, order_pside) \<Rightarrow> submit_request env
         (position_request ex mt order_symbol side MARKET REGULAR None (dec_format_f x) None None False False order_pside act)
         source sig strat) (w, ps')"
    unfolding abc prod.case
  proof (rule submits_request)
    fix req assume req: "validate_request (position_request ex mt order_symbol side MARKET REGULAR None (dec_format_f x)
      None None False False order_pside act) = Inr req"
    show "serves (OpenOrIncreaseMarket side q) (held found) req"
      using ok by (intro serves_request [OF req mt]) (simp_all add: exit_call_def printed_positive [OF x])
  qed
qed

lemma open_submits:
  "submits env source sig strat (serves (OpenMarket side q) a)
    (open_position_market env ex mt symb side q pside source sig strat) (w, ps)"
  unfolding open_position_market_def
proof (intro submits_liftSum submits_request)
  fix u v :: unit and x req
  assume "validate_perp_or_futures mt = Inr u" and x: "validate_positive_quantity q = Inr x"
    and req: "validate_request (position_request ex mt (upper symb) side MARKET REGULAR None (dec_format_f x) None None
      False False pside PA_OPEN) = Inr req"
  then have mt: "mt \<noteq> SPOT" by (auto simp: validate_perp_or_futures_def)
  show "serves (OpenMarket side q) a req"
    by (intro serves_request [OF req mt]) (simp_all add: exit_call_def printed_positive [OF x])
qed

lemma flip_submits:
  assumes "stored ex mt symb pside ps found" and "exact_call (FlipMarket q) found"
  shows "submits env source sig strat (serves (FlipMarket q) (held found))
    (flip_position_market env ex mt symb q pside source sig strat) (w, ps)"
  unfolding flip_position_market_def
proof (intro submits_liftSum submits_load_open [OF assms(1)] submits_request)
  fix x p ps' z side req
  assume x: "validate_positive_quantity q = Inr x"
    and p: "found = Some p" "mt \<noteq> SPOT" "assert_position_open p = Inr ()"
    and z: "flip_quantity p x = Inr z" and side: "opposite_side_for_position p = Inr side"
    and req: "validate_request (position_request ex mt (p_symbol p) side MARKET REGULAR None (dec_format_f z) None None
      False False (p_position_side p) PA_FLIP) = Inr req"
  have exact: "exact_position p" using assms(2) p(1) by (simp add: exact_call_def)
  let ?a = "amount (p_position_amt p)"
  have a: "?a \<noteq> 0" by (rule open_amount [OF exact p(3)])
  obtain y where y: "decimal_abs (p_position_amt p) = Inr y" "dec_add y x = Some z"
    using z by (auto simp: flip_quantity_def sum_bind_Inr_iff split: if_splits)
  have "decimal_of_string q = Some x"
    using x by (auto simp: validate_positive_quantity_def to_decimal_def sum_bind_Inr_iff split: if_splits)
  then have "exact_sum y x" using assms(2) y(1) p(1) by (simp add: exact_call_def)
  note zv = dec_add_exact [OF this y(2)]
  have "dval z = \<bar>?a\<bar> + amount q" "0 < amount q" "0 < dval z"
    using zv abs_amount [OF exact y(1)] positive_quantity [OF x] by auto
  then have "intended (FlipMarket q) ?a (?a + direction side * dval z)"
    using opposite_direction_sum(3) [OF opposite_direction [OF exact side a] a] by simp
  then show "serves (FlipMarket q) (held found) req"
    by (intro serves_request [OF req p(2)])
      (simp_all add: exit_call_def held_def p(1) printed_amount)
qed

text \<open>C22: Whatever a position call does, it either raises without touching the gateway or is exactly one
  call of \<open>submit_order\<close> whose order, once filled, makes of the held amount what the call promises:
  closing leaves zero, reducing takes off the quantity without crossing zero, increasing adds it in the
  same direction, flipping ends with the target quantity on the other side.  Only closing and reducing
  orders of one-way positions are \<open>reduce_only\<close>.\<close>

theorem position_call_intent:
  assumes "stored ex mt symb pside ps found" and "exact_call call found"
  shows "submits env source sig strat (serves call (held found))
    (run_position_call env call ex mt symb pside source sig strat) (w, ps)"
proof (cases call)
  case (CloseStopMarket t use_close)
  with assms show ?thesis
    by (cases use_close)
      (simp add: close_whole_submits, simp add: close_position_stop_market_def close_submits exit_call_def)
qed (use assms in \<open>simp_all add: close_position_market_def close_position_limit_def close_position_stop_limit_def
  reduce_position_market_def reduce_position_limit_def reduce_position_stop_market_def reduce_position_stop_limit_def
  close_submits reduce_submits exit_call_def open_submits increase_submits open_or_increase_submits flip_submits\<close>)

section \<open>Reducing, every branch\<close>

lemma printed_pattern:
  assumes "dec_finite d"
  shows "strip (dec_format_f d) = dec_format_f d" and "decimal_pattern (dec_format_f d)"
proof -
  obtain neg c e where d: "d = DFin neg c e" using assms by (cases d) auto
  obtain a b where ab: "dec_format_f d = plain neg a b" "digits a" "a \<noteq> []" "digits b"
    unfolding d by (rule format_shape)
  obtain x t where x: "a = x # t" "is_digit x" using ab(2,3) by (cases a) (auto simp: digits_def)
  have fp: "filter (\<lambda>c. c \<noteq> CHR ''_'') (strip (plain neg a b)) = plain neg a b" by (rule plain_strip [OF ab(2,3,4)])
  have "\<not> is_blank (hd (plain neg a b))" "\<not> is_blank (last (plain neg a b))"
    using x ab(3) digits_last [OF ab(2,3)] digits_last [OF ab(4)]
    by (auto simp: plain_def digits_def signs_plain dest: digit_plain)
  then show "strip (dec_format_f d) = dec_format_f d" by (simp add: ab(1) strip_fix)
  have whole: "takeWhile is_digit a = a" "dropWhile is_digit a = []"
    using ab(2) by (simp_all add: digits_def list_all_iff takeWhile_eq_all_conv dropWhile_eq_Nil_conv)
  have split: "takeWhile is_digit (a @ CHR ''.'' # b) = a" "dropWhile is_digit (a @ CHR ''.'' # b) = CHR ''.'' # b"
    using ab(2) by (simp_all add: digits_def list_all_iff takeWhile_append2 dropWhile_append2 signs_plain)
  have t: "dropWhile is_digit t = []" using whole(2) x by simp
  show "decimal_pattern (dec_format_f d)"
    using ab(3,4) x digit_plain(3) [OF x(2)] whole split
    by (cases neg; cases b) (auto simp: ab(1) plain_def decimal_pattern_def digits_def Let_def t)
qed

lemma load_position_up:
  assumes "ps_pg_ok ps (ps_pg_calls ps)" and "ps_rows ps i = Some row" and "position_of_row row = Inr p"
  obtains ps' where "load_position i True ps = (Inr (Some p), ps')" and "same_positions ps ps'"
proof (cases rule: load_position_run [of i ps])
  case (1 e ps')
  obtain u where "try_save p (ps\<lparr>ps_pg_calls := Suc (ps_pg_calls ps)\<rparr>) = (Inr (), u)" by (rule try_save_returns)
  with 1 assms show ?thesis
    by (simp add: load_position_def ps_read_def ps_transaction_def prog_simps repo_get_def Let_def)
next
  case (3 q row' ps')
  with assms that show ?thesis by simp
qed (use assms in simp)

lemma load_open_up:
  assumes "ps_pg_ok ps (ps_pg_calls ps)" and "ps_rows ps (make_position_id ex mt symb pside) = Some row"
    and "position_of_row row = Inr p" and "mt \<noteq> SPOT" and "p_status p = PS_OPEN" and "exact_position p"
  obtains ps' where "load_open_position ex mt symb pside (w, ps) = (Inr p, (w, ps'))" and "same_positions ps ps'"
    and "amount (p_position_amt p) \<noteq> 0"
proof -
  obtain ps' where l: "load_position (make_position_id ex mt symb pside) True ps = (Inr (Some p), ps')" "same_positions ps ps'"
    by (rule load_position_up [OF assms(1-3)])
  obtain d where d: "to_decimal (p_position_amt p) = Inr d" "dec_exact d" "decimal_of_string (p_position_amt p) = Some d"
    "amount (p_position_amt p) = dval d"
    using exact_positionE [OF assms(6)] by metis
  have "infer_position_status (p_position_amt p) = Inr PS_OPEN"
    using assms(3,5) validate_position_shape(3) by (fastforce simp: position_of_row_def)
  then have a: "dval d \<noteq> 0" using d by (auto simp: infer_position_status_def dec_eq_zero_dval split: if_splits)
  then have "assert_position_open p = Inr ()"
    using d assms(5) by (simp add: assert_position_open_def dec_eq_zero_dval)
  moreover have "validate_perp_or_futures mt = Inr ()" using assms(4) by (cases mt) (simp_all add: validate_perp_or_futures_def)
  ultimately have "load_open_position ex mt symb pside (w, ps) = (Inr p, (w, ps'))"
    by (simp add: load_open_position_def load_order_position_def on_positions_def l(1) prog_simps)
  with that l(2) a d(4) show ?thesis by simp
qed

lemma validated_market:
  assumes "dec_finite d" and "mt \<noteq> SPOT" and "act \<noteq> PA_NOT_APPLICABLE"
  shows "validate_request (position_request ex mt symb side MARKET REGULAR None (dec_format_f d) None None reduce False pside act)
    = Inr (position_request ex mt (upper (strip symb)) side MARKET REGULAR None (dec_format_f d) None None reduce False pside act)"
  using assms printed_pattern [OF assms(1)]
  by (simp add: validate_request_def check_request_fields_def position_request_def check_decimal_def decimal_string_def
      check_decimal_opt_def guard_sum_def normalize_request_after_validation_def check_route_def
      normalize_position_metadata_for_order_def validate_order_type_required_fields_def Let_def)

text \<open>Reducing an open position by a market order, when PostgreSQL answers: a quantity that is not
  positive and one that exceeds the held amount raise before the gateway is reached; any other is sent,
  in full, as one order against the position, reduce-only for one-way positions.\<close>

lemma reduce_market_outcome:
  assumes "ps_pg_ok ps (ps_pg_calls ps)" and "ps_rows ps (make_position_id ex mt symb pside) = Some row"
    and "position_of_row row = Inr p" and "mt \<noteq> SPOT" and "p_status p = PS_OPEN" and "exact_position p"
    and "decimal_of_string q = Some x" and "dec_finite x"
  shows "\<exists>ps'. same_positions ps ps' \<and>
    reduce_position_market env ex mt symb q pside source sig strat (w, ps) =
      (if amount q \<le> 0 then (Inl (PositionOrderError ''must be positive''), (w, ps'))
       else if \<bar>amount (p_position_amt p)\<bar> < amount q
       then (Inl (ClosePositionError ''reduce quantity exceeds position size''), (w, ps'))
       else on_gateway (submit_order env
              (position_request ex mt (upper (strip (p_symbol p)))
                 (if 0 < amount (p_position_amt p) then SELL else BUY) MARKET REGULAR None (dec_format_f x) None None
                 (p_position_side p = BOTH) False (p_position_side p) PA_REDUCE) source sig strat) (w, ps'))"
proof -
  obtain ps' where l: "load_open_position ex mt symb pside (w, ps) = (Inr p, (w, ps'))" "same_positions ps ps'"
    and a: "amount (p_position_amt p) \<noteq> 0"
    by (rule load_open_up [OF assms(1-6)])
  obtain d where d: "to_decimal (p_position_amt p) = Inr d" "dec_exact d" "amount (p_position_amt p) = dval d"
    "p_position_side p = LONG \<longrightarrow> 0 \<le> dval d" "p_position_side p = SHORT \<longrightarrow> dval d \<le> 0"
    using exact_positionE [OF assms(6)] by metis
  obtain y where y: "dec_abs d = Some y" "dec_finite y" using dec_abs_finite [of d] d(2) by auto
  then have yv: "dval y = \<bar>dval d\<bar>" using dec_abs_exact [OF d(2)] by simp
  have qx: "amount q = dval x" by (simp add: amount_def parse_dec_def assms(7))
  have quantity: "reduce_quantity p q =
      (if dval x \<le> 0 then Inl (PositionOrderError ''must be positive'')
       else if \<bar>dval d\<bar> < dval x then Inl (ClosePositionError ''reduce quantity exceeds position size'') else Inr x)"
    using assms(7,8) d(1) y yv
    by (simp add: reduce_quantity_def validate_positive_quantity_def decimal_abs_def to_decimal_def or_invalid_def
        dec_exact_less dec_less_dval not_less)
  have side: "opposite_side_for_position p = Inr (if 0 < dval d then SELL else BUY)"
    using d a by (cases "p_position_side p")
      (auto simp: opposite_side_for_position_def side_by_amount_def dec_exact_less)
  show ?thesis
    using l(2) validated_market [OF assms(8,4)] unfolding qx d(3)
    by (intro exI [of _ ps']) (simp add: reduce_position_market_def l(1) quantity side submit_request_def
        reduce_only_for_position_def prog_simps)
qed

section \<open>Instances\<close>

definition held_row :: position_row where
  "held_row = map_numeric (\<lambda>t. pg_numeric (parse_dec t)) (sample_position ''0.50'' 100)"

definition held_positions :: position_store where
  "held_positions = put_row ''BINANCE:PERP:BTCUSDT:BOTH'' held_row empty_positions"

lemma held_texts:
  "decimal_str (DFin False 50 (- 2)) = ''0.5''" "decimal_str (DFin False 605 (- 1)) = ''60.5''"
  "decimal_of_string ''0.5'' = Some (DFin False 5 (- 1))" "decimal_of_string ''0.2'' = Some (DFin False 2 (- 1))"
  "length (digits_base 10 5) = 1" "format_fixed 2 (- 1) = ''0.2''"
  by code_simp+

lemma held_position_of_row: "position_of_row held_row = Inr (sample_position ''0.5'' 100)"
  by (simp add: position_of_row_def held_row_def map_numeric_def sample_position_def parse_dec_def sample_texts
      held_texts validate_position_def infer_position_status_def)

lemma held_amount: "exact_position (sample_position ''0.5'' 100)" "amount (p_position_amt (sample_position ''0.5'' 100)) = 1 / 2"
  "p_status (sample_position ''0.5'' 100) = PS_OPEN" "amount ''0.2'' = 1 / 5"
  by (simp_all add: exact_position_def sample_position_def held_texts dec_exact_def dec_precision_def amount_def
      parse_dec_def dval_fin_def power_int_minus)

lemma held_store: "ps_rows held_positions (make_position_id BINANCE PERP ''BTCUSDT'' BOTH) = Some held_row"
  "ps_pg_ok held_positions n"
  by (simp_all add: held_positions_def put_row_def sample_texts empty_positions_def)

lemma position_call_intent_witness:
  "submits (env_with down_client) MANUAL None None (serves (ReduceMarket ''0.2'') (1 / 2))
    (run_position_call (env_with down_client) (ReduceMarket ''0.2'') BINANCE PERP ''BTCUSDT'' BOTH MANUAL None None)
    (blank_world, held_positions)"
proof -
  have "stored BINANCE PERP ''BTCUSDT'' BOTH held_positions (Some (sample_position ''0.5'' 100))"
    by (simp add: stored_def held_store held_position_of_row)
  moreover have "exact_call (ReduceMarket ''0.2'') (Some (sample_position ''0.5'' 100))"
    by (simp add: exact_call_def held_amount)
  moreover have "held (Some (sample_position ''0.5'' 100)) = 1 / 2" by (simp add: held_def held_amount)
  ultimately show ?thesis using position_call_intent by metis
qed

end
