(* ===== verification/Paging.thy ===== *)
theory Paging
  imports Samples
begin

text \<open>
  \<open>OrderStateService.iter_open_order_batches\<close>: the open orders of a market, page by page, each page
  starting after the last order of the one before.  The generator is modelled with the consumer it
  has, the reconciliation worker, which only collects the batches.  The loop has no bound of its
  own, so it is a partial function: not returning is \<open>None\<close>.
\<close>

section \<open>The loop\<close>

definition open_order_page ::
  "exchange \<Rightarrow> market_type \<Rightarrow> order_route option \<Rightarrow> nat \<Rightarrow> bool \<Rightarrow> (int \<times> string) option \<Rightarrow> order list wprog" where
  "open_order_page ex mt route batch_size refresh cursor =
     andThen (pg_read (list_non_terminal_joined_orders_page ex mt route cursor batch_size)) (\<lambda>rows.
     andThen (build_orders rows) (\<lambda>orders.
     andThen (if refresh then forEach (\<lambda>ord. andThen (refresh_order_projection ord) (\<lambda>_. ret ())) orders else ret ())
       (\<lambda>_. ret orders)))"

definition cursor_after :: "order list \<Rightarrow> (int \<times> string) option" where
  "cursor_after orders = Some (o_updated_ts (last orders), o_order_id (last orders))"

partial_function (option) iter_open_order_batches ::
  "exchange \<Rightarrow> market_type \<Rightarrow> order_route option \<Rightarrow> nat \<Rightarrow> bool \<Rightarrow> (int \<times> string) option \<Rightarrow> world \<Rightarrow>
   ((exn + order list list) \<times> world) option" where
  "iter_open_order_batches ex mt route batch_size refresh cursor s =
     (case open_order_page ex mt route batch_size refresh cursor s of
        (Inl e, t) \<Rightarrow> Some (Inl e, t)
      | (Inr orders, t) \<Rightarrow>
          if orders = [] then Some (Inr [], t)
          else Option.bind (iter_open_order_batches ex mt route batch_size refresh (cursor_after orders) t)
                 (\<lambda>(r, u). Some (map_sum id ((#) orders) r, u)))"

declare iter_open_order_batches.simps [code]

section \<open>Sorted pages\<close>

text \<open>The order of the query: by time of the last update, then by id.\<close>

definition page_less :: "order \<Rightarrow> order \<Rightarrow> bool" where
  "page_less a b \<longleftrightarrow> o_updated_ts a < o_updated_ts b \<or> (o_updated_ts a = o_updated_ts b \<and> o_order_id a < o_order_id b)"

lemma sorted_by_two:
  fixes u :: "'a \<Rightarrow> 'b::linorder" and i :: "'a \<Rightarrow> 'c::linorder"
  assumes "sorted (map u zs)" and "\<And>k. sorted (map i (filter (\<lambda>z. u z = k) zs))" and "distinct (map i zs)"
  shows "sorted_wrt (\<lambda>a b. u a < u b \<or> (u a = u b \<and> i a < i b)) zs"
  using assms
proof (induction zs)
  case (Cons z zs)
  have "u z < u y \<or> (u z = u y \<and> i z < i y)" if y: "y \<in> set zs" for y
  proof (cases "u z = u y")
    case True
    have "sorted (map i (filter (\<lambda>x. u x = u z) (z # zs)))" by (rule Cons.prems(2))
    with y True have "i z \<le> i y" by simp
    moreover have "i z \<noteq> i y" using Cons.prems(3) y by auto
    ultimately show ?thesis using True by simp
  next
    case False
    moreover have "u z \<le> u y" using Cons.prems(1) y by simp
    ultimately show ?thesis by simp
  qed
  moreover have "sorted (map i (filter (\<lambda>z. u z = k) zs))" for k
    using Cons.prems(2) [of k] by (simp split: if_splits)
  ultimately show ?case using Cons.IH Cons.prems(1,3) by simp
qed simp

lemma sort_twice:
  fixes u :: "'a \<Rightarrow> 'b::linorder" and i :: "'a \<Rightarrow> 'c::linorder"
  assumes "distinct (map i xs)"
  shows "sorted_wrt (\<lambda>a b. u a < u b \<or> (u a = u b \<and> i a < i b)) (sort_key u (sort_key i xs))"
proof (rule sorted_by_two)
  fix k
  have "sorted (map i (filter (\<lambda>z. u z = k) (sort_key i xs)))"
    by (rule sorted_filter) simp
  then show "sorted (map i (filter (\<lambda>z. u z = k) (sort_key u (sort_key i xs))))"
    by (simp add: sort_key_stable)
next
  show "distinct (map i (sort_key u (sort_key i xs)))" using assms by (simp add: distinct_map)
qed simp

text \<open>The orders an iteration is to deliver, in its order.\<close>

definition open_matching :: "exchange \<Rightarrow> market_type \<Rightarrow> order_route option \<Rightarrow> world \<Rightarrow> order list" where
  "open_matching ex mt route s = filter
     (\<lambda>ord. o_exchange ord = ex \<and> o_market_type ord = mt \<and> (route = None \<or> o_order_route ord = route))
     (list_non_terminal_rows s)"

lemma page_of_matching:
  "list_non_terminal_joined_orders_page ex mt route cursor n s =
     take n (filter (after_cursor cursor) (open_matching ex mt route s))"
  by (simp add: list_non_terminal_joined_orders_page_def open_matching_def conj_commute conj_left_commute)

lemma joined_id: "gw_inv s \<Longrightarrow> joined_order s i = Some d \<Longrightarrow> o_order_id d = i"
  using joined_loaded loaded_id by blast

lemma joined_ids_distinct:
  assumes "gw_inv s"
  shows "distinct (map o_order_id (joined_orders s))"
proof -
  have "distinct (map o_order_id (List.map_filter (joined_order s) ks))" if "distinct ks" for ks
    using that
  proof (induction ks)
    case (Cons k ks)
    have "k \<notin> o_order_id ` set (List.map_filter (joined_order s) ks)"
      using Cons.prems joined_id [OF assms] by (auto simp: map_filter_def)
    with Cons joined_id [OF assms] show ?case by (auto simp: List.map_filter_simps split: option.split)
  qed (simp add: List.map_filter_simps)
  then show ?thesis using assms by (simp add: joined_orders_def gw_inv_def tables_ok_def)
qed

lemma matching_sorted:
  assumes "gw_inv s"
  shows "sorted_wrt page_less (open_matching ex mt route s)"
proof -
  have "distinct (map o_order_id (filter P (joined_orders s)))" for P
    using joined_ids_distinct [OF assms] by (simp add: distinct_map_filter)
  from sort_twice [OF this] show ?thesis
    unfolding open_matching_def list_non_terminal_rows_def page_less_def by (rule sorted_wrt_filter)
qed

section \<open>One page\<close>

text \<open>The constructor of \<open>Order\<close> needs no new id for a row of the table.\<close>

definition rebuilt :: "order \<Rightarrow> exn + order" where
  "rebuilt row = validate_order [] row"

lemma rebuilt_build:
  assumes "o_order_id row \<noteq> []"
  shows "build_order row s = (rebuilt row, s)"
proof -
  have fill: "fill_order_ids n d = fill_order_ids [] d" if "o_order_id d \<noteq> []" for n d
    using that by (simp add: fill_order_ids_def)
  have norm: "normalize_order_after_validation n d = normalize_order_after_validation [] d"
    if "o_order_id d \<noteq> []" for n d
    unfolding normalize_order_after_validation_def Let_def using that by (subst fill) simp_all
  have "validate_order n row = validate_order [] row" for n
  proof (cases "check_order_fields row")
    case (Inr d)
    then have "o_order_id d \<noteq> []" using check_order_fields_keeps [OF Inr] assms by (simp add: identity_eq)
    from norm [OF this, of n] Inr show ?thesis by (simp add: validate_order_def)
  qed (simp add: validate_order_def)
  from this [of "order_id_text (o_exchange row) (o_market_type row) (w_raw_ids s (w_next_id s))"]
  show ?thesis using assms by (simp add: build_order_def rebuilt_def Let_def split: sum.split)
qed

lemma normalize_updated_ts:
  "normalize_order_after_validation n ord = Inr ord' \<Longrightarrow> o_updated_ts ord' = o_updated_ts ord"
  by (auto simp: normalize_order_after_validation_def Let_def sum_bind_Inr_iff fill_order_ids_def)

lemma rebuilt_key:
  assumes "rebuilt row = Inr ord" and "o_order_id row \<noteq> []"
  shows "o_updated_ts ord = o_updated_ts row" and "o_order_id ord = o_order_id row"
proof -
  obtain mid where mid: "check_order_fields row = Inr mid" "normalize_order_after_validation [] mid = Inr ord"
    using assms(1) by (auto simp: rebuilt_def validate_order_def sum_bind_Inr_iff map_sum_Inr)
  have "o_updated_ts mid = o_updated_ts row"
    using mid(1) by (auto simp: check_order_fields_def sum_bind_Inr_iff)
  then show "o_updated_ts ord = o_updated_ts row" using normalize_updated_ts [OF mid(2)] by simp
  show "o_order_id ord = o_order_id row"
    using validate_order_keeps(1) [OF assms(1) [unfolded rebuilt_def]] assms(2) by simp
qed

lemma build_orders_rebuilt:
  assumes "\<forall>row\<in>set rows. o_order_id row \<noteq> []"
  shows "\<exists>r. build_orders rows s = (r, s) \<and> (\<forall>ords. r = Inr ords \<longrightarrow> map rebuilt rows = map Inr ords)"
  using assms
proof (induction rows)
  case (Cons row rows)
  then obtain r where r: "build_orders rows s = (r, s)" "\<And>ords. r = Inr ords \<Longrightarrow> map rebuilt rows = map Inr ords"
    by auto
  have row: "build_order row s = (rebuilt row, s)" using Cons.prems by (simp add: rebuilt_build)
  show ?case
  proof (cases "rebuilt row")
    case (Inl e)
    with row show ?thesis by (simp add: prog_simps)
  next
    case (Inr ord)
    with row r show ?thesis by (cases r) (simp_all add: prog_simps)
  qed
qed (simp add: prog_simps)

text \<open>Neither reading nor refreshing a page touches the tables.\<close>

definition same_rows :: "world \<Rightarrow> world \<Rightarrow> bool" where
  "same_rows s t \<longleftrightarrow> w_orders t = w_orders s \<and> w_intents t = w_intents s \<and> w_order_keys t = w_order_keys s"

lemma same_rows_refl [simp]: "same_rows s s"
  by (simp add: same_rows_def)

lemma same_rows_trans: "same_rows s t \<Longrightarrow> same_rows t u \<Longrightarrow> same_rows s u"
  by (simp add: same_rows_def)

lemma same_rows_joined: "same_rows s t \<Longrightarrow> joined_orders t = joined_orders s"
proof -
  assume "same_rows s t"
  then have eq: "w_orders t = w_orders s" "w_intents t = w_intents s" "w_order_keys t = w_order_keys s"
    by (simp_all add: same_rows_def)
  then have "joined_order t = joined_order s" by (simp add: joined_order_def fun_eq_iff)
  then show ?thesis by (simp add: joined_orders_def eq)
qed

lemma same_rows_rows: "same_rows s t \<Longrightarrow> open_matching ex mt route t = open_matching ex mt route s"
  by (simp add: open_matching_def list_non_terminal_rows_def same_rows_joined)

lemma refresh_each_same_tables:
  "same_rows s (snd (forEach (\<lambda>ord. andThen (refresh_order_projection ord) (\<lambda>_. ret ())) ords s))"
proof (induction ords arbitrary: s)
  case (Cons ord ords)
  obtain r t where rt: "refresh_order_projection ord s = (r, t)" by fastforce
  then have "same_rows s t"
    by (auto simp: refresh_order_projection_def redis_save_def redis_call_def same_rows_def Let_def
        split: if_splits prod.splits)
  with Cons.IH [of t] rt show ?case by (cases r) (auto simp: prog_simps intro: same_rows_trans)
qed (simp add: prog_simps)

lemma matching_ids: "gw_inv s \<Longrightarrow> row \<in> set (open_matching ex mt route s) \<Longrightarrow> o_order_id row \<noteq> []"
proof -
  assume inv: "gw_inv s" and "row \<in> set (open_matching ex mt route s)"
  then have "row \<in> set (joined_orders s)" by (simp add: open_matching_def list_non_terminal_rows_def)
  from joined_orders_loaded [OF inv this] show ?thesis by (simp add: loaded_def row_ok_def)
qed

lemma same_rows_inv_calls: "same_store s t \<Longrightarrow> same_rows s t"
  by (simp add: same_store_def same_rows_def)

lemma page_run:
  assumes ids: "\<forall>row\<in>set (open_matching ex mt route s). o_order_id row \<noteq> []"
    and run: "open_order_page ex mt route n refresh cursor s = (r, t)"
  shows "same_rows s t" and "\<And>ords. r = Inr ords \<Longrightarrow>
    map rebuilt (take n (filter (after_cursor cursor) (open_matching ex mt route s))) = map Inr ords"
proof -
  obtain rr u where read: "pg_read (list_non_terminal_joined_orders_page ex mt route cursor n) s = (rr, u)" by fastforce
  have su: "same_store s u" "same_rows s u" using pg_read_run [OF read] same_rows_inv_calls by auto
  let ?rows = "take n (filter (after_cursor cursor) (open_matching ex mt route s))"
  have rows: "rr = Inr x \<Longrightarrow> x = ?rows" for x
  proof -
    assume "rr = Inr x"
    then have "x = list_non_terminal_joined_orders_page ex mt route cursor n (s\<lparr>w_pg_calls := Suc (w_pg_calls s)\<rparr>)"
      using pg_read_run [OF read] by blast
    moreover have "same_rows s (s\<lparr>w_pg_calls := Suc (w_pg_calls s)\<rparr>)" by (simp add: same_rows_def)
    ultimately show "x = ?rows" by (simp add: page_of_matching same_rows_rows)
  qed
  have "\<forall>row\<in>set ?rows. o_order_id row \<noteq> []" using ids by (auto dest: in_set_takeD)
  then obtain q where q: "build_orders ?rows u = (q, u)" "\<And>ords. q = Inr ords \<Longrightarrow> map rebuilt ?rows = map Inr ords"
    using build_orders_rebuilt by blast
  have "same_rows s t \<and> (\<forall>ords. r = Inr ords \<longrightarrow> map rebuilt ?rows = map Inr ords)"
  proof (cases rr)
    case (Inl e)
    then have "t = u" "r = Inl e" using run read by (simp_all add: open_order_page_def prog_simps)
    with su show ?thesis by simp
  next
    case (Inr x)
    with rows have x: "x = ?rows" by blast
    show ?thesis
    proof (cases q)
      case (Inl e)
      then have "t = u" "r = Inl e" using run read Inr q(1) by (simp_all add: open_order_page_def prog_simps x)
      with su show ?thesis by simp
    next
      case ords: (Inr ords)
      let ?m = "if refresh then forEach (\<lambda>ord. andThen (refresh_order_projection ord) (\<lambda>_. ret ())) ords else ret ()"
      obtain v w where vw: "?m u = (v, w)" by fastforce
      then have "same_rows u w"
        using refresh_each_same_tables [of u ords] by (auto simp: prog_simps split: if_splits)
      moreover have "t = w" "\<And>z. r = Inr z \<Longrightarrow> z = ords"
        using run read Inr q(1) ords vw by (cases v; auto simp: open_order_page_def prog_simps x)+
      ultimately show ?thesis using su(2) q(2) [OF ords] same_rows_trans by blast
    qed
  qed
  then show "same_rows s t" and "\<And>ords. r = Inr ords \<Longrightarrow>
    map rebuilt (take n (filter (after_cursor cursor) (open_matching ex mt route s))) = map Inr ords" by blast+
qed

section \<open>All pages\<close>

text \<open>What is left after a page, and the invariant of the loop.\<close>

lemma after_page:
  assumes "sorted_wrt page_less (ys @ zs)" and "ys \<noteq> []"
    and "o_updated_ts ord = o_updated_ts (last ys)" and "o_order_id ord = o_order_id (last ys)"
  shows "filter (after_cursor (Some (o_updated_ts ord, o_order_id ord))) (ys @ zs) = zs"
proof -
  have after: "after_cursor (Some (o_updated_ts ord, o_order_id ord)) x = page_less (last ys) x" for x
    by (simp add: after_cursor_def page_less_def assms(3,4))
  have "\<not> page_less (last ys) y" if "y \<in> set ys" for y
  proof (cases "y = last ys")
    case False
    obtain us where us: "ys = us @ [last ys]" using assms(2) by (metis append_butlast_last_id)
    with that False have "y \<in> set us" by (metis Un_iff empty_iff empty_set insert_iff list.simps(15) set_append)
    moreover have "sorted_wrt page_less (us @ [last ys])" using assms(1) us by (metis sorted_wrt_append)
    ultimately have "page_less y (last ys)" by (simp add: sorted_wrt_append)
    then show ?thesis by (auto simp: page_less_def)
  qed (simp add: page_less_def)
  moreover have "page_less (last ys) z" if "z \<in> set zs" for z
    using assms(1,2) that by (simp add: sorted_wrt_append)
  ultimately show ?thesis by (simp add: after [abs_def] filter_True)
qed

lemma map_rebuilt_last:
  assumes "map rebuilt rows = map Inr ords" and "rows \<noteq> []" and "\<forall>row\<in>set rows. o_order_id row \<noteq> []"
  shows "ords \<noteq> []" and "o_updated_ts (last ords) = o_updated_ts (last rows)"
    and "o_order_id (last ords) = o_order_id (last rows)"
proof -
  show "ords \<noteq> []" using assms(1,2) by auto
  then have "rebuilt (last rows) = Inr (last ords)" using assms(1,2) by (metis last_map)
  from rebuilt_key [OF this] assms(2,3) show "o_updated_ts (last ords) = o_updated_ts (last rows)"
    and "o_order_id (last ords) = o_order_id (last rows)" by simp_all
qed

lemma filter_sorted_suffix:
  assumes "sorted_wrt page_less xs" and "xs = zs @ rest"
    and "filter (after_cursor cursor) xs = rest" and "take n rest \<noteq> []"
    and "o_updated_ts ord = o_updated_ts (last (take n rest))" and "o_order_id ord = o_order_id (last (take n rest))"
  shows "filter (after_cursor (Some (o_updated_ts ord, o_order_id ord))) xs = drop n rest"
proof -
  let ?ys = "zs @ take n rest"
  have xs: "xs = ?ys @ drop n rest" using assms(2) by simp
  have "last ?ys = last (take n rest)" using assms(4) by simp
  then show ?thesis unfolding xs using assms(1,4-6) xs by (intro after_page) simp_all
qed

lemma iter_run:
  assumes "sorted_wrt page_less (open_matching ex mt route s)"
    and "\<forall>row\<in>set (open_matching ex mt route s). o_order_id row \<noteq> []"
    and "open_matching ex mt route s = zs @ rest" and "filter (after_cursor cursor) (open_matching ex mt route s) = rest"
  shows "\<exists>r t. iter_open_order_batches ex mt route n refresh cursor s = Some (r, t) \<and> same_rows s t \<and>
    (\<forall>bs. r = Inr bs \<longrightarrow> 0 < n \<longrightarrow> map rebuilt rest = map Inr (concat bs) \<and> (\<forall>b\<in>set bs. b \<noteq> [] \<and> length b \<le> n))"
  using assms
proof (induction "length rest" arbitrary: rest zs cursor s rule: less_induct)
  case less
  obtain r t where page: "open_order_page ex mt route n refresh cursor s = (r, t)" by fastforce
  note p = page_run [OF less.prems(2) page, unfolded less.prems(4)]
  show ?case
  proof (cases r)
    case (Inl e)
    with page p(1) show ?thesis by (subst iter_open_order_batches.simps) simp
  next
    case (Inr ords)
    note ords = p(2) [OF Inr]
    show ?thesis
    proof (cases "take n rest = []")
      case True
      then have "ords = []" using ords by (metis list.map_disc_iff)
      with page p(1) Inr True show ?thesis by (subst iter_open_order_batches.simps) auto
    next
      case False
      have "\<forall>row\<in>set (take n rest). o_order_id row \<noteq> []" using less.prems(2,3) by (auto dest: in_set_takeD)
      note last = map_rebuilt_last [OF ords False this]
      have t: "open_matching ex mt route t = open_matching ex mt route s" by (rule same_rows_rows [OF p(1)])
      have n: "0 < n" "rest \<noteq> []" using False by auto
      have "filter (after_cursor (cursor_after ords)) (open_matching ex mt route s) = drop n rest"
        unfolding cursor_after_def
        by (rule filter_sorted_suffix [OF less.prems(1,3,4) False last(2,3)])
      then have "\<exists>r u. iter_open_order_batches ex mt route n refresh (cursor_after ords) t = Some (r, u) \<and> same_rows t u \<and>
          (\<forall>bs. r = Inr bs \<longrightarrow> 0 < n \<longrightarrow>
             map rebuilt (drop n rest) = map Inr (concat bs) \<and> (\<forall>b\<in>set bs. b \<noteq> [] \<and> length b \<le> n))"
        using less.prems(1-3) n by (intro less.hyps [where zs = "zs @ take n rest"]) (simp_all add: t)
      then obtain q u where q: "iter_open_order_batches ex mt route n refresh (cursor_after ords) t = Some (q, u)" "same_rows t u"
        "\<And>bs. q = Inr bs \<Longrightarrow> map rebuilt (drop n rest) = map Inr (concat bs) \<and> (\<forall>b\<in>set bs. b \<noteq> [] \<and> length b \<le> n)"
        using n by blast
      have run: "iter_open_order_batches ex mt route n refresh cursor s = Some (map_sum id ((#) ords) q, u)"
        by (subst iter_open_order_batches.simps) (simp add: page Inr last(1) q(1))
      have "length ords \<le> n" using arg_cong [OF ords, of length] by simp
      moreover have "map rebuilt rest = map Inr (ords @ concat bs)" if "q = Inr bs" for bs
        using ords q(3) [OF that] by (metis append_take_drop_id map_append)
      ultimately have "map_sum id ((#) ords) q = Inr bs \<Longrightarrow>
          map rebuilt rest = map Inr (concat bs) \<and> (\<forall>b\<in>set bs. b \<noteq> [] \<and> length b \<le> n)" for bs
        using q(3) last(1) by (cases q) auto
      with run same_rows_trans [OF p(1) q(2)] show ?thesis by blast
    qed
  qed
qed

section \<open>Properties\<close>

text \<open>C23: Reading the open orders of a market page by page ends: whatever the page size, also zero, and
  whichever store calls fail, the loop returns or raises, and it leaves the tables alone.\<close>

theorem open_order_batches_terminate:
  assumes "gw_inv s"
  shows "\<exists>r t. iter_open_order_batches ex mt route batch_size refresh None s = Some (r, t) \<and>
    w_orders t = w_orders s \<and> w_intents t = w_intents s"
  using iter_run [OF matching_sorted [OF assms], of ex mt route "[]" _ None batch_size refresh] matching_ids [OF assms]
  by (simp add: after_cursor_def same_rows_def) blast

text \<open>C24: The batches, put one after another, are the open orders of the market and route that one
  unpaged query would return, each exactly once and in the query's order: oldest update first, equal
  times by id.  No batch is empty or longer than asked for.\<close>

theorem open_order_batches_complete:
  assumes "gw_inv s" and "0 < batch_size"
    and "iter_open_order_batches ex mt route batch_size refresh None s = Some (Inr bs, t)"
  shows "map Inr (concat bs) = map rebuilt
      (filter (\<lambda>ord. o_exchange ord = ex \<and> o_market_type ord = mt \<and> (route = None \<or> o_order_route ord = route))
        (list_non_terminal_rows s)) \<and>
    list_all (\<lambda>b. b \<noteq> [] \<and> length b \<le> batch_size) bs"
  using iter_run [OF matching_sorted [OF assms(1)], of ex mt route "[]" _ None batch_size refresh] matching_ids [OF assms(1)]
    assms(2,3)
  by (simp add: after_cursor_def list_all_iff flip: open_matching_def) metis

section \<open>Instances\<close>

definition two_orders :: world where
  "two_orders = created_world (sample_open\<lparr>o_order_id := ''O-2'', o_updated_ts := 7\<rparr>) (holding sample_open)"

lemma two_orders_inv: "gw_inv two_orders"
  unfolding two_orders_def
  by (rule created_world_inv [OF holding_inv])
    (simp_all add: row_ok_def holding_def created_world_def blank_world_def sample_open_def blank_order_def)

lemma two_batches: "map_option (\<lambda>(r, _). map_sum (\<lambda>_. ()) (map (map o_order_id)) r)
    (iter_open_order_batches BINANCE PERP (Some REGULAR) 1 False None two_orders) = Some (Inr [[''O-1''], [''O-2'']])"
  by code_simp

lemma open_order_batches_terminate_witness:
  "\<exists>r t. iter_open_order_batches BINANCE PERP None 0 True None two_orders = Some (r, t) \<and>
    w_orders t = w_orders two_orders"
  using open_order_batches_terminate [OF two_orders_inv] by blast

lemma open_order_batches_complete_witness:
  "\<exists>bs. map (map o_order_id) bs = [[''O-1''], [''O-2'']] \<and>
    map Inr (concat bs) = map rebuilt
      (filter (\<lambda>ord. o_exchange ord = BINANCE \<and> o_market_type ord = PERP \<and> o_order_route ord = Some REGULAR)
        (list_non_terminal_rows two_orders))"
proof -
  obtain r t where run: "iter_open_order_batches BINANCE PERP (Some REGULAR) 1 False None two_orders = Some (r, t)"
    "map_sum (\<lambda>_. ()) (map (map o_order_id)) r = Inr [[''O-1''], [''O-2'']]"
    using two_batches by (auto simp: map_option_case split: option.splits)
  then obtain bs where bs: "r = Inr bs" "map (map o_order_id) bs = [[''O-1''], [''O-2'']]" by (cases r) auto
  from open_order_batches_complete [OF two_orders_inv _ run(1) [unfolded bs(1)]]
  have "map Inr (concat bs) = map rebuilt
      (filter (\<lambda>ord. o_exchange ord = BINANCE \<and> o_market_type ord = PERP \<and> o_order_route ord = Some REGULAR)
        (list_non_terminal_rows two_orders))" by simp
  with bs(2) show ?thesis by (intro exI [of _ bs] conjI)
qed

end
