(* ===== verification/Harmless.thy ===== *)
theory Harmless
  imports GatewayCore Samples
begin

text \<open>
  What a background worker does to the store is judged without looking at the values it passes
  around: \<open>harmless T m\<close> says that \<open>m\<close> keeps the invariant and moves statuses along \<open>T\<close>
  from any state.  These are its rules, one per construct of a program, and the gateway operations
  the workers call.
\<close>

section \<open>Programs\<close>

named_theorems harmless_intros "rules that split a program into its calls"

lemma harmless_then [harmless_intros]:
  "harmless T m \<Longrightarrow> (\<And>x. harmless T (f x)) \<Longrightarrow> harmless T (andThen m f)"
  unfolding harmless_def by (rule gw.safe_then) auto

lemma harmless_catch [harmless_intros]: "harmless T m \<Longrightarrow> (\<And>e. harmless T (h e)) \<Longrightarrow> harmless T (catch m h)"
  unfolding harmless_def by (rule gw.safe_catch) auto

lemma harmless_fold [harmless_intros]: "(\<And>x acc. harmless T (f x acc)) \<Longrightarrow> harmless T (foldE f xs acc)"
proof (induction xs arbitrary: acc)
  case (Cons x xs)
  then show ?case by (simp add: harmless_then)
qed simp

lemma harmless_each [harmless_intros]: "(\<And>x. harmless T (f x)) \<Longrightarrow> harmless T (forEach f xs)"
  by (induction xs) (simp_all add: harmless_then)

lemma harmless_drop: "safe gw_inv (evolves T) (\<lambda>_. True) m Q \<Longrightarrow> harmless T m"
  unfolding harmless_def by (rule safe_post) auto

lemma harmless_same_store:
  assumes "\<And>s r t. m s = (r, t) \<Longrightarrow> same_store s t"
  shows "harmless T m"
  unfolding harmless_def by (rule safe_same_store) (use assms in blast)

lemma harmless_redis_read [simp]: "harmless T (redis_read f)"
  by (rule harmless_same_store) (simp add: redis_read_run)

lemma harmless_liftSum [simp]: "harmless T (liftSum r)"
  by (simp add: harmless_def gw.safe_liftSum)

lemma harmless_epoch [simp]: "harmless T epoch_ms"
  by (rule harmless_drop) (rule epoch_ms_safe)

lemma harmless_build [simp]: "harmless T (build_order d)"
  by (rule harmless_same_store) (rule build_order_same_store)

text \<open>A Redis call that changes no live hash, or only removes some.\<close>

lemma gw_inv_redis_less:
  assumes "gw_inv s" and "\<And>i. rd_live rd i = None \<or> rd_live rd i = rd_live (w_redis s) i"
  shows "gw_inv (s\<lparr>w_redis := rd\<rparr>)"
proof -
  have "entry_ok ob rd i r" if "entry_ok ob (w_redis s) i r" for ob i r
    using that assms(2) [of i] by (cases r) auto
  with assms(1) show ?thesis by (simp add: gw_inv_def)
qed

lemma harmless_redis_call:
  assumes "\<And>rd r rd' i. f rd = (r, rd') \<Longrightarrow> rd_live rd' i = None \<or> rd_live rd' i = rd_live rd i"
  shows "harmless T (redis_call f)"
  unfolding harmless_def
proof (rule safeI)
  fix s r t
  assume inv: "gw_inv s" and run: "redis_call f s = (r, t)"
  let ?s = "s\<lparr>w_rd_calls := Suc (w_rd_calls s)\<rparr>"
  have s: "same_store s ?s" by (simp add: same_store_def)
  have inv': "gw_inv ?s" using inv same_store_inv [OF s] by simp
  obtain q rd where f: "f (w_redis ?s) = (q, rd)" by (cases "f (w_redis ?s)") simp
  have t: "t = ?s \<or> t = ?s\<lparr>w_redis := rd\<rparr>"
    using run f by (auto simp: redis_call_def Let_def split: if_splits)
  have "gw_inv (?s\<lparr>w_redis := rd\<rparr>)" by (rule gw_inv_redis_less [OF inv']) (rule assms [OF f])
  with t inv' have "gw_inv t" by auto
  moreover have "evolves T s t" using t by (auto simp: evolves_def)
  ultimately show "gw_inv t \<and> evolves T s t \<and> (\<forall>x. r = Inr x \<longrightarrow> True)" by simp
qed

lemma harmless_client:
  assumes "env_ok T env" and "\<And>c. client_ok T c \<Longrightarrow> harmless T (f c)"
  shows "harmless T (andThen (client_for_market env ex mt) f)"
  unfolding harmless_def
  by (rule with_client [OF assms(1)]) (use assms(2) in \<open>simp_all add: harmless_def\<close>)

section \<open>Gateway operations\<close>

lemma evolves_weaken: "T \<le> T' \<Longrightarrow> evolves T s t \<Longrightarrow> evolves T' s t"
proof -
  assume "T \<le> T'" and ev: "evolves T s t"
  then have "T\<^sup>*\<^sup>* \<le> T'\<^sup>*\<^sup>*" by (simp add: rtranclp_mono)
  then have "row_evolves T' a b" if "row_evolves T a b" for a b
    using that by (auto simp: row_evolves_def)
  with ev show "evolves T' s t" unfolding evolves_def by blast
qed

lemma harmless_weaken: "harmless T m \<Longrightarrow> T \<le> T' \<Longrightarrow> harmless T' m"
  unfolding harmless_def safe_def using evolves_weaken by blast

lemma harmless_reports:
  assumes "settling_step \<le> T"
  shows "harmless T (apply_reconciliation_order_snapshot i sn)"
    and "harmless T (mark_reconciliation_unresolved i code msg raw)"
    and "harmless T (apply_conditional_order_event ev)"
    and "harmless T (apply_conditional_order_snapshot cs)"
  by (rule harmless_weaken [OF harmless_drop [OF apply_reconciliation_safe] assms]
      harmless_weaken [OF harmless_drop [OF mark_unresolved_safe] assms]
      harmless_drop [OF apply_conditional_order_event_safe]
      harmless_drop [OF apply_conditional_order_snapshot_safe])+

lemma harmless_load_by:
  "harmless T (load_order_by_client_conditional_id ex mt v b)"
  "harmless T (load_order_by_exchange_conditional_id ex mt v b)"
  by (rule harmless_drop [OF load_by_resolved(3)] harmless_drop [OF load_by_resolved(4)])+

end
