(* ===== verification/Rebuild.thy ===== *)
theory Rebuild
  imports Paging PositionService Harmless
begin

text \<open>
  \<open>projection/order_projection_rebuilder.py\<close> and \<open>position_projection_rebuilder.py\<close>: the Redis
  projections are thrown away and written again from PostgreSQL.  Clearing a projection is one step;
  the counts of deleted keys are left out.  A save that fails is to be counted and logged, but the
  log message of both handlers formats a name that does not exist there, \<open>row\<close>: the handler
  itself raises.
\<close>

section \<open>Orders\<close>

record rebuild_result =
  total_rows :: nat
  rebuilt_rows :: nat
  skipped_rows :: nat

definition rebuild_order :: "order \<Rightarrow> rebuild_result \<Rightarrow> rebuild_result wprog" where
  "rebuild_order ord result =
     catch
       (andThen (redis_save ord) (\<lambda>applied.
        ret (if applied then result\<lparr>rebuilt_rows := Suc (rebuilt_rows result)\<rparr>
             else result\<lparr>skipped_rows := Suc (skipped_rows result)\<rparr>)))
       (\<lambda>_. throw (OtherError ''NameError''))"

definition rebuild_active_orders :: "bool \<Rightarrow> rebuild_result wprog" where
  "rebuild_active_orders reset_existing =
     andThen (if reset_existing then redis_call (\<lambda>rd. (Inr (), clear_projection True rd)) else ret ()) (\<lambda>_.
     andThen list_non_terminal_joined_orders (\<lambda>rows.
     andThen (build_orders rows) (\<lambda>orders.
     foldE rebuild_order orders \<lparr>total_rows = length orders, rebuilt_rows = 0, skipped_rows = 0\<rparr>)))"

section \<open>Positions\<close>

definition rebuild_position :: "position \<Rightarrow> rebuild_result \<Rightarrow> rebuild_result psprog" where
  "rebuild_position p result =
     catch
       (andThen (save_position p) (\<lambda>_. ret (result\<lparr>rebuilt_rows := Suc (rebuilt_rows result)\<rparr>)))
       (\<lambda>_. throw (OtherError ''NameError''))"

definition rebuild_active_positions :: "bool \<Rightarrow> rebuild_result psprog" where
  "rebuild_active_positions reset_existing =
     andThen (if reset_existing then ps_redis (\<lambda>s. (Inr (), redis_clear_positions True s)) else ret ()) (\<lambda>_.
     andThen (ps_read repo_list_open_for_projection) (\<lambda>found.
     andThen (liftSum found) (\<lambda>positions.
     foldE rebuild_position positions \<lparr>total_rows = length positions, rebuilt_rows = 0, skipped_rows = 0\<rparr>)))"

section \<open>What upserts of other orders leave\<close>

text \<open>An order that no part of the projection mentions.\<close>

definition hidden :: "string \<Rightarrow> redis \<Rightarrow> bool" where
  "hidden i rd \<longleftrightarrow> rd_live rd i = None \<and>
     (\<forall>m. i \<notin> rd_open rd m \<and> i \<notin> rd_cond_open rd m \<and>
          map_of (rd_unknown rd m) i = None \<and> map_of (rd_recovery rd m) i = None) \<and>
     (\<forall>k. i \<notin> rd_symbol rd k)"

lemma cleared_hidden: "hidden i (clear_projection True rd)"
  by (simp add: hidden_def clear_projection_def Let_def)

lemma reindex_frame:
  assumes "i \<noteq> o_order_id ord"
  shows "(i \<in> rd_open (reindex ord rd) m) = (i \<in> rd_open rd m)"
    and "(i \<in> rd_cond_open (reindex ord rd) m) = (i \<in> rd_cond_open rd m)"
    and "map_of (rd_unknown (reindex ord rd) m) i = map_of (rd_unknown rd m) i"
    and "map_of (rd_recovery (reindex ord rd) m) i = map_of (rd_recovery rd m) i"
    and "(i \<in> rd_symbol (reindex ord rd) k) = (i \<in> rd_symbol rd k)"
    and "rd_ttl (reindex ord rd) i = rd_ttl rd i"
  using assms by (simp_all add: reindex_def Let_def set_member_iff map_of_set_score)

lemma upsert_cases:
  "snd (upsert_projection_if_newer ord rd) = rd \<or>
   (\<exists>f. snd (upsert_projection_if_newer ord rd) = reindex ord (rd\<lparr>rd_live := (rd_live rd)(o_order_id ord \<mapsto> f)\<rparr>))"
  by (auto simp: upsert_projection_if_newer_def split: sum.split)

lemma upsert_frame:
  "i \<noteq> o_order_id ord \<Longrightarrow> hidden i (snd (upsert_projection_if_newer ord rd)) = hidden i rd"
  "o_order_id d \<noteq> o_order_id ord \<Longrightarrow> shows_order d (snd (upsert_projection_if_newer ord rd)) = shows_order d rd"
  using upsert_cases [of ord rd]
  by (elim disjE exE; simp add: hidden_def shows_order_def reindex_frame Let_def)+

lemma upsert_all_frame:
  "i \<notin> set (map o_order_id os) \<Longrightarrow> hidden i (upsert_all os rd) = hidden i rd"
  "o_order_id d \<notin> set (map o_order_id os) \<Longrightarrow> shows_order d (upsert_all os rd) = shows_order d rd"
  by (induction os arbitrary: rd) (simp_all add: upsert_frame)

lemma upsert_all_shows:
  assumes "distinct (map o_order_id os)" and "list_all (\<lambda>d. writable d \<and> 0 \<le> o_version d) os"
    and "\<forall>d\<in>set os. rd_live rd (o_order_id d) = None" and "ord \<in> set os"
  shows "shows_order ord (upsert_all os rd)"
  using assms
proof (induction os arbitrary: rd)
  case (Cons d os)
  obtain es where es: "from_order d = Inr es" using Cons.prems(2) by (auto simp: writable_def)
  have "current_version (rd_live rd (o_order_id d)) < o_version d"
    using Cons.prems(2,3) by (simp add: current_version_def)
  from upsert_applied [OF es this] have first: "shows_order d (snd (upsert_projection_if_newer d rd))" by auto
  show ?case
  proof (cases "ord = d")
    case True
    have "o_order_id d \<notin> set (map o_order_id os)" using Cons.prems(1) by simp
    from upsert_all_frame(2) [OF this] first True show ?thesis by simp
  next
    case False
    have "\<forall>x\<in>set os. rd_live (snd (upsert_projection_if_newer d rd)) (o_order_id x) = None"
      using Cons.prems(1,3) by (auto simp: image_iff) (metis upsert_other_hash)
    with Cons.prems False Cons.IH show ?thesis by simp
  qed
qed simp

section \<open>The rebuild\<close>

lemma build_orders_all:
  "\<forall>row\<in>set rows. o_order_id row \<noteq> [] \<Longrightarrow> map rebuilt rows = map Inr ords \<Longrightarrow>
     build_orders rows s = (Inr ords, s)"
proof (induction rows arbitrary: ords)
  case (Cons row rows)
  then obtain d ds where ds: "ords = d # ds" "rebuilt row = Inr d" "map rebuilt rows = map Inr ds"
    by (auto simp: Cons_eq_map_conv)
  with Cons show ?case by (simp add: prog_simps rebuilt_build)
qed (simp add: prog_simps)

definition redis_up :: "world \<Rightarrow> bool" where
  "redis_up s \<longleftrightarrow> w_rd_ok s = (\<lambda>_. True)"

lemma rebuild_order_run:
  assumes "redis_up s" and "writable d" and "0 \<le> o_version d" and "rd_live (w_redis s) (o_order_id d) = None"
  shows "rebuild_order d res s =
    (Inr (res\<lparr>rebuilt_rows := Suc (rebuilt_rows res)\<rparr>),
     s\<lparr>w_rd_calls := Suc (w_rd_calls s), w_redis := snd (upsert_projection_if_newer d (w_redis s))\<rparr>)"
proof -
  obtain es where es: "from_order d = Inr es" using assms(2) by (auto simp: writable_def)
  have "current_version (rd_live (w_redis s) (o_order_id d)) < o_version d"
    using assms(3,4) by (simp add: current_version_def)
  then obtain rd where "upsert_projection_if_newer d (w_redis s) = (Inr True, rd)"
    using upsert_applied [OF es] by blast
  with assms(1) show ?thesis
    by (simp add: rebuild_order_def redis_save_def redis_call_def redis_up_def prog_simps Let_def)
qed

lemma rebuild_all_run:
  assumes "redis_up s" and "distinct (map o_order_id ords)"
    and "list_all (\<lambda>d. writable d \<and> 0 \<le> o_version d) ords"
    and "\<forall>d\<in>set ords. rd_live (w_redis s) (o_order_id d) = None"
  shows "foldE rebuild_order ords res s =
    (Inr (res\<lparr>rebuilt_rows := rebuilt_rows res + length ords\<rparr>),
     s\<lparr>w_rd_calls := w_rd_calls s + length ords, w_redis := upsert_all ords (w_redis s)\<rparr>)"
  using assms
proof (induction ords arbitrary: s res)
  case (Cons d ords)
  let ?s = "s\<lparr>w_rd_calls := Suc (w_rd_calls s), w_redis := snd (upsert_projection_if_newer d (w_redis s))\<rparr>"
  have d: "writable d" "0 \<le> o_version d" "rd_live (w_redis s) (o_order_id d) = None" using Cons.prems by simp_all
  have "\<forall>x\<in>set ords. rd_live (w_redis ?s) (o_order_id x) = None"
    using Cons.prems(2,4) by (auto simp: image_iff) (metis upsert_other_hash)
  moreover have "redis_up ?s" using Cons.prems(1) by (simp add: redis_up_def)
  ultimately have "foldE rebuild_order ords (res\<lparr>rebuilt_rows := Suc (rebuilt_rows res)\<rparr>) ?s =
    (Inr (res\<lparr>rebuilt_rows := Suc (rebuilt_rows res) + length ords\<rparr>),
     ?s\<lparr>w_rd_calls := w_rd_calls ?s + length ords, w_redis := upsert_all ords (w_redis ?s)\<rparr>)"
    using Cons.IH [of ?s "res\<lparr>rebuilt_rows := Suc (rebuilt_rows res)\<rparr>"] Cons.prems(2,3) by simp
  then show ?case using rebuild_order_run [OF Cons.prems(1) d] by (simp add: prog_simps)
qed (simp add: prog_simps)

text \<open>C25: A rebuild with a reset makes Redis a copy of PostgreSQL: when no store call fails and every
  open row can be written, the rebuild counts each of them as written, every open order is shown with
  its row's values in exactly the indexes its state calls for, whatever was in Redis before, and no
  other order is left anywhere in the projection.\<close>

theorem rebuild_restores_projection:
  assumes "gw_inv s" and "w_pg_ok s = (\<lambda>_. True)" and "w_rd_ok s = (\<lambda>_. True)"
    and "map rebuilt (list_non_terminal_rows s) = map Inr ords"
    and "list_all (\<lambda>d. writable d \<and> 0 \<le> o_version d) ords"
  shows "\<exists>t. rebuild_active_orders True s =
      (Inr \<lparr>total_rows = length ords, rebuilt_rows = length ords, skipped_rows = 0\<rparr>, t) \<and>
    (\<forall>i. if i \<in> set (map o_order_id ords)
         then \<exists>ord\<in>set ords. o_order_id ord = i \<and> shows_order ord (w_redis t)
         else hidden i (w_redis t)) \<and>
    w_orders t = w_orders s \<and> w_outbox t = w_outbox s"
proof -
  let ?rows = "list_non_terminal_rows s"
  let ?u = "s\<lparr>w_rd_calls := Suc (w_rd_calls s), w_redis := clear_projection True (w_redis s),
      w_pg_calls := Suc (w_pg_calls s)\<rparr>"
  have rows: "?rows = filter (\<lambda>_. True) ?rows" by simp
  have ids: "\<forall>row\<in>set ?rows. o_order_id row \<noteq> []"
    using joined_orders_loaded [OF assms(1)] by (auto simp: list_non_terminal_rows_def loaded_def row_ok_def)
  have same: "list_non_terminal_rows ?u = ?rows"
    using same_rows_joined [of s ?u] by (simp add: list_non_terminal_rows_def same_rows_def)
  have "map o_order_id ords = map o_order_id ?rows"
  proof -
    have "map (o_order_id \<circ> projr \<circ> rebuilt) ?rows = map o_order_id ords"
      using arg_cong [OF assms(4), of "map (o_order_id \<circ> projr)"] by (simp add: comp_assoc)
    moreover have "(o_order_id \<circ> projr \<circ> rebuilt) row = o_order_id row" if "row \<in> set ?rows" for row
    proof -
      have "rebuilt row \<in> set (map Inr ords)" using that unfolding assms(4) [symmetric] by simp
      then obtain d where "rebuilt row = Inr d" by auto
      with rebuilt_key(2) [OF this] ids that show ?thesis by simp
    qed
    ultimately show ?thesis by (metis (mono_tags, lifting) map_cong)
  qed
  moreover have "distinct (map o_order_id ?rows)"
    using joined_ids_distinct [OF assms(1)] by (simp add: list_non_terminal_rows_def distinct_map)
      (auto simp: inj_on_def)
  ultimately have distinct: "distinct (map o_order_id ords)" by simp
  have cleared: "rd_live (clear_projection True (w_redis s)) i = None" for i
    by (simp add: clear_projection_def Let_def)
  let ?t = "?u\<lparr>w_rd_calls := w_rd_calls ?u + length ords, w_redis := upsert_all ords (w_redis ?u)\<rparr>"
  have "foldE rebuild_order ords \<lparr>total_rows = length ords, rebuilt_rows = 0, skipped_rows = 0\<rparr> ?u =
      (Inr \<lparr>total_rows = length ords, rebuilt_rows = length ords, skipped_rows = 0\<rparr>, ?t)"
    by (subst rebuild_all_run [OF _ distinct assms(5)]) (simp_all add: redis_up_def assms(3) cleared)
  then have "rebuild_active_orders True s =
      (Inr \<lparr>total_rows = length ords, rebuilt_rows = length ords, skipped_rows = 0\<rparr>, ?t)"
    using build_orders_all [OF ids assms(4), of ?u] assms(2,3) same
    by (simp add: rebuild_active_orders_def list_non_terminal_joined_orders_def pg_read_def pg_transaction_def
        redis_call_def prog_simps Let_def)
  moreover have "shows_order ord (w_redis ?t)" if "ord \<in> set ords" for ord
    using upsert_all_shows [OF distinct assms(5) _ that, of "w_redis ?u"] cleared by simp
  moreover have "hidden i (w_redis ?t)" if "i \<notin> set (map o_order_id ords)" for i
    using upsert_all_frame(1) [OF that] cleared_hidden by simp
  ultimately show ?thesis by (intro exI [of _ ?t]) auto
qed

section \<open>The store under a rebuild\<close>

lemma rebuild_harmless: "harmless T (rebuild_active_orders reset_existing)"
proof -
  have one: "safe gw_inv (evolves T) (loaded (o_order_id d) d) (rebuild_order d res) (\<lambda>_ _. True)" for d res
    unfolding rebuild_order_def
    by (intro gw.safe_catch gw.safe_throw loaded_stable gw.safe_then [OF safe_pre [OF redis_save_safe]])
      (auto intro: gw.safe_ret simp: loaded_seen)
  have fold: "safe gw_inv (evolves T) (all_loaded ords) (foldE rebuild_order ords res) (\<lambda>_ _. True)" for ords res
  proof (induction ords arbitrary: res)
    case (Cons d ords)
    show ?case
      by (simp, rule gw.safe_first [OF safe_pre [OF one]]) (auto intro: safe_pre [OF Cons.IH])
  qed (simp add: gw.safe_ret)
  have rows: "safe gw_inv (evolves T) (\<lambda>_. True) list_non_terminal_joined_orders
      (\<lambda>ds s. all_loaded ds s \<and> (\<forall>d\<in>set ds. True))"
    unfolding list_non_terminal_joined_orders_def
    by (rule list_read_safe [where ok = "\<lambda>_. True"]) (auto simp: joined_orders_same_store list_non_terminal_rows_def)
  have "harmless T (andThen list_non_terminal_joined_orders (\<lambda>rows. andThen (build_orders rows) (\<lambda>orders.
      foldE rebuild_order orders \<lparr>total_rows = length orders, rebuilt_rows = 0, skipped_rows = 0\<rparr>)))"
    unfolding harmless_def
    by (rule gw.safe_then [OF rows], simp, rule gw.safe_then [OF build_orders_safe]) (auto intro: safe_pre [OF fold])
  then show ?thesis
    unfolding rebuild_active_orders_def
    by (auto intro!: harmless_then harmless_redis_call simp: clear_projection_def Let_def split: if_splits)
qed

section \<open>An instance\<close>

text \<open>The indexes of Redis still list an order that PostgreSQL does not know.\<close>

definition orphan_world :: world where
  "orphan_world = (holding sample_open)\<lparr>w_redis := empty_redis\<lparr>rd_open := (\<lambda>_. {''O-9''})\<rparr>\<rparr>"

lemma orphan_world_inv: "gw_inv orphan_world"
proof -
  have "gw_inv (holding sample_open)"
    by (rule holding_inv) (simp add: row_ok_def sample_open_def blank_order_def)
  then show ?thesis unfolding orphan_world_def
    by (rule gw_inv_redis_less) (simp_all add: holding_def created_world_def blank_world_def empty_redis_def)
qed

lemma orphan_world_rows: "map rebuilt (list_non_terminal_rows orphan_world) = [Inr sample_open]"
  by code_simp

lemma rebuild_restores_projection_witness:
  "fst (rebuild_active_orders True orphan_world) = Inr \<lparr>total_rows = 1, rebuilt_rows = 1, skipped_rows = 0\<rparr> \<and>
    shows_order sample_open (w_redis (snd (rebuild_active_orders True orphan_world))) \<and>
    hidden ''O-9'' (w_redis (snd (rebuild_active_orders True orphan_world)))"
proof -
  have ids: "o_order_id sample_open = ''O-1''" by (simp add: sample_open_def blank_order_def)
  have "\<exists>t. rebuild_active_orders True orphan_world =
      (Inr \<lparr>total_rows = length [sample_open], rebuilt_rows = length [sample_open], skipped_rows = 0\<rparr>, t) \<and>
    (\<forall>i. if i \<in> set (map o_order_id [sample_open])
         then \<exists>ord\<in>set [sample_open]. o_order_id ord = i \<and> shows_order ord (w_redis t)
         else hidden i (w_redis t)) \<and>
    w_orders t = w_orders orphan_world \<and> w_outbox t = w_outbox orphan_world"
    by (rule rebuild_restores_projection [OF orphan_world_inv])
      (simp_all add: orphan_world_rows samples_writable,
       simp_all add: orphan_world_def holding_def created_world_def blank_world_def sample_open_def)
  then obtain t where t: "rebuild_active_orders True orphan_world =
      (Inr \<lparr>total_rows = length [sample_open], rebuilt_rows = length [sample_open], skipped_rows = 0\<rparr>, t)"
    and shown: "\<forall>i. if i \<in> set (map o_order_id [sample_open])
         then \<exists>ord\<in>set [sample_open]. o_order_id ord = i \<and> shows_order ord (w_redis t)
         else hidden i (w_redis t)" by blast
  from spec [OF shown, of "''O-1''"] spec [OF shown, of "''O-9''"] show ?thesis by (simp add: ids t)
qed

end
