(* ===== verification/Recovery.thy ===== *)
theory Recovery
  imports Harmless
begin

text \<open>
  \<open>workers/recovery_worker.py\<close>: orders that stay in a state of doubt are looked up one by one on
  the exchange, and what it answers is applied through the gateway.  An order that cannot be recovered
  is put back in the recovery index with a later time.  Starting, stopping and sleeping are left out.
\<close>

section \<open>Reads of the Redis repository\<close>

definition market_key_of :: "exchange \<Rightarrow> market_type \<Rightarrow> market_key" where
  "market_key_of ex mt = (exchange_value ex, market_type_value mt)"

definition load_many_order_ids :: "string list \<Rightarrow> live_hash list wprog" where
  "load_many_order_ids ids =
     (if ids = [] then ret [] else redis_read (\<lambda>rd. List.map_filter (rd_live rd) ids))"

definition list_recovery_orders :: "exchange \<Rightarrow> market_type \<Rightarrow> nat \<Rightarrow> int \<Rightarrow> live_hash list wprog" where
  "list_recovery_orders ex mt batch_size older_than =
     andThen (redis_read (\<lambda>rd. zrangebyscore (Some older_than) batch_size (rd_recovery rd (market_key_of ex mt))))
       load_many_order_ids"

text \<open>\<open>Order.model_validate(row)\<close> in a \<open>try\<close>.\<close>

definition parse_row :: "live_hash \<Rightarrow> order option wprog" where
  "parse_row row =
     catch (andThen (liftSum (deserialize_order row)) (\<lambda>raw. andThen (build_order raw) (\<lambda>ord. ret (Some ord))))
       (\<lambda>_. ret None)"

section \<open>Conditional orders the exchange does not know\<close>

definition opt_json :: "string option \<Rightarrow> json" where
  "opt_json v = (case v of None \<Rightarrow> JNull | Some t \<Rightarrow> JStr t)"

definition unknown_event :: "string \<Rightarrow> order \<Rightarrow> string \<Rightarrow> string option \<Rightarrow> conditional_order_event" where
  "unknown_event source ord reason status_value =
     \<lparr>ce_exchange = o_exchange ord, ce_market_type = o_market_type ord,
      ce_client_conditional_id = o_client_conditional_id ord,
      ce_exchange_conditional_id = o_exchange_conditional_id ord,
      ce_target_status = CS_UNKNOWN, ce_exchange_conditional_status = status_value,
      ce_triggered_order_id = o_triggered_order_id ord,
      ce_triggered_client_order_id = o_triggered_client_order_id ord,
      ce_filled_quantity = Some (o_filled_quantity ord), ce_avg_fill_price = Some (o_avg_fill_price ord),
      ce_reject_reason_text = Some reason,
      ce_raw = [(''source'', JStr source), (''reason'', JStr reason), (''order_id'', JStr (o_order_id ord)),
                (''client_conditional_id'', opt_json (o_client_conditional_id ord)),
                (''exchange_conditional_id'', opt_json (o_exchange_conditional_id ord))]\<rparr>"

definition mark_conditional_unknown :: "order \<Rightarrow> string \<Rightarrow> string option \<Rightarrow> unit wprog" where
  "mark_conditional_unknown ord reason status_value =
     andThen epoch_ms (\<lambda>_.
     andThen (apply_conditional_order_event (unknown_event ''RecoveryWorker'' ord reason status_value)) (\<lambda>_.
     ret ()))"

section \<open>One order\<close>

definition recover_regular_order :: "gateway_env \<Rightarrow> order \<Rightarrow> bool wprog" where
  "recover_regular_order env ord =
     catch
       (andThen (client_for_market env (o_exchange ord) (o_market_type ord)) (\<lambda>c.
        andThen (c_get_order c ord) (\<lambda>snapshot.
        andThen (apply_reconciliation_order_snapshot (o_order_id ord) snapshot) (\<lambda>updated.
        ret (\<not> Option.is_none updated)))))
       (\<lambda>_. ret False)"

definition recover_conditional_order :: "gateway_env \<Rightarrow> order \<Rightarrow> bool wprog" where
  "recover_conditional_order env ord =
     catch
       (andThen (client_for_market env (o_exchange ord) (o_market_type ord)) (\<lambda>c.
        if \<not> c_supports_conditional_reconciliation c then ret False
        else
          andThen (c_get_conditional_order c ord) (\<lambda>found. case found of
            None \<Rightarrow>
              andThen (mark_conditional_unknown ord ''conditional_order_not_found_on_exchange''
                         (c_unknown_status_value c)) (\<lambda>_. ret True)
          | Some snapshot \<Rightarrow>
              andThen (apply_conditional_order_snapshot snapshot) (\<lambda>updated.
              ret (\<not> Option.is_none updated)))))
       (\<lambda>_. ret False)"

definition recover_one :: "gateway_env \<Rightarrow> exchange \<Rightarrow> market_type \<Rightarrow> live_hash \<Rightarrow> bool wprog" where
  "recover_one env ex mt row =
     andThen (parse_row row) (\<lambda>parsed. case parsed of
       None \<Rightarrow> ret False
     | Some ord \<Rightarrow>
         if o_exchange ord \<noteq> ex \<or> o_market_type ord \<noteq> mt then ret True
         else if o_order_route ord = Some CONDITIONAL then recover_conditional_order env ord
         else recover_regular_order env ord)"

section \<open>One round\<close>

record recovery_config =
  rv_older_than_ms :: int
  rv_batch_size :: nat
  rv_failure_backoff_ms :: int
  rv_markets :: "(exchange \<times> market_type) list"

definition postpone_recovery :: "recovery_config \<Rightarrow> exchange \<Rightarrow> market_type \<Rightarrow> string \<Rightarrow> unit wprog" where
  "postpone_recovery cfg ex mt i =
     andThen epoch_ms (\<lambda>now.
     redis_call (\<lambda>rd. (Inr (), postpone_recovery_order (market_key_of ex mt) i (now + rv_failure_backoff_ms cfg) rd)))"

definition recover_row ::
  "gateway_env \<Rightarrow> recovery_config \<Rightarrow> exchange \<Rightarrow> market_type \<Rightarrow> live_hash \<Rightarrow> string list \<Rightarrow> string list wprog" where
  "recover_row env cfg ex mt row seen_ids =
     (let i = hash_text row ''order_id'' in
      if i = [] \<or> i \<in> set seen_ids then ret seen_ids
      else
        andThen (recover_one env ex mt row) (\<lambda>recovered.
        andThen (if recovered then ret () else postpone_recovery cfg ex mt i) (\<lambda>_.
        ret (i # seen_ids))))"

definition recover_once :: "gateway_env \<Rightarrow> recovery_config \<Rightarrow> exchange \<Rightarrow> market_type \<Rightarrow> unit wprog" where
  "recover_once env cfg ex mt =
     andThen epoch_ms (\<lambda>now.
     andThen (list_recovery_orders ex mt (rv_batch_size cfg) (now - rv_older_than_ms cfg)) (\<lambda>rows.
     andThen (foldE (recover_row env cfg ex mt) rows []) (\<lambda>_.
     ret ())))"

text \<open>The body of the loop: an exception ends the round and is logged.\<close>

definition recovery_round :: "gateway_env \<Rightarrow> recovery_config \<Rightarrow> unit wprog" where
  "recovery_round env cfg =
     catch (forEach (\<lambda>(ex, mt). recover_once env cfg ex mt) (rv_markets cfg)) (\<lambda>_. ret ())"

section \<open>The store under a round\<close>

lemma load_many_harmless [simp]: "harmless T (load_many_order_ids ids)"
  by (simp add: load_many_order_ids_def)

lemma parse_row_harmless [simp]: "harmless T (parse_row row)"
  unfolding parse_row_def by (intro harmless_intros) simp_all

lemma recover_order_harmless:
  assumes "settling_step \<le> T" and "env_ok T env"
  shows "harmless T (recover_regular_order env ord)" and "harmless T (recover_conditional_order env ord)"
  unfolding recover_regular_order_def recover_conditional_order_def mark_conditional_unknown_def
  by (auto intro!: harmless_catch harmless_client [OF assms(2)] harmless_then harmless_reports [OF assms(1)]
      simp: client_calls split: option.split)

lemma recover_one_harmless:
  assumes "settling_step \<le> T" and "env_ok T env"
  shows "harmless T (recover_one env ex mt row)"
  unfolding recover_one_def
  by (auto intro!: harmless_then recover_order_harmless [OF assms] split: option.split)

lemma postpone_recovery_harmless: "harmless T (postpone_recovery cfg ex mt i)"
  unfolding postpone_recovery_def
  by (auto intro!: harmless_then harmless_redis_call simp: postpone_recovery_order_def)

lemma recover_once_harmless:
  assumes "settling_step \<le> T" and "env_ok T env"
  shows "harmless T (recover_once env cfg ex mt)"
  unfolding recover_once_def list_recovery_orders_def recover_row_def
  by (auto intro!: harmless_then harmless_fold recover_one_harmless [OF assms] postpone_recovery_harmless
      simp: Let_def)

lemma recovery_round_harmless:
  assumes "settling_step \<le> T" and "env_ok T env"
  shows "harmless T (recovery_round env cfg)"
  unfolding recovery_round_def
  by (auto intro!: harmless_catch harmless_each recover_once_harmless [OF assms])

end
