(* ===== verification/Reconciliation.thy ===== *)
theory Reconciliation
  imports Recovery Paging "HOL-Library.AList"
begin

text \<open>
  \<open>workers/reconciliation_worker.py\<close>: the open orders of the exchange, of PostgreSQL and of
  Redis are compared, and each difference is repaired through the gateway.  A Python dictionary is an
  association list in insertion order.  What lies outside the repository is in \<open>host\<close>: the reply of
  Redis to \<open>SSCAN\<close> for the members of a set, a cursor and a count, the order in which Python walks
  a set of ids, and how many replies of \<open>SSCAN\<close> a loop may wait for: a loop that would wait longer
  is \<open>still_running\<close>.  Logging, starting, stopping and sleeping are left out.
\<close>

section \<open>Configuration\<close>

record recon_config =
  rc_markets :: "(exchange \<times> market_type) list"
  rc_recent_grace_ms :: int
  rc_orphan_policy :: string
  rc_active_symbols :: "string list"
  rc_all_orders_threshold :: int
  rc_all_orders_lookback_ms :: int
  rc_all_orders_limit :: int
  rc_conditional_batch_size :: nat
  rc_pg_batch_size :: nat
  rc_not_found_threshold :: int

record host =
  h_sscan :: "string set \<Rightarrow> nat \<Rightarrow> nat \<Rightarrow> nat \<times> string list"
  h_set_order :: "string list \<Rightarrow> string list"
  h_fuel :: nat

definition still_running :: exn where
  "still_running = OtherError ''still running''"

section \<open>Scans of Redis sets\<close>

definition DEFAULT_REDIS_PROJECTION_LIMIT :: nat where
  "DEFAULT_REDIS_PROJECTION_LIMIT = 500"

definition DEFAULT_REDIS_SCAN_COUNT :: nat where
  "DEFAULT_REDIS_SCAN_COUNT = 200"

fun scan_set_ids ::
  "nat \<Rightarrow> host \<Rightarrow> (redis \<Rightarrow> string set) \<Rightarrow> nat \<Rightarrow> nat \<Rightarrow> string list \<Rightarrow> (string list \<times> nat) wprog" where
  "scan_set_ids fuel h key limit cursor ids =
     (if \<not> length ids < limit then ret (take limit ids, cursor)
      else case fuel of
        0 \<Rightarrow> throw still_running
      | Suc n \<Rightarrow>
          andThen (redis_read (\<lambda>rd.
             h_sscan h (key rd) cursor (min DEFAULT_REDIS_SCAN_COUNT (limit - length ids)))) (\<lambda>(cursor', batch).
          if cursor' = 0 then ret (take limit (ids @ batch), cursor')
          else scan_set_ids n h key limit cursor' (ids @ batch)))"

declare scan_set_ids.simps [simp del]

definition list_open_regular_orders :: "host \<Rightarrow> exchange \<Rightarrow> market_type \<Rightarrow> live_hash list wprog" where
  "list_open_regular_orders h ex mt =
     andThen (scan_set_ids (h_fuel h) h (\<lambda>rd. rd_open rd (market_key_of ex mt))
                DEFAULT_REDIS_PROJECTION_LIMIT 0 []) (\<lambda>(ids, _).
     load_many_order_ids ids)"

section \<open>Dictionaries\<close>

type_synonym 'a dict = "(string \<times> 'a) list"

abbreviation dict_keys :: "'a dict \<Rightarrow> string list" where
  "dict_keys d \<equiv> map fst d"

definition index_exchange_order_snapshots :: "order_snapshot list \<Rightarrow> order_snapshot dict" where
  "index_exchange_order_snapshots snapshots =
     foldl (\<lambda>d sn. if truthy (sn_client_order_id sn) then AList.update (the (sn_client_order_id sn)) sn d else d)
       [] snapshots"

definition index_orders :: "order list \<Rightarrow> order dict" where
  "index_orders orders =
     foldl (\<lambda>d ord. if o_order_id ord = [] then d else AList.update (o_order_id ord) ord d) [] orders"

text \<open>The difference of two sets of ids, in the order Python walks it.\<close>

definition set_minus :: "host \<Rightarrow> string list \<Rightarrow> string list \<Rightarrow> string list" where
  "set_minus h xs ys = h_set_order h (filter (\<lambda>i. i \<notin> set ys) xs)"

text \<open>\<open>grouped.setdefault(key, []).append(item)\<close>.\<close>

definition group_by :: "('a \<Rightarrow> string) \<Rightarrow> 'a list \<Rightarrow> 'a list dict" where
  "group_by key xs =
     foldl (\<lambda>d x. AList.update (key x) (case map_of d (key x) of None \<Rightarrow> [x] | Some ys \<Rightarrow> ys @ [x]) d) [] xs"

definition parse_matching_orders ::
  "live_hash list \<Rightarrow> exchange \<Rightarrow> market_type \<Rightarrow> order_route \<Rightarrow> order list wprog" where
  "parse_matching_orders rows ex mt route =
     foldE (\<lambda>row orders.
       andThen (parse_row row) (\<lambda>parsed. ret (case parsed of
         None \<Rightarrow> orders
       | Some ord \<Rightarrow>
           if o_exchange ord = ex \<and> o_market_type ord = mt \<and> o_order_route ord = Some route
           then orders @ [ord] else orders))) rows []"

section \<open>Regular orders\<close>

definition fetch_exchange_open_orders :: "recon_config \<Rightarrow> client \<Rightarrow> order_snapshot list wprog" where
  "fetch_exchange_open_orders cfg c =
     (if rc_active_symbols cfg \<noteq> []
      then foldE (\<lambda>symb snapshots. andThen (c_get_open_orders c (Some symb)) (\<lambda>rows. ret (snapshots @ rows)))
             (rc_active_symbols cfg) []
      else c_get_open_orders c None)"

definition repair_pg_missing_in_redis :: "string list \<Rightarrow> order dict \<Rightarrow> unit wprog" where
  "repair_pg_missing_in_redis ids pg_open =
     forEach (\<lambda>i. case map_of pg_open i of None \<Rightarrow> ret () | Some ord \<Rightarrow> try_refresh ord) ids"

definition delete_projection :: "string \<Rightarrow> unit wprog" where
  "delete_projection i =
     andThen (redis_read (\<lambda>rd. rd_live rd i)) (\<lambda>_. redis_call (\<lambda>rd. (Inr (), redis_delete i rd)))"

definition repair_redis_extra_vs_pg :: "string list \<Rightarrow> unit wprog" where
  "repair_redis_extra_vs_pg ids =
     (if ids = [] then ret ()
      else andThen (load_orders_from_postgres ids True) (\<lambda>pg_orders.
        forEach (\<lambda>i. case pg_orders i of None \<Rightarrow> delete_projection i | Some _ \<Rightarrow> ret ()) ids))"

definition handle_exchange_extra_vs_pg ::
  "recon_config \<Rightarrow> client \<Rightarrow> string list \<Rightarrow> order_snapshot dict \<Rightarrow> unit wprog" where
  "handle_exchange_extra_vs_pg cfg c ids exchange_open =
     forEach (\<lambda>i. case map_of exchange_open i of
         None \<Rightarrow> ret ()
       | Some snapshot \<Rightarrow>
           if rc_orphan_policy cfg = ''log'' then ret ()
           else if rc_orphan_policy cfg = ''cancel''
           then catch (andThen (c_cancel_regular_by_client_id c (sn_symbol snapshot) i) (\<lambda>_. ret ())) (\<lambda>_. ret ())
           else throw NotImplementedError) ids"

definition failure_key :: "order \<Rightarrow> string \<times> string \<times> string" where
  "failure_key ord = (upper (exchange_value (o_exchange ord)), upper (market_type_value (o_market_type ord)), o_order_id ord)"

definition clear_failure :: "order \<Rightarrow> unit wprog" where
  "clear_failure ord =
     (if o_order_id ord = [] then ret ()
      else redis_call (\<lambda>rd. (Inr (), clear_reconcile_failure (failure_key ord) rd)))"

text \<open>\<open>INCR\<close>, then \<open>EXPIRE\<close>.\<close>

definition increment_failure :: "order \<Rightarrow> int wprog" where
  "increment_failure ord =
     (if o_order_id ord = [] then ret 0
      else
        andThen (redis_call (\<lambda>rd. case increment_reconcile_failure (failure_key ord) rd of (n, rd') \<Rightarrow> (Inr n, rd'))) (\<lambda>count.
        andThen (redis_read (\<lambda>_. ())) (\<lambda>_.
        ret count)))"

definition apply_snapshot_of :: "order \<Rightarrow> order_snapshot \<Rightarrow> bool wprog" where
  "apply_snapshot_of ord snapshot =
     (if o_order_id ord = [] then ret True
      else andThen (apply_reconciliation_order_snapshot (o_order_id ord) snapshot) (\<lambda>updated.
        ret (\<not> Option.is_none updated)))"

text \<open>The clause for an order the exchange does not know; what it raises is not caught.\<close>

definition order_not_found :: "recon_config \<Rightarrow> order \<Rightarrow> int option \<Rightarrow> string \<Rightarrow> json_obj \<Rightarrow> unit wprog" where
  "order_not_found cfg ord code msg raw =
     andThen (increment_failure ord) (\<lambda>count.
     if count < rc_not_found_threshold cfg then ret ()
     else andThen (mark_reconciliation_unresolved (o_order_id ord) code (Some msg) (Some raw)) (\<lambda>_. ret ()))"

definition repair_one_by_get_order :: "recon_config \<Rightarrow> client \<Rightarrow> order \<Rightarrow> unit wprog" where
  "repair_one_by_get_order cfg c ord =
     (if o_order_id ord = [] then ret ()
      else catch
        (andThen (c_get_order c ord) (\<lambda>snapshot.
         andThen (apply_snapshot_of ord snapshot) (\<lambda>applied.
         if applied then clear_failure ord else ret ())))
        (\<lambda>e. case e of
           ExchangeApiError ex cat msg code raw \<Rightarrow>
             if cat = EC_ORDER_NOT_FOUND then order_not_found cfg ord code msg raw else ret ()
         | _ \<Rightarrow> ret ()))"

definition repair_missing_open_by_single_get_order :: "recon_config \<Rightarrow> client \<Rightarrow> order list \<Rightarrow> unit wprog" where
  "repair_missing_open_by_single_get_order cfg c orders = forEach (repair_one_by_get_order cfg c) orders"

definition bulk_snapshots ::
  "recon_config \<Rightarrow> client \<Rightarrow> string \<Rightarrow> order list \<Rightarrow> (string \<Rightarrow> order_snapshot option) option wprog" where
  "bulk_snapshots cfg c symb orders =
     catch
       (if \<not> c_supports_bulk_order_lookup c then ret None
        else
          andThen (c_find_order_snapshots c symb orders (rc_all_orders_lookback_ms cfg) (rc_all_orders_limit cfg))
            (\<lambda>found. ret (Some found)))
       (\<lambda>_. ret None)"

definition try_repair_missing_open_by_bulk_lookup ::
  "recon_config \<Rightarrow> client \<Rightarrow> string \<Rightarrow> order list \<Rightarrow> bool wprog" where
  "try_repair_missing_open_by_bulk_lookup cfg c symb orders =
     andThen (bulk_snapshots cfg c symb orders) (\<lambda>looked. case looked of
       None \<Rightarrow> ret False
     | Some found \<Rightarrow>
         andThen (foldE (\<lambda>ord missing.
             if o_order_id ord = [] then ret missing
             else case found (o_order_id ord) of
               None \<Rightarrow> ret (missing @ [ord])
             | Some snapshot \<Rightarrow> andThen (apply_snapshot_of ord snapshot) (\<lambda>_. ret missing)) orders []) (\<lambda>missing.
         andThen (if missing = [] then ret () else repair_missing_open_by_single_get_order cfg c missing) (\<lambda>_.
         ret True)))"

definition bulk_order_lookup_threshold :: "recon_config \<Rightarrow> client \<Rightarrow> int" where
  "bulk_order_lookup_threshold cfg c =
     (case c_bulk_order_lookup_threshold c of
        None \<Rightarrow> rc_all_orders_threshold cfg
      | Some n \<Rightarrow> if n \<le> 0 then rc_all_orders_threshold cfg else n)"

definition repair_symbol_orders :: "recon_config \<Rightarrow> client \<Rightarrow> string \<times> order list \<Rightarrow> unit wprog" where
  "repair_symbol_orders cfg c = (\<lambda>(symb, orders).
     andThen (if bulk_order_lookup_threshold cfg c \<le> int (length orders)
              then try_repair_missing_open_by_bulk_lookup cfg c symb orders else ret False) (\<lambda>repaired.
     if repaired then ret () else repair_missing_open_by_single_get_order cfg c orders))"

definition repair_pg_missing_from_exchange_open ::
  "recon_config \<Rightarrow> client \<Rightarrow> string list \<Rightarrow> order dict \<Rightarrow> unit wprog" where
  "repair_pg_missing_from_exchange_open cfg c ids pg_open =
     (if ids = [] then ret ()
      else andThen epoch_ms (\<lambda>now.
        let due = filter (\<lambda>ord. \<not> now - o_updated_ts ord < rc_recent_grace_ms cfg)
                    (List.map_filter (map_of pg_open) ids)
        in forEach (repair_symbol_orders cfg c) (group_by (\<lambda>ord. upper (o_symbol ord)) due)))"

text \<open>The batches of the generator, collected; the loop ends, so the last case does not arise.\<close>

definition collect_open_orders :: "recon_config \<Rightarrow> exchange \<Rightarrow> market_type \<Rightarrow> order list wprog" where
  "collect_open_orders cfg ex mt = (\<lambda>s.
     case iter_open_order_batches ex mt (Some REGULAR) (rc_pg_batch_size cfg) False None s of
       Some (r, t) \<Rightarrow> (map_sum id concat r, t)
     | None \<Rightarrow> (Inl still_running, s))"

record regular_counts =
  rg_exchange_open :: nat
  rg_pg_open :: nat
  rg_redis_open :: nat
  rg_pg_missing_in_redis :: nat
  rg_redis_extra_vs_pg :: nat
  rg_exchange_extra_vs_pg :: nat
  rg_pg_missing_from_exchange_open :: nat

definition repair_differences ::
  "recon_config \<Rightarrow> host \<Rightarrow> client \<Rightarrow> order_snapshot dict \<Rightarrow> order dict \<Rightarrow> order dict \<Rightarrow> regular_counts wprog" where
  "repair_differences cfg h c exchange_open redis_open pg_open =
     (let pg_missing_in_redis = set_minus h (dict_keys pg_open) (dict_keys redis_open);
          redis_extra_vs_pg = set_minus h (dict_keys redis_open) (dict_keys pg_open);
          exchange_extra_vs_pg = set_minus h (dict_keys exchange_open) (dict_keys pg_open);
          pg_missing_from_exchange_open = set_minus h (dict_keys pg_open) (dict_keys exchange_open)
      in
        andThen (repair_pg_missing_in_redis pg_missing_in_redis pg_open) (\<lambda>_.
        andThen (repair_redis_extra_vs_pg redis_extra_vs_pg) (\<lambda>_.
        andThen (handle_exchange_extra_vs_pg cfg c exchange_extra_vs_pg exchange_open) (\<lambda>_.
        andThen (repair_pg_missing_from_exchange_open cfg c pg_missing_from_exchange_open pg_open) (\<lambda>_.
        ret \<lparr>rg_exchange_open = length exchange_open, rg_pg_open = length pg_open, rg_redis_open = length redis_open,
             rg_pg_missing_in_redis = length pg_missing_in_redis, rg_redis_extra_vs_pg = length redis_extra_vs_pg,
             rg_exchange_extra_vs_pg = length exchange_extra_vs_pg,
             rg_pg_missing_from_exchange_open = length pg_missing_from_exchange_open\<rparr>)))))"

definition reconcile_regular_orders_once ::
  "gateway_env \<Rightarrow> recon_config \<Rightarrow> host \<Rightarrow> exchange \<Rightarrow> market_type \<Rightarrow> regular_counts wprog" where
  "reconcile_regular_orders_once env cfg h ex mt =
     andThen (client_for_market env ex mt) (\<lambda>c.
     andThen (fetch_exchange_open_orders cfg c) (\<lambda>snapshots.
     andThen (list_open_regular_orders h ex mt) (\<lambda>rows.
     andThen (parse_matching_orders rows ex mt REGULAR) (\<lambda>redis_orders.
     andThen (collect_open_orders cfg ex mt) (\<lambda>pg_orders.
     repair_differences cfg h c (index_exchange_order_snapshots snapshots) (index_orders redis_orders)
       (index_orders pg_orders))))))"

section \<open>The store under a round\<close>

lemma scan_harmless: "harmless T (scan_set_ids fuel h key limit cursor ids)"
proof (induction fuel arbitrary: cursor ids)
  case 0
  show ?case by (subst scan_set_ids.simps) simp
next
  case (Suc n)
  then show ?case by (subst scan_set_ids.simps) (auto intro!: harmless_then split: prod.split)
qed

lemma parse_matching_harmless: "harmless T (parse_matching_orders rows ex mt route)"
  unfolding parse_matching_orders_def by (auto intro!: harmless_fold harmless_then)

lemma load_orders_harmless: "harmless T (load_orders_from_postgres ids refresh)"
proof -
  have row: "safe gw_inv (evolves T) (loaded (o_order_id row) row)
      (catch (andThen (build_order row) (\<lambda>ord.
         if o_order_id ord = [] then ret result
         else andThen (refresh_when refresh ord) (\<lambda>_. ret (result(o_order_id ord \<mapsto> ord))))) (\<lambda>_. ret result))
      (\<lambda>_ _. True)" for row result
  proof (intro gw.safe_catch loaded_stable gw.safe_ret TrueI)
    show "safe gw_inv (evolves T) (loaded (o_order_id row) row)
      (andThen (build_order row) (\<lambda>ord.
         if o_order_id ord = [] then ret result
         else andThen (refresh_when refresh ord) (\<lambda>_. ret (result(o_order_id ord \<mapsto> ord))))) (\<lambda>_ _. True)"
      by (rule gw.safe_then [OF build_order_loaded])
        (auto intro!: gw.safe_ret gw.safe_then [OF safe_pre [OF refresh_when_safe]] simp: loaded_seen)
  qed
  have rows: "safe gw_inv (evolves T) (all_loaded rows)
      (foldE (\<lambda>row result. catch (andThen (build_order row) (\<lambda>ord.
         if o_order_id ord = [] then ret result
         else andThen (refresh_when refresh ord) (\<lambda>_. ret (result(o_order_id ord \<mapsto> ord))))) (\<lambda>_. ret result))
       rows acc) (\<lambda>_ _. True)" for rows acc
  proof (induction rows arbitrary: acc)
    case (Cons row rows)
    show ?case
      by (simp, rule gw.safe_first [OF safe_pre [OF row]])
        (auto intro: safe_pre [OF Cons.IH])
  qed (simp add: gw.safe_ret)
  have read: "safe gw_inv (evolves T) (\<lambda>_. True) (get_joined_orders_by_ids ids) (\<lambda>rows s. all_loaded rows s \<and> (\<forall>d\<in>set rows. True))"
    if "ids \<noteq> []"
    using that unfolding get_joined_orders_by_ids_def
    by (simp, intro list_read_safe [where ok = "\<lambda>_. True", simplified]) (auto simp: joined_orders_same_store)
  show ?thesis
    unfolding load_orders_from_postgres_def harmless_def
    by (auto intro!: gw.safe_then [OF read] gw.safe_ret intro: safe_pre [OF rows])
qed

lemma page_safe:
  "safe gw_inv (evolves T) (\<lambda>_. True) (open_order_page ex mt route n False cursor) all_loaded"
proof -
  have read: "safe gw_inv (evolves T) (\<lambda>_. True) (pg_read (list_non_terminal_joined_orders_page ex mt route cursor n))
      (\<lambda>rows s. all_loaded rows s \<and> (\<forall>d\<in>set rows. True))"
    by (rule list_read_safe [where ok = "\<lambda>_. True"])
      (auto simp: list_non_terminal_joined_orders_page_def list_non_terminal_rows_def joined_orders_same_store
        dest: in_set_takeD)
  show ?thesis
    unfolding open_order_page_def
    by (rule gw.safe_then [OF read], simp, rule gw.safe_then [OF build_orders_safe]) (auto intro: gw.safe_ret)
qed

lemma batches_safe:
  assumes "iter_open_order_batches ex mt route n False cursor s = Some y" and "gw_inv s"
  shows "gw_inv (snd y) \<and> evolves T s (snd y) \<and> (\<forall>bs. fst y = Inr bs \<longrightarrow> all_loaded (concat bs) (snd y))"
proof -
  let ?P = "\<lambda>refresh s y. \<not> refresh \<longrightarrow> gw_inv s \<longrightarrow>
    gw_inv (snd y) \<and> evolves T s (snd y) \<and> (\<forall>bs. fst y = Inr bs \<longrightarrow> all_loaded (concat bs) (snd y))"
  have "?P False s y"
  proof (rule iter_open_order_batches.raw_induct
      [where P = "\<lambda>ex mt route n refresh cursor s y. ?P refresh s y", OF _ assms(1)])
    fix iter ex mt route n refresh cursor s y
    assume IH: "\<And>ex mt route n refresh cursor s y. iter ex mt route n refresh cursor s = Some y \<Longrightarrow> ?P refresh s y"
      and run: "(case open_order_page ex mt route n refresh cursor s of
           (Inl e, t) \<Rightarrow> Some (Inl e, t)
         | (Inr orders, t) \<Rightarrow>
             if orders = [] then Some (Inr [], t)
             else Option.bind (iter ex mt route n refresh (cursor_after orders) t)
                    (\<lambda>(r, u). Some (map_sum id ((#) orders) r, u))) = Some y"
    show "?P refresh s y"
    proof (intro impI)
      assume refresh: "\<not> refresh" and inv: "gw_inv s"
      obtain r t where page: "open_order_page ex mt route n refresh cursor s = (r, t)" by fastforce
      note p = safeD [OF page_safe inv TrueI page [unfolded eq_False [THEN iffD2, OF refresh]]]
      show "gw_inv (snd y) \<and> evolves T s (snd y) \<and> (\<forall>bs. fst y = Inr bs \<longrightarrow> all_loaded (concat bs) (snd y))"
      proof (cases r)
        case (Inl e)
        with run page p(1,2) show ?thesis by auto
      next
        case (Inr orders)
        show ?thesis
        proof (cases "orders = []")
          case True
          with run page p(1,2) Inr show ?thesis by auto
        next
          case False
          with run page Inr obtain q u where q: "iter ex mt route n refresh (cursor_after orders) t = Some (q, u)"
            "y = (map_sum id ((#) orders) q, u)" by (auto simp: bind_eq_Some_conv)
          from IH [OF q(1)] refresh p(1) have u: "gw_inv u" "evolves T t u"
            "\<And>bs. q = Inr bs \<Longrightarrow> all_loaded (concat bs) u" by auto
          have "all_loaded orders u"
            using all_loaded_stable [of T orders] p(1) p(3) [OF Inr] u(1,2) by (auto simp: stable_def)
          with u q(2) evolves_trans [OF p(2) u(2)] show ?thesis by (cases q) (auto simp: all_loaded_def)
        qed
      qed
    qed
  qed
  with assms(2) show ?thesis by simp
qed

lemma collect_safe: "safe gw_inv (evolves T) (\<lambda>_. True) (collect_open_orders cfg ex mt) all_loaded"
proof (rule safeI)
  fix s r t
  assume inv: "gw_inv s" and run: "collect_open_orders cfg ex mt s = (r, t)"
  let ?run = "iter_open_order_batches ex mt (Some REGULAR) (rc_pg_batch_size cfg) False None s"
  show "gw_inv t \<and> evolves T s t \<and> (\<forall>x. r = Inr x \<longrightarrow> all_loaded x t)"
  proof (cases ?run)
    case None
    with run inv show ?thesis by (auto simp: collect_open_orders_def evolves_refl)
  next
    case (Some y)
    with run have "r = map_sum id concat (fst y)" "t = snd y" by (auto simp: collect_open_orders_def split: prod.splits)
    with batches_safe [OF Some inv, of T] show ?thesis by (cases "fst y") auto
  qed
qed

lemma get_order_harmless:
  assumes "settling_step \<le> T" and "client_ok T c"
  shows "harmless T (repair_one_by_get_order cfg c ord)"
  unfolding repair_one_by_get_order_def order_not_found_def apply_snapshot_of_def clear_failure_def increment_failure_def
  by (auto intro!: harmless_then harmless_catch harmless_reports [OF assms(1)] harmless_redis_call
      simp: client_calls [OF assms(2)] clear_reconcile_failure_def increment_reconcile_failure_def Let_def
      split: exn.split)

lemma missing_from_exchange_harmless:
  assumes "settling_step \<le> T" and "client_ok T c"
  shows "harmless T (repair_pg_missing_from_exchange_open cfg c ids pg_open)"
proof -
  have single: "harmless T (repair_missing_open_by_single_get_order cfg c orders)" for orders
    unfolding repair_missing_open_by_single_get_order_def by (intro harmless_each get_order_harmless [OF assms])
  have bulk: "harmless T (try_repair_missing_open_by_bulk_lookup cfg c symb orders)" for symb orders
    unfolding try_repair_missing_open_by_bulk_lookup_def bulk_snapshots_def apply_snapshot_of_def
    by (auto intro!: harmless_then harmless_catch harmless_fold harmless_reports [OF assms(1)] single
        simp: client_calls [OF assms(2)] split: option.split)
  show ?thesis
    unfolding repair_pg_missing_from_exchange_open_def repair_symbol_orders_def
    by (auto intro!: harmless_then harmless_each single bulk simp: Let_def)
qed

lemma redis_extra_harmless: "harmless T (repair_redis_extra_vs_pg ids)"
  unfolding repair_redis_extra_vs_pg_def delete_projection_def
  by (auto intro!: harmless_then harmless_each load_orders_harmless harmless_redis_call
      simp: redis_delete_def Let_def split: option.splits if_splits)

lemma exchange_extra_harmless:
  "client_ok T c \<Longrightarrow> harmless T (handle_exchange_extra_vs_pg cfg c ids exchange_open)"
  unfolding handle_exchange_extra_vs_pg_def
  by (auto intro!: harmless_then harmless_each harmless_catch simp: client_calls split: option.split)

lemma index_orders_loaded: "all_loaded ords s \<Longrightarrow> map_of (index_orders ords) i = Some ord \<Longrightarrow> ord \<in> set ords"
proof -
  have "map_of (foldl (\<lambda>d ord. if o_order_id ord = [] then d else AList.update (o_order_id ord) ord d) d ords) i = Some ord \<Longrightarrow>
      ord \<in> set ords \<or> map_of d i = Some ord" for d
  proof (induction ords arbitrary: d)
    case (Cons a ords)
    show ?case
    proof (cases "o_order_id a = []")
      case False
      with Cons.IH [of "AList.update (o_order_id a) a d"] Cons.prems show ?thesis
        by (auto simp: update_conv' split: if_splits)
    qed (use Cons in auto)
  qed simp
  from this [of "[]"] show "map_of (index_orders ords) i = Some ord \<Longrightarrow> ord \<in> set ords" by (simp add: index_orders_def)
qed

lemma missing_in_redis_safe:
  "safe gw_inv (evolves T) (all_loaded ords) (repair_pg_missing_in_redis ids (index_orders ords)) (\<lambda>_ _. True)"
  unfolding repair_pg_missing_in_redis_def
proof (rule gw.safe_forEach [OF _ all_loaded_stable])
  fix i
  show "safe gw_inv (evolves T) (all_loaded ords)
      (case map_of (index_orders ords) i of None \<Rightarrow> ret () | Some ord \<Rightarrow> try_refresh ord) (\<lambda>_ _. True)"
  proof (cases "map_of (index_orders ords) i")
    case (Some ord)
    have "seen s ord" if "all_loaded ords s" for s
      using index_orders_loaded [OF that Some] that by (auto simp: all_loaded_def loaded_def)
    with Some show ?thesis by (auto intro: safe_pre [OF try_refresh_safe])
  qed (simp add: gw.safe_ret)
qed

lemma differences_safe:
  assumes "settling_step \<le> T" and "client_ok T c"
  shows "safe gw_inv (evolves T) (all_loaded ords)
    (repair_differences cfg h c exchange_open redis_open (index_orders ords)) (\<lambda>_ _. True)"
  unfolding repair_differences_def Let_def
  by (intro gw.safe_first [OF missing_in_redis_safe] gw.safe_first [OF harmless_safe] gw.safe_ret all_loaded_stable
      redis_extra_harmless exchange_extra_harmless [OF assms(2)] missing_from_exchange_harmless [OF assms] TrueI)

lemma regular_once_harmless:
  assumes "settling_step \<le> T" and "env_ok T env"
  shows "harmless T (reconcile_regular_orders_once env cfg h ex mt)"
proof -
  have fetch: "harmless T (fetch_exchange_open_orders cfg c)" if "client_ok T c" for c
    unfolding fetch_exchange_open_orders_def
    by (auto intro!: harmless_fold harmless_then simp: client_calls [OF that])
  have local: "harmless T (list_open_regular_orders h ex mt)"
    unfolding list_open_regular_orders_def by (auto intro!: harmless_then scan_harmless split: prod.split)
  have repair: "harmless T (andThen (collect_open_orders cfg ex mt)
      (\<lambda>ords. repair_differences cfg h c exchange_open redis_open (index_orders ords)))" if "client_ok T c" for c exchange_open redis_open
    unfolding harmless_def by (rule gw.safe_then [OF collect_safe differences_safe [OF assms(1) that]])
  show ?thesis
    unfolding reconcile_regular_orders_once_def
    by (intro harmless_client [OF assms(2)] harmless_then fetch local parse_matching_harmless repair)
qed

end
