(* ===== verification/ConditionalRecon.thy ===== *)
theory ConditionalRecon
  imports Reconciliation
begin

text \<open>
  The conditional half of \<open>workers/reconciliation_worker.py\<close>: batches of the conditional open set
  of Redis against the open conditional orders of the exchange, symbol by symbol, and the round over
  all markets.  At the end, what a round does to the store.
\<close>

section \<open>Counts\<close>

record conditional_counts =
  cn_checked :: nat
  cn_updated :: nat
  cn_orphan_exchange :: nat
  cn_local_missing :: nat
  cn_pg_repaired :: nat

definition empty_conditional_reconcile_result :: conditional_counts where
  "empty_conditional_reconcile_result =
     \<lparr>cn_checked = 0, cn_updated = 0, cn_orphan_exchange = 0, cn_local_missing = 0, cn_pg_repaired = 0\<rparr>"

definition merge_conditional_reconcile_result :: "conditional_counts \<Rightarrow> conditional_counts \<Rightarrow> conditional_counts" where
  "merge_conditional_reconcile_result tot batch =
     \<lparr>cn_checked = cn_checked tot + cn_checked batch, cn_updated = cn_updated tot + cn_updated batch,
      cn_orphan_exchange = cn_orphan_exchange tot + cn_orphan_exchange batch,
      cn_local_missing = cn_local_missing tot + cn_local_missing batch,
      cn_pg_repaired = cn_pg_repaired tot + cn_pg_repaired batch\<rparr>"

section \<open>One order\<close>

text \<open>The event is validated when it is built; the argument is what the caller hands over as the status.\<close>

definition recon_mark_conditional_unknown :: "order \<Rightarrow> string \<Rightarrow> exn + string option \<Rightarrow> bool wprog" where
  "recon_mark_conditional_unknown ord reason status_value =
     andThen epoch_ms (\<lambda>_.
     andThen (liftSum status_value) (\<lambda>v.
     andThen (apply_conditional_order_event (unknown_event ''ReconciliationWorker'' ord reason v)) (\<lambda>updated.
     ret (case updated of None \<Rightarrow> False | Some ord' \<Rightarrow> o_version ord' \<noteq> o_version ord))))"

text \<open>The caller hands over the method \<open>get_exchange_conditional_order_unknown_status_value\<close> itself,
  which is no text.\<close>

definition uncalled_method :: "exn + string option" where
  "uncalled_method = Inl (ValidationError ''exchange_conditional_status'')"

definition repair_conditional_missing_from_open :: "client \<Rightarrow> order \<Rightarrow> bool wprog" where
  "repair_conditional_missing_from_open c ord =
     andThen (catch (andThen (c_get_conditional_order c ord) (\<lambda>found. ret (Some found))) (\<lambda>_. ret None)) (\<lambda>looked.
     case looked of
       None \<Rightarrow> ret False
     | Some None \<Rightarrow>
         recon_mark_conditional_unknown ord ''not_found_in_exchange_conditional_reconciliation'' uncalled_method
     | Some (Some snapshot) \<Rightarrow>
         andThen (apply_conditional_order_snapshot snapshot) (\<lambda>updated.
         ret (case updated of None \<Rightarrow> False | Some ord' \<Rightarrow> o_version ord' \<noteq> o_version ord)))"

definition repair_exchange_conditional_orphan ::
  "recon_config \<Rightarrow> client \<Rightarrow> conditional_snapshot \<Rightarrow> exchange \<Rightarrow> market_type \<Rightarrow> bool wprog" where
  "repair_exchange_conditional_orphan cfg c snapshot ex mt =
     andThen
       (or_else (lookup_truthy (cs_client_conditional_id snapshot)
                   (\<lambda>v. load_order_by_client_conditional_id ex mt v True))
                (lookup_truthy (cs_exchange_conditional_id snapshot)
                   (\<lambda>v. load_order_by_exchange_conditional_id ex mt v True))) (\<lambda>found.
     case found of
       Some _ \<Rightarrow> ret True
     | None \<Rightarrow>
         if rc_orphan_policy cfg = ''log'' then ret False
         else if rc_orphan_policy cfg = ''cancel''
         then catch
           (andThen (c_cancel_conditional_by_id c (cs_symbol snapshot) (cs_client_conditional_id snapshot)
                       (cs_exchange_conditional_id snapshot)) (\<lambda>_. ret False))
           (\<lambda>_. ret False)
         else throw NotImplementedError)"

section \<open>One batch\<close>

text \<open>The ids of orders or snapshots that are there and not empty.\<close>

definition truthy_ids :: "('a \<Rightarrow> string option) \<Rightarrow> 'a list \<Rightarrow> string option list" where
  "truthy_ids key xs = filter truthy (map key xs)"

definition found_open :: "conditional_snapshot list \<Rightarrow> order \<Rightarrow> bool" where
  "found_open snapshots ord \<longleftrightarrow>
     (truthy (o_client_conditional_id ord) \<and>
      o_client_conditional_id ord \<in> set (truthy_ids cs_client_conditional_id snapshots)) \<or>
     (truthy (o_exchange_conditional_id ord) \<and>
      o_exchange_conditional_id ord \<in> set (truthy_ids cs_exchange_conditional_id snapshots))"

definition check_local_order ::
  "client \<Rightarrow> conditional_snapshot list \<Rightarrow> order \<Rightarrow> conditional_counts \<Rightarrow> conditional_counts wprog" where
  "check_local_order c snapshots ord counts =
     (let counts = counts\<lparr>cn_checked := cn_checked counts + 1\<rparr> in
      if found_open snapshots ord then ret counts
      else
        andThen (repair_conditional_missing_from_open c ord) (\<lambda>changed.
        let counts = counts\<lparr>cn_local_missing := cn_local_missing counts + 1\<rparr> in
        ret (if changed then counts\<lparr>cn_updated := cn_updated counts + 1\<rparr> else counts)))"

definition known_locally :: "order list \<Rightarrow> conditional_snapshot \<Rightarrow> bool" where
  "known_locally orders snapshot \<longleftrightarrow>
     cs_client_conditional_id snapshot \<in> set (truthy_ids o_client_conditional_id orders) \<or>
     cs_exchange_conditional_id snapshot \<in> set (truthy_ids o_exchange_conditional_id orders)"

definition check_exchange_order ::
  "recon_config \<Rightarrow> client \<Rightarrow> exchange \<Rightarrow> market_type \<Rightarrow> order list \<Rightarrow> conditional_snapshot \<Rightarrow>
   conditional_counts \<Rightarrow> conditional_counts wprog" where
  "check_exchange_order cfg c ex mt orders snapshot counts =
     (if known_locally orders snapshot then ret counts
      else
        andThen (repair_exchange_conditional_orphan cfg c snapshot ex mt) (\<lambda>repaired.
        let counts = counts\<lparr>cn_orphan_exchange := cn_orphan_exchange counts + 1\<rparr> in
        ret (if repaired then counts\<lparr>cn_pg_repaired := cn_pg_repaired counts + 1\<rparr> else counts)))"

definition reconcile_conditional_symbol ::
  "recon_config \<Rightarrow> client \<Rightarrow> exchange \<Rightarrow> market_type \<Rightarrow> string \<times> order list \<Rightarrow>
   conditional_counts \<Rightarrow> conditional_counts wprog" where
  "reconcile_conditional_symbol cfg c ex mt = (\<lambda>(symb, orders) counts.
     andThen (c_get_open_conditional_orders c symb) (\<lambda>snapshots.
     andThen (foldE (check_local_order c snapshots) orders counts)
       (foldE (check_exchange_order cfg c ex mt orders) snapshots)))"

definition reconcile_conditional_batch ::
  "recon_config \<Rightarrow> client \<Rightarrow> exchange \<Rightarrow> market_type \<Rightarrow> live_hash list \<Rightarrow> conditional_counts wprog" where
  "reconcile_conditional_batch cfg c ex mt rows =
     andThen (parse_matching_orders rows ex mt CONDITIONAL) (\<lambda>orders.
     foldE (reconcile_conditional_symbol cfg c ex mt) (group_by o_symbol orders) empty_conditional_reconcile_result)"

section \<open>All batches\<close>

text \<open>\<open>iter_open_conditional_order_batches\<close> and the loop that consumes it.\<close>

primrec conditional_batches ::
  "nat \<Rightarrow> recon_config \<Rightarrow> host \<Rightarrow> client \<Rightarrow> exchange \<Rightarrow> market_type \<Rightarrow> nat \<Rightarrow> conditional_counts \<Rightarrow>
   conditional_counts wprog" where
  "conditional_batches 0 cfg h c ex mt cursor tot = throw still_running"
| "conditional_batches (Suc n) cfg h c ex mt cursor tot =
     andThen (scan_set_ids (h_fuel h) h (\<lambda>rd. rd_cond_open rd (market_key_of ex mt))
                (rc_conditional_batch_size cfg) cursor []) (\<lambda>(ids, cursor').
     andThen (load_many_order_ids ids) (\<lambda>rows.
     andThen (if rows = [] then ret tot
              else andThen (reconcile_conditional_batch cfg c ex mt rows) (\<lambda>batch.
                   ret (merge_conditional_reconcile_result tot batch))) (\<lambda>tot.
     if cursor' = 0 then ret tot else conditional_batches n cfg h c ex mt cursor' tot)))"

definition reconcile_conditional_orders_once ::
  "gateway_env \<Rightarrow> recon_config \<Rightarrow> host \<Rightarrow> exchange \<Rightarrow> market_type \<Rightarrow> conditional_counts wprog" where
  "reconcile_conditional_orders_once env cfg h ex mt =
     andThen (client_for_market env ex mt) (\<lambda>c.
     conditional_batches (h_fuel h) cfg h c ex mt 0 empty_conditional_reconcile_result)"

section \<open>The round\<close>

definition reconcile_market :: "gateway_env \<Rightarrow> recon_config \<Rightarrow> host \<Rightarrow> exchange \<times> market_type \<Rightarrow> unit wprog" where
  "reconcile_market env cfg h = (\<lambda>(ex, mt).
     andThen (reconcile_regular_orders_once env cfg h ex mt) (\<lambda>_.
     andThen (client_for_market env ex mt) (\<lambda>c.
     if \<not> c_supports_conditional_reconciliation c then ret ()
     else andThen (reconcile_conditional_orders_once env cfg h ex mt) (\<lambda>_. ret ()))))"

definition reconcile_once :: "gateway_env \<Rightarrow> recon_config \<Rightarrow> host \<Rightarrow> unit wprog" where
  "reconcile_once env cfg h = forEach (reconcile_market env cfg h) (rc_markets cfg)"

text \<open>The body of the loop: an exception ends the round and is logged.\<close>

definition reconcile_round :: "gateway_env \<Rightarrow> recon_config \<Rightarrow> host \<Rightarrow> unit wprog" where
  "reconcile_round env cfg h = catch (reconcile_once env cfg h) (\<lambda>_. ret ())"

text \<open>A reply of \<open>SSCAN\<close> with more ids than asked for, which Redis allows, is cut to the limit, while
  the cursor moves past all of it: the ids cut off are not in this batch and not in the next ones.\<close>

lemma overfull_reply_cut:
  assumes "h_sscan h (key (w_redis s)) cursor (min DEFAULT_REDIS_SCAN_COUNT limit) = (cursor', ids)"
    and "w_rd_ok s (w_rd_calls s)" and "0 < limit" and "limit \<le> length ids"
  shows "\<exists>t. scan_set_ids (Suc n) h key limit cursor [] s = (Inr (take limit ids, cursor'), t)"
  using assms
  by (subst scan_set_ids.simps)
    (simp add: redis_read_def redis_call_def prog_simps Let_def scan_set_ids.simps [of n])

section \<open>The store under a round\<close>

lemma recon_mark_harmless:
  "settling_step \<le> T \<Longrightarrow> harmless T (recon_mark_conditional_unknown ord reason v)"
  unfolding recon_mark_conditional_unknown_def by (auto intro!: harmless_then harmless_reports)

lemma repair_conditional_harmless:
  assumes "settling_step \<le> T" and "client_ok T c"
  shows "harmless T (repair_conditional_missing_from_open c ord)"
  unfolding repair_conditional_missing_from_open_def
  by (auto intro!: harmless_then harmless_catch harmless_reports [OF assms(1)] recon_mark_harmless [OF assms(1)]
      simp: client_calls [OF assms(2)] split: option.split)

lemma lookup_harmless: "(\<And>v. harmless T (look v)) \<Longrightarrow> harmless T (lookup_truthy v look)"
  by (simp add: lookup_truthy_def)

lemma or_else_harmless: "harmless T m \<Longrightarrow> harmless T n \<Longrightarrow> harmless T (or_else m n)"
  unfolding or_else_def by (auto intro!: harmless_then split: option.split)

lemma orphan_harmless:
  assumes "client_ok T c"
  shows "harmless T (repair_exchange_conditional_orphan cfg c snapshot ex mt)"
  unfolding repair_exchange_conditional_orphan_def
  by (auto intro!: harmless_then harmless_catch or_else_harmless lookup_harmless harmless_load_by
      simp: client_calls [OF assms] split: option.split)

lemma conditional_batch_harmless:
  assumes "settling_step \<le> T" and "client_ok T c"
  shows "harmless T (reconcile_conditional_batch cfg c ex mt rows)"
  unfolding reconcile_conditional_batch_def reconcile_conditional_symbol_def check_local_order_def check_exchange_order_def
  by (auto intro!: harmless_then harmless_fold parse_matching_harmless repair_conditional_harmless [OF assms]
      orphan_harmless [OF assms(2)] simp: client_calls [OF assms(2)] Let_def)

lemma conditional_batches_harmless:
  assumes "settling_step \<le> T" and "client_ok T c"
  shows "harmless T (conditional_batches fuel cfg h c ex mt cursor tot)"
proof (induction fuel arbitrary: cursor tot)
  case (Suc n)
  then show ?case
    by (auto intro!: harmless_then scan_harmless conditional_batch_harmless [OF assms] split: prod.split)
qed simp

lemma conditional_once_harmless:
  assumes "settling_step \<le> T" and "env_ok T env"
  shows "harmless T (reconcile_conditional_orders_once env cfg h ex mt)"
  unfolding reconcile_conditional_orders_once_def
  by (rule harmless_client [OF assms(2)]) (rule conditional_batches_harmless [OF assms(1)])

lemma reconcile_round_harmless:
  assumes "settling_step \<le> T" and "env_ok T env"
  shows "harmless T (reconcile_once env cfg h)" and "harmless T (reconcile_round env cfg h)"
  unfolding reconcile_round_def reconcile_once_def reconcile_market_def
  by (auto intro!: harmless_catch harmless_each harmless_then harmless_client [OF assms(2)]
      conditional_once_harmless [OF assms] regular_once_harmless [OF assms])

end
