(* ===== verification/ReconOutcome.thy ===== *)
theory ReconOutcome
  imports GatewayOutcome ConditionalRecon
begin

text \<open>
  What reconciliation does about orders the exchange does not know: a regular order is given up at the
  threshold of its failure counter, a conditional order ends the round.
\<close>

section \<open>The failure counter\<close>

text \<open>The state after \<open>INCR\<close> and \<open>EXPIRE\<close>, and the count \<open>INCR\<close> returns.\<close>

definition failures :: "order \<Rightarrow> world \<Rightarrow> int" where
  "failures ord s = (case rd_failures (w_redis s) (failure_key ord) of None \<Rightarrow> 0 | Some n \<Rightarrow> n)"

definition counted :: "order \<Rightarrow> world \<Rightarrow> world" where
  "counted ord s = s\<lparr>w_rd_calls := Suc (Suc (w_rd_calls s)),
     w_redis := w_redis s\<lparr>rd_failures := (rd_failures (w_redis s))(failure_key ord \<mapsto> failures ord s + 1)\<rparr>\<rparr>"

lemma increment_failure_up:
  "stores_up s \<Longrightarrow> o_order_id ord \<noteq> [] \<Longrightarrow> increment_failure ord s = (Inr (failures ord s + 1), counted ord s)"
  by (simp add: increment_failure_def increment_reconcile_failure_def redis_read_def redis_call_def prog_simps
      stores_up_def failures_def counted_def Let_def)

lemma mark_unresolved_up:
  assumes "reads i ord s"
  shows "\<exists>r t. mark_reconciliation_unresolved i code msg raw s = (Inr (Some r), t) \<and> current r t \<and>
    (if o_status ord \<in> TERMINAL_STATUSES then r = ord \<and> StoreProperties.same_tables s t
     else o_status r = OS_RECONCILE_UNRESOLVED \<and> o_reject_reason r = Some RR_UNKNOWN_EXECUTION \<and>
       o_exchange_error_code r = code \<and> o_detail_msg r = msg \<and> o_version r = o_version ord + 1)"
proof -
  obtain u where u: "load_order_from_repo i s = (Inr (Some ord), u)"
    "stores_up u" "current ord u" "StoreProperties.same_tables s u"
    using assms by (rule reads_tables)
  show ?thesis
  proof (cases "o_status ord \<in> TERMINAL_STATUSES")
    case True
    with u show ?thesis by (simp add: mark_reconciliation_unresolved_def prog_simps)
  next
    case False
    let ?kw = "[FRejectReason (Some RR_UNKNOWN_EXECUTION), FExchangeErrorCode code, FDetailMsg msg,
      FRawExchangeResponse raw]"
    have "list_all known_field ?kw" by (simp add: known_field_def)
    from set_status_written [OF u(2,3) _ _ this, of False OS_RECONCILE_UNRESOLVED True] False obtain now c t where
      c: "apply_fields ?kw (ord\<lparr>o_status := OS_RECONCILE_UNRESOLVED, o_updated_ts := now\<rparr>) = Inr c"
      and t: "set_status ord OS_RECONCILE_UNRESOLVED False True ?kw u =
          (Inr (stamped OS_RECONCILE_UNRESOLVED now (o_version ord + 1) c), t)"
        "current (stamped OS_RECONCILE_UNRESOLVED now (o_version ord + 1) c) t" by auto
    have "mark_reconciliation_unresolved i code msg raw s =
        (Inr (Some (stamped OS_RECONCILE_UNRESOLVED now (o_version ord + 1) c)), t)"
      using False by (simp add: mark_reconciliation_unresolved_def prog_simps u(1) t(1))
    with t(2) c False show ?thesis by (auto simp: stamped_def)
  qed
qed

text \<open>C26: A regular order that PostgreSQL holds open and the exchange answers it does not know is counted
  once per round.  Below the threshold the tables stay as they are; at the threshold, and at every
  later round, the order becomes RECONCILE_UNRESOLVED with the error of the exchange, unless it has
  become terminal meanwhile.  The counter is not reset.\<close>

theorem not_found_unresolved:
  assumes "c_get_order c ord s = (Inl (ExchangeApiError ex EC_ORDER_NOT_FOUND msg code raw), u)"
    and "stores_up u" and "o_order_id ord \<noteq> []" and "reads (o_order_id ord) cur (counted ord u)"
  shows "\<exists>t. repair_one_by_get_order cfg c ord s = (Inr (), t) \<and>
    (if failures ord u + 1 < rc_not_found_threshold cfg \<or> o_status cur \<in> TERMINAL_STATUSES
     then w_orders t = w_orders u \<and> w_outbox t = w_outbox u
     else \<exists>r. current r t \<and> o_status r = OS_RECONCILE_UNRESOLVED \<and> o_reject_reason r = Some RR_UNKNOWN_EXECUTION \<and>
       o_exchange_error_code r = code \<and> o_detail_msg r = Some msg \<and> o_version r = o_version cur + 1)"
proof -
  have run: "repair_one_by_get_order cfg c ord s =
      (if failures ord u + 1 < rc_not_found_threshold cfg then (Inr (), counted ord u)
       else andThen (mark_reconciliation_unresolved (o_order_id ord) code (Some msg) (Some raw)) (\<lambda>_. ret ()) (counted ord u))"
    using assms(1,3) increment_failure_up [OF assms(2,3)]
    by (simp add: repair_one_by_get_order_def order_not_found_def prog_simps)
  have same: "w_orders (counted ord u) = w_orders u" "w_outbox (counted ord u) = w_outbox u"
    by (simp_all add: counted_def)
  show ?thesis
  proof (cases "failures ord u + 1 < rc_not_found_threshold cfg")
    case True
    with run same show ?thesis by simp
  next
    case False
    obtain r t where r: "mark_reconciliation_unresolved (o_order_id ord) code (Some msg) (Some raw) (counted ord u) =
        (Inr (Some r), t)" "current r t"
      "if o_status cur \<in> TERMINAL_STATUSES then r = cur \<and> StoreProperties.same_tables (counted ord u) t
       else o_status r = OS_RECONCILE_UNRESOLVED \<and> o_reject_reason r = Some RR_UNKNOWN_EXECUTION \<and>
         o_exchange_error_code r = code \<and> o_detail_msg r = Some msg \<and> o_version r = o_version cur + 1"
      using mark_unresolved_up [OF assms(4)] by blast
    with run False same show ?thesis by (auto simp: prog_simps StoreProperties.same_tables_def)
  qed
qed

definition forgetful_client :: client where
  "forgetful_client = down_client
     \<lparr>c_get_order := (\<lambda>_. throw (ExchangeApiError BINANCE EC_ORDER_NOT_FOUND ''Order does not exist.'' (Some (- 2013)) [])),
      c_get_open_conditional_orders := (\<lambda>_. ret []),
      c_get_conditional_order := (\<lambda>_. ret None)\<rparr>"

definition sample_config :: recon_config where
  "sample_config =
     \<lparr>rc_markets = [(BINANCE, PERP)], rc_recent_grace_ms = 3000, rc_orphan_policy = ''log'', rc_active_symbols = [],
      rc_all_orders_threshold = 6, rc_all_orders_lookback_ms = 60000, rc_all_orders_limit = 1000,
      rc_conditional_batch_size = 1000, rc_pg_batch_size = 1000, rc_not_found_threshold = 1\<rparr>"

lemma counted_reads:
  assumes "\<And>n. validate_order n ord = Inr ord" and "o_order_id ord \<noteq> []"
  shows "reads (o_order_id ord) ord (counted ord (holding ord))"
proof (rule stored_reads)
  show "stores_up (counted ord (holding ord))"
    by (simp add: stores_up_def counted_def holding_def created_world_def blank_world_def)
  show "rd_live (w_redis (counted ord (holding ord))) (o_order_id ord) = None"
    by (simp add: counted_def holding_def created_world_def blank_world_def empty_redis_def)
  show "joined_order (counted ord (holding ord)) (o_order_id ord) = Some ord"
    by (simp add: joined_order_def counted_def holding_def created_world_def joined_row_def orders_row.defs order.defs)
qed (use assms in auto)

lemma not_found_unresolved_witness:
  "\<exists>t r. repair_one_by_get_order sample_config forgetful_client sample_live (holding sample_live) = (Inr (), t) \<and>
    current r t \<and> o_status r = OS_RECONCILE_UNRESOLVED \<and> o_exchange_error_code r = Some (- 2013)"
proof -
  have id: "o_order_id sample_live \<noteq> []" by (simp add: sample_live_def sample_open_def)
  have "failures sample_live (holding sample_live) = 0"
    by (simp add: failures_def holding_def created_world_def blank_world_def empty_redis_def)
  moreover have "o_status sample_live \<notin> TERMINAL_STATUSES"
    by (simp add: sample_live_def sample_open_def TERMINAL_STATUSES_def)
  ultimately show ?thesis
    using not_found_unresolved [OF _ _ id counted_reads [OF samples_valid(1) id], of forgetful_client "holding sample_live"
        BINANCE "''Order does not exist.''" "Some (- 2013)" "[]" sample_config]
    by (auto simp: forgetful_client_def sample_config_def prog_simps stores_up_def holding_def created_world_def
        blank_world_def)
qed

section \<open>Conditional orders\<close>

lemma group_by_groups:
  "\<forall>(k, ys)\<in>set (group_by key xs). ys \<noteq> []"
proof -
  have "\<forall>(k, ys)\<in>set d. ys \<noteq> [] \<Longrightarrow>
    \<forall>(k, ys)\<in>set (foldl (\<lambda>d x. AList.update (key x) (case map_of d (key x) of None \<Rightarrow> [x] | Some ys \<Rightarrow> ys @ [x]) d) d xs).
      ys \<noteq> []" for d
  proof (induction xs arbitrary: d)
    case (Cons x xs)
    have upd: "(k, ys) \<in> set (AList.update a v d) \<Longrightarrow> ys = v \<or> (k, ys) \<in> set d" for k ys a v
      by (induction d) (auto split: if_splits)
    show ?case
      using Cons.prems by (simp, intro Cons.IH) (fastforce dest!: upd split: option.splits)
  qed simp
  from this [of "[]"] show ?thesis by (simp add: group_by_def)
qed

lemma group_by_Nil: "group_by key xs = [] \<longleftrightarrow> xs = []"
proof -
  have upd: "AList.update a v d \<noteq> []" for a :: string and v :: "'a list" and d by (cases d) auto
  have keep: "d \<noteq> [] \<Longrightarrow>
    foldl (\<lambda>d x. AList.update (key x) (case map_of d (key x) of None \<Rightarrow> [x] | Some ys \<Rightarrow> ys @ [x]) d) d zs \<noteq> []" for d zs
    by (induction zs arbitrary: d) (simp_all add: upd)
  show ?thesis
  proof (cases xs)
    case (Cons x ys)
    with keep [of "[(key x, [x])]" ys] show ?thesis by (simp add: group_by_def)
  qed (simp add: group_by_def)
qed

text \<open>C27: A conditional order that Redis lists as open and the exchange does not know, neither as open nor
  by its ids, is never set to UNKNOWN: the repair raises a validation error, the batch ends with it,
  and the tables stay as they are.\<close>

theorem unknown_conditional_ends_batch:
  assumes "parse_matching_orders rows ex mt CONDITIONAL s = (Inr orders, u)" and "orders \<noteq> []"
    and "c_get_open_conditional_orders c = (\<lambda>_. ret [])" and "c_get_conditional_order c = (\<lambda>_. ret None)"
  shows "\<exists>t. reconcile_conditional_batch cfg c ex mt rows s =
      (Inl (ValidationError ''exchange_conditional_status''), t) \<and>
    w_orders t = w_orders u \<and> w_outbox t = w_outbox u"
proof -
  obtain symb ys rest where groups: "group_by o_symbol orders = (symb, ys) # rest"
    using group_by_Nil assms(2) by (metis list.exhaust surj_pair)
  with group_by_groups [of o_symbol orders] obtain ord ords where ys: "ys = ord # ords"
    by (auto simp: neq_Nil_conv)
  have "\<not> found_open [] ord" by (simp add: found_open_def truthy_ids_def)
  then show ?thesis
    using assms(1) groups ys
    by (simp add: reconcile_conditional_batch_def reconcile_conditional_symbol_def check_local_order_def assms(3,4)
        repair_conditional_missing_from_open_def recon_mark_conditional_unknown_def uncalled_method_def prog_simps
        epoch_ms_def Let_def)
qed

definition conditional_hash :: live_hash where
  "conditional_hash = order_hash held_conditional"

lemma unknown_conditional_ends_batch_witness:
  "fst (reconcile_conditional_batch sample_config forgetful_client BINANCE PERP [conditional_hash] blank_world) =
     Inl (ValidationError ''exchange_conditional_status'')"
proof -
  have storable: "deserialize_order conditional_hash = Inr held_conditional"
    unfolding conditional_hash_def by (rule deserialize_order_hash) code_simp
  have "o_order_id held_conditional \<noteq> []" by (simp add: held_conditional_def sample_open_def)
  then have "parse_row conditional_hash blank_world = (Inr (Some held_conditional), blank_world)"
    by (simp add: parse_row_def storable prog_simps build_order_def held_valid Let_def)
  then have parsed: "parse_matching_orders [conditional_hash] BINANCE PERP CONDITIONAL blank_world =
      (Inr [held_conditional], blank_world)"
    by (simp add: parse_matching_orders_def prog_simps)
      (simp add: held_conditional_def sample_open_def blank_order_def)
  from unknown_conditional_ends_batch [OF parsed, of forgetful_client sample_config]
  show ?thesis by (auto simp: forgetful_client_def)
qed

end
