(* ===== verification/Risk.thy ===== *)
theory Risk
  imports DecimalArith DecimalText
begin

text \<open>
  \<open>handlers/risk_handler.py\<close>: the pre-trade risk check.  It takes the JSON object of a strategy's intent,
  validates the order in it, and replaces the quantity by one sized from the distance of the stop.
  pydantic's conversions to \<open>bool\<close> and \<open>int\<close>, and the texts of its errors, are arguments (\<open>parsing\<close>).
  An operation of \<open>Decimal\<close> that raises ends \<open>evaluate\<close> with \<open>InvalidOperation\<close>.
\<close>

section \<open>Reading JSON\<close>

text \<open>\<open>intent.get(key)\<close>, truth of a value, and \<open>a or b or c\<close>.\<close>

definition json_get :: "json_obj \<Rightarrow> string \<Rightarrow> json" where
  "json_get ob k = (case map_of ob k of None \<Rightarrow> JNull | Some v \<Rightarrow> v)"

fun py_truthy :: "json \<Rightarrow> bool" where
  "py_truthy JNull = False"
| "py_truthy (JBool b) = b"
| "py_truthy (JInt i) = (i \<noteq> 0)"
| "py_truthy (JReal t) = (case decimal_of_string t of Some d \<Rightarrow> \<not> dec_is_zero d | None \<Rightarrow> True)"
| "py_truthy (JStr t) = (t \<noteq> [])"
| "py_truthy (JList vs) = (vs \<noteq> [])"
| "py_truthy (JObj kvs) = (kvs \<noteq> [])"

fun first_truthy :: "json_obj \<Rightarrow> string list \<Rightarrow> json" where
  "first_truthy ob [] = JNull"
| "first_truthy ob [k] = json_get ob k"
| "first_truthy ob (k # ks) = (if py_truthy (json_get ob k) then json_get ob k else first_truthy ob ks)"

text \<open>The texts \<open>str\<close> gives truth values, lists and objects are no numbers.\<close>

fun decimal_of_json :: "json \<Rightarrow> pydecimal option" where
  "decimal_of_json (JStr t) = (if t = [] then None else decimal_of_string t)"
| "decimal_of_json (JInt i) = decimal_of_string (show_int i)"
| "decimal_of_json (JReal t) = decimal_of_string t"
| "decimal_of_json _ = None"

section \<open>The order of an intent\<close>

record parsing =
  lax_bool :: "json \<Rightarrow> bool option"
  lax_int :: "json \<Rightarrow> int option"
  exc_text :: "exn \<Rightarrow> string"

definition or_missing :: "string \<Rightarrow> 'a option \<Rightarrow> exn + 'a" where
  "or_missing k v = (case v of None \<Rightarrow> Inl (ValidationError k) | Some x \<Rightarrow> Inr x)"

fun text_field :: "json \<Rightarrow> string option" where
  "text_field (JStr t) = Some t"
| "text_field _ = None"

definition enum_field :: "('a \<Rightarrow> string) \<Rightarrow> 'a list \<Rightarrow> json \<Rightarrow> 'a option" where
  "enum_field val members v = (case text_field v of None \<Rightarrow> None | Some t \<Rightarrow> enum_parse val members t)"

text \<open>A required field, one that may be \<open>None\<close>, and one with a default.\<close>

definition required :: "(json \<Rightarrow> 'a option) \<Rightarrow> json_obj \<Rightarrow> string \<Rightarrow> exn + 'a" where
  "required f ob k = or_missing k (Option.bind (map_of ob k) f)"

definition nullable :: "(json \<Rightarrow> 'a option) \<Rightarrow> json_obj \<Rightarrow> string \<Rightarrow> exn + 'a option" where
  "nullable f ob k =
     (case map_of ob k of None \<Rightarrow> Inr None | Some v \<Rightarrow> if v = JNull then Inr None else map_sum id Some (or_missing k (f v)))"

definition defaulted :: "'a \<Rightarrow> (json \<Rightarrow> 'a option) \<Rightarrow> json_obj \<Rightarrow> string \<Rightarrow> exn + 'a" where
  "defaulted d f ob k = (case map_of ob k of None \<Rightarrow> Inr d | Some v \<Rightarrow> or_missing k (f v))"

definition read_request :: "parsing \<Rightarrow> json_obj \<Rightarrow> exn + order_request" where
  "read_request pp ob =
     sum_bind (required (enum_field exchange_value exchange_members) ob ''exchange'') (\<lambda>ex.
     sum_bind (required (enum_field market_type_value market_type_members) ob ''market_type'') (\<lambda>mt.
     sum_bind (required text_field ob ''symbol'') (\<lambda>symb.
     sum_bind (required (enum_field order_side_value order_side_members) ob ''side'') (\<lambda>side.
     sum_bind (required (enum_field order_type_value order_type_members) ob ''order_type'') (\<lambda>ty.
     sum_bind (nullable (enum_field order_route_value order_route_members) ob ''order_route'') (\<lambda>route.
     sum_bind (nullable (enum_field time_in_force_value time_in_force_members) ob ''time_in_force'') (\<lambda>tif.
     sum_bind (required text_field ob ''quantity'') (\<lambda>quantity.
     sum_bind (nullable text_field ob ''price'') (\<lambda>price.
     sum_bind (nullable text_field ob ''trigger_price'') (\<lambda>trigger.
     sum_bind (nullable text_field ob ''stop_price'') (\<lambda>stop.
     sum_bind (defaulted False (lax_bool pp) ob ''reduce_only'') (\<lambda>reduce.
     sum_bind (defaulted False (lax_bool pp) ob ''close_position'') (\<lambda>close.
     sum_bind (nullable (lax_int pp) ob ''leverage'') (\<lambda>lev.
     sum_bind (defaulted BOTH (enum_field position_side_value position_side_members) ob ''position_side'') (\<lambda>pside.
     sum_bind (defaulted PA_UNKNOWN (enum_field position_action_value position_action_members) ob ''position_action'')
       (\<lambda>act.
     Inr \<lparr>r_exchange = ex, r_market_type = mt, r_symbol = symb, r_side = side, r_order_type = ty,
       r_order_route = route, r_time_in_force = tif, r_quantity = quantity, r_price = price,
       r_trigger_price = trigger, r_stop_price = stop, r_reduce_only = reduce, r_close_position = close,
       r_leverage = lev, r_position_side = pside, r_position_action = act\<rparr>))))))))))))))))"

definition request_of_intent :: "parsing \<Rightarrow> json_obj \<Rightarrow> exn + order_request" where
  "request_of_intent pp ob = sum_bind (read_request pp ob) validate_request"

section \<open>Texts of decimals\<close>

text \<open>\<open>str(value)\<close>: scientific notation for a positive exponent or a very small value.\<close>

definition sci_fin :: "nat \<Rightarrow> int \<Rightarrow> string" where
  "sci_fin c e =
     (let ds = show_nat c; leftdigits = e + int (length ds);
          dotplace = (if e \<le> 0 \<and> - 6 < leftdigits then leftdigits else 1);
          mantissa = (if dotplace \<le> 0 then ''0.'' @ replicate (nat (- dotplace)) (CHR ''0'') @ ds
                      else if int (length ds) \<le> dotplace
                      then ds @ replicate (nat (dotplace - int (length ds))) (CHR ''0'')
                      else take (nat dotplace) ds @ ''.'' @ drop (nat dotplace) ds);
          x = leftdigits - dotplace
      in if x = 0 then mantissa
         else mantissa @ ''E'' @ (if 0 < x then ''+'' else []) @ show_int x)"

fun dec_str :: "pydecimal \<Rightarrow> string" where
  "dec_str (DFin neg c e) = (if neg then CHR ''-'' # sci_fin c e else sci_fin c e)"
| "dec_str d = dec_format_f d"

text \<open>\<open>f"{value:.4f}"\<close>: four decimals, rounded half to even.\<close>

definition round_half_even :: "nat \<Rightarrow> nat \<Rightarrow> nat" where
  "round_half_even c k =
     (let q = c div 10 ^ k; r = c mod 10 ^ k
      in if 2 * r > 10 ^ k \<or> (2 * r = 10 ^ k \<and> odd q) then q + 1 else q)"

fun dec_format_4f :: "pydecimal \<Rightarrow> string" where
  "dec_format_4f (DFin neg c e) =
     dec_format_f (DFin neg (if - 4 \<le> e then c * 10 ^ nat (e + 4) else round_half_even c (nat (- 4 - e))) (- 4))"
| "dec_format_4f d = dec_format_f d"

definition risk_decimal_str :: "pydecimal \<Rightarrow> exn + string" where
  "risk_decimal_str d =
     map_sum id (\<lambda>n. let t = decimal_str n in if t = [] then ''0'' else t) (or_invalid (dec_normalize d))"

section \<open>Data\<close>

datatype risk_reject_reason =
    INVALID_ORDER_INTENT
  | MISSING_RISK_LEVELS
  | INVALID_PRICE_STRUCTURE
  | STOP_TOO_TIGHT
  | REWARD_RISK_TOO_LOW
  | NOTIONAL_TOO_SMALL
  | EXPOSURE_LIMIT_EXCEEDED

fun risk_reject_reason_value :: "risk_reject_reason \<Rightarrow> string" where
  "risk_reject_reason_value INVALID_ORDER_INTENT = ''INVALID_ORDER_INTENT''"
| "risk_reject_reason_value MISSING_RISK_LEVELS = ''MISSING_RISK_LEVELS''"
| "risk_reject_reason_value INVALID_PRICE_STRUCTURE = ''INVALID_PRICE_STRUCTURE''"
| "risk_reject_reason_value STOP_TOO_TIGHT = ''STOP_TOO_TIGHT''"
| "risk_reject_reason_value REWARD_RISK_TOO_LOW = ''REWARD_RISK_TOO_LOW''"
| "risk_reject_reason_value NOTIONAL_TOO_SMALL = ''NOTIONAL_TOO_SMALL''"
| "risk_reject_reason_value EXPOSURE_LIMIT_EXCEEDED = ''EXPOSURE_LIMIT_EXCEEDED''"

record risk_config =
  k_account_equity :: pydecimal
  k_risk_per_trade :: pydecimal
  k_max_leverage :: pydecimal
  k_max_position_notional :: pydecimal
  k_min_notional :: pydecimal
  k_min_stop_bps :: pydecimal
  k_min_reward_risk :: pydecimal
  k_quantity_step :: pydecimal
  k_fee_bps :: pydecimal
  k_slippage_bps :: pydecimal
  k_spread_bps :: pydecimal

record risk_decision =
  d_accepted :: bool
  d_order_request :: "order_request option"
  d_reason :: "risk_reject_reason option"
  d_detail :: "string option"
  d_metadata :: "(string \<times> string) list"

definition reject :: "risk_reject_reason \<Rightarrow> string \<Rightarrow> exn + risk_decision" where
  "reject reason detail = Inr \<lparr>d_accepted = False, d_order_request = None, d_reason = Some reason,
     d_detail = Some detail, d_metadata = []\<rparr>"

section \<open>Steps of the check\<close>

definition entry_of :: "json_obj \<Rightarrow> pydecimal option" where
  "entry_of intent = decimal_of_json (first_truthy intent [''entry_price'', ''price'', ''suggested_entry_price''])"

definition stop_of :: "json_obj \<Rightarrow> pydecimal option" where
  "stop_of intent = decimal_of_json (first_truthy intent [''stop_loss_price'', ''stop_loss'', ''suggested_stop_loss''])"

definition target_of :: "json_obj \<Rightarrow> pydecimal option" where
  "target_of intent =
     decimal_of_json (first_truthy intent [''take_profit_price'', ''take_profit'', ''suggested_take_profit''])"

definition risk_position_side :: "order_request \<Rightarrow> position_side" where
  "risk_position_side req =
     (if r_position_side req \<in> {LONG, SHORT} then r_position_side req
      else if r_side req = BUY then LONG else SHORT)"

fun some_not_positive :: "pydecimal list \<Rightarrow> exn + bool" where
  "some_not_positive [] = Inr False"
| "some_not_positive (d # ds) =
     sum_bind (or_invalid (dec_le d dec_zero)) (\<lambda>b. if b then Inr True else some_not_positive ds)"

definition ascending :: "pydecimal \<Rightarrow> pydecimal \<Rightarrow> pydecimal \<Rightarrow> exn + bool" where
  "ascending a b c =
     sum_bind (or_invalid (dec_less a b)) (\<lambda>ab. if \<not> ab then Inr False else or_invalid (dec_less b c))"

text \<open>The prices of a long position are stop, entry, target from below, those of a short one from above.\<close>

fun prices_ordered :: "position_side \<Rightarrow> pydecimal \<Rightarrow> pydecimal \<Rightarrow> pydecimal \<Rightarrow> exn + bool" where
  "prices_ordered LONG entry stop target = ascending stop entry target"
| "prices_ordered SHORT entry stop target = ascending target entry stop"
| "prices_ordered BOTH entry stop target = Inr True"

fun structure_text :: "position_side \<Rightarrow> string" where
  "structure_text LONG = ''LONG requires SL < Entry < TP''"
| "structure_text SHORT = ''SHORT requires TP < Entry < SL''"
| "structure_text BOTH = []"

definition ten_thousand :: pydecimal where
  "ten_thousand = DFin False 10000 0"

text \<open>\<open>abs(a - b) / entry * Decimal("10000")\<close>.\<close>

definition distance_bps :: "pydecimal \<Rightarrow> pydecimal \<Rightarrow> pydecimal \<Rightarrow> exn + pydecimal" where
  "distance_bps a b entry =
     sum_bind (or_invalid (dec_sub a b)) (\<lambda>d.
     sum_bind (or_invalid (dec_abs d)) (\<lambda>d.
     sum_bind (or_invalid (dec_div d entry)) (\<lambda>d.
     or_invalid (dec_mul d ten_thousand))))"

definition risk_budget_of :: "risk_config \<Rightarrow> exn + pydecimal" where
  "risk_budget_of cfg = or_invalid (dec_mul (k_account_equity cfg) (k_risk_per_trade cfg))"

definition sized_notional :: "risk_config \<Rightarrow> pydecimal \<Rightarrow> pydecimal \<Rightarrow> exn + pydecimal" where
  "sized_notional cfg risk_budget stop_bps =
     sum_bind (or_invalid (dec_div stop_bps ten_thousand)) (\<lambda>stop_fraction.
     sum_bind (or_invalid (dec_div risk_budget stop_fraction)) (\<lambda>risk_sized_notional.
     sum_bind (or_invalid (dec_mul (k_account_equity cfg) (k_max_leverage cfg))) (\<lambda>leverage_cap.
     sum_bind (or_invalid (dec_min risk_sized_notional leverage_cap)) (\<lambda>least.
     or_invalid (dec_min least (k_max_position_notional cfg))))))"

definition round_quantity_with_config :: "pydecimal \<Rightarrow> risk_config \<Rightarrow> exn + pydecimal" where
  "round_quantity_with_config quantity cfg =
     sum_bind (or_invalid (dec_le (k_quantity_step cfg) dec_zero)) (\<lambda>no_step.
     if no_step then Inr quantity
     else
       sum_bind (or_invalid (dec_div quantity (k_quantity_step cfg))) (\<lambda>steps.
       sum_bind (or_invalid (dec_trunc steps)) (\<lambda>whole.
       or_invalid (dec_mul whole (k_quantity_step cfg)))))"

definition cost_bps_of :: "risk_config \<Rightarrow> exn + pydecimal" where
  "cost_bps_of cfg =
     sum_bind (or_invalid (dec_add (k_fee_bps cfg) (k_slippage_bps cfg))) (\<lambda>fees.
     sum_bind (or_invalid (dec_div (k_spread_bps cfg) (DFin False 2 0))) (\<lambda>half_spread.
     or_invalid (dec_add fees half_spread)))"

text \<open>The metadata, in the order of the dictionary.\<close>

fun decimal_strs :: "(string \<times> pydecimal) list \<Rightarrow> exn + (string \<times> string) list" where
  "decimal_strs [] = Inr []"
| "decimal_strs ((k, d) # kds) =
     sum_bind (risk_decimal_str d) (\<lambda>t. map_sum id (\<lambda>kts. (k, t) # kts) (decimal_strs kds))"

definition accept ::
  "risk_config \<Rightarrow> order_request \<Rightarrow> pydecimal \<Rightarrow> pydecimal \<Rightarrow> pydecimal \<Rightarrow> pydecimal \<Rightarrow> pydecimal \<Rightarrow> pydecimal \<Rightarrow>
     pydecimal \<Rightarrow> pydecimal \<Rightarrow> exn + risk_decision" where
  "accept cfg req entry stop target stop_bps reward_bps reward_risk risk_budget quantity =
     sum_bind (risk_decimal_str quantity) (\<lambda>quantity_text.
     sum_bind (cost_bps_of cfg) (\<lambda>cost_bps.
     sum_bind (decimal_strs
       [(''entry_price'', entry), (''stop_loss_price'', stop), (''take_profit_price'', target),
        (''stop_bps'', stop_bps), (''reward_bps'', reward_bps), (''reward_risk'', reward_risk),
        (''risk_budget'', risk_budget)]) (\<lambda>first_part.
     sum_bind (or_invalid (dec_mul quantity entry)) (\<lambda>notional.
     sum_bind (decimal_strs [(''notional'', notional), (''quantity'', quantity), (''cost_bps'', cost_bps)]) (\<lambda>rest.
     Inr \<lparr>d_accepted = True, d_order_request = Some (req\<lparr>r_quantity := quantity_text\<rparr>), d_reason = None,
          d_detail = None, d_metadata = first_part @ rest\<rparr>)))))"

section \<open>The check\<close>

definition assess :: "risk_config \<Rightarrow> order_request \<Rightarrow> pydecimal \<Rightarrow> pydecimal \<Rightarrow> pydecimal \<Rightarrow> exn + risk_decision" where
  "assess cfg req entry stop target =
     sum_bind (some_not_positive [entry, stop, target]) (\<lambda>bad.
     if bad then reject INVALID_PRICE_STRUCTURE ''risk prices must be positive''
     else sum_bind (prices_ordered (risk_position_side req) entry stop target) (\<lambda>ordered.
     if \<not> ordered then reject INVALID_PRICE_STRUCTURE (structure_text (risk_position_side req))
     else sum_bind (distance_bps entry stop entry) (\<lambda>stop_bps.
     sum_bind (or_invalid (dec_less stop_bps (k_min_stop_bps cfg))) (\<lambda>tight.
     if tight then reject STOP_TOO_TIGHT (''stop distance '' @ dec_format_4f stop_bps @ '' bps is below minimum '' @
         dec_str (k_min_stop_bps cfg) @ '' bps'')
     else sum_bind (distance_bps target entry entry) (\<lambda>reward_bps.
     sum_bind (or_invalid (dec_div reward_bps stop_bps)) (\<lambda>reward_risk.
     sum_bind (or_invalid (dec_less reward_risk (k_min_reward_risk cfg))) (\<lambda>low.
     if low then reject REWARD_RISK_TOO_LOW (''reward/risk '' @ dec_format_4f reward_risk @ '' is below minimum '' @
         dec_str (k_min_reward_risk cfg))
     else sum_bind (risk_budget_of cfg) (\<lambda>risk_budget.
     sum_bind (sized_notional cfg risk_budget stop_bps) (\<lambda>notional.
     sum_bind (or_invalid (dec_less notional (k_min_notional cfg))) (\<lambda>small.
     if small then reject NOTIONAL_TOO_SMALL (''notional '' @ dec_format_4f notional @ '' is below minimum '' @
         dec_str (k_min_notional cfg))
     else sum_bind (or_invalid (dec_div notional entry)) (\<lambda>raw_quantity.
     sum_bind (round_quantity_with_config raw_quantity cfg) (\<lambda>quantity.
     sum_bind (or_invalid (dec_le quantity dec_zero)) (\<lambda>none.
     if none then reject NOTIONAL_TOO_SMALL ''rounded quantity is zero''
     else accept cfg req entry stop target stop_bps reward_bps reward_risk risk_budget quantity)))))))))))))"

text \<open>\<open>config or self.config\<close>.\<close>

definition active_config :: "risk_config option \<Rightarrow> risk_config option \<Rightarrow> risk_config option" where
  "active_config config default_config = (case config of Some cfg \<Rightarrow> Some cfg | None \<Rightarrow> default_config)"

definition evaluate :: "parsing \<Rightarrow> risk_config option \<Rightarrow> json_obj \<Rightarrow> risk_config option \<Rightarrow> exn + risk_decision" where
  "evaluate pp default_config intent config =
     (case active_config config default_config of
        None \<Rightarrow> reject MISSING_RISK_LEVELS ''Risk configuration is missing for this strategy.''
      | Some cfg \<Rightarrow>
          (case request_of_intent pp intent of
             Inl e \<Rightarrow> reject INVALID_ORDER_INTENT (exc_text pp e)
           | Inr req \<Rightarrow>
               (case (entry_of intent, stop_of intent, target_of intent) of
                  (Some entry, Some stop, Some target) \<Rightarrow> assess cfg req entry stop target
                | _ \<Rightarrow> reject MISSING_RISK_LEVELS
                         ''entry_price, stop_loss_price, and take_profit_price are required'')))"

end
