(* ===== verification/RiskBound.thy ===== *)
theory RiskBound
  imports Risk
begin

text \<open>
  What an accepted intent is worth: the order's quantity times the distance to the stop stays within the
  risk budget, and its value within the leverage cap and the notional cap, up to the rounding of sixteen
  decimal operations (\<open>slack\<close>).
\<close>

definition slack :: rat where
  "slack = 1 - 1 / 10 ^ 25"

lemma sum_bindE:
  assumes "sum_bind r f = Inr y"
  obtains x where "r = Inr x" and "f x = Inr y"
  using assms by (cases r) auto

lemma reject_not_accepted [simp]: "reject r t = Inr d \<Longrightarrow> \<not> d_accepted d"
  by (auto simp: reject_def)

section \<open>Texts\<close>

lemma strip_all_value: "strip_all c e = (c', e') \<Longrightarrow> of_nat c' * power_int (10::rat) e' = of_nat c * power_int 10 e"
proof (induction c e arbitrary: c' e' rule: strip_all.induct)
  case (1 c e)
  show ?case
  proof (cases "c \<noteq> 0 \<and> c mod 10 = 0")
    case True
    then have run: "strip_all (c div 10) (e + 1) = (c', e')" using "1.prems" by (simp add: strip_all.simps [of c])
    have "c = 10 * (c div 10)" using True by presburger
    then have "(of_nat c :: rat) = 10 * of_nat (c div 10)" by (metis of_nat_mult of_nat_numeral)
    with "1.IH" [OF True run] show ?thesis by (simp add: power_int_add)
  qed (use "1.prems" in \<open>auto simp: strip_all.simps [of c]\<close>)
qed

lemma normalized_value: "dec_finite d \<Longrightarrow> dec_finite (normalized_fin d) \<and> dval (normalized_fin d) = dval d"
  by (cases d) (auto simp: dval_signed strip_all_value simp del: dval.simps split: prod.split)

lemma risk_decimal_str_value:
  assumes "dec_finite d" and "0 < dval d" and "risk_decimal_str d = Inr t"
  shows "\<exists>d'. decimal_of_string t = Some d' \<and> dec_finite d' \<and> 0 < dval d' \<and> near 1 (dval d') (dval d)"
proof -
  obtain b c e where d: "d = DFin b c e" using assms(1) by (cases d) auto
  have "\<not> b"
  proof
    assume b
    then have "c = 0" using assms(2) dval_nonneg [of c e] by (simp add: d)
    with assms(2) show False by (simp add: d dval_fin_def)
  qed
  then have b: "b = False" by simp
  let ?n = "normalized_fin (dec_fix False c e)"
  have n: "dec_finite ?n" "dval ?n = dval (dec_fix False c e)" using normalized_value by simp_all
  obtain nb nc ne where nf: "?n = DFin nb nc ne" using n(1) by (cases ?n) auto
  obtain c' e' where parse: "decimal_of_string (decimal_str ?n) = Some (DFin nb c' e')"
    and same: "dval_fin nb c' e' = dval_fin nb nc ne"
    unfolding nf by (rule decimal_str_parse)
  have "decimal_str ?n \<noteq> []" using parse by (auto simp: decimal_of_string_def strip_def)
  then have t: "t = decimal_str ?n" using assms(3) by (simp add: risk_decimal_str_def d b or_invalid_def)
  have val: "dval (DFin nb c' e') = dval (dec_fix False c e)" using same n(2) unfolding nf by simp
  have near: "near 1 (dval (DFin nb c' e')) (dval d)"
    unfolding val using near_fix [of c e] by (simp add: d b dval_fin_def)
  then have "0 < dval (DFin nb c' e')" using near_positive [OF near_sym [OF near]] assms(2) by simp
  with parse near show ?thesis unfolding t by auto
qed

section \<open>Steps\<close>

lemma dec_le_dval: "dec_finite x \<Longrightarrow> dec_finite y \<Longrightarrow> dec_le x y = Some (dval x \<le> dval y)"
  by (auto simp: dec_le_def dec_less_dval)

lemma above_zero:
  assumes "dec_le d dec_zero = Some False"
  shows "dec_finite d \<and> 0 < dval d \<or> d = DInf False"
proof (cases "dec_finite d")
  case True
  with assms show ?thesis by (simp add: dec_le_dval)
next
  case False
  with assms show ?thesis by (cases d) (auto simp: dec_le_def dec_zero_def)
qed

lemma positive_prices:
  "some_not_positive ds = Inr False \<Longrightarrow> d \<in> set ds \<Longrightarrow> dec_finite d \<and> 0 < dval d \<or> d = DInf False"
  by (induction ds) (auto dest: above_zero elim!: sum_bindE split: if_splits)

lemma less_finite:
  assumes "dec_less x y = Some True" and "dec_finite x \<and> 0 < dval x \<or> x = DInf False"
    and "dec_finite y \<and> 0 < dval y \<or> y = DInf False"
  shows "dec_finite x \<and> 0 < dval x \<and> (dec_finite y \<longrightarrow> dval x < dval y)"
  using assms dec_less_dval [of x y] by (cases x; cases y) auto

lemma ascending_finite:
  assumes "ascending a b c = Inr True" and "\<And>x. x \<in> {a, b, c} \<Longrightarrow> dec_finite x \<and> 0 < dval x \<or> x = DInf False"
  shows "dec_finite a \<and> dec_finite b \<and> 0 < dval a \<and> dval a < dval b \<and> (dec_finite c \<longrightarrow> dval b < dval c)"
proof -
  have "dec_less a b = Some True" "dec_less b c = Some True"
    using assms(1) by (auto simp: ascending_def elim!: sum_bindE split: if_splits)
  from less_finite [OF this(1)] less_finite [OF this(2)] assms(2) show ?thesis by auto
qed

lemma distance_value:
  assumes fin: "dec_finite a" "dec_finite b" "dec_finite entry" and pos: "0 < dval entry"
    and run: "distance_bps a b entry = Inr d"
  shows "dec_finite d \<and> 0 \<le> dval d \<and> near 5 (dval d) (\<bar>dval a - dval b\<bar> / dval entry * 10000)"
proof -
  obtain x where x: "dec_sub a b = Some x" "dec_finite x" "near 1 \<bar>dval x\<bar> \<bar>dval a - dval b\<bar>"
    using near_sub [OF fin(1,2)] by blast
  obtain y where y: "dec_abs x = Some y" "dec_finite y" "near 1 (dval y) \<bar>dval x\<bar>"
    using near_abs_dec [OF x(2)] by blast
  obtain z where z: "dec_div y entry = Some z" "dec_finite z" "near 2 \<bar>dval z\<bar> (\<bar>dval y\<bar> / \<bar>dval entry\<bar>)"
    using div_value [OF y(2) fin(3)] pos by auto
  have ten: "dec_finite ten_thousand" "dval ten_thousand = 10000" by (simp_all add: ten_thousand_def dval_fin_def)
  obtain w where w: "dec_mul z ten_thousand = Some w" "dec_finite w" "near 1 \<bar>dval w\<bar> \<bar>dval z * 10000\<bar>"
    using mul_value [OF z(2) ten(1)] unfolding ten(2) by blast
  have "d = w" using run x(1) y(1) z(1) w(1) by (simp add: distance_bps_def or_invalid_def)
  have "0 \<le> dval y" using y(3) by (simp add: near_def)
  have "\<not> dec_neg y" using y(1) dec_abs_not_neg by simp
  then have "\<not> dec_neg z" using dec_neg_div [OF y(2) fin(3) z(1)] dval_not_neg [OF pos] by simp
  then have "\<not> dec_neg w" using dec_neg_mul [OF z(2) ten(1) w(1)] by (simp add: ten_thousand_def)
  then have "0 \<le> dval w" by (rule not_neg_dval)
  from near_trans [OF y(3) x(3)] have "near 2 (dval y) \<bar>dval a - dval b\<bar>" by (simp add: numeral_2_eq_2)
  from near_divide [OF this near_refl [of "dval entry"]] pos
  have "near 2 (dval y / dval entry) (\<bar>dval a - dval b\<bar> / dval entry)" by simp
  with near_trans [OF z(3), of 2] pos \<open>0 \<le> dval y\<close> have "near 4 \<bar>dval z\<bar> (\<bar>dval a - dval b\<bar> / dval entry)" by simp
  from near_mult [OF this near_refl [of 10000]]
  have "near 4 \<bar>dval z * 10000\<bar> (\<bar>dval a - dval b\<bar> / dval entry * 10000)" by (simp add: abs_mult)
  from near_trans [OF w(3) this] w(2) \<open>0 \<le> dval w\<close> show ?thesis unfolding \<open>d = w\<close> by simp
qed

lemma min_value:
  assumes "dec_finite x" and "dec_finite y"
  obtains z where "dec_min x y = Some z" and "dec_finite z" and "dval z \<le> dval x" and "dval z \<le> dval y"
  using assms dec_less_dval [of y x] by (cases "dval y < dval x") (auto simp: dec_min_def)

lemma near_le: "near k x y \<Longrightarrow> x * (1 - tiny) ^ k \<le> y"
  by (simp add: near_def)

lemma round_quantity_value:
  assumes fin: "dec_finite q" and run: "round_quantity_with_config q cfg = Inr r" and pos: "dec_le r dec_zero = Some False"
  shows "dec_finite r \<and> 0 < dval r \<and> 0 < dval q \<and> dval r * (1 - tiny) ^ 3 \<le> dval q"
proof -
  obtain no_step where le: "dec_le (k_quantity_step cfg) dec_zero = Some no_step"
    using run unfolding round_quantity_with_config_def by (elim sum_bindE) simp
  have c: "(1 - tiny) ^ n \<le> 1" "0 < (1 - tiny) ^ n" for n using tiny_bounds by (simp_all add: power_le_one)
  show ?thesis
  proof (cases no_step)
    case True
    with run le have "r = q" by (simp add: round_quantity_with_config_def or_invalid_def)
    with above_zero [OF pos] fin have "0 < dval q" by auto
    with \<open>r = q\<close> fin mult_left_mono [OF c(1), of "dval q" 3] show ?thesis by simp
  next
    case False
    let ?step = "k_quantity_step cfg"
    from above_zero le False consider "dec_finite ?step" "0 < dval ?step" | "?step = DInf False" by auto
    then show ?thesis
    proof cases
      case 1
      obtain x where x: "dec_div q ?step = Some x" "dec_finite x" "near 2 \<bar>dval x\<bar> (\<bar>dval q\<bar> / \<bar>dval ?step\<bar>)"
        "0 < dval x \<longrightarrow> 0 < dval q / dval ?step" using div_value [OF fin 1(1)] 1(2) by auto
      obtain y where y: "dec_trunc x = Some y" "dec_finite y" "\<bar>dval y\<bar> \<le> \<bar>dval x\<bar>" "0 < dval y \<longrightarrow> 0 < dval x"
        using trunc_value [OF x(2)] by blast
      obtain z where z: "dec_mul y ?step = Some z" "dec_finite z" "near 1 \<bar>dval z\<bar> \<bar>dval y * dval ?step\<bar>"
        "0 < dval z \<longrightarrow> 0 < dval y * dval ?step" using mul_value [OF y(2) 1(1)] by blast
      have "r = z" using run le False x(1) y(1) z(1) by (simp add: round_quantity_with_config_def or_invalid_def)
      with above_zero [OF pos] z(2) have r: "dec_finite r" "0 < dval r" by auto
      with z(4) \<open>r = z\<close> 1(2) have ypos: "0 < dval y" by (simp add: zero_less_mult_iff)
      with y(4) x(4) 1(2) have xpos: "0 < dval x" and qpos: "0 < dval q" by (simp_all add: zero_less_divide_iff)
      have "dval r * (1 - tiny) \<le> dval y * dval ?step"
        using near_le [OF z(3)] \<open>r = z\<close> r(2) ypos 1(2) by simp
      also have "\<dots> \<le> dval x * dval ?step" using y(3) ypos xpos 1(2) by simp
      finally have "dval r * (1 - tiny) * (1 - tiny) ^ 2 \<le> dval x * dval ?step * (1 - tiny) ^ 2"
        using tiny_bounds by (intro mult_right_mono) simp_all
      also have "\<dots> = dval x * (1 - tiny) ^ 2 * dval ?step" by simp
      also have "\<dots> \<le> dval q / dval ?step * dval ?step"
        using near_le [OF x(3)] xpos qpos 1(2) by (intro mult_right_mono) simp_all
      finally have "dval r * (1 - tiny) ^ 3 \<le> dval q" using 1(2) by (simp add: numeral_eq_Suc)
      with r qpos show ?thesis by simp
    next
      case 2
      obtain b c e where q: "q = DFin b c e" using fin by (cases q) auto
      from run le False 2 show ?thesis by (simp add: q round_quantity_with_config_def or_invalid_def split: if_splits)
    qed
  qed
qed

section \<open>The bound\<close>

lemma sized_notional_value:
  assumes fin: "dec_finite (k_account_equity cfg)" "dec_finite (k_max_leverage cfg)" "dec_finite (k_max_position_notional cfg)"
    and budget: "dec_finite budget" and bps: "dec_finite bps" "0 < dval bps"
    and run: "sized_notional cfg budget bps = Inr n" and pos: "0 < dval n"
  shows "dec_finite n \<and> 0 < dval budget \<and> dval n * (1 - tiny) ^ 4 \<le> dval budget / dval bps * 10000 \<and>
    dval n * (1 - tiny) \<le> dval (k_account_equity cfg) * dval (k_max_leverage cfg) \<and>
    dval n \<le> dval (k_max_position_notional cfg)"
proof -
  have ten: "dec_finite ten_thousand" "dval ten_thousand = 10000" by (simp_all add: ten_thousand_def dval_fin_def)
  obtain f where f: "dec_div bps ten_thousand = Some f" "dec_finite f" "near 2 \<bar>dval f\<bar> (\<bar>dval bps\<bar> / 10000)"
    "0 < dval f \<longrightarrow> 0 < dval bps / 10000"
    using div_value [OF bps(1) ten(1)] unfolding ten(2) by auto
  have "0 < \<bar>dval f\<bar>" using near_positive [OF near_sym [OF f(3)]] bps(2) by simp
  moreover have "\<not> dec_neg f"
    using dec_neg_div [OF bps(1) ten(1) f(1)] dval_not_neg [OF bps(2)] by (simp add: ten_thousand_def)
  ultimately have f0: "0 < dval f" using not_neg_dval [of f] by simp
  obtain r where r: "dec_div budget f = Some r" "dec_finite r" "near 2 \<bar>dval r\<bar> (\<bar>dval budget\<bar> / \<bar>dval f\<bar>)"
    "0 < dval r \<longrightarrow> 0 < dval budget / dval f" using div_value [OF budget f(2)] f0 by auto
  obtain l where l: "dec_mul (k_account_equity cfg) (k_max_leverage cfg) = Some l" "dec_finite l"
    "near 1 \<bar>dval l\<bar> \<bar>dval (k_account_equity cfg) * dval (k_max_leverage cfg)\<bar>"
    "0 < dval l \<longrightarrow> 0 < dval (k_account_equity cfg) * dval (k_max_leverage cfg)" using mul_value [OF fin(1,2)] by blast
  obtain m where m: "dec_min r l = Some m" "dec_finite m" "dval m \<le> dval r" "dval m \<le> dval l" by (rule min_value [OF r(2) l(2)])
  obtain k where k: "dec_min m (k_max_position_notional cfg) = Some k" "dec_finite k" "dval k \<le> dval m"
    "dval k \<le> dval (k_max_position_notional cfg)" by (rule min_value [OF m(2) fin(3)])
  have n: "n = k" using run f(1) r(1) l(1) m(1) k(1) by (simp add: sized_notional_def or_invalid_def)
  have rpos: "0 < dval r" and lpos: "0 < dval l" using pos m k unfolding n by linarith+
  have c: "0 \<le> (1 - tiny) ^ j" for j using tiny_bounds by simp
  have bpos: "0 < dval budget" using r(4) rpos f0 by (simp add: zero_less_divide_iff)
  have "near 4 \<bar>dval r\<bar> (\<bar>dval budget\<bar> / (\<bar>dval bps\<bar> / 10000))"
    using near_trans [OF r(3) near_divide [OF near_refl f(3)]] f0 bps(2) by simp
  from near_le [OF this] have "dval r * (1 - tiny) ^ 4 \<le> dval budget / dval bps * 10000" using rpos bpos bps(2) by simp
  moreover have "dval n * (1 - tiny) ^ 4 \<le> dval r * (1 - tiny) ^ 4"
    using m k c unfolding n by (intro mult_right_mono) auto
  moreover have "dval l * (1 - tiny) \<le> dval (k_account_equity cfg) * dval (k_max_leverage cfg)"
    using near_le [OF l(3)] lpos l(4) by simp
  moreover have "dval n * (1 - tiny) \<le> dval l * (1 - tiny)"
    using m k tiny_bounds unfolding n by (intro mult_right_mono) auto
  moreover have "dec_finite n" "dval n \<le> dval (k_max_position_notional cfg)" using k n by simp_all
  ultimately show ?thesis using bpos by (blast intro: order_trans)
qed

lemma sized_notional_finite:
  assumes "dec_finite (k_account_equity cfg)" and "dec_finite (k_max_leverage cfg)" and "dec_finite (k_max_position_notional cfg)"
    and "dec_finite budget" and "dec_finite bps" and "0 < dval bps" and "sized_notional cfg budget bps = Inr n"
  shows "dec_finite n"
proof -
  have ten: "dec_finite ten_thousand" "dval ten_thousand = 10000" by (simp_all add: ten_thousand_def dval_fin_def)
  obtain f where f: "dec_div bps ten_thousand = Some f" "dec_finite f" "near 2 \<bar>dval f\<bar> (\<bar>dval bps\<bar> / 10000)"
    using div_value [OF assms(5) ten(1)] unfolding ten(2) by auto
  have f0: "dval f \<noteq> 0" using near_positive [OF near_sym [OF f(3)]] assms(6) by auto
  obtain r where r: "dec_div budget f = Some r" "dec_finite r" using div_value [OF assms(4) f(2) f0] by blast
  obtain l where l: "dec_mul (k_account_equity cfg) (k_max_leverage cfg) = Some l" "dec_finite l"
    using mul_value [OF assms(1,2)] by blast
  obtain m where m: "dec_min r l = Some m" "dec_finite m" by (rule min_value [OF r(2) l(2)])
  obtain k where k: "dec_min m (k_max_position_notional cfg) = Some k" "dec_finite k" by (rule min_value [OF m(2) assms(3)])
  show ?thesis using assms(7) f(1) r(1) l(1) m(1) k by (simp add: sized_notional_def or_invalid_def)
qed

text \<open>A stop at infinity leaves nothing to buy.\<close>

lemma infinite_distance:
  assumes "dec_finite entry" and "0 < dval entry" and "distance_bps entry (DInf False) entry = Inr d"
  shows "d = DInf False"
proof -
  obtain b c e where entry: "entry = DFin b c e" using assms(1) by (cases entry) auto
  have "\<not> b"
  proof
    assume b
    then have "c = 0" using assms(2) dval_nonneg [of c e] by (simp add: entry)
    with assms(2) show False by (simp add: entry dval_fin_def)
  qed
  with assms(3) show ?thesis
    by (simp add: entry distance_bps_def dec_sub_def or_invalid_def ten_thousand_def)
qed

lemma infinite_stop_notional:
  assumes fin: "dec_finite (k_account_equity cfg)" "dec_finite (k_max_leverage cfg)" "dec_finite (k_max_position_notional cfg)"
    and budget: "dec_finite budget" and run: "sized_notional cfg budget (DInf False) = Inr n"
  shows "dec_finite n \<and> dval n \<le> 0"
proof -
  obtain b c e where bd: "budget = DFin b c e" using budget by (cases budget) auto
  let ?r = "DFin b 0 dec_etiny"
  obtain l where l: "dec_mul (k_account_equity cfg) (k_max_leverage cfg) = Some l" "dec_finite l"
    using mul_value [OF fin(1,2)] by blast
  have "dec_finite ?r" by simp
  from min_value [OF this l(2)] obtain m where m: "dec_min ?r l = Some m" "dec_finite m" "dval m \<le> dval ?r" by metis
  obtain k where k: "dec_min m (k_max_position_notional cfg) = Some k" "dec_finite k" "dval k \<le> dval m"
    by (rule min_value [OF m(2) fin(3)])
  have "n = k" using run l(1) m(1) k(1) by (simp add: bd sized_notional_def or_invalid_def ten_thousand_def)
  moreover have "dval ?r = 0" by (simp add: dval_fin_def)
  ultimately show ?thesis using m(3) k(2,3) by simp
qed

text \<open>The steps an accepted decision went through.\<close>

lemma accepted_step: "(if b then reject r t else m) = Inr d \<Longrightarrow> d_accepted d \<Longrightarrow> \<not> b \<and> m = Inr d"
  by (cases b) auto

lemma assess_steps:
  assumes run: "assess cfg req entry stop target = Inr d" and ok: "d_accepted d"
  obtains stop_bps budget notional raw quantity where
    "some_not_positive [entry, stop, target] = Inr False"
    "prices_ordered (risk_position_side req) entry stop target = Inr True"
    "distance_bps entry stop entry = Inr stop_bps" "risk_budget_of cfg = Inr budget"
    "sized_notional cfg budget stop_bps = Inr notional" "dec_div notional entry = Some raw"
    "round_quantity_with_config raw cfg = Inr quantity" "dec_le quantity dec_zero = Some False"
    "\<exists>t. risk_decimal_str quantity = Inr t \<and> d_order_request d = Some (req\<lparr>r_quantity := t\<rparr>)"
proof -
  note step = accepted_step [OF _ ok]
  obtain bad where bad: "some_not_positive [entry, stop, target] = Inr bad"
    using run unfolding assess_def by (rule sum_bindE)
  note r1 = step [OF run [unfolded assess_def bad sum_bind_simps]]
  obtain ordered where o: "prices_ordered (risk_position_side req) entry stop target = Inr ordered"
    using r1 by (blast elim: sum_bindE)
  note r2 = step [OF conjunct2 [OF r1, unfolded o sum_bind_simps]]
  obtain stop_bps where sb: "distance_bps entry stop entry = Inr stop_bps" using r2 by (blast elim: sum_bindE)
  note r3 = conjunct2 [OF r2, unfolded sb sum_bind_simps]
  obtain tight where ti: "or_invalid (dec_less stop_bps (k_min_stop_bps cfg)) = Inr tight" using r3 by (rule sum_bindE)
  note r4 = step [OF r3 [unfolded ti sum_bind_simps]]
  obtain reward where rw: "distance_bps target entry entry = Inr reward" using r4 by (blast elim: sum_bindE)
  note r5 = conjunct2 [OF r4, unfolded rw sum_bind_simps]
  obtain rr where rr: "or_invalid (dec_div reward stop_bps) = Inr rr" using r5 by (rule sum_bindE)
  note r6 = r5 [unfolded rr sum_bind_simps]
  obtain low where lo: "or_invalid (dec_less rr (k_min_reward_risk cfg)) = Inr low" using r6 by (rule sum_bindE)
  note r7 = step [OF r6 [unfolded lo sum_bind_simps]]
  obtain budget where bu: "risk_budget_of cfg = Inr budget" using r7 by (blast elim: sum_bindE)
  note r8 = conjunct2 [OF r7, unfolded bu sum_bind_simps]
  obtain notional where no: "sized_notional cfg budget stop_bps = Inr notional" using r8 by (rule sum_bindE)
  note r9 = r8 [unfolded no sum_bind_simps]
  obtain small where sm: "or_invalid (dec_less notional (k_min_notional cfg)) = Inr small" using r9 by (rule sum_bindE)
  note r10 = step [OF r9 [unfolded sm sum_bind_simps]]
  obtain raw where ra: "or_invalid (dec_div notional entry) = Inr raw" using r10 by (blast elim: sum_bindE)
  note r11 = conjunct2 [OF r10, unfolded ra sum_bind_simps]
  obtain quantity where qu: "round_quantity_with_config raw cfg = Inr quantity" using r11 by (rule sum_bindE)
  note r12 = r11 [unfolded qu sum_bind_simps]
  obtain none where nn: "or_invalid (dec_le quantity dec_zero) = Inr none" using r12 by (rule sum_bindE)
  note r13 = step [OF r12 [unfolded nn sum_bind_simps]]
  have "\<exists>t. risk_decimal_str quantity = Inr t \<and> d_order_request d = Some (req\<lparr>r_quantity := t\<rparr>)"
    using conjunct2 [OF r13] unfolding accept_def by (elim sum_bindE) auto
  then show thesis
    using bad o sb bu no ra qu nn r1 r2 r13 by (intro that [of stop_bps budget notional raw quantity]) auto
qed

text \<open>The roundings of the chain, put together.\<close>

lemma slack_power: "k \<le> 16 \<Longrightarrow> slack \<le> (1 - tiny) ^ k"
proof -
  assume "k \<le> 16"
  then have "(1 - tiny) ^ 16 \<le> (1 - tiny) ^ k" using tiny_bounds by (intro power_decreasing) simp_all
  moreover have "slack \<le> (1 - tiny) ^ 16" by (simp add: slack_def tiny_def power_divide)
  ultimately show ?thesis by simp
qed

lemma risk_chain:
  fixes q E N B b D W c :: rat
  assumes pos: "0 < c" "0 < E" "0 \<le> q" "0 < b" "0 \<le> D" and q: "q * E * c ^ 6 \<le> N" and n: "N * c ^ 4 \<le> B / b * 10000"
    and B: "B * c \<le> W" and b: "D / E * 10000 * c ^ 5 \<le> b"
  shows "q * D * c ^ 16 \<le> W"
proof -
  have "q * E * c ^ 6 * c ^ 4 \<le> B / b * 10000" using order_trans [OF mult_right_mono [OF q, of "c ^ 4"] n] pos by simp
  then have "q * E * c ^ 10 * b \<le> B * 10000" using pos by (simp add: field_simps)
  from mult_right_mono [OF this, of c] pos have "q * E * c ^ 10 * b * c \<le> B * 10000 * c" by simp
  moreover have "q * E * c ^ 10 * b * c = q * E * c ^ 11 * b" by (simp add: numeral_eq_Suc)
  moreover have "B * 10000 * c \<le> W * 10000" using B by simp
  ultimately have w: "q * E * c ^ 11 * b \<le> W * 10000" by linarith
  have "q * E * c ^ 11 * (D / E * 10000 * c ^ 5) \<le> q * E * c ^ 11 * b" using b pos by (intro mult_left_mono) simp_all
  with w have "q * E * c ^ 11 * (D / E * 10000 * c ^ 5) \<le> W * 10000" by simp
  moreover have "q * E * c ^ 11 * (D / E * 10000 * c ^ 5) = q * D * c ^ 16 * 10000" using pos by (simp add: field_simps)
  ultimately show ?thesis by simp
qed

lemma near_abs_le:
  assumes "near k \<bar>x\<bar> \<bar>y\<bar>" and "0 < x" and "0 < y"
  shows "x * (1 - tiny) ^ k \<le> y"
  using assms by (simp add: near_def)

definition limits_hold :: "risk_config \<Rightarrow> pydecimal \<Rightarrow> pydecimal \<Rightarrow> pydecimal \<Rightarrow> bool" where
  "limits_hold cfg entry stop qty \<longleftrightarrow>
     dval qty * \<bar>dval entry - dval stop\<bar> * slack \<le> dval (k_account_equity cfg) * dval (k_risk_per_trade cfg) \<and>
     dval qty * dval entry * slack \<le> dval (k_account_equity cfg) * dval (k_max_leverage cfg) \<and>
     dval qty * dval entry * slack \<le> dval (k_max_position_notional cfg)"

definition config_finite :: "risk_config \<Rightarrow> bool" where
  "config_finite cfg \<longleftrightarrow> dec_finite (k_account_equity cfg) \<and> dec_finite (k_risk_per_trade cfg) \<and>
     dec_finite (k_max_leverage cfg) \<and> dec_finite (k_max_position_notional cfg)"

lemma quantity_value:
  assumes raw: "dec_div notional entry = Some raw" and n: "dec_finite notional" and e: "dec_finite entry" "0 < dval entry"
    and round: "round_quantity_with_config raw cfg = Inr quantity" "dec_le quantity dec_zero = Some False"
    and shown: "risk_decimal_str quantity = Inr t"
  obtains qty where "decimal_of_string t = Some qty" and "dec_finite qty" and "0 < dval qty" and "0 < dval notional"
    and "dval qty * dval entry * (1 - tiny) ^ 6 \<le> dval notional"
proof -
  obtain x where x: "dec_div notional entry = Some x" "dec_finite x" "near 2 \<bar>dval x\<bar> (\<bar>dval notional\<bar> / \<bar>dval entry\<bar>)"
    "0 < dval x \<longrightarrow> 0 < dval notional / dval entry" using div_value [OF n e(1)] e(2) by auto
  have "raw = x" using raw x(1) by simp
  note r = round_quantity_value [OF x(2) round(1) [unfolded \<open>raw = x\<close>] round(2)]
  obtain qty where qty: "decimal_of_string t = Some qty" "dec_finite qty" "0 < dval qty" "near 1 (dval qty) (dval quantity)"
    using risk_decimal_str_value [OF _ _ shown] r by blast
  have npos: "0 < dval notional" using r x(4) e(2) by (simp add: zero_less_divide_iff)
  have c: "0 \<le> (1 - tiny) ^ j" for j using tiny_bounds by simp
  have "dval qty * (1 - tiny) ^ 6 = dval qty * (1 - tiny) * (1 - tiny) ^ 3 * (1 - tiny) ^ 2" by (simp flip: power_add power_Suc add: numeral_eq_Suc)
  also have "\<dots> \<le> dval quantity * (1 - tiny) ^ 3 * (1 - tiny) ^ 2"
    using near_le [OF qty(4)] c tiny_bounds(1) by (intro mult_right_mono) simp_all
  also have "\<dots> \<le> dval x * (1 - tiny) ^ 2" using r c by (intro mult_right_mono) simp_all
  also have "\<dots> \<le> dval notional / dval entry" using near_le [OF x(3)] r npos e(2) by simp
  finally have "dval qty * (1 - tiny) ^ 6 \<le> dval notional / dval entry" .
  then have "dval qty * dval entry * (1 - tiny) ^ 6 \<le> dval notional" using e(2) by (simp add: field_simps)
  with qty npos show thesis by (intro that) simp_all
qed

lemma finite_stop_limits:
  assumes cfg: "config_finite cfg" and e: "dec_finite entry" "0 < dval entry" and s: "dec_finite stop" "dval entry \<noteq> dval stop"
    and bps: "distance_bps entry stop entry = Inr stop_bps" and budget: "risk_budget_of cfg = Inr budget"
    and n: "sized_notional cfg budget stop_bps = Inr notional" "dec_finite notional" "0 < dval notional"
    and qty: "0 < dval qty" "dval qty * dval entry * (1 - tiny) ^ 6 \<le> dval notional"
  shows "limits_hold cfg entry stop qty"
proof -
  note fin = cfg [unfolded config_finite_def]
  let ?D = "\<bar>dval entry - dval stop\<bar>"
  have b: "dec_finite stop_bps" "near 5 (dval stop_bps) (?D / dval entry * 10000)"
    using distance_value [OF e(1) s(1) e(1,2) bps] by simp_all
  have bpos: "0 < dval stop_bps" using near_positive [OF near_sym [OF b(2)]] e(2) s(2) by simp
  obtain bd where bd: "dec_mul (k_account_equity cfg) (k_risk_per_trade cfg) = Some bd" "dec_finite bd"
    "near 1 \<bar>dval bd\<bar> \<bar>dval (k_account_equity cfg) * dval (k_risk_per_trade cfg)\<bar>"
    "0 < dval bd \<longrightarrow> 0 < dval (k_account_equity cfg) * dval (k_risk_per_trade cfg)"
    using mul_value [of "k_account_equity cfg" "k_risk_per_trade cfg"] fin by blast
  have "budget = bd" using budget bd(1) by (simp add: risk_budget_of_def)
  have sized: "0 < dval budget" "dval notional * (1 - tiny) ^ 4 \<le> dval budget / dval stop_bps * 10000"
    "dval notional * (1 - tiny) \<le> dval (k_account_equity cfg) * dval (k_max_leverage cfg)"
    "dval notional \<le> dval (k_max_position_notional cfg)"
    using sized_notional_value [of cfg budget stop_bps notional] fin bd(2) \<open>budget = bd\<close> b(1) bpos n by simp_all
  have B: "dval budget * (1 - tiny) \<le> dval (k_account_equity cfg) * dval (k_risk_per_trade cfg)"
    using near_abs_le [OF bd(3)] bd(4) sized(1) \<open>budget = bd\<close> by simp
  have d: "?D / dval entry * 10000 * (1 - tiny) ^ 5 \<le> dval stop_bps" using b(2) by (simp add: near_def)
  have c: "0 < 1 - tiny" "0 \<le> 1 - tiny" using tiny_bounds by simp_all
  have less: "v * slack \<le> v * (1 - tiny) ^ k" if "0 \<le> v" "k \<le> 16" for v k
    using slack_power that by (intro mult_left_mono)
  have "dval qty * ?D * (1 - tiny) ^ 16 \<le> dval (k_account_equity cfg) * dval (k_risk_per_trade cfg)"
    by (rule risk_chain [OF c(1) e(2) _ bpos _ qty(2) sized(2) B d]) (use qty(1) in simp_all)
  moreover have "dval qty * ?D * slack \<le> dval qty * ?D * (1 - tiny) ^ 16" using qty(1) by (intro less) simp_all
  ultimately have 1: "dval qty * ?D * slack \<le> dval (k_account_equity cfg) * dval (k_risk_per_trade cfg)" by (rule order_trans [rotated])
  have qe: "0 \<le> dval qty * dval entry" using qty(1) e(2) by simp
  have "dval qty * dval entry * (1 - tiny) ^ 7 = dval qty * dval entry * (1 - tiny) ^ 6 * (1 - tiny)" by (simp add: numeral_eq_Suc)
  also have "\<dots> \<le> dval notional * (1 - tiny)" using qty(2) c(2) by (rule mult_right_mono)
  finally have 2: "dval qty * dval entry * slack \<le> dval (k_account_equity cfg) * dval (k_max_leverage cfg)"
    using less [OF qe, of 7] sized(3) by simp
  have 3: "dval qty * dval entry * slack \<le> dval (k_max_position_notional cfg)" using less [OF qe, of 6] qty(2) sized(4) by simp
  from 1 2 3 show ?thesis by (simp add: limits_hold_def)
qed

lemma ordered_prices:
  assumes "some_not_positive [entry, stop, target] = Inr False" and "prices_ordered side entry stop target = Inr True"
    and "side \<noteq> BOTH"
  shows "dec_finite entry \<and> 0 < dval entry \<and>
    (dec_finite stop \<and> 0 < dval stop \<and> dval entry \<noteq> dval stop \<or> stop = DInf False)"
proof -
  have pos: "dec_finite x \<and> 0 < dval x \<or> x = DInf False" if "x \<in> {entry, stop, target}" for x
    using positive_prices [OF assms(1)] that by auto
  from assms(3) consider "side = LONG" | "side = SHORT" by (cases side) auto
  then show ?thesis
  proof cases
    case 1
    with assms(2) have asc: "ascending stop entry target = Inr True" by simp
    have p: "dec_finite x \<and> 0 < dval x \<or> x = DInf False" if "x \<in> {stop, entry, target}" for x using pos that by blast
    have "dec_finite stop \<and> dec_finite entry \<and> 0 < dval stop \<and> dval stop < dval entry"
      using ascending_finite [OF asc p] by blast
    then show ?thesis by auto
  next
    case 2
    with assms(2) have asc: "ascending target entry stop = Inr True" by simp
    have p: "dec_finite x \<and> 0 < dval x \<or> x = DInf False" if "x \<in> {target, entry, stop}" for x using pos that by blast
    have "dec_finite target \<and> dec_finite entry \<and> 0 < dval target \<and> dval target < dval entry \<and>
        (dec_finite stop \<longrightarrow> dval entry < dval stop)"
      using ascending_finite [OF asc p] by blast
    with pos [of stop] show ?thesis by auto
  qed
qed

lemma assess_limits:
  assumes cfg: "config_finite cfg" and run: "assess cfg req entry stop target = Inr d" and ok: "d_accepted d"
  shows "\<exists>t qty. d_order_request d = Some (req\<lparr>r_quantity := t\<rparr>) \<and> decimal_of_string t = Some qty \<and> dec_finite qty \<and>
    0 < dval qty \<and> dec_finite entry \<and> dec_finite stop \<and> 0 < dval entry \<and> 0 < dval stop \<and> limits_hold cfg entry stop qty"
proof -
  note fin = cfg [unfolded config_finite_def]
  obtain stop_bps budget notional raw quantity t where st:
    "some_not_positive [entry, stop, target] = Inr False"
    "prices_ordered (risk_position_side req) entry stop target = Inr True"
    "distance_bps entry stop entry = Inr stop_bps" "risk_budget_of cfg = Inr budget"
    "sized_notional cfg budget stop_bps = Inr notional" "dec_div notional entry = Some raw"
    "round_quantity_with_config raw cfg = Inr quantity" "dec_le quantity dec_zero = Some False"
    and t: "risk_decimal_str quantity = Inr t" "d_order_request d = Some (req\<lparr>r_quantity := t\<rparr>)"
    by (rule assess_steps [OF run ok]) blast
  have "risk_position_side req \<noteq> BOTH" by (auto simp: risk_position_side_def)
  from ordered_prices [OF st(1,2) this] have e: "dec_finite entry" "0 < dval entry"
    and s: "dec_finite stop \<and> 0 < dval stop \<and> dval entry \<noteq> dval stop \<or> stop = DInf False" by auto
  have bd: "dec_finite budget"
    using mul_value [of "k_account_equity cfg" "k_risk_per_trade cfg"] fin st(4) by (auto simp: risk_budget_of_def)
  have stop: "dec_finite stop"
  proof (rule ccontr)
    assume "\<not> dec_finite stop"
    with s have inf: "stop = DInf False" by simp
    with infinite_distance [OF e] st(3) have "stop_bps = DInf False" by simp
    with infinite_stop_notional [of cfg budget notional] fin bd st(5) have "dec_finite notional" "dval notional \<le> 0" by simp_all
    with quantity_value [OF st(6) this(1) e st(7,8) t(1)] show False by fastforce
  qed
  with s have s: "0 < dval stop" "dval entry \<noteq> dval stop" by auto
  have b: "dec_finite stop_bps" "near 5 (dval stop_bps) (\<bar>dval entry - dval stop\<bar> / dval entry * 10000)"
    using distance_value [OF e(1) stop e st(3)] by simp_all
  have bpos: "0 < dval stop_bps" using near_positive [OF near_sym [OF b(2)]] e(2) s(2) by simp
  have n: "dec_finite notional"
    using sized_notional_finite [of cfg budget stop_bps notional] fin bd b(1) bpos st(5) by simp
  obtain qty where qty: "decimal_of_string t = Some qty" "dec_finite qty" "0 < dval qty" "0 < dval notional"
    "dval qty * dval entry * (1 - tiny) ^ 6 \<le> dval notional"
    by (rule quantity_value [OF st(6) n e st(7,8) t(1)])
  have "limits_hold cfg entry stop qty"
    by (rule finite_stop_limits [OF cfg e stop s(2) st(3-5) n qty(4,3,5)])
  with t(2) qty e stop s show ?thesis by blast
qed

section \<open>An example\<close>

definition sample_parsing :: parsing where
  "sample_parsing = \<lparr>lax_bool = (\<lambda>v. case v of JBool b \<Rightarrow> Some b | _ \<Rightarrow> None),
     lax_int = (\<lambda>v. case v of JInt i \<Rightarrow> Some i | _ \<Rightarrow> None), exc_text = (\<lambda>_. ''invalid'')\<rparr>"

definition sample_config :: risk_config where
  "sample_config = \<lparr>k_account_equity = DFin False 100 0, k_risk_per_trade = DFin False 1 (- 1),
     k_max_leverage = DFin False 2 0, k_max_position_notional = DFin False 50 0, k_min_notional = DFin False 5 0,
     k_min_stop_bps = DFin False 5 0, k_min_reward_risk = DFin False 1 0, k_quantity_step = DFin False 1 (- 1),
     k_fee_bps = DFin False 4 0, k_slippage_bps = DFin False 2 0, k_spread_bps = DFin False 1 0\<rparr>"

definition sample_intent :: json_obj where
  "sample_intent = [(''exchange'', JStr ''BINANCE''), (''market_type'', JStr ''PERP''), (''symbol'', JStr ''BTCUSDT''),
     (''side'', JStr ''BUY''), (''order_type'', JStr ''MARKET''), (''quantity'', JStr ''99''),
     (''signal_id'', JStr ''S-1''), (''strategy_name'', JStr ''box''), (''entry_price'', JStr ''4''),
     (''stop_loss_price'', JStr ''2''), (''take_profit_price'', JStr ''7'')]"

lemma sample_prices: "entry_of sample_intent = Some (DFin False 4 0)" "stop_of sample_intent = Some (DFin False 2 0)"
  "target_of sample_intent = Some (DFin False 7 0)"
  by (simp_all add: entry_of_def stop_of_def target_of_def sample_intent_def json_get_def decimal_of_string_def strip_def
      is_blank_def parse_body_def parse_special_def parse_unsigned_def parse_exponent_def upper_def upper_char_def Let_def digits_value_def
      is_digit_def char_digit_def)

lemmas decimal_eval = dec_sub_def or_invalid_def div_fin_def div_parts_def digits_base.simps dec_precision_def
  strip_zeros.simps dec_fix_def Let_def scaled_def dec_min_def dec_le_def dec_zero_def

definition intent_buy :: order_request where
  "intent_buy =
     \<lparr>r_exchange = BINANCE, r_market_type = PERP, r_symbol = ''BTCUSDT'', r_side = BUY, r_order_type = MARKET,
      r_order_route = Some REGULAR, r_time_in_force = None, r_quantity = ''99'', r_price = None, r_trigger_price = None,
      r_stop_price = None, r_reduce_only = False, r_close_position = False, r_leverage = None, r_position_side = BOTH,
      r_position_action = PA_UNKNOWN\<rparr>"

lemma sample_request: "request_of_intent sample_parsing sample_intent = Inr intent_buy"
  by (simp add: request_of_intent_def read_request_def required_def nullable_def defaulted_def or_missing_def sample_intent_def enum_field_def
     enum_parse_def exchange_members_def market_type_members_def order_side_members_def order_type_members_def
     validate_request_def check_request_fields_def check_decimal_def check_decimal_opt_def decimal_string_def
     decimal_pattern_def strip_def is_blank_def is_digit_def Let_def guard_sum_def
     normalize_request_after_validation_def check_route_def upper_def upper_char_def
     normalize_position_metadata_for_order_def validate_order_type_required_fields_def intent_buy_def)

lemma sample_text: "risk_decimal_str (DFin False 5 0) = Inr ''5''"
proof -
  have five: "char_of (53::nat) = CHR ''5''" by code_simp
  show ?thesis
    by (simp add: risk_decimal_str_def or_invalid_def dec_fix_def digits_base.simps dec_precision_def strip_all.simps
      decimal_str_def Let_def format_fixed_def show_nat_def digit_char_def five)
qed

lemma sample_steps: "distance_bps (DFin False 4 0) (DFin False 2 0) (DFin False 4 0) = Inr (DFin False 50000 (- 1))"
  "distance_bps (DFin False 7 0) (DFin False 4 0) (DFin False 4 0) = Inr (DFin False 750000 (- 2))"
  by (simp_all add: distance_bps_def ten_thousand_def decimal_eval)

lemma sample_steps2: "div_fin False 750000 (- 2) 50000 (- 1) = DFin False 15 (- 1)"
  "risk_budget_of sample_config = Inr (DFin False 100 (- 1))"
  "sized_notional sample_config (DFin False 100 (- 1)) (DFin False 50000 (- 1)) = Inr (DFin False 20 0)"
  "div_fin False 20 0 4 0 = DFin False 5 0"
  "round_quantity_with_config (DFin False 5 0) sample_config = Inr (DFin False 5 0)"
  by (simp_all add: risk_budget_of_def sized_notional_def round_quantity_with_config_def sample_config_def ten_thousand_def decimal_eval)

lemma sample_limits: "k_min_stop_bps sample_config = DFin False 5 0" "k_min_reward_risk sample_config = DFin False 1 0"
  "k_min_notional sample_config = DFin False 5 0" "dec_finite (k_fee_bps sample_config)"
  "dec_finite (k_slippage_bps sample_config)" "dec_finite (k_spread_bps sample_config)"
  by (simp_all add: sample_config_def)

lemma risk_decimal_str_finite: "dec_finite d \<Longrightarrow> \<exists>t. risk_decimal_str d = Inr t"
  by (cases d) (simp_all add: risk_decimal_str_def or_invalid_def)

lemma decimal_strs_finite: "list_all (dec_finite \<circ> snd) kds \<Longrightarrow> \<exists>kts. decimal_strs kds = Inr kts"
proof (induction kds)
  case (Cons kd kds)
  then obtain kts where "decimal_strs kds = Inr kts" by auto
  moreover obtain t where "risk_decimal_str (snd kd) = Inr t" using Cons.prems risk_decimal_str_finite by auto
  ultimately show ?case by (cases kd) simp
qed simp

lemma dec_add_finite: "dec_finite x \<Longrightarrow> dec_finite y \<Longrightarrow> \<exists>z. dec_add x y = Some z \<and> dec_finite z"
  by (cases x; cases y) (simp_all add: Let_def)

text \<open>An order whose numbers are finite is accepted when it gets that far.\<close>

lemma accept_finite:
  assumes "list_all dec_finite [entry, stop, target, stop_bps, reward_bps, reward_risk, budget, quantity,
    k_fee_bps cfg, k_slippage_bps cfg, k_spread_bps cfg]" and t: "risk_decimal_str quantity = Inr t"
  shows "\<exists>d. accept cfg req entry stop target stop_bps reward_bps reward_risk budget quantity = Inr d \<and> d_accepted d \<and>
    d_order_request d = Some (req\<lparr>r_quantity := t\<rparr>)"
proof -
  have two: "dec_finite (DFin False 2 0)" "dval (DFin False 2 0) \<noteq> 0" by (simp_all add: dval_fin_def)
  obtain f where f: "dec_add (k_fee_bps cfg) (k_slippage_bps cfg) = Some f" "dec_finite f" using assms dec_add_finite by auto
  obtain h where h: "dec_div (k_spread_bps cfg) (DFin False 2 0) = Some h" "dec_finite h"
    using assms div_value [OF _ two] by auto
  obtain c where c: "dec_add f h = Some c" "dec_finite c" using dec_add_finite f(2) h(2) by blast
  have cost: "cost_bps_of cfg = Inr c" by (simp add: cost_bps_of_def or_invalid_def f h c)
  obtain n where n: "dec_mul quantity entry = Some n" "dec_finite n" using assms mul_value by auto
  have "\<exists>kts. decimal_strs [(''entry_price'', entry), (''stop_loss_price'', stop), (''take_profit_price'', target),
        (''stop_bps'', stop_bps), (''reward_bps'', reward_bps), (''reward_risk'', reward_risk), (''risk_budget'', budget)] = Inr kts"
    using assms by (intro decimal_strs_finite) simp
  moreover have "\<exists>kts. decimal_strs [(''notional'', n), (''quantity'', quantity), (''cost_bps'', c)] = Inr kts"
    using assms n c by (intro decimal_strs_finite) simp
  ultimately show ?thesis using n by (auto simp: accept_def t cost or_invalid_def)
qed

lemma sample_accepted: "\<exists>d. evaluate sample_parsing None sample_intent (Some sample_config) = Inr d \<and> d_accepted d \<and>
    d_order_request d = Some (intent_buy\<lparr>r_quantity := ''5''\<rparr>)"
proof -
  have side: "risk_position_side intent_buy = LONG" by (simp add: risk_position_side_def intent_buy_def)
  have "\<exists>d. assess sample_config intent_buy (DFin False 4 0) (DFin False 2 0) (DFin False 7 0) = Inr d \<and> d_accepted d \<and>
      d_order_request d = Some (intent_buy\<lparr>r_quantity := ''5''\<rparr>)"
    by (simp add: assess_def side sample_steps sample_steps2 or_invalid_def dec_le_def dec_zero_def scaled_def ascending_def
      accept_finite sample_limits sample_text)
  then show ?thesis by (simp add: evaluate_def active_config_def sample_request sample_prices)
qed

section \<open>Properties\<close>

lemma accepted_risk:
  assumes "evaluate pp default_config intent config = Inr d" and "d_accepted d"
    and "active_config config default_config = Some cfg" and "config_finite cfg"
  shows "\<exists>req entry stop qty. d_order_request d = Some req \<and> entry_of intent = Some entry \<and> stop_of intent = Some stop \<and>
    decimal_of_string (r_quantity req) = Some qty \<and> dec_finite qty \<and> 0 < dval qty \<and>
    dec_finite entry \<and> dec_finite stop \<and> 0 < dval entry \<and> 0 < dval stop \<and> limits_hold cfg entry stop qty"
proof -
  obtain req entry stop target where "entry_of intent = Some entry" "stop_of intent = Some stop"
    and run: "assess cfg req entry stop target = Inr d"
    using assms(1,2) unfolding evaluate_def assms(3) by (auto split: sum.splits option.splits)
  with assess_limits [OF assms(4) run assms(2)] show ?thesis by force
qed

text \<open>C28: An order the pre-trade check accepts is sized: its quantity parses to a positive number whose product
  with the distance from entry to stop is at most the account's equity times the risk per trade, and whose value
  at the entry price is within the leverage cap and the notional cap, all up to rounding in the 25th digit; entry
  and stop are finite and positive whatever the intent's texts are.\<close>

theorem accepted_risk_bounded:
  assumes "evaluate pp default_config intent config = Inr d" and "d_accepted d"
    and "active_config config default_config = Some cfg" and "config_finite cfg"
  shows "\<exists>req entry stop qty. d_order_request d = Some req \<and> entry_of intent = Some entry \<and> stop_of intent = Some stop \<and>
    decimal_of_string (r_quantity req) = Some qty \<and> dec_finite qty \<and> 0 < dval qty \<and>
    dec_finite entry \<and> dec_finite stop \<and> 0 < dval entry \<and> 0 < dval stop \<and> limits_hold cfg entry stop qty"
  by (rule accepted_risk [OF assms])

lemma accepted_risk_bounded_witness:
  "\<exists>d req qty. evaluate sample_parsing None sample_intent (Some sample_config) = Inr d \<and>
    d_order_request d = Some req \<and> decimal_of_string (r_quantity req) = Some qty \<and> 0 < dval qty \<and>
    limits_hold sample_config (DFin False 4 0) (DFin False 2 0) qty"
proof -
  obtain d where d: "evaluate sample_parsing None sample_intent (Some sample_config) = Inr d" "d_accepted d"
    using sample_accepted by blast
  have "active_config (Some sample_config) None = Some sample_config" "config_finite sample_config"
    by (simp_all add: active_config_def config_finite_def sample_config_def)
  from accepted_risk_bounded [OF d this] show ?thesis using d(1) by (auto simp: sample_prices)
qed

end
