(* ===== verification/Intake.thy ===== *)
theory Intake
  imports RiskBound Submission
begin

text \<open>
  The way from a strategy's intent to an order: \<open>handlers/dedup_handler.py\<close>,
  \<open>handlers/order_submit_handler.py\<close>, \<open>consumers/order_intent_consumer.py\<close> and the repository of the
  risk configurations.  The state is the stores of the gateway together with \<open>intake\<close>: the keys reserved
  in Redis with the second they expire at, the table \<open>strategy_risk_configs\<close> (its values as the texts
  \<open>str\<close> gives them) and the audit topic.  A history of the consumer is a list of events: messages,
  seconds that pass between them, and changes of a configuration by the API.
\<close>

section \<open>State\<close>

record risk_row =
  rr_values :: "(string \<times> string) list"
  rr_created_ts :: int
  rr_updated_ts :: int

record intake =
  ik_now :: int
  ik_keys :: "(string \<times> int) list"
  ik_configs :: "(string \<times> risk_row) list"
  ik_audit :: "(string \<times> json_obj) list"
  ik_send_ok :: "nat \<Rightarrow> bool"
  ik_sends :: nat

type_synonym 'a iprog = "(world \<times> intake, exn, 'a) prog"

definition on_stores :: "'a wprog \<Rightarrow> 'a iprog" where
  "on_stores m = (\<lambda>(w, ik). case m w of (r, w') \<Rightarrow> (r, (w', ik)))"

text \<open>A statement that reaches PostgreSQL or Redis, whose effect is on the intake state.\<close>

definition pg_reached :: "unit iprog" where
  "pg_reached = on_stores (pg_read (\<lambda>_. ()))"

definition redis_reached :: "unit iprog" where
  "redis_reached = on_stores (redis_read (\<lambda>_. ()))"

section \<open>Reserving keys\<close>

text \<open>What a store of reserved keys promises: a key is accepted exactly when it is not held, and is held then.\<close>

locale dedup_store =
  fixes reserve :: "string \<Rightarrow> 's \<Rightarrow> bool \<times> 's" and held :: "string \<Rightarrow> 's \<Rightarrow> bool"
  assumes accepts: "fst (reserve k s) \<longleftrightarrow> \<not> held k s"
    and holds: "held k' (snd (reserve k s)) \<longleftrightarrow> held k' s \<or> k' = k"
begin

lemma accepted_then_held: "reserve k s = (True, t) \<Longrightarrow> held k t"
  using holds [of k k s] by simp

lemma refused: "held k s \<Longrightarrow> \<not> fst (reserve k s)"
  by (simp add: accepts)

lemma second_refused: "\<not> fst (reserve k (snd (reserve k s)))"
  by (simp add: refused holds)

end

definition memory_reserve :: "string \<Rightarrow> string set \<Rightarrow> bool \<times> string set" where
  "memory_reserve k known = (if k \<in> known then (False, known) else (True, insert k known))"

interpretation memory_store: dedup_store memory_reserve "\<lambda>k known. k \<in> known"
  by unfold_locales (auto simp: memory_reserve_def)

text \<open>\<open>SET key 1 EX ttl NX\<close>.\<close>

definition live_key :: "int \<Rightarrow> string \<Rightarrow> (string \<times> int) list \<Rightarrow> bool" where
  "live_key now k keys = (case map_of keys k of None \<Rightarrow> False | Some expiry \<Rightarrow> now < expiry)"

definition reserve_key :: "int \<Rightarrow> nat \<Rightarrow> string \<Rightarrow> (string \<times> int) list \<Rightarrow> bool \<times> (string \<times> int) list" where
  "reserve_key now ttl k keys =
     (if live_key now k keys then (False, keys) else (True, AList.update k (now + int ttl) keys))"

definition DEDUP_TTL_SECONDS :: nat where
  "DEDUP_TTL_SECONDS = 60 * 60"

lemma live_key_update: "live_key now k' (AList.update k t keys) = (if k' = k then now < t else live_key now k' keys)"
  by (simp add: live_key_def update_conv')

interpretation redis_store: dedup_store "reserve_key now DEDUP_TTL_SECONDS" "live_key now" for now :: int
  by unfold_locales (auto simp: reserve_key_def live_key_update DEDUP_TTL_SECONDS_def)

definition dedup_prefix :: string where
  "dedup_prefix = ''dedup:order_intent''"

definition redis_reserve :: "string \<Rightarrow> nat \<Rightarrow> bool iprog" where
  "redis_reserve key ttl =
     andThen redis_reached (\<lambda>_. \<lambda>(w, ik).
       if ttl = 0 then (Inl RedisError, (w, ik))
       else case reserve_key (ik_now ik) ttl (dedup_prefix @ '':'' @ key) (ik_keys ik) of
              (fresh, keys) \<Rightarrow> (Inr fresh, (w, ik\<lparr>ik_keys := keys\<rparr>)))"

section \<open>The key of an intent\<close>

text \<open>\<open>str(value)\<close>; the text of a list or an object is an argument.\<close>

fun py_str :: "(json \<Rightarrow> string) \<Rightarrow> json \<Rightarrow> string" where
  "py_str show_json JNull = ''None''"
| "py_str show_json (JBool b) = (if b then ''True'' else ''False'')"
| "py_str show_json (JInt i) = show_int i"
| "py_str show_json (JReal t) = t"
| "py_str show_json (JStr t) = t"
| "py_str show_json v = show_json v"

definition text_or :: "(json \<Rightarrow> string) \<Rightarrow> json_obj \<Rightarrow> string \<Rightarrow> string \<Rightarrow> string" where
  "text_or show_json intent k d =
     strip (let v = json_get intent k in if py_truthy v then py_str show_json v else d)"

definition key_for_intent :: "(json \<Rightarrow> string) \<Rightarrow> json_obj \<Rightarrow> string" where
  "key_for_intent show_json intent =
     (let signal_id = text_or show_json intent ''signal_id'' [] in
      if signal_id \<noteq> [] then signal_id
      else text_or show_json intent ''strategy_name'' ''unknown'' @ '':'' @
           text_or show_json intent ''exchange'' ''unknown'' @ '':'' @
           text_or show_json intent ''symbol'' ''unknown'' @ '':'' @
           text_or show_json intent ''side'' ''unknown'' @ '':'' @
           text_or show_json intent ''generated_ts'' ''0'')"

section \<open>Risk configurations\<close>

definition risk_keys :: "string list" where
  "risk_keys = [''account_equity'', ''risk_per_trade'', ''max_leverage'', ''max_position_notional'', ''min_notional'',
     ''min_stop_bps'', ''min_reward_risk'', ''quantity_step'', ''fee_bps'', ''slippage_bps'', ''spread_bps'']"

definition get_by_strategy :: "string \<Rightarrow> risk_row option iprog" where
  "get_by_strategy name = andThen pg_reached (\<lambda>_. gets (\<lambda>s. map_of (ik_configs (snd s)) name))"

text \<open>\<open>get_val\<close>: the given value, else the stored one, else a \<open>ValueError\<close>.\<close>

fun merged_values :: "(string \<times> string) list \<Rightarrow> (string \<times> string) list \<Rightarrow> string list \<Rightarrow> exn + (string \<times> string) list"
  where
  "merged_values config_data existing [] = Inr []"
| "merged_values config_data existing (k # ks) =
     (case map_of (config_data @ existing) k of
        None \<Rightarrow> Inl (ValueError k)
      | Some v \<Rightarrow> map_sum id (\<lambda>kvs. (k, v) # kvs) (merged_values config_data existing ks))"

definition upsert_risk_config :: "string \<Rightarrow> (string \<times> string) list \<Rightarrow> risk_row iprog" where
  "upsert_risk_config name config_data =
     andThen (on_stores epoch_ms) (\<lambda>now.
     andThen (get_by_strategy name) (\<lambda>existing.
     andThen (liftSum (merged_values config_data (case existing of None \<Rightarrow> [] | Some r \<Rightarrow> rr_values r) risk_keys)) (\<lambda>vals.
     andThen pg_reached (\<lambda>_.
     let row = \<lparr>rr_values = vals, rr_created_ts = (case existing of None \<Rightarrow> now | Some r \<Rightarrow> rr_created_ts r),
                rr_updated_ts = now\<rparr>
     in andThen (modify (\<lambda>(w, ik). (w, ik\<lparr>ik_configs := AList.update name row (ik_configs ik)\<rparr>))) (\<lambda>_. ret row)))))"

text \<open>\<open>RiskConfig(**{k: Decimal(str(v)) ...})\<close>; a missing key or a text that is no number raises.\<close>

definition config_value :: "(string \<times> string) list \<Rightarrow> string \<Rightarrow> exn + pydecimal" where
  "config_value vals k =
     (case map_of vals k of None \<Rightarrow> Inl (TypeError k) | Some t \<Rightarrow> or_invalid (decimal_of_string t))"

definition config_of_values :: "(string \<times> string) list \<Rightarrow> exn + risk_config" where
  "config_of_values vals =
     sum_bind (config_value vals ''account_equity'') (\<lambda>equity.
     sum_bind (config_value vals ''risk_per_trade'') (\<lambda>risk.
     sum_bind (config_value vals ''max_leverage'') (\<lambda>lev.
     sum_bind (config_value vals ''max_position_notional'') (\<lambda>cap.
     sum_bind (config_value vals ''min_notional'') (\<lambda>least.
     sum_bind (config_value vals ''min_stop_bps'') (\<lambda>stop_bps.
     sum_bind (config_value vals ''min_reward_risk'') (\<lambda>reward.
     sum_bind (config_value vals ''quantity_step'') (\<lambda>step.
     sum_bind (config_value vals ''fee_bps'') (\<lambda>fee.
     sum_bind (config_value vals ''slippage_bps'') (\<lambda>slip.
     sum_bind (config_value vals ''spread_bps'') (\<lambda>spread.
     Inr \<lparr>k_account_equity = equity, k_risk_per_trade = risk, k_max_leverage = lev, k_max_position_notional = cap,
       k_min_notional = least, k_min_stop_bps = stop_bps, k_min_reward_risk = reward, k_quantity_step = step,
       k_fee_bps = fee, k_slippage_bps = slip, k_spread_bps = spread\<rparr>)))))))))))"

section \<open>Processing an intent\<close>

record intent_handler =
  oh_dedup_ttl :: "nat option"
  oh_configs :: bool
  oh_default_config :: "risk_config option"
  oh_parsing :: parsing
  oh_show_json :: "json \<Rightarrow> string"

record process_result =
  pr_accepted :: bool
  pr_order :: "order option"
  pr_stage :: "string option"
  pr_reason :: "string option"
  pr_detail :: "string option"
  pr_risk_metadata :: "(string \<times> string) list"
  pr_dedup_key :: "string option"

text \<open>\<open>None\<close> stands for a handler without deduplication, else the key and whether it was accepted.\<close>

definition dedup_evaluate :: "intent_handler \<Rightarrow> json_obj \<Rightarrow> (string \<times> bool) option iprog" where
  "dedup_evaluate h intent =
     (case oh_dedup_ttl h of
        None \<Rightarrow> ret None
      | Some ttl \<Rightarrow>
          let key = key_for_intent (oh_show_json h) intent in
          andThen (redis_reserve key ttl) (\<lambda>accepted. ret (Some (key, accepted))))"

definition fetch_risk_config :: "json \<Rightarrow> risk_config option iprog" where
  "fetch_risk_config strategy_name =
     (case strategy_name of
        JStr name \<Rightarrow>
          andThen (get_by_strategy name) (\<lambda>row. case row of
            None \<Rightarrow> ret None
          | Some r \<Rightarrow> andThen (liftSum (config_of_values (rr_values r))) (\<lambda>cfg. ret (Some cfg)))
      | _ \<Rightarrow> throw (TypeError ''strategy_name''))"

definition strategy_config :: "intent_handler \<Rightarrow> json_obj \<Rightarrow> risk_config option iprog" where
  "strategy_config h intent =
     (let strategy_name = json_get intent ''strategy_name'' in
      if oh_configs h \<and> py_truthy strategy_name then catch (fetch_risk_config strategy_name) (\<lambda>_. ret None)
      else ret None)"

text \<open>The \<open>Order\<close> built during the submission accepts texts and \<open>None\<close> for these two fields.\<close>

fun optional_text :: "json \<Rightarrow> exn + string option" where
  "optional_text JNull = Inr None"
| "optional_text (JStr t) = Inr (Some t)"
| "optional_text _ = Inl (ValidationError ''string_type'')"

definition submit_intent :: "gateway_env \<Rightarrow> order_request \<Rightarrow> json_obj \<Rightarrow> order wprog" where
  "submit_intent env req intent =
     (case (optional_text (json_get intent ''signal_id''), optional_text (json_get intent ''strategy_name'')) of
        (Inr signal_id, Inr strategy_name) \<Rightarrow> submit_order env req STRATEGY signal_id strategy_name
      | _ \<Rightarrow>
          andThen (apply_order_request_leverage_if_present env req) (\<lambda>_.
          andThen epoch_ms (\<lambda>_. throw (ValidationError ''string_type''))))"

definition duplicate_result :: "string \<Rightarrow> process_result" where
  "duplicate_result key = \<lparr>pr_accepted = False, pr_order = None, pr_stage = Some ''dedup'', pr_reason = Some ''DUPLICATE'',
     pr_detail = Some (''duplicate order intent key='' @ key), pr_risk_metadata = [], pr_dedup_key = Some key\<rparr>"

definition risk_result :: "risk_decision \<Rightarrow> string option \<Rightarrow> process_result" where
  "risk_result d key = \<lparr>pr_accepted = False, pr_order = None, pr_stage = Some ''risk'',
     pr_reason = Some (case d_reason d of Some r \<Rightarrow> risk_reject_reason_value r | None \<Rightarrow> ''RISK_REJECTED''),
     pr_detail = d_detail d, pr_risk_metadata = d_metadata d, pr_dedup_key = key\<rparr>"

definition submitted_result :: "order \<Rightarrow> risk_decision \<Rightarrow> string option \<Rightarrow> process_result" where
  "submitted_result ord d key = \<lparr>pr_accepted = True, pr_order = Some ord, pr_stage = Some ''submitted'', pr_reason = None,
     pr_detail = None, pr_risk_metadata = d_metadata d, pr_dedup_key = key\<rparr>"

definition check_and_submit :: "gateway_env \<Rightarrow> intent_handler \<Rightarrow> json_obj \<Rightarrow> string option \<Rightarrow> process_result iprog" where
  "check_and_submit env h intent key =
     andThen (strategy_config h intent) (\<lambda>config.
     andThen (liftSum (evaluate (oh_parsing h) (oh_default_config h) intent config)) (\<lambda>d.
     case (d_accepted d, d_order_request d) of
       (True, Some req) \<Rightarrow> andThen (on_stores (submit_intent env req intent)) (\<lambda>ord. ret (submitted_result ord d key))
     | _ \<Rightarrow> ret (risk_result d key)))"

definition process_intent :: "gateway_env \<Rightarrow> intent_handler \<Rightarrow> json_obj \<Rightarrow> process_result iprog" where
  "process_intent env h intent =
     andThen (dedup_evaluate h intent) (\<lambda>decision. case decision of
       Some (key, False) \<Rightarrow> ret (duplicate_result key)
     | Some (key, True) \<Rightarrow> check_and_submit env h intent (Some key)
     | None \<Rightarrow> check_and_submit env h intent None)"

section \<open>The consumer\<close>

definition opt_json :: "string option \<Rightarrow> json" where
  "opt_json v = (case v of None \<Rightarrow> JNull | Some t \<Rightarrow> JStr t)"

definition process_result_to_payload :: "process_result \<Rightarrow> json_obj" where
  "process_result_to_payload r =
     [(''accepted'', JBool (pr_accepted r)), (''stage'', opt_json (pr_stage r)), (''reason'', opt_json (pr_reason r)),
      (''detail'', opt_json (pr_detail r)), (''dedup_key'', opt_json (pr_dedup_key r)),
      (''risk_metadata'', JObj (map (\<lambda>(k, t). (k, JStr t)) (pr_risk_metadata r))),
      (''order_id'', opt_json (map_option o_order_id (pr_order r))),
      (''order_status'', opt_json (map_option (\<lambda>ord. order_status_value (o_status ord)) (pr_order r))),
      (''exchange_order_id'', opt_json (Option.bind (pr_order r) o_exchange_order_id))]"

text \<open>\<open>KafkaProducer.produce\<close> logs what the send raises.\<close>

definition produce :: "string \<Rightarrow> json_obj \<Rightarrow> unit iprog" where
  "produce key report = modify (\<lambda>(w, ik).
     (w, if ik_send_ok ik (ik_sends ik)
         then ik\<lparr>ik_audit := ik_audit ik @ [(key, report)], ik_sends := Suc (ik_sends ik)\<rparr>
         else ik\<lparr>ik_sends := Suc (ik_sends ik)\<rparr>))"

definition audit_key :: "intent_handler \<Rightarrow> json_obj \<Rightarrow> json_obj \<Rightarrow> string" where
  "audit_key h intent report =
     (if py_truthy (json_get intent ''signal_id'') then py_str (oh_show_json h) (json_get intent ''signal_id'')
      else if py_truthy (json_get report ''dedup_key'') then py_str (oh_show_json h) (json_get report ''dedup_key'')
      else [])"

definition handle_order_intent :: "gateway_env \<Rightarrow> intent_handler \<Rightarrow> bool \<Rightarrow> json_obj \<Rightarrow> json_obj iprog" where
  "handle_order_intent env h audit intent =
     andThen (process_intent env h intent) (\<lambda>result.
     let report = process_result_to_payload result in
     andThen (if audit then produce (audit_key h intent report) report else ret ()) (\<lambda>_.
     ret report))"

datatype intake_event =
    Elapse nat
  | Configure string "(string \<times> string) list"
  | Deliver json

definition outcome :: "'a iprog \<Rightarrow> (exn + 'a) iprog" where
  "outcome m = (\<lambda>s. case m s of (r, t) \<Rightarrow> (Inr r, t))"

text \<open>
  What one event gives: the payload of a message with the second it was handled in.  Empty values never
  leave \<open>consume_stream\<close>, and what is not an object is skipped.
\<close>

fun consume_event :: "gateway_env \<Rightarrow> intent_handler \<Rightarrow> bool \<Rightarrow> intake_event \<Rightarrow> (int \<times> json_obj) list iprog" where
  "consume_event env h audit (Elapse n) =
     andThen (modify (\<lambda>(w, ik). (w, ik\<lparr>ik_now := ik_now ik + int n\<rparr>))) (\<lambda>_. ret [])"
| "consume_event env h audit (Configure name config_data) =
     andThen (outcome (upsert_risk_config name config_data)) (\<lambda>_. ret [])"
| "consume_event env h audit (Deliver v) =
     (case v of
        JObj intent \<Rightarrow>
          if intent = [] then ret []
          else andThen (gets (\<lambda>s. ik_now (snd s))) (\<lambda>now.
               andThen (handle_order_intent env h audit intent) (\<lambda>report. ret [(now, report)]))
      | _ \<Rightarrow> ret [])"

text \<open>The loop: the first exception ends it; what was handled until then is kept.\<close>

primrec run_order_intent_consumer ::
  "gateway_env \<Rightarrow> intent_handler \<Rightarrow> bool \<Rightarrow> intake_event list \<Rightarrow> (int \<times> json_obj) list \<Rightarrow>
     ((int \<times> json_obj) list \<times> exn option) iprog" where
  "run_order_intent_consumer env h audit [] handled = ret (handled, None)"
| "run_order_intent_consumer env h audit (ev # evs) handled =
     andThen (outcome (consume_event env h audit ev)) (\<lambda>r. case r of
       Inl e \<Rightarrow> ret (handled, Some e)
     | Inr new \<Rightarrow> run_order_intent_consumer env h audit evs (handled @ new))"

end
