(* ===== verification/IntakeOutcome.thy ===== *)
theory IntakeOutcome
  imports Intake Harmless Samples
begin

text \<open>What the intake of intents guarantees, and what ends its consumer.\<close>

section \<open>Programs that leave the intake state alone\<close>

definition leaves :: "(intake \<Rightarrow> 'b) \<Rightarrow> 'a iprog \<Rightarrow> bool" where
  "leaves part m \<longleftrightarrow> (\<forall>s. part (snd (snd (m s))) = part (snd s))"

lemma leavesD: "leaves part m \<Longrightarrow> m (w, ik) = (r, (w', ik')) \<Longrightarrow> part ik' = part ik"
  unfolding leaves_def by (metis snd_conv)

lemma on_stores_run [prog_simps]: "on_stores m (w, ik) = (fst (m w), (snd (m w), ik))"
  by (simp add: on_stores_def split: prod.split)

lemma leaves_basic: "leaves part (ret x)" "leaves part (throw e)" "leaves part (gets f)" "leaves part (liftSum r)"
  "leaves part (on_stores m)" "leaves part pg_reached" "leaves part redis_reached"
  by (auto simp: leaves_def prog_simps pg_reached_def redis_reached_def)

lemma leaves_andThen: "leaves part m \<Longrightarrow> (\<And>x. leaves part (f x)) \<Longrightarrow> leaves part (andThen m f)"
  unfolding leaves_def by (auto simp: prog_simps split: prod.split sum.split) (metis snd_conv)+

lemma leaves_catch: "leaves part m \<Longrightarrow> (\<And>e. leaves part (f e)) \<Longrightarrow> leaves part (catch m f)"
  unfolding leaves_def by (auto simp: prog_simps split: prod.split sum.split) (metis snd_conv)+

lemmas leaves_rules = leaves_basic leaves_andThen leaves_catch

lemma strategy_config_leaves: "leaves part (strategy_config h intent)"
  unfolding strategy_config_def fetch_risk_config_def get_by_strategy_def Let_def
  by (auto intro!: leaves_rules split: json.split option.split)

lemma check_and_submit_leaves: "leaves part (check_and_submit env h intent key)"
  unfolding check_and_submit_def
  by (auto intro!: leaves_rules strategy_config_leaves split: bool.split option.split)

lemma upsert_leaves: "leaves (\<lambda>ik. (ik_now ik, ik_keys ik)) (upsert_risk_config name config_data)"
proof -
  have "leaves (\<lambda>ik. (ik_now ik, ik_keys ik)) (modify (\<lambda>(w, ik). (w, ik\<lparr>ik_configs := f ik\<rparr>)))" for f
    by (auto simp: leaves_def prog_simps)
  then show ?thesis
    unfolding upsert_risk_config_def get_by_strategy_def Let_def by (intro leaves_rules)
qed

section \<open>A key is accepted once while it lives\<close>

definition redis_key :: "string \<Rightarrow> string" where
  "redis_key key = dedup_prefix @ '':'' @ key"

lemma redis_key_inj [simp]: "redis_key a = redis_key b \<longleftrightarrow> a = b"
  by (simp add: redis_key_def)

lemma check_and_submit_key:
  assumes "check_and_submit env h intent key s = (Inr res, t)"
  shows "pr_dedup_key res = key"
proof -
  obtain config d u where "(case (d_accepted d, d_order_request d) of
       (True, Some req) \<Rightarrow> andThen (on_stores (submit_intent env req intent)) (\<lambda>ord. ret (submitted_result ord d key))
     | _ \<Rightarrow> ret (risk_result d key)) u = (Inr res, t)"
    using assms unfolding check_and_submit_def by (elim andThen_InrE) (auto simp: prog_simps)
  then show ?thesis
    by (auto simp: prog_simps risk_result_def submitted_result_def split: bool.splits option.splits sum.splits prod.splits)
qed

text \<open>What processing an intent does to the reserved keys.\<close>

lemma process_keys:
  assumes ttl: "oh_dedup_ttl h = Some ttl" and run: "process_intent env h intent (w, ik) = (r, (w', ik'))"
  shows "ik' = ik \<and> (\<forall>res. r = Inr res \<longrightarrow> \<not> pr_accepted res) \<or>
    (\<exists>key. \<not> live_key (ik_now ik) (redis_key key) (ik_keys ik) \<and>
       ik' = ik\<lparr>ik_keys := AList.update (redis_key key) (ik_now ik + int ttl) (ik_keys ik)\<rparr> \<and>
       (\<forall>res. r = Inr res \<longrightarrow> pr_dedup_key res = Some key))"
proof -
  let ?key = "key_for_intent (oh_show_json h) intent"
  obtain q w1 where reached: "redis_reached (w, ik) = (q, (w1, ik))"
    unfolding redis_reached_def by (metis on_stores_run prod.collapse)
  show ?thesis
  proof (cases "q = Inr () \<and> ttl \<noteq> 0")
    case False
    then have "\<exists>e. redis_reserve ?key ttl (w, ik) = (Inl e, (w1, ik))"
      using reached by (cases q) (auto simp: redis_reserve_def prog_simps)
    then have "\<exists>e. process_intent env h intent (w, ik) = (Inl e, (w1, ik))"
      by (auto simp: process_intent_def dedup_evaluate_def ttl prog_simps Let_def)
    with run show ?thesis by auto
  next
    case True
    then have reserve: "redis_reserve ?key ttl (w, ik) =
        (case reserve_key (ik_now ik) ttl (redis_key ?key) (ik_keys ik) of
           (fresh, keys) \<Rightarrow> (Inr fresh, (w1, ik\<lparr>ik_keys := keys\<rparr>)))"
      using reached by (simp add: redis_reserve_def prog_simps redis_key_def)
    show ?thesis
    proof (cases "live_key (ik_now ik) (redis_key ?key) (ik_keys ik)")
      case live: True
      then have "process_intent env h intent (w, ik) = (Inr (duplicate_result ?key), (w1, ik))"
        using reserve by (simp add: process_intent_def dedup_evaluate_def ttl prog_simps Let_def reserve_key_def)
      with run show ?thesis by (auto simp: duplicate_result_def)
    next
      case dead: False
      let ?ik = "ik\<lparr>ik_keys := AList.update (redis_key ?key) (ik_now ik + int ttl) (ik_keys ik)\<rparr>"
      have "process_intent env h intent (w, ik) = check_and_submit env h intent (Some ?key) (w1, ?ik)"
        using reserve dead by (simp add: process_intent_def dedup_evaluate_def ttl prog_simps Let_def reserve_key_def)
      with run have "check_and_submit env h intent (Some ?key) (w1, ?ik) = (r, (w', ik'))" by simp
      from leavesD [OF check_and_submit_leaves [of id] this] check_and_submit_key [of env h intent "Some ?key" "(w1, ?ik)"] this
      have "ik' = ?ik" "\<forall>res. r = Inr res \<longrightarrow> pr_dedup_key res = Some ?key" by auto
      with dead show ?thesis by (intro disjI2 exI [of _ ?key]) simp
    qed
  qed
qed

definition payload_accepted :: "json_obj \<Rightarrow> bool" where
  "payload_accepted p \<longleftrightarrow> map_of p ''accepted'' = Some (JBool True)"

definition payload_key :: "json_obj \<Rightarrow> string option" where
  "payload_key p = (case map_of p ''dedup_key'' of Some (JStr k) \<Rightarrow> Some k | _ \<Rightarrow> None)"

lemma payload_of_result [simp]:
  "payload_accepted (process_result_to_payload r) \<longleftrightarrow> pr_accepted r"
  "payload_key (process_result_to_payload r) = pr_dedup_key r"
  by (simp_all add: payload_accepted_def payload_key_def process_result_to_payload_def opt_json_def split: option.split)

text \<open>The key of a handled message is live until its time to live is over.\<close>

definition guarded_until :: "nat \<Rightarrow> int \<times> json_obj \<Rightarrow> intake \<Rightarrow> bool" where
  "guarded_until ttl x ik \<longleftrightarrow> fst x \<le> ik_now ik \<and>
     (\<forall>k. payload_accepted (snd x) \<longrightarrow> payload_key (snd x) = Some k \<longrightarrow>
        fst x + int ttl \<le> ik_now ik \<or>
        (\<exists>e. map_of (ik_keys ik) (redis_key k) = Some e \<and> fst x + int ttl \<le> e))"

definition spaced :: "nat \<Rightarrow> int \<times> json_obj \<Rightarrow> int \<times> json_obj \<Rightarrow> bool" where
  "spaced ttl x y \<longleftrightarrow>
     (payload_accepted (snd x) \<longrightarrow> payload_accepted (snd y) \<longrightarrow> payload_key (snd x) \<noteq> None \<longrightarrow>
      payload_key (snd x) = payload_key (snd y) \<longrightarrow> fst x + int ttl \<le> fst y)"

lemma guarded_later: "guarded_until ttl x ik \<Longrightarrow> ik_now ik \<le> ik_now ik' \<Longrightarrow> ik_keys ik' = ik_keys ik \<Longrightarrow> guarded_until ttl x ik'"
  unfolding guarded_until_def by force

lemma guarded_reserve:
  "guarded_until ttl x ik \<Longrightarrow> guarded_until ttl x (ik\<lparr>ik_keys := AList.update k (ik_now ik + int ttl) (ik_keys ik)\<rparr>)"
  by (auto simp: guarded_until_def update_conv')

lemma guarded_spaced:
  assumes "guarded_until ttl x ik" and "\<not> live_key (ik_now ik) (redis_key k) (ik_keys ik)" and "payload_key p = Some k"
  shows "spaced ttl x (ik_now ik, p)"
  using assms by (auto simp: guarded_until_def spaced_def live_key_def)

text \<open>One event.\<close>

lemma handle_keys:
  assumes ttl: "oh_dedup_ttl h = Some ttl" and run: "handle_order_intent env h audit intent (w, ik) = (Inr p, (w', ik'))"
    and old: "\<forall>x\<in>set xs. guarded_until ttl x ik"
  shows "(\<forall>x\<in>set (xs @ [(ik_now ik, p)]). guarded_until ttl x ik') \<and> (\<forall>x\<in>set xs. spaced ttl x (ik_now ik, p))"
proof -
  obtain res w1 ik1 where proc: "process_intent env h intent (w, ik) = (Inr res, (w1, ik1))"
    and p: "p = process_result_to_payload res" and ik': "ik_now ik' = ik_now ik1" "ik_keys ik' = ik_keys ik1"
    using run unfolding handle_order_intent_def
    by (elim andThen_InrE) (auto simp: prog_simps Let_def produce_def split: if_splits prod.splits)
  from process_keys [OF ttl proc] consider "ik1 = ik" "\<not> pr_accepted res"
    | key where "\<not> live_key (ik_now ik) (redis_key key) (ik_keys ik)" "pr_dedup_key res = Some key"
      "ik1 = ik\<lparr>ik_keys := AList.update (redis_key key) (ik_now ik + int ttl) (ik_keys ik)\<rparr>" by blast
  then show ?thesis
  proof cases
    case 1
    with old ik' show ?thesis by (auto simp: p spaced_def guarded_until_def)
  next
    case 2
    have "guarded_until ttl x ik1" if "x \<in> set xs" for x using old that guarded_reserve unfolding 2(3) by blast
    then have "guarded_until ttl x ik'" if "x \<in> set xs" for x using guarded_later ik' that by (metis order_refl)
    moreover have "guarded_until ttl (ik_now ik, p) ik'"
      using 2(2) ik' by (auto simp: guarded_until_def p 2(3) update_conv')
    moreover have "\<forall>x\<in>set xs. spaced ttl x (ik_now ik, p)" using guarded_spaced [OF _ 2(1)] old 2(2) by (simp add: p)
    ultimately show ?thesis by auto
  qed
qed

lemma upsert_keeps_keys:
  "upsert_risk_config name config_data (w, ik) = (r, (w', ik')) \<Longrightarrow> ik_now ik' = ik_now ik \<and> ik_keys ik' = ik_keys ik"
  using leavesD [OF upsert_leaves] by (metis prod.inject)

lemma consume_event_keys:
  assumes ttl: "oh_dedup_ttl h = Some ttl" and run: "consume_event env h audit ev (w, ik) = (Inr new, (w', ik'))"
    and old: "\<forall>x\<in>set xs. guarded_until ttl x ik" and sp: "sorted_wrt (spaced ttl) xs"
  shows "(\<forall>x\<in>set (xs @ new). guarded_until ttl x ik') \<and> sorted_wrt (spaced ttl) (xs @ new)"
proof (cases ev)
  case (Elapse n)
  with run have "new = []" "ik' = ik\<lparr>ik_now := ik_now ik + int n\<rparr>" by (auto simp: prog_simps)
  with old sp show ?thesis using guarded_later [of ttl _ ik ik'] by auto
next
  case (Configure name config_data)
  obtain r1 w1 ik1 where up: "upsert_risk_config name config_data (w, ik) = (r1, (w1, ik1))" by (metis prod.collapse)
  have "consume_event env h audit ev (w, ik) = (Inr [], (w1, ik1))"
    unfolding Configure by (simp add: prog_simps outcome_def up)
  with run have "new = []" "ik' = ik1" by simp_all
  with old sp upsert_keeps_keys [OF up] show ?thesis using guarded_later [of ttl _ ik ik'] by auto
next
  case (Deliver v)
  show ?thesis
  proof (cases "\<exists>intent. v = JObj intent \<and> intent \<noteq> []")
    case False
    with run Deliver have "new = []" "ik' = ik" by (auto simp: prog_simps split: json.splits)
    with old sp show ?thesis by simp
  next
    case True
    then obtain intent where v: "v = JObj intent" "intent \<noteq> []" by blast
    with run Deliver obtain p where "handle_order_intent env h audit intent (w, ik) = (Inr p, (w', ik'))"
      and new: "new = [(ik_now ik, p)]" by (auto simp: prog_simps split: prod.splits sum.splits)
    from handle_keys [OF ttl this(1) old] sp show ?thesis by (simp add: new sorted_wrt_append)
  qed
qed

lemma consumer_spaced:
  assumes ttl: "oh_dedup_ttl h = Some ttl"
  shows "\<forall>x\<in>set xs. guarded_until ttl x ik \<Longrightarrow> sorted_wrt (spaced ttl) xs \<Longrightarrow>
    run_order_intent_consumer env h audit evs xs (w, ik) = (Inr (handled, err), t) \<Longrightarrow> sorted_wrt (spaced ttl) handled"
proof (induction evs arbitrary: xs w ik)
  case Nil
  then show ?case by (auto simp: prog_simps)
next
  case (Cons ev evs)
  obtain r w1 ik1 where ev: "consume_event env h audit ev (w, ik) = (r, (w1, ik1))" by (metis prod.collapse)
  show ?case
  proof (cases r)
    case (Inl e)
    with Cons.prems ev show ?thesis by (auto simp: prog_simps outcome_def)
  next
    case (Inr new)
    have "run_order_intent_consumer env h audit evs (xs @ new) (w1, ik1) = (Inr (handled, err), t)"
      using Cons.prems(3) ev Inr by (simp add: prog_simps outcome_def)
    with Cons.IH consume_event_keys [OF ttl ev [unfolded Inr] Cons.prems(1,2)] show ?thesis by blast
  qed
qed

end
