(* ===== verification/IntakeProperties.thy ===== *)
theory IntakeProperties
  imports IntakeOutcome SubmitOutcome
begin

text \<open>The intake and the gateway together: what of an intent reaches the stores.\<close>

section \<open>The stores under the intake\<close>

definition intake_inv :: "world \<times> intake \<Rightarrow> bool" where
  "intake_inv s = gw_inv (fst s)"

definition intake_evolves :: "status_rel \<Rightarrow> world \<times> intake \<Rightarrow> world \<times> intake \<Rightarrow> bool" where
  "intake_evolves T s t = evolves T (fst s) (fst t)"

interpretation it: guarded_evolution intake_inv "intake_evolves T"
  by unfold_locales (auto simp: intake_inv_def intake_evolves_def evolves_refl intro: evolves_trans)

definition intake_harmless :: "status_rel \<Rightarrow> 'a iprog \<Rightarrow> bool" where
  "intake_harmless T m = safe intake_inv (intake_evolves T) (\<lambda>_. True) m (\<lambda>_ _. True)"

lemma intake_on_stores: "harmless T m \<Longrightarrow> intake_harmless T (on_stores m)"
  unfolding intake_harmless_def harmless_def safe_def
  by (auto simp: intake_inv_def intake_evolves_def prog_simps)

lemma intake_then: "intake_harmless T m \<Longrightarrow> (\<And>x. intake_harmless T (f x)) \<Longrightarrow> intake_harmless T (andThen m f)"
  unfolding intake_harmless_def by (rule it.safe_then) auto

lemma intake_catch: "intake_harmless T m \<Longrightarrow> (\<And>e. intake_harmless T (f e)) \<Longrightarrow> intake_harmless T (catch m f)"
  unfolding intake_harmless_def by (rule it.safe_catch) auto

lemma harmless_pg_read: "harmless T (pg_read f)"
  by (rule harmless_same_store) (simp add: pg_read_run)

lemma intake_basic: "intake_harmless T (ret x)" "intake_harmless T (throw e)" "intake_harmless T (gets f)"
  "intake_harmless T (liftSum r)" "intake_harmless T pg_reached" "intake_harmless T redis_reached"
  unfolding pg_reached_def redis_reached_def
  by (simp_all add: intake_harmless_def it.safe_ret it.safe_throw it.safe_gets it.safe_liftSum)
    (auto intro!: intake_on_stores [unfolded intake_harmless_def] harmless_pg_read)

lemmas intake_rules = intake_basic intake_then intake_catch

lemma redis_reserve_harmless: "intake_harmless T (redis_reserve key ttl)"
  unfolding redis_reserve_def
  by (rule intake_then [OF intake_basic(6)])
    (auto simp: intake_harmless_def intake_inv_def intake_evolves_def evolves_refl intro!: safeI split: if_splits prod.splits)

lemma submit_intent_harmless:
  assumes "env_ok T env" and "status_step \<le> T"
  shows "harmless T (submit_intent env req intent)"
proof -
  have "harmless T (submit_order env req STRATEGY a b)" for a b by (rule harmless_drop [OF submit_order_safe [OF assms]])
  moreover have "harmless T (apply_order_request_leverage_if_present env req)"
    by (rule harmless_drop [OF apply_leverage_safe [OF assms(1)]])
  ultimately show ?thesis
    unfolding submit_intent_def by (auto intro!: harmless_then split: sum.split)
qed

lemma strategy_config_harmless: "intake_harmless T (strategy_config h intent)"
  unfolding strategy_config_def fetch_risk_config_def get_by_strategy_def Let_def
  by (auto intro!: intake_rules split: json.split option.split)

lemma process_intent_harmless:
  assumes "env_ok T env" and "status_step \<le> T"
  shows "intake_harmless T (process_intent env h intent)"
proof -
  have "intake_harmless T (check_and_submit env h intent key)" for key
    unfolding check_and_submit_def
    by (auto intro!: intake_rules strategy_config_harmless intake_on_stores submit_intent_harmless [OF assms]
        split: bool.split option.split)
  moreover have "intake_harmless T (dedup_evaluate h intent)"
    unfolding dedup_evaluate_def Let_def by (auto intro!: intake_rules redis_reserve_harmless split: option.split)
  ultimately show ?thesis
    unfolding process_intent_def by (auto intro!: intake_rules split: option.split prod.split bool.split)
qed

section \<open>What reaches the gateway\<close>

lemma on_same_store:
  assumes "\<And>s r t. m s = (r, t) \<Longrightarrow> same_store s t" and "on_stores m (w, ik) = (r, (w', ik'))"
  shows "same_store w w' \<and> ik' = ik"
  using assms(1) [of w "fst (m w)" "snd (m w)"] assms(2) by (auto simp: prog_simps)

lemma same_store_trans: "same_store a b \<Longrightarrow> same_store b c \<Longrightarrow> same_store a c"
  by (simp add: same_store_def)

interpretation still: guarded_evolution "\<lambda>_. True" "\<lambda>s t :: world \<times> intake. same_store (fst s) (fst t)"
  by unfold_locales (auto intro: same_store_trans)

definition stores_still :: "'a iprog \<Rightarrow> bool" where
  "stores_still m = safe (\<lambda>_. True) (\<lambda>s t. same_store (fst s) (fst t)) (\<lambda>_. True) m (\<lambda>_ _. True)"

lemma stores_stillD: "stores_still m \<Longrightarrow> m (w, ik) = (r, (w', ik')) \<Longrightarrow> same_store w w'"
  unfolding stores_still_def safe_def by (metis fst_conv snd_conv)

lemma still_on_stores:
  assumes "\<And>w. same_store w (snd (m w))"
  shows "stores_still (on_stores m)"
  unfolding stores_still_def by (rule safeI) (auto simp: prog_simps assms)

lemma still_reached: "stores_still pg_reached" "stores_still redis_reached"
  unfolding pg_reached_def redis_reached_def
  by (rule still_on_stores, use pg_read_run redis_read_run in \<open>metis prod.collapse\<close>)+

lemma still_basic: "stores_still (ret x)" "stores_still (throw e)" "stores_still (gets f)" "stores_still (liftSum r)"
  by (simp_all add: stores_still_def still.safe_ret still.safe_throw still.safe_gets still.safe_liftSum)

lemma still_andThen: "stores_still m \<Longrightarrow> (\<And>x. stores_still (f x)) \<Longrightarrow> stores_still (andThen m f)"
  unfolding stores_still_def by (rule still.safe_then) auto

lemma still_catch: "stores_still m \<Longrightarrow> (\<And>e. stores_still (f e)) \<Longrightarrow> stores_still (catch m f)"
  unfolding stores_still_def by (rule still.safe_catch) auto

lemmas still_rules = still_basic still_reached still_andThen still_catch

lemma strategy_config_still: "stores_still (strategy_config h intent)"
  unfolding strategy_config_def fetch_risk_config_def get_by_strategy_def Let_def
  by (auto intro!: still_rules split: json.split option.split)

lemma dedup_evaluate_still: "stores_still (dedup_evaluate h intent)"
proof -
  have "stores_still (redis_reserve key ttl)" for key ttl
    unfolding redis_reserve_def
    by (rule still_andThen [OF still_reached(2)]) (auto simp: stores_still_def intro!: safeI split: if_splits prod.splits)
  then show ?thesis unfolding dedup_evaluate_def Let_def by (auto intro!: still_rules split: option.split)
qed

definition stored_config :: "intake \<Rightarrow> json_obj \<Rightarrow> risk_config \<Rightarrow> bool" where
  "stored_config ik intent cfg \<longleftrightarrow>
     (\<exists>name row. json_get intent ''strategy_name'' = JStr name \<and> name \<noteq> [] \<and> map_of (ik_configs ik) name = Some row \<and>
        config_of_values (rr_values row) = Inr cfg)"

text \<open>A configuration that is found is the one stored for the strategy.\<close>

lemma strategy_config_found:
  assumes "strategy_config h intent (w, ik) = (Inr (Some cfg), (w', ik'))"
  shows "stored_config ik intent cfg"
proof -
  from assms obtain w1 where fetch: "fetch_risk_config (json_get intent ''strategy_name'') (w, ik) = (Inr (Some cfg), w1)"
    by (auto simp: strategy_config_def Let_def prog_simps split: if_splits prod.splits sum.splits)
  then obtain name where name: "json_get intent ''strategy_name'' = JStr name"
    by (auto simp: fetch_risk_config_def prog_simps split: json.splits)
  from fetch obtain w2 ik2 where reached: "pg_reached (w, ik) = (Inr (), (w2, ik2))"
    by (auto simp: name fetch_risk_config_def get_by_strategy_def andThen_assoc elim!: andThen_InrE)
  then have "ik2 = ik" using leavesD [OF leaves_basic(6) [of id]] by fastforce
  with fetch reached obtain row where "map_of (ik_configs ik) name = Some row" "config_of_values (rr_values row) = Inr cfg"
    by (auto simp: name fetch_risk_config_def get_by_strategy_def prog_simps split: option.splits sum.splits)
  moreover have "name \<noteq> []" using assms name by (auto simp: strategy_config_def Let_def prog_simps)
  ultimately show ?thesis using name by (simp add: stored_config_def)
qed

lemma andThen_pairE:
  assumes "andThen m f s = (Inr y, t)"
  obtains x w ik where "m s = (Inr x, (w, ik))" and "f x (w, ik) = (Inr y, t)"
  using assms by (rule andThen_InrE) (metis surj_pair)

text \<open>The two ways through the check.\<close>

lemma check_and_submit_cases:
  assumes run: "check_and_submit env h intent key (w, ik) = (Inr res, (w', ik'))"
  obtains (rejected) "\<not> pr_accepted res" and "pr_order res = None" and "same_store w w'"
  | (submitted) config d req w1 ord where "pr_accepted res" and "pr_order res = Some ord"
      and "fst (strategy_config h intent (w, ik)) = Inr config" and "same_store w w1"
      and "evaluate (oh_parsing h) (oh_default_config h) intent config = Inr d" and "d_accepted d"
      and "d_order_request d = Some req" and "submit_intent env req intent w1 = (Inr ord, w')"
proof -
  obtain config w1 ik1 where cfg: "strategy_config h intent (w, ik) = (Inr config, (w1, ik1))"
    and rest: "andThen (liftSum (evaluate (oh_parsing h) (oh_default_config h) intent config)) (\<lambda>d.
     case (d_accepted d, d_order_request d) of
       (True, Some req) \<Rightarrow> andThen (on_stores (submit_intent env req intent)) (\<lambda>ord. ret (submitted_result ord d key))
     | _ \<Rightarrow> ret (risk_result d key)) (w1, ik1) = (Inr res, (w', ik'))"
    using run unfolding check_and_submit_def by (rule andThen_pairE)
  from rest obtain d where d: "evaluate (oh_parsing h) (oh_default_config h) intent config = Inr d"
    and last: "(case (d_accepted d, d_order_request d) of
       (True, Some req) \<Rightarrow> andThen (on_stores (submit_intent env req intent)) (\<lambda>ord. ret (submitted_result ord d key))
     | _ \<Rightarrow> ret (risk_result d key)) (w1, ik1) = (Inr res, (w', ik'))"
    by (rule andThen_InrE) (auto simp: liftSum_run)
  have still: "same_store w w1" by (rule stores_stillD [OF strategy_config_still cfg])
  show thesis
  proof (cases "d_accepted d \<and> d_order_request d \<noteq> None")
    case False
    then have "res = risk_result d key" "w' = w1" using last by (auto simp: prog_simps split: bool.splits option.splits)
    with still show thesis by (intro rejected) (simp_all add: risk_result_def)
  next
    case True
    then obtain req where req: "d_order_request d = Some req" by auto
    with True last obtain ord where "submit_intent env req intent w1 = (Inr ord, w')" "res = submitted_result ord d key"
      by (auto simp: prog_simps prod_eq_iff split: prod.splits sum.splits)
    with cfg still d True req show thesis by (intro submitted) (simp_all add: submitted_result_def)
  qed
qed

lemma process_intent_cases:
  assumes run: "process_intent env h intent (w, ik) = (Inr res, (w', ik'))"
  obtains (rejected) "\<not> pr_accepted res" and "pr_order res = None" and "same_store w w'"
  | (submitted) config d req w1 ik1 w2 ord where "pr_accepted res" and "pr_order res = Some ord"
      and "ik_configs ik1 = ik_configs ik" and "fst (strategy_config h intent (w1, ik1)) = Inr config" and "same_store w w2"
      and "evaluate (oh_parsing h) (oh_default_config h) intent config = Inr d" and "d_accepted d"
      and "d_order_request d = Some req" and "submit_intent env req intent w2 = (Inr ord, w')"
proof -
  obtain decision w1 ik1 where dd: "dedup_evaluate h intent (w, ik) = (Inr decision, (w1, ik1))"
    and rest: "(case decision of
       Some (key, False) \<Rightarrow> ret (duplicate_result key)
     | Some (key, True) \<Rightarrow> check_and_submit env h intent (Some key)
     | None \<Rightarrow> check_and_submit env h intent None) (w1, ik1) = (Inr res, (w', ik'))"
    using run unfolding process_intent_def by (rule andThen_pairE)
  have still: "same_store w w1" by (rule stores_stillD [OF dedup_evaluate_still dd])
  have "leaves ik_configs (redis_reserve key ttl)" for key ttl
    unfolding redis_reserve_def
    by (rule leaves_andThen [OF leaves_basic(7)]) (auto simp: leaves_def split: if_splits prod.splits)
  then have "leaves ik_configs (dedup_evaluate h intent)"
    unfolding dedup_evaluate_def Let_def by (auto intro!: leaves_rules split: option.split)
  from leavesD [OF this dd] have cfgs: "ik_configs ik1 = ik_configs ik" .
  have check: thesis if "check_and_submit env h intent key (w1, ik1) = (Inr res, (w', ik'))" for key
  proof (cases rule: check_and_submit_cases [OF that])
    case 1
    with still rejected same_store_trans show thesis by blast
  next
    case (2 config d req w2 ord)
    with still cfgs submitted same_store_trans show thesis by blast
  qed
  show thesis
  proof (cases "\<exists>key. decision = Some (key, False)")
    case True
    with rest have "\<exists>key. res = duplicate_result key" "w' = w1" by (auto simp: prog_simps)
    with still show thesis by (intro rejected) (auto simp: duplicate_result_def)
  next
    case False
    then consider key where "decision = Some (key, True)" | "decision = None" by (cases decision) auto
    then show thesis using rest check by cases auto
  qed
qed

lemma submit_intent_order:
  assumes "submit_intent env req intent w = (Inr ord, w')"
  obtains sig strat where "submit_order env req STRATEGY sig strat w = (Inr ord, w')"
proof (cases "optional_text (json_get intent ''signal_id'')")
  case (Inl e)
  with assms show thesis by (auto simp: submit_intent_def prog_simps split: prod.splits sum.splits)
next
  case sig: (Inr sig)
  show thesis
  proof (cases "optional_text (json_get intent ''strategy_name'')")
    case (Inl e)
    with assms sig show thesis by (auto simp: submit_intent_def prog_simps split: prod.splits sum.splits)
  next
    case (Inr strat)
    with assms sig that show thesis by (simp add: submit_intent_def)
  qed
qed

section \<open>An example\<close>

text \<open>The intent of \<open>RiskBound\<close>, a stored configuration for its strategy and a gateway that answers.\<close>

definition sample_row :: risk_row where
  "sample_row = \<lparr>rr_values = [(''account_equity'', ''100''), (''risk_per_trade'', ''0.1''), (''max_leverage'', ''2''),
     (''max_position_notional'', ''50''), (''min_notional'', ''5''), (''min_stop_bps'', ''5''), (''min_reward_risk'', ''1''),
     (''quantity_step'', ''0.1''), (''fee_bps'', ''4''), (''slippage_bps'', ''2''), (''spread_bps'', ''1'')],
     rr_created_ts = 0, rr_updated_ts = 0\<rparr>"

definition sample_intake :: intake where
  "sample_intake = \<lparr>ik_now = 0, ik_keys = [], ik_configs = [(''box'', sample_row)], ik_audit = [],
     ik_send_ok = (\<lambda>_. True), ik_sends = 0\<rparr>"

definition sample_handler :: intent_handler where
  "sample_handler = \<lparr>oh_dedup_ttl = Some DEDUP_TTL_SECONDS, oh_configs = True, oh_default_config = None,
     oh_parsing = sample_parsing, oh_show_json = (\<lambda>_. ''[]'')\<rparr>"

lemma sample_row_config: "config_of_values (rr_values sample_row) = Inr sample_config"
  by (simp add: config_of_values_def sample_row_def config_value_def or_invalid_def decimal_of_string_def strip_def is_blank_def
      parse_body_def parse_special_def parse_unsigned_def parse_exponent_def upper_def upper_char_def Let_def digits_value_def
      is_digit_def char_digit_def sample_config_def)

lemma sample_stored: "stored_config sample_intake sample_intent cfg \<longleftrightarrow> cfg = sample_config"
  by (auto simp: stored_config_def sample_intake_def sample_intent_def json_get_def sample_row_config)

lemma sample_config_is_finite: "config_finite sample_config"
  by (simp add: config_finite_def sample_config_def)

lemma sample_key: "key_for_intent (oh_show_json sample_handler) sample_intent = ''S-1''"
  by (simp add: key_for_intent_def text_or_def json_get_def sample_intent_def strip_def is_blank_def Let_def)

lemma sample_handler_parts: "oh_parsing sample_handler = sample_parsing" "oh_default_config sample_handler = None"
  by (simp_all add: sample_handler_def)

text \<open>The intent is accepted, and its key is reserved for an hour.\<close>

abbreviation sample_reserved :: intake where
  "sample_reserved \<equiv> sample_intake\<lparr>ik_keys := [(redis_key ''S-1'', 3600)]\<rparr>"

lemma sample_accepted_intent:
  "\<exists>res w. process_intent (env_with answering_client) sample_handler sample_intent (blank_world, sample_intake) =
      (Inr res, (w, sample_reserved)) \<and> pr_accepted res \<and> pr_dedup_key res = Some ''S-1'' \<and> stores_up w"
proof -
  let ?w1 = "blank_world\<lparr>w_rd_calls := Suc 0\<rparr>"
  let ?w2 = "?w1\<lparr>w_pg_calls := Suc 0\<rparr>"
  have reserve: "dedup_evaluate sample_handler sample_intent (blank_world, sample_intake) =
      (Inr (Some (''S-1'', True)), (?w1, sample_reserved))"
    using sample_key by (simp add: dedup_evaluate_def sample_handler_def Let_def redis_reserve_def redis_reached_def prog_simps
        redis_read_def redis_call_def reserve_key_def redis_key_def live_key_def sample_intake_def blank_world_def
        DEDUP_TTL_SECONDS_def)
  have config: "strategy_config sample_handler sample_intent (?w1, sample_reserved) = (Inr (Some sample_config), (?w2, sample_reserved))"
    by (simp add: strategy_config_def Let_def sample_handler_def json_get_def sample_intent_def prog_simps fetch_risk_config_def
        get_by_strategy_def pg_reached_def pg_read_def pg_transaction_def sample_intake_def blank_world_def sample_row_config)
  obtain d where d: "evaluate sample_parsing None sample_intent (Some sample_config) = Inr d" "d_accepted d"
    "d_order_request d = Some (intent_buy\<lparr>r_quantity := ''5''\<rparr>)" using sample_accepted by blast
  let ?req = "intent_buy\<lparr>r_quantity := ''5''\<rparr>"
  have valid: "validate_request ?req = Inr ?req" by code_simp
  have "\<exists>ord t. submit_order (env_with answering_client) ?req STRATEGY (Some ''S-1'') (Some ''box'') ?w2 = (Inr ord, t) \<and>
      stores_up t \<and> current ord t \<and> outcome_of (Inr filled_ack) ord \<and> o_version ord = 3"
  proof (rule submit_order_up [OF _ valid])
    show "answers (c_place_order answering_client ord) (Inr filled_ack)" for ord by (rule answering_client_place)
  qed (simp_all add: stores_up_def blank_world_def intent_buy_def id_free_def env_with_def)
  then obtain ord t where "submit_order (env_with answering_client) ?req STRATEGY (Some ''S-1'') (Some ''box'') ?w2 = (Inr ord, t)"
    "stores_up t" by blast
  moreover from this(1) have "submit_intent (env_with answering_client) ?req sample_intent ?w2 = (Inr ord, t)"
    by (simp add: submit_intent_def json_get_def sample_intent_def)
  ultimately have "check_and_submit (env_with answering_client) sample_handler sample_intent (Some ''S-1'') (?w1, sample_reserved) =
      (Inr (submitted_result ord d (Some ''S-1'')), (t, sample_reserved))"
    using d by (simp add: check_and_submit_def prog_simps config sample_handler_parts)
  with reserve \<open>stores_up t\<close> show ?thesis
    by (simp add: process_intent_def prog_simps submitted_result_def)
qed

definition nan_intent :: json_obj where
  "nan_intent = AList.update ''entry_price'' (JStr ''NaN'') sample_intent"

section \<open>Properties\<close>

text \<open>C29: With the handler as it is wired (no configuration of its own), an accepted intent has put exactly one
  order through the gateway, and that order's quantity keeps the limits of the configuration stored for the
  intent's strategy; an intent that is not accepted leaves orders, intents, events and projection alone.\<close>

theorem intake_order_bounded:
  assumes "oh_default_config h = None" and "\<And>cfg. stored_config ik intent cfg \<Longrightarrow> config_finite cfg"
    and "process_intent env h intent (w, ik) = (Inr res, (w', ik'))"
  shows "if pr_accepted res
    then \<exists>cfg req entry stop qty sig strat w0 ord. stored_config ik intent cfg \<and> same_store w w0 \<and>
      submit_order env req STRATEGY sig strat w0 = (Inr ord, w') \<and> pr_order res = Some ord \<and>
      entry_of intent = Some entry \<and> stop_of intent = Some stop \<and>
      decimal_of_string (r_quantity req) = Some qty \<and> 0 < dval qty \<and> limits_hold cfg entry stop qty
    else pr_order res = None \<and> same_store w w'"
proof (cases rule: process_intent_cases [OF assms(3)])
  case 1
  then show ?thesis by simp
next
  case (2 config d req w1 ik1 w2 ord)
  obtain cfg where cfg: "config = Some cfg"
    using 2(6,7) assms(1) by (cases config) (auto simp: evaluate_def active_config_def)
  obtain w3 ik3 where "strategy_config h intent (w1, ik1) = (Inr (Some cfg), (w3, ik3))"
    using 2(4) cfg by (metis prod.collapse)
  from strategy_config_found [OF this] have stored: "stored_config ik intent cfg" by (simp add: stored_config_def 2(3))
  obtain req' entry stop qty where "d_order_request d = Some req'" "entry_of intent = Some entry" "stop_of intent = Some stop"
    "decimal_of_string (r_quantity req') = Some qty" "0 < dval qty" "limits_hold cfg entry stop qty"
    using accepted_risk [OF 2(6,7) _ assms(2) [OF stored]] by (auto simp: cfg active_config_def)
  moreover obtain sig strat where "submit_order env req STRATEGY sig strat w2 = (Inr ord, w')"
    by (rule submit_intent_order [OF 2(9)])
  ultimately show ?thesis using 2(1,2,5,8) stored by fastforce
qed

lemma intake_order_bounded_witness:
  "\<exists>res w' req qty sig strat w0 ord.
     process_intent (env_with answering_client) sample_handler sample_intent (blank_world, sample_intake) =
       (Inr res, (w', sample_reserved)) \<and> pr_accepted res \<and>
     submit_order (env_with answering_client) req STRATEGY sig strat w0 = (Inr ord, w') \<and>
     decimal_of_string (r_quantity req) = Some qty \<and> 0 < dval qty \<and>
     limits_hold sample_config (DFin False 4 0) (DFin False 2 0) qty"
proof -
  obtain res w' where run: "process_intent (env_with answering_client) sample_handler sample_intent (blank_world, sample_intake) =
      (Inr res, (w', sample_reserved))" and ok: "pr_accepted res" using sample_accepted_intent by blast
  have "oh_default_config sample_handler = None" by (simp add: sample_handler_def)
  from intake_order_bounded [OF this _ run] ok sample_config_is_finite obtain req qty sig strat w0 ord where
    "submit_order (env_with answering_client) req STRATEGY sig strat w0 = (Inr ord, w')"
    "decimal_of_string (r_quantity req) = Some qty" "0 < dval qty"
    "limits_hold sample_config (DFin False 4 0) (DFin False 2 0) qty"
    by (auto simp: sample_stored sample_prices)
  with run ok show ?thesis by blast
qed

text \<open>C30: Whatever messages the consumer gets, in whatever order and with whatever pauses, configuration changes
  and failing stores between them: of what it handled, two intents with the same deduplication key are only
  both accepted when at least the time to live of the key lies between them.\<close>

theorem intent_accepted_once:
  assumes "oh_dedup_ttl h = Some ttl"
    and "run_order_intent_consumer env h audit evs [] s = (Inr (handled, err), t)"
  shows "sorted_wrt (\<lambda>x y. payload_accepted (snd x) \<and> payload_accepted (snd y) \<and> payload_key (snd x) \<noteq> None \<and>
    payload_key (snd x) = payload_key (snd y) \<longrightarrow> fst x + int ttl \<le> fst y) handled"
proof -
  obtain w ik where s: "s = (w, ik)" by (metis surj_pair)
  have "sorted_wrt (spaced ttl) handled"
    by (rule consumer_spaced [OF assms(1) _ _ assms(2) [unfolded s]]) simp_all
  then show ?thesis by (rule sorted_wrt_mono_rel [rotated]) (unfold spaced_def, blast)
qed

lemma intent_accepted_once_witness:
  "\<exists>p q t. run_order_intent_consumer (env_with answering_client) sample_handler False
      [Deliver (JObj sample_intent), Deliver (JObj sample_intent)] [] (blank_world, sample_intake) =
      (Inr ([(0, p), (0, q)], None), t) \<and> payload_accepted p \<and> payload_key q = Some ''S-1'' \<and> \<not> payload_accepted q"
proof -
  obtain res w where run: "process_intent (env_with answering_client) sample_handler sample_intent (blank_world, sample_intake) =
      (Inr res, (w, sample_reserved))" and res: "pr_accepted res" "pr_dedup_key res = Some ''S-1''" and up: "stores_up w"
    using sample_accepted_intent by blast
  let ?p = "process_result_to_payload res" and ?q = "process_result_to_payload (duplicate_result ''S-1'')"
  let ?w = "w\<lparr>w_rd_calls := Suc (w_rd_calls w)\<rparr>"
  have "process_intent (env_with answering_client) sample_handler sample_intent (w, sample_reserved) =
      (Inr (duplicate_result ''S-1''), (?w, sample_reserved))"
    using sample_key up by (simp add: process_intent_def dedup_evaluate_def sample_handler_def Let_def redis_reserve_def
        redis_reached_def prog_simps redis_read_def redis_call_def reserve_key_def redis_key_def live_key_def sample_intake_def
        stores_up_def DEDUP_TTL_SECONDS_def)
  then have seq: "run_order_intent_consumer (env_with answering_client) sample_handler False
      [Deliver (JObj sample_intent), Deliver (JObj sample_intent)] [] (blank_world, sample_intake) =
      (Inr ([(0, ?p), (0, ?q)], None), (?w, sample_reserved))"
    using run by (simp add: prog_simps outcome_def handle_order_intent_def Let_def)
      (simp add: sample_intent_def sample_intake_def)
  have "oh_dedup_ttl sample_handler = Some DEDUP_TTL_SECONDS" by (simp add: sample_handler_def)
  from intent_accepted_once [OF this seq] have "\<not> payload_accepted ?q"
    using res by (auto simp: duplicate_result_def DEDUP_TTL_SECONDS_def)
  with seq res show ?thesis by (auto simp: duplicate_result_def)
qed

text \<open>C31: A price that is not a number is not rejected: the comparison raises, and with stores that answer the
  exception leaves the handler and ends the consumer, so no later message is handled; the intent's key
  stays reserved, so that a corrected message with the same key is dropped as a duplicate.\<close>

theorem nan_price_ends_consumer:
  assumes "oh_dedup_ttl h = Some ttl" and "0 < ttl" and "oh_configs h"
    and "\<forall>n. w_pg_ok w n" and "\<forall>n. w_rd_ok w n"
    and "stored_config ik intent cfg" and "request_of_intent (oh_parsing h) intent = Inr req"
    and "entry_of intent = Some (DNaN q)" and "stop_of intent \<noteq> None" and "target_of intent \<noteq> None"
    and "key = redis_key (key_for_intent (oh_show_json h) intent)" and "\<not> live_key (ik_now ik) key (ik_keys ik)"
  shows "\<exists>w' ik'. run_order_intent_consumer env h audit (Deliver (JObj intent) # evs) handled (w, ik) =
      (Inr (handled, Some InvalidOperation), (w', ik')) \<and> same_store w w' \<and> live_key (ik_now ik) key (ik_keys ik')"
proof -
  let ?k = "key_for_intent (oh_show_json h) intent"
  obtain name row where name: "json_get intent ''strategy_name'' = JStr name" "name \<noteq> []" and row: "map_of (ik_configs ik) name = Some row"
    and cfg: "config_of_values (rr_values row) = Inr cfg" using assms(6) by (auto simp: stored_config_def)
  have ne: "intent \<noteq> []" using name by (auto simp: json_get_def)
  let ?w1 = "w\<lparr>w_rd_calls := Suc (w_rd_calls w)\<rparr>"
  let ?ik1 = "ik\<lparr>ik_keys := AList.update (redis_key ?k) (ik_now ik + int ttl) (ik_keys ik)\<rparr>"
  let ?w2 = "?w1\<lparr>w_pg_calls := Suc (w_pg_calls w)\<rparr>"
  have reserve: "dedup_evaluate h intent (w, ik) = (Inr (Some (?k, True)), (?w1, ?ik1))"
    using assms(1,2,5,11,12)
    by (simp add: dedup_evaluate_def Let_def redis_reserve_def redis_reached_def prog_simps redis_read_def redis_call_def
        reserve_key_def redis_key_def)
  have "pg_reached (?w1, ?ik1) = (Inr (), (?w2, ?ik1))"
    using assms(4) by (simp add: pg_reached_def prog_simps pg_read_def pg_transaction_def Let_def)
  then have fetch: "fetch_risk_config (JStr name) (?w1, ?ik1) = (Inr (Some cfg), (?w2, ?ik1))"
    using row cfg by (simp add: fetch_risk_config_def get_by_strategy_def prog_simps)
  then have "strategy_config h intent (?w1, ?ik1) = (Inr (Some cfg), (?w2, ?ik1))"
    using assms(3) by (simp add: strategy_config_def Let_def name prog_simps)
  moreover have "evaluate (oh_parsing h) (oh_default_config h) intent (Some cfg) = Inl InvalidOperation"
    using assms(7-10)
    by (auto simp: evaluate_def active_config_def assess_def dec_le_def dec_zero_def or_invalid_def split: option.split)
  ultimately have "check_and_submit env h intent (Some ?k) (?w1, ?ik1) = (Inl InvalidOperation, (?w2, ?ik1))"
    by (simp add: check_and_submit_def prog_simps)
  then have "handle_order_intent env h audit intent (w, ik) = (Inl InvalidOperation, (?w2, ?ik1))"
    by (simp add: handle_order_intent_def process_intent_def prog_simps reserve)
  then have "run_order_intent_consumer env h audit (Deliver (JObj intent) # evs) handled (w, ik) =
      (Inr (handled, Some InvalidOperation), (?w2, ?ik1))"
    using ne by (simp add: prog_simps outcome_def)
  moreover have "same_store w ?w2" by (simp add: same_store_def)
  moreover have "live_key (ik_now ik) key (ik_keys ?ik1)" using assms(2,11) by (simp add: live_key_update)
  ultimately show ?thesis by blast
qed

lemma nan_price_ends_consumer_witness:
  "\<exists>w' ik'. run_order_intent_consumer (env_with answering_client) sample_handler True
      [Deliver (JObj nan_intent), Deliver (JObj sample_intent)] [] (blank_world, sample_intake) =
      (Inr ([], Some InvalidOperation), (w', ik')) \<and> same_store blank_world w' \<and> live_key 0 (redis_key ''S-1'') (ik_keys ik')"
proof -
  have parse: "request_of_intent (oh_parsing sample_handler) nan_intent = Inr intent_buy"
    by (simp add: request_of_intent_def read_request_def required_def nullable_def defaulted_def or_missing_def nan_intent_def
       sample_intent_def enum_field_def sample_handler_def
       enum_parse_def exchange_members_def market_type_members_def order_side_members_def order_type_members_def
       validate_request_def check_request_fields_def check_decimal_def check_decimal_opt_def decimal_string_def
       decimal_pattern_def strip_def is_blank_def is_digit_def Let_def guard_sum_def
       normalize_request_after_validation_def check_route_def upper_def upper_char_def
       normalize_position_metadata_for_order_def validate_order_type_required_fields_def intent_buy_def)
  have a: "char_of (65::nat) = CHR ''A''" by code_simp
  have prices: "entry_of nan_intent = Some (DNaN False)" "stop_of nan_intent = stop_of sample_intent"
    "target_of nan_intent = target_of sample_intent"
    by (simp_all add: entry_of_def stop_of_def target_of_def nan_intent_def sample_intent_def json_get_def decimal_of_string_def
        strip_def is_blank_def parse_body_def parse_special_def upper_def upper_char_def Let_def a)
  have stored: "stored_config sample_intake nan_intent sample_config"
    by (simp add: stored_config_def sample_intake_def nan_intent_def sample_intent_def json_get_def sample_row_config)
  have key: "redis_key ''S-1'' = redis_key (key_for_intent (oh_show_json sample_handler) nan_intent)"
    by (simp add: key_for_intent_def text_or_def json_get_def nan_intent_def sample_intent_def strip_def is_blank_def Let_def)
  have up: "\<forall>n. w_pg_ok blank_world n" "\<forall>n. w_rd_ok blank_world n" by (simp_all add: blank_world_def)
  have "\<exists>w' ik'. run_order_intent_consumer (env_with answering_client) sample_handler True
      [Deliver (JObj nan_intent), Deliver (JObj sample_intent)] [] (blank_world, sample_intake) =
      (Inr ([], Some InvalidOperation), (w', ik')) \<and> same_store blank_world w' \<and>
      live_key (ik_now sample_intake) (redis_key ''S-1'') (ik_keys ik')"
    by (rule nan_price_ends_consumer [where ttl = DEDUP_TTL_SECONDS, OF _ _ _ up stored parse prices(1) _ _ key])
      (simp_all add: prices sample_prices, simp_all add: sample_handler_def DEDUP_TTL_SECONDS_def live_key_def sample_intake_def)
  then show ?thesis by (simp add: sample_intake_def)
qed

end
