(* ===== verification/BinanceWire.thy ===== *)
theory BinanceWire
  imports Intake
begin

text \<open>
  What the Binance REST adapter does with one request: \<open>_request\<close> of
  \<open>adapters/binance/binance_rest_adapter.py\<close> with its helpers, and the signatures of
  \<open>auth/binance_rest_auth.py\<close>.  The HTTP client, SHA-256 and Ed25519 are not part of the repository:
  they are parameters in the record \<open>rest_adapter\<close>; while a request is under way other tasks may change
  the stores, so sending is a program.  The adapter's own exceptions are \<open>rest_exn\<close>; the text of an
  error answer is read with \<open>str\<close>, as documented answers carry text there.
\<close>

section \<open>Text\<close>

definition lower_char :: "char \<Rightarrow> char" where
  "lower_char c =
     (let n = (of_char c :: nat) in if 65 \<le> n \<and> n \<le> 90 then char_of (n + 32) else c)"

definition lower :: "string \<Rightarrow> string" where
  "lower t = map lower_char t"

text \<open>\<open>part in text\<close>.\<close>

fun contains :: "string \<Rightarrow> string \<Rightarrow> bool" where
  "contains part [] = (part = [])"
| "contains part (c # t) = (take (length part) (c # t) = part \<or> contains part t)"

fun join_with :: "string \<Rightarrow> string list \<Rightarrow> string" where
  "join_with sep [] = []"
| "join_with sep [t] = t"
| "join_with sep (t # ts) = t @ sep @ join_with sep ts"

definition hex_char :: "bool \<Rightarrow> nat \<Rightarrow> char" where
  "hex_char up d = (if d < 10 then digit_char d else char_of ((if up then 55 else 87) + d))"

text \<open>\<open>json.dumps(value, separators=(",", ":"), ensure_ascii=False)\<close>.\<close>

definition json_escape :: "char \<Rightarrow> string" where
  "json_escape c =
     (let n = (of_char c :: nat) in
      if n = 34 \<or> n = 92 then [CHR 0x5C, c]
      else if n = 8 then [CHR 0x5C, CHR ''b''] else if n = 12 then [CHR 0x5C, CHR ''f'']
      else if n = 10 then [CHR 0x5C, CHR ''n''] else if n = 13 then [CHR 0x5C, CHR ''r'']
      else if n = 9 then [CHR 0x5C, CHR ''t'']
      else if n < 32 then [CHR 0x5C] @ ''u00'' @ [hex_char False (n div 16), hex_char False (n mod 16)]
      else [c])"

definition json_text :: "string \<Rightarrow> string" where
  "json_text t = [CHR 0x22] @ concat (map json_escape t) @ [CHR 0x22]"

primrec compact_json :: "json \<Rightarrow> string" where
  "compact_json JNull = ''null''"
| "compact_json (JBool b) = (if b then ''true'' else ''false'')"
| "compact_json (JInt i) = show_int i"
| "compact_json (JReal t) = t"
| "compact_json (JStr t) = json_text t"
| "compact_json (JList vs) = ''['' @ join_with '','' (map compact_json vs) @ '']''"
| "compact_json (JObj kvs) =
     ''{'' @ join_with '','' (map (\<lambda>(k, t). json_text k @ '':'' @ t) (map (map_prod id compact_json) kvs)) @ ''}''"

text \<open>\<open>urlencode\<close>: names and values through \<open>quote_plus\<close>, in the order of the dict.\<close>

definition url_safe :: "char \<Rightarrow> bool" where
  "url_safe c =
     (let n = (of_char c :: nat) in
      (48 \<le> n \<and> n \<le> 57) \<or> (65 \<le> n \<and> n \<le> 90) \<or> (97 \<le> n \<and> n \<le> 122) \<or> c \<in> set ''_.-~'')"

definition quote_char :: "char \<Rightarrow> string" where
  "quote_char c =
     (let n = (of_char c :: nat) in
      if url_safe c then [c] else if n = 32 then ''+''
      else [CHR ''%'', hex_char True (n div 16), hex_char True (n mod 16)])"

definition quote_plus :: "string \<Rightarrow> string" where
  "quote_plus t = concat (map quote_char t)"

definition urlencode :: "(json \<Rightarrow> string) \<Rightarrow> json_obj \<Rightarrow> string" where
  "urlencode show_json params =
     join_with ''&'' (map (\<lambda>(k, v). quote_plus k @ ''='' @ quote_plus (py_str show_json v)) params)"

section \<open>Errors and answers\<close>

datatype binance_class =
    BinanceApi
  | BinanceRateLimit
  | BinanceIpBan
  | BinanceWaf
  | BinanceUnknownExecution
  | BinanceServiceUnavailable
  | BinanceInternalRetryable
  | BinanceSystemThrottle
  | BinanceNetwork

datatype rest_exn =
    BinanceApiError binance_class int string int
  | BinanceLeveragePolicyError int int
  | OtherRaise exn

type_synonym 'a rprog = "(world, rest_exn, 'a) prog"

text \<open>How the HTTP client ends: a timeout, another failure, or a status with headers, the text of the
  body and the JSON it parses to, if it does.\<close>

datatype http_answer =
    HttpTimeout string
  | HttpFailure string
  | HttpResponse int "(string \<times> string) list" string "json option"

datatype key_type = KEY_HMAC | KEY_ED25519

record rest_adapter =
  ra_key_type :: key_type
  ra_api_secret :: "string option"
  ra_private_key_pem :: "string option"
  ra_hmac_sha256 :: "string \<Rightarrow> string \<Rightarrow> string"
  ra_sign_ed25519 :: "string \<Rightarrow> string \<Rightarrow> exn + string"
  ra_send :: "string \<Rightarrow> string \<Rightarrow> json_obj \<Rightarrow> http_answer wprog"
  ra_show_json :: "json \<Rightarrow> string"
  ra_max_leverage :: int

definition lift_rest :: "'a wprog \<Rightarrow> 'a rprog" where
  "lift_rest m = (\<lambda>s. case m s of (r, t) \<Rightarrow> (map_sum OtherRaise id r, t))"

text \<open>The checks of the constructor.\<close>

definition check_keys :: "key_type \<Rightarrow> string option \<Rightarrow> string option \<Rightarrow> exn + unit" where
  "check_keys key_type api_secret private_key_pem =
     (if \<not> truthy api_secret \<and> \<not> truthy private_key_pem
      then Inl (ValueError ''Either api_secret or private_key_pem must be provided'')
      else if key_type = KEY_HMAC \<and> \<not> truthy api_secret then Inl (ValueError ''HMAC key requires api_secret'')
      else if key_type = KEY_ED25519 \<and> \<not> truthy private_key_pem
      then Inl (ValueError ''Ed25519 key requires private_key_pem'') else Inr ())"

section \<open>Signing\<close>

definition DEFAULT_RECV_WINDOW :: int where
  "DEFAULT_RECV_WINDOW = 5000"

definition put_missing :: "string \<Rightarrow> json \<Rightarrow> json_obj \<Rightarrow> json_obj" where
  "put_missing k v params = (if map_of params k = None then params @ [(k, v)] else params)"

text \<open>The clock is read only for a missing \<open>timestamp\<close>.\<close>

definition stamp_params :: "json_obj \<Rightarrow> json_obj wprog" where
  "stamp_params params =
     andThen (if map_of params ''timestamp'' = None
              then andThen epoch_ms (\<lambda>now. ret (params @ [(''timestamp'', JInt now)])) else ret params)
       (\<lambda>signed. ret (put_missing ''recvWindow'' (JInt DEFAULT_RECV_WINDOW) signed))"

definition sign_rest_hmac :: "rest_adapter \<Rightarrow> json_obj \<Rightarrow> string option \<Rightarrow> json_obj wprog" where
  "sign_rest_hmac ra params secret =
     andThen (stamp_params params) (\<lambda>signed. case secret of
       None \<Rightarrow> throw (OtherError ''AttributeError'')
     | Some key \<Rightarrow>
         ret (AList.update ''signature'' (JStr (ra_hmac_sha256 ra key (urlencode (ra_show_json ra) signed))) signed))"

definition sign_rest_ed25519 :: "rest_adapter \<Rightarrow> json_obj \<Rightarrow> string option \<Rightarrow> json_obj wprog" where
  "sign_rest_ed25519 ra params private_key_pem =
     andThen (stamp_params params) (\<lambda>signed. case private_key_pem of
       None \<Rightarrow> throw (OtherError ''AttributeError'')
     | Some pem \<Rightarrow>
         andThen (liftSum (ra_sign_ed25519 ra pem (urlencode (ra_show_json ra) signed))) (\<lambda>signature.
         ret (AList.update ''signature'' (JStr signature) signed)))"

definition sign_params :: "rest_adapter \<Rightarrow> json_obj \<Rightarrow> json_obj wprog" where
  "sign_params ra params =
     (case ra_key_type ra of
        KEY_ED25519 \<Rightarrow> sign_rest_ed25519 ra params (ra_private_key_pem ra)
      | KEY_HMAC \<Rightarrow> sign_rest_hmac ra params (ra_api_secret ra))"

section \<open>Reading the answer\<close>

text \<open>\<open>isinstance(value, int)\<close>: a truth value is an integer, too.\<close>

fun as_int :: "json \<Rightarrow> int option" where
  "as_int (JInt i) = Some i"
| "as_int (JBool b) = Some (if b then 1 else 0)"
| "as_int _ = None"

definition get_or :: "json_obj \<Rightarrow> string \<Rightarrow> json \<Rightarrow> json" where
  "get_or ob k d = (case map_of ob k of None \<Rightarrow> d | Some v \<Rightarrow> v)"

definition extract_error :: "(json \<Rightarrow> string) \<Rightarrow> json \<Rightarrow> int \<times> string" where
  "extract_error show_json d =
     (case d of
        JObj ob \<Rightarrow> (case as_int (get_or ob ''code'' (JInt (- 1))) of None \<Rightarrow> - 1 | Some c \<Rightarrow> c,
                   py_str show_json (get_or ob ''msg'' (JStr [])))
      | _ \<Rightarrow> (- 1, py_str show_json d))"

definition is_mutating_request :: "string \<Rightarrow> bool" where
  "is_mutating_request meth = (upper meth \<in> {''POST'', ''PUT'', ''DELETE''})"

definition is_order_or_cancel_path :: "string \<Rightarrow> bool" where
  "is_order_or_cancel_path path = (path \<in> {''/fapi/v1/order'', ''/fapi/v1/batchOrders'', ''/fapi/v1/allOpenOrders''})"

text \<open>A lost answer leaves the execution unknown only for signed requests that change orders.\<close>

definition execution_at_stake :: "bool \<Rightarrow> string \<Rightarrow> string \<Rightarrow> bool" where
  "execution_at_stake sign meth path = (sign \<and> is_mutating_request meth \<and> is_order_or_cancel_path path)"

definition negative_or :: "int \<Rightarrow> int \<Rightarrow> int" where
  "negative_or code d = (if code < 0 then code else d)"

definition text_or_default :: "string \<Rightarrow> string \<Rightarrow> string" where
  "text_or_default t d = (if t \<noteq> [] then t else d)"

definition raise_503_variant :: "int \<Rightarrow> string \<Rightarrow> rest_exn" where
  "raise_503_variant code msg =
     (let msg_lower = lower msg in
      if code = - 1008 \<or> contains ''request throttled by system-level protection'' msg_lower
      then BinanceApiError BinanceSystemThrottle (negative_or code (- 1008))
             (text_or_default msg ''Request throttled by system-level protection'') 503
      else if contains ''unknown error'' msg_lower \<and> contains ''check your request'' msg_lower
      then BinanceApiError BinanceUnknownExecution (negative_or code (- 503))
             (text_or_default msg ''Unknown execution status'') 503
      else if contains ''service unavailable'' msg_lower
      then BinanceApiError BinanceServiceUnavailable (negative_or code (- 503))
             (text_or_default msg ''Service Unavailable'') 503
      else if contains ''internal error'' msg_lower \<and> contains ''unable to process'' msg_lower
      then BinanceApiError BinanceInternalRetryable (negative_or code (- 503))
             (text_or_default msg ''Internal error; unable to process request'') 503
      else BinanceApiError BinanceServiceUnavailable (negative_or code (- 503))
             (text_or_default msg ''HTTP 503 Service Unavailable'') 503)"

definition header_get :: "(string \<times> string) list \<Rightarrow> string \<Rightarrow> string option" where
  "header_get headers k = map_option snd (List.find (\<lambda>(n, _). lower n = lower k) headers)"

text \<open>The classes the status alone decides.\<close>

definition status_error ::
  "int \<Rightarrow> (string \<times> string) list \<Rightarrow> bool \<Rightarrow> int \<Rightarrow> string \<Rightarrow> rest_exn option" where
  "status_error status headers stake code msg =
     (if status = 403
      then Some (BinanceApiError BinanceWaf (negative_or code (- 403)) (text_or_default msg ''WAF limit violated'') 403)
      else if status = 418
      then Some (BinanceApiError BinanceIpBan (negative_or code (- 418))
             (text_or_default msg ''IP auto-banned due to repeated rate limit violations'') 418)
      else if status = 429
      then Some (BinanceApiError BinanceRateLimit (negative_or code (- 429))
             (text_or_default msg (''Rate limit exceeded. Retry-After='' @
                (case header_get headers ''Retry-After'' of None \<Rightarrow> ''unknown'' | Some t \<Rightarrow> t))) 429)
      else if status = 408
      then Some (if stake
                 then BinanceApiError BinanceUnknownExecution (negative_or code (- 408))
                        (text_or_default msg ''Backend timeout during mutating signed request'') 408
                 else BinanceApiError BinanceNetwork (negative_or code (- 408)) (text_or_default msg ''Backend timeout'') 408)
      else if status = 503 then Some (raise_503_variant code msg)
      else if 500 \<le> status \<and> status < 600
      then Some (BinanceApiError BinanceServiceUnavailable (negative_or code (- 500))
             (text_or_default msg (''HTTP '' @ show_int status @ '' server error'')) status)
      else None)"

text \<open>An answer whose JSON carries a negative code is an error whatever its status.\<close>

definition payload_error :: "(json \<Rightarrow> string) \<Rightarrow> json \<Rightarrow> int \<Rightarrow> rest_exn option" where
  "payload_error show_json d status =
     (case d of
        JObj ob \<Rightarrow>
          (case as_int (json_get ob ''code'') of
             Some code \<Rightarrow>
               if code < 0 then
                 Some (if code = - 1008
                       then BinanceApiError BinanceSystemThrottle code
                              (py_str show_json (get_or ob ''msg'' (JStr ''System-level protection throttled request''))) status
                       else BinanceApiError BinanceApi code
                              (py_str show_json (get_or ob ''msg'' (JStr ''Unknown Binance API error''))) status)
               else None
           | None \<Rightarrow> None)
      | _ \<Rightarrow> None)"

definition safe_json :: "string \<Rightarrow> json option \<Rightarrow> json" where
  "safe_json body parsed =
     (case parsed of Some v \<Rightarrow> v | None \<Rightarrow> JObj [(''code'', JInt (- 1)), (''msg'', JStr body)])"

definition lost_answer :: "bool \<Rightarrow> int \<Rightarrow> string \<Rightarrow> string \<Rightarrow> string \<Rightarrow> rest_exn" where
  "lost_answer stake code mutating_text plain_text e =
     (if stake then BinanceApiError BinanceUnknownExecution code (mutating_text @ e) 0
      else BinanceApiError BinanceNetwork code (plain_text @ e) 0)"

fun read_answer :: "(json \<Rightarrow> string) \<Rightarrow> bool \<Rightarrow> http_answer \<Rightarrow> rest_exn + json" where
  "read_answer show_json stake (HttpTimeout e) =
     Inl (lost_answer stake (- 1007) ''HTTP client timeout during mutating signed request: '' ''HTTP client timeout: '' e)"
| "read_answer show_json stake (HttpFailure e) =
     Inl (lost_answer stake (- 1006) ''HTTP network error during mutating signed request: '' ''HTTP network error: '' e)"
| "read_answer show_json stake (HttpResponse status headers body parsed) =
     (let d = safe_json body parsed; (code, msg) = extract_error show_json d in
      case status_error status headers stake code msg of
        Some e \<Rightarrow> Inl e
      | None \<Rightarrow>
          (case payload_error show_json d status of
             Some e \<Rightarrow> Inl e
           | None \<Rightarrow>
               if 400 \<le> status
               then Inl (BinanceApiError BinanceApi (negative_or code (- 1))
                      (text_or_default msg (''HTTP '' @ show_int status @ '' error'')) status)
               else Inr d))"

definition request :: "rest_adapter \<Rightarrow> string \<Rightarrow> string \<Rightarrow> json_obj \<Rightarrow> bool \<Rightarrow> json rprog" where
  "request ra meth path params sign =
     andThen (if sign then lift_rest (sign_params ra params) else ret params) (\<lambda>sent.
     andThen (lift_rest (ra_send ra meth path sent)) (\<lambda>answer.
     liftSum (read_answer (ra_show_json ra) (execution_at_stake sign meth path) answer)))"

section \<open>Rate limit counters\<close>

text \<open>\<open>RateLimitState\<close>: read from the headers and only logged.\<close>

record rate_limit_state =
  used_weight_1m :: "int option"
  order_count_10s :: "int option"
  order_count_1m :: "int option"

definition safe_int_header :: "(string \<times> string) list \<Rightarrow> string \<Rightarrow> int option \<Rightarrow> int option" where
  "safe_int_header headers k d =
     (case header_get headers k of
        None \<Rightarrow> d
      | Some t \<Rightarrow> (case parse_int (strip t) of None \<Rightarrow> d | Some n \<Rightarrow> Some n))"

definition update_from_headers :: "(string \<times> string) list \<Rightarrow> rate_limit_state \<Rightarrow> rate_limit_state" where
  "update_from_headers headers st =
     \<lparr>used_weight_1m = safe_int_header headers ''X-MBX-USED-WEIGHT-1M'' (used_weight_1m st),
      order_count_10s = safe_int_header headers ''X-MBX-ORDER-COUNT-10S'' (order_count_10s st),
      order_count_1m = safe_int_header headers ''X-MBX-ORDER-COUNT-1M'' (order_count_1m st)\<rparr>"

end
