(* ===== verification/BinanceDtos.thy ===== *)
theory BinanceDtos
  imports BinanceWire
begin

text \<open>
  The response objects of the adapter, \<open>adapters/binance/dto/resp\<close>: each holds what \<open>row.get\<close> gives
  for its names, without a check of the types, and the row itself.  A row that is no object raises
  an \<open>AttributeError\<close>; what the code iterates may be any JSON value, too.
\<close>

section \<open>Rows\<close>

definition as_row :: "json \<Rightarrow> rest_exn + json_obj" where
  "as_row v = (case v of JObj ob \<Rightarrow> Inr ob | _ \<Rightarrow> Inl (OtherRaise (OtherError ''AttributeError'')))"

text \<open>\<open>for row in resp\<close>: an object yields its keys, a text its characters.\<close>

definition json_iter :: "json \<Rightarrow> rest_exn + json list" where
  "json_iter v =
     (case v of
        JList vs \<Rightarrow> Inr vs
      | JObj ob \<Rightarrow> Inr (map (JStr \<circ> fst) ob)
      | JStr t \<Rightarrow> Inr (map (\<lambda>c. JStr [c]) t)
      | _ \<Rightarrow> Inl (OtherRaise (TypeError ''not iterable'')))"

primrec rows_of :: "(json_obj \<Rightarrow> 'a) \<Rightarrow> json list \<Rightarrow> rest_exn + 'a list" where
  "rows_of f [] = Inr []"
| "rows_of f (v # vs) = sum_bind (as_row v) (\<lambda>ob. sum_bind (rows_of f vs) (\<lambda>xs. Inr (f ob # xs)))"

definition row_list :: "(json_obj \<Rightarrow> 'a) \<Rightarrow> json \<Rightarrow> rest_exn + 'a list" where
  "row_list f v = sum_bind (json_iter v) (rows_of f)"

text \<open>Endpoints that insist on a list, and on an object.\<close>

definition strict_list :: "(json_obj \<Rightarrow> 'a) \<Rightarrow> json \<Rightarrow> rest_exn + 'a list" where
  "strict_list f v =
     (case v of JList vs \<Rightarrow> rows_of f vs | _ \<Rightarrow> Inl (OtherRaise (RuntimeError ''Unexpected response'')))"

definition strict_row :: "(json_obj \<Rightarrow> 'a) \<Rightarrow> json \<Rightarrow> rest_exn + 'a" where
  "strict_row f v = (case v of JObj ob \<Rightarrow> Inr (f ob) | _ \<Rightarrow> Inl (OtherRaise (RuntimeError ''Unexpected response'')))"

definition one_row :: "(json_obj \<Rightarrow> 'a) \<Rightarrow> json \<Rightarrow> rest_exn + 'a" where
  "one_row f v = sum_bind (as_row v) (\<lambda>ob. Inr (f ob))"

section \<open>Responses\<close>

record order_resp =
  od_clientOrderId :: json
  od_cumQty :: json
  od_cumQuote :: json
  od_executedQty :: json
  od_orderId :: json
  od_avgPrice :: json
  od_origQty :: json
  od_price :: json
  od_reduceOnly :: json
  od_side :: json
  od_positionSide :: json
  od_status :: json
  od_stopPrice :: json
  od_closePosition :: json
  od_symbol :: json
  od_time :: json
  od_timeInForce :: json
  od_type :: json
  od_origType :: json
  od_updateTime :: json
  od_workingType :: json
  od_priceProtect :: json
  od_priceMatch :: json
  od_selfTradePreventionMode :: json
  od_goodTillDate :: json
  od_activatePrice :: json
  od_priceRate :: json
  od_raw :: json_obj

definition order_resp_from_response :: "json_obj \<Rightarrow> order_resp" where
  "order_resp_from_response row =
     \<lparr>od_clientOrderId = json_get row ''clientOrderId'', od_cumQty = json_get row ''cumQty'',
      od_cumQuote = json_get row ''cumQuote'', od_executedQty = json_get row ''executedQty'',
      od_orderId = json_get row ''orderId'', od_avgPrice = json_get row ''avgPrice'',
      od_origQty = json_get row ''origQty'', od_price = json_get row ''price'',
      od_reduceOnly = json_get row ''reduceOnly'', od_side = json_get row ''side'',
      od_positionSide = json_get row ''positionSide'', od_status = json_get row ''status'',
      od_stopPrice = json_get row ''stopPrice'', od_closePosition = json_get row ''closePosition'',
      od_symbol = json_get row ''symbol'', od_time = json_get row ''time'',
      od_timeInForce = json_get row ''timeInForce'', od_type = json_get row ''type'',
      od_origType = json_get row ''origType'', od_updateTime = json_get row ''updateTime'',
      od_workingType = json_get row ''workingType'', od_priceProtect = json_get row ''priceProtect'',
      od_priceMatch = json_get row ''priceMatch'',
      od_selfTradePreventionMode = json_get row ''selfTradePreventionMode'',
      od_goodTillDate = json_get row ''goodTillDate'', od_activatePrice = json_get row ''activatePrice'',
      od_priceRate = json_get row ''priceRate'', od_raw = row\<rparr>"

record modify_order_resp =
  md_orderId :: json
  md_symbol :: json
  md_pair :: json
  md_status :: json
  md_clientOrderId :: json
  md_price :: json
  md_avgPrice :: json
  md_origQty :: json
  md_executedQty :: json
  md_cumQty :: json
  md_cumBase :: json
  md_timeInForce :: json
  md_type :: json
  md_reduceOnly :: json
  md_closePosition :: json
  md_side :: json
  md_positionSide :: json
  md_stopPrice :: json
  md_workingType :: json
  md_priceProtect :: json
  md_origType :: json
  md_priceMatch :: json
  md_selfTradePreventionMode :: json
  md_goodTillDate :: json
  md_updateTime :: json
  md_raw :: json_obj

definition modify_order_resp_from_response :: "json_obj \<Rightarrow> modify_order_resp" where
  "modify_order_resp_from_response row =
     \<lparr>md_orderId = json_get row ''orderId'', md_symbol = json_get row ''symbol'',
      md_pair = json_get row ''pair'', md_status = json_get row ''status'',
      md_clientOrderId = json_get row ''clientOrderId'', md_price = json_get row ''price'',
      md_avgPrice = json_get row ''avgPrice'', md_origQty = json_get row ''origQty'',
      md_executedQty = json_get row ''executedQty'', md_cumQty = json_get row ''cumQty'',
      md_cumBase = json_get row ''cumBase'', md_timeInForce = json_get row ''timeInForce'',
      md_type = json_get row ''type'', md_reduceOnly = json_get row ''reduceOnly'',
      md_closePosition = json_get row ''closePosition'', md_side = json_get row ''side'',
      md_positionSide = json_get row ''positionSide'', md_stopPrice = json_get row ''stopPrice'',
      md_workingType = json_get row ''workingType'', md_priceProtect = json_get row ''priceProtect'',
      md_origType = json_get row ''origType'', md_priceMatch = json_get row ''priceMatch'',
      md_selfTradePreventionMode = json_get row ''selfTradePreventionMode'',
      md_goodTillDate = json_get row ''goodTillDate'', md_updateTime = json_get row ''updateTime'',
      md_raw = row\<rparr>"

record cancel_all_resp =
  ca_code :: json
  ca_msg :: json
  ca_raw :: json_obj

definition cancel_all_resp_from_response :: "json_obj \<Rightarrow> cancel_all_resp" where
  "cancel_all_resp_from_response row =
     \<lparr>ca_code = json_get row ''code'', ca_msg = json_get row ''msg'', ca_raw = row\<rparr>"

record cancel_algo_resp =
  cg_algoId :: json
  cg_clientAlgoId :: json
  cg_code :: json
  cg_msg :: json
  cg_raw :: json_obj

definition cancel_algo_resp_from_response :: "json_obj \<Rightarrow> cancel_algo_resp" where
  "cancel_algo_resp_from_response row =
     \<lparr>cg_algoId = json_get row ''algoId'', cg_clientAlgoId = json_get row ''clientAlgoId'',
      cg_code = json_get row ''code'', cg_msg = json_get row ''msg'', cg_raw = row\<rparr>"

record algo_order_resp =
  ao_algoId :: json
  ao_clientAlgoId :: json
  ao_algoType :: json
  ao_orderType :: json
  ao_symbol :: json
  ao_side :: json
  ao_positionSide :: json
  ao_timeInForce :: json
  ao_quantity :: json
  ao_algoStatus :: json
  ao_actualOrderId :: json
  ao_actualPrice :: json
  ao_triggerPrice :: json
  ao_price :: json
  ao_reduceOnly :: json
  ao_workingType :: json
  ao_priceProtect :: json
  ao_activatePrice :: json
  ao_priceRate :: json
  ao_bookTime :: json
  ao_updateTime :: json
  ao_raw :: json_obj

definition algo_order_resp_from_response :: "json_obj \<Rightarrow> algo_order_resp" where
  "algo_order_resp_from_response row =
     \<lparr>ao_algoId = json_get row ''algoId'', ao_clientAlgoId = json_get row ''clientAlgoId'',
      ao_algoType = json_get row ''algoType'', ao_orderType = json_get row ''orderType'',
      ao_symbol = json_get row ''symbol'', ao_side = json_get row ''side'',
      ao_positionSide = json_get row ''positionSide'', ao_timeInForce = json_get row ''timeInForce'',
      ao_quantity = json_get row ''quantity'', ao_algoStatus = json_get row ''algoStatus'',
      ao_actualOrderId = json_get row ''actualOrderId'', ao_actualPrice = json_get row ''actualPrice'',
      ao_triggerPrice = json_get row ''triggerPrice'', ao_price = json_get row ''price'',
      ao_reduceOnly = json_get row ''reduceOnly'', ao_workingType = json_get row ''workingType'',
      ao_priceProtect = json_get row ''priceProtect'', ao_activatePrice = json_get row ''activatePrice'',
      ao_priceRate = json_get row ''priceRate'', ao_bookTime = json_get row ''bookTime'',
      ao_updateTime = json_get row ''updateTime'', ao_raw = row\<rparr>"

record cancel_all_algo_resp =
  cx_code :: json
  cx_msg :: json
  cx_raw :: json_obj

definition cancel_all_algo_resp_from_response :: "json_obj \<Rightarrow> cancel_all_algo_resp" where
  "cancel_all_algo_resp_from_response row =
     \<lparr>cx_code = json_get row ''code'', cx_msg = json_get row ''msg'', cx_raw = row\<rparr>"

record position_risk_resp =
  pk_symbol :: json
  pk_positionSide :: json
  pk_positionAmt :: json
  pk_entryPrice :: json
  pk_breakEvenPrice :: json
  pk_markPrice :: json
  pk_unRealizedProfit :: json
  pk_liquidationPrice :: json
  pk_isolatedMargin :: json
  pk_notional :: json
  pk_marginAsset :: json
  pk_isolatedWallet :: json
  pk_initialMargin :: json
  pk_maintMargin :: json
  pk_updateTime :: json
  pk_raw :: json_obj

definition position_risk_resp_from_response :: "json_obj \<Rightarrow> position_risk_resp" where
  "position_risk_resp_from_response row =
     \<lparr>pk_symbol = json_get row ''symbol'', pk_positionSide = json_get row ''positionSide'',
      pk_positionAmt = json_get row ''positionAmt'', pk_entryPrice = json_get row ''entryPrice'',
      pk_breakEvenPrice = json_get row ''breakEvenPrice'', pk_markPrice = json_get row ''markPrice'',
      pk_unRealizedProfit = json_get row ''unRealizedProfit'',
      pk_liquidationPrice = json_get row ''liquidationPrice'',
      pk_isolatedMargin = json_get row ''isolatedMargin'', pk_notional = json_get row ''notional'',
      pk_marginAsset = json_get row ''marginAsset'', pk_isolatedWallet = json_get row ''isolatedWallet'',
      pk_initialMargin = json_get row ''initialMargin'', pk_maintMargin = json_get row ''maintMargin'',
      pk_updateTime = json_get row ''updateTime'', pk_raw = row\<rparr>"

record symbol_config_resp =
  sc_symbol :: json
  sc_marginType :: json
  sc_isAutoAddMargin :: json
  sc_leverage :: json
  sc_maxNotionalValue :: json
  sc_raw :: json_obj

definition symbol_config_resp_from_response :: "json_obj \<Rightarrow> symbol_config_resp" where
  "symbol_config_resp_from_response row =
     \<lparr>sc_symbol = json_get row ''symbol'', sc_marginType = json_get row ''marginType'',
      sc_isAutoAddMargin = json_get row ''isAutoAddMargin'', sc_leverage = json_get row ''leverage'',
      sc_maxNotionalValue = json_get row ''maxNotionalValue'', sc_raw = row\<rparr>"

record change_leverage_resp =
  cl_leverage :: json
  cl_maxNotionalValue :: json
  cl_symbol :: json
  cl_raw :: json_obj

definition change_leverage_resp_from_response :: "json_obj \<Rightarrow> change_leverage_resp" where
  "change_leverage_resp_from_response row =
     \<lparr>cl_leverage = json_get row ''leverage'', cl_maxNotionalValue = json_get row ''maxNotionalValue'',
      cl_symbol = json_get row ''symbol'', cl_raw = row\<rparr>"

record listen_key_resp =
  lk_listenKey :: json
  lk_raw :: json_obj

definition listen_key_resp_from_response :: "json_obj \<Rightarrow> listen_key_resp" where
  "listen_key_resp_from_response row =
     \<lparr>lk_listenKey = json_get row ''listenKey'', lk_raw = row\<rparr>"

record symbol_price_resp =
  tk_symbol :: json
  tk_price :: json
  tk_time :: json
  tk_raw :: json_obj

definition symbol_price_resp_from_response :: "json_obj \<Rightarrow> symbol_price_resp" where
  "symbol_price_resp_from_response row =
     \<lparr>tk_symbol = json_get row ''symbol'', tk_price = json_get row ''price'',
      tk_time = json_get row ''time'', tk_raw = row\<rparr>"

record account_asset_resp =
  aa_asset :: json
  aa_walletBalance :: json
  aa_unrealizedProfit :: json
  aa_marginBalance :: json
  aa_maintMargin :: json
  aa_initialMargin :: json
  aa_positionInitialMargin :: json
  aa_openOrderInitialMargin :: json
  aa_crossWalletBalance :: json
  aa_crossUnPnl :: json
  aa_availableBalance :: json
  aa_maxWithdrawAmount :: json
  aa_updateTime :: json
  aa_raw :: json_obj

definition account_asset_resp_from_response :: "json_obj \<Rightarrow> account_asset_resp" where
  "account_asset_resp_from_response row =
     \<lparr>aa_asset = json_get row ''asset'', aa_walletBalance = json_get row ''walletBalance'',
      aa_unrealizedProfit = json_get row ''unrealizedProfit'',
      aa_marginBalance = json_get row ''marginBalance'', aa_maintMargin = json_get row ''maintMargin'',
      aa_initialMargin = json_get row ''initialMargin'',
      aa_positionInitialMargin = json_get row ''positionInitialMargin'',
      aa_openOrderInitialMargin = json_get row ''openOrderInitialMargin'',
      aa_crossWalletBalance = json_get row ''crossWalletBalance'', aa_crossUnPnl = json_get row ''crossUnPnl'',
      aa_availableBalance = json_get row ''availableBalance'',
      aa_maxWithdrawAmount = json_get row ''maxWithdrawAmount'', aa_updateTime = json_get row ''updateTime'',
      aa_raw = row\<rparr>"

record account_position_resp =
  ap_symbol :: json
  ap_positionSide :: json
  ap_positionAmt :: json
  ap_unrealizedProfit :: json
  ap_isolatedMargin :: json
  ap_notional :: json
  ap_isolatedWallet :: json
  ap_initialMargin :: json
  ap_maintMargin :: json
  ap_updateTime :: json
  ap_raw :: json_obj

definition account_position_resp_from_response :: "json_obj \<Rightarrow> account_position_resp" where
  "account_position_resp_from_response row =
     \<lparr>ap_symbol = json_get row ''symbol'', ap_positionSide = json_get row ''positionSide'',
      ap_positionAmt = json_get row ''positionAmt'', ap_unrealizedProfit = json_get row ''unrealizedProfit'',
      ap_isolatedMargin = json_get row ''isolatedMargin'', ap_notional = json_get row ''notional'',
      ap_isolatedWallet = json_get row ''isolatedWallet'', ap_initialMargin = json_get row ''initialMargin'',
      ap_maintMargin = json_get row ''maintMargin'', ap_updateTime = json_get row ''updateTime'',
      ap_raw = row\<rparr>"

record account_info_resp =
  ai_totalInitialMargin :: json
  ai_totalMaintMargin :: json
  ai_totalWalletBalance :: json
  ai_totalUnrealizedProfit :: json
  ai_totalMarginBalance :: json
  ai_totalPositionInitialMargin :: json
  ai_totalOpenOrderInitialMargin :: json
  ai_totalCrossWalletBalance :: json
  ai_totalCrossUnPnl :: json
  ai_availableBalance :: json
  ai_maxWithdrawAmount :: json
  ai_assets :: "account_asset_resp list"
  ai_positions :: "account_position_resp list"
  ai_raw :: json_obj

definition account_info_resp_from_response :: "json_obj \<Rightarrow> rest_exn + account_info_resp" where
  "account_info_resp_from_response row =
     sum_bind (row_list account_asset_resp_from_response (get_or row ''assets'' (JList []))) (\<lambda>assets.
     sum_bind (row_list account_position_resp_from_response (get_or row ''positions'' (JList []))) (\<lambda>positions. Inr
       \<lparr>ai_totalInitialMargin = json_get row ''totalInitialMargin'',
        ai_totalMaintMargin = json_get row ''totalMaintMargin'',
        ai_totalWalletBalance = json_get row ''totalWalletBalance'',
        ai_totalUnrealizedProfit = json_get row ''totalUnrealizedProfit'',
        ai_totalMarginBalance = json_get row ''totalMarginBalance'',
        ai_totalPositionInitialMargin = json_get row ''totalPositionInitialMargin'',
        ai_totalOpenOrderInitialMargin = json_get row ''totalOpenOrderInitialMargin'',
        ai_totalCrossWalletBalance = json_get row ''totalCrossWalletBalance'',
        ai_totalCrossUnPnl = json_get row ''totalCrossUnPnl'',
        ai_availableBalance = json_get row ''availableBalance'',
        ai_maxWithdrawAmount = json_get row ''maxWithdrawAmount'', ai_assets = assets,
        ai_positions = positions, ai_raw = row\<rparr>))"

end
