(* ===== verification/BinanceRest.thy ===== *)
theory BinanceRest
  imports BinanceDtos
begin

text \<open>
  The endpoints of \<open>adapters/binance/binance_rest_adapter.py\<close>.  \<open>fetch\<close> sends a signed request and
  reads its answer; identifiers that may be absent are options.
\<close>

section \<open>Requests\<close>

definition fetch :: "rest_adapter \<Rightarrow> string \<Rightarrow> string \<Rightarrow> json_obj \<Rightarrow> (json \<Rightarrow> rest_exn + 'a) \<Rightarrow> 'a rprog" where
  "fetch ra meth path params f = andThen (request ra meth path params True) (\<lambda>v. liftSum (f v))"

definition refuse :: "string \<Rightarrow> 'a rprog" where
  "refuse msg = throw (OtherRaise (ValueError msg))"

definition opt_param :: "string \<Rightarrow> json option \<Rightarrow> json_obj" where
  "opt_param k v = (case v of None \<Rightarrow> [] | Some t \<Rightarrow> [(k, t)])"

definition truthy_param :: "string \<Rightarrow> (string \<Rightarrow> string) \<Rightarrow> string option \<Rightarrow> json_obj" where
  "truthy_param k f v = (if truthy v then [(k, JStr (f (the v)))] else [])"

section \<open>Placing orders\<close>

definition MAX_BATCH_ORDERS :: nat where
  "MAX_BATCH_ORDERS = 5"

definition MAX_BATCH_CANCEL :: nat where
  "MAX_BATCH_CANCEL = 10"

text \<open>\<open>generate_order_id()\<close> without a market.\<close>

definition bare_order_id :: "string wprog" where
  "bare_order_id = (\<lambda>s. (Inr (''O'' @ map base36_digit (digits_base 36 (nat (w_raw_ids s (w_next_id s))))),
     s\<lparr>w_next_id := Suc (w_next_id s)\<rparr>))"

definition with_client_id :: "json_obj \<Rightarrow> json_obj rprog" where
  "with_client_id params =
     (if map_of params ''newClientOrderId'' = None
      then andThen (lift_rest bare_order_id) (\<lambda>i. ret (params @ [(''newClientOrderId'', JStr i)]))
      else ret params)"

definition place_regular_order :: "rest_adapter \<Rightarrow> json_obj \<Rightarrow> order_resp rprog" where
  "place_regular_order ra params =
     andThen (with_client_id params) (\<lambda>ps.
     fetch ra ''POST'' ''/fapi/v1/order'' ps (one_row order_resp_from_response))"

text \<open>An item of a batch answer that is an error.\<close>

definition error_item :: "json \<Rightarrow> json_obj option" where
  "error_item v =
     (case v of
        JObj ob \<Rightarrow> (case as_int (json_get ob ''code'') of Some c \<Rightarrow> if c < 0 then Some ob else None | None \<Rightarrow> None)
      | _ \<Rightarrow> None)"

primrec split_batch :: "json list \<Rightarrow> rest_exn + order_resp list \<times> json_obj list" where
  "split_batch [] = Inr ([], [])"
| "split_batch (v # vs) =
     (case error_item v of
        Some e \<Rightarrow> sum_bind (split_batch vs) (\<lambda>(ok, errors). Inr (ok, e # errors))
      | None \<Rightarrow>
          sum_bind (one_row order_resp_from_response v) (\<lambda>r.
          sum_bind (split_batch vs) (\<lambda>(ok, errors). Inr (r # ok, errors))))"

definition place_batch_orders :: "rest_adapter \<Rightarrow> json_obj list \<Rightarrow> (order_resp list \<times> json_obj list) rprog" where
  "place_batch_orders ra orders_params =
     (if orders_params = [] then refuse ''batchOrders: at least one order''
      else if MAX_BATCH_ORDERS < length orders_params then refuse ''batchOrders: too many orders''
      else
        andThen (foldE (\<lambda>item acc. andThen (with_client_id item) (\<lambda>ps. ret (acc @ [ps]))) orders_params []) (\<lambda>enriched.
        fetch ra ''POST'' ''/fapi/v1/batchOrders'' [(''batchOrders'', JStr (compact_json (JList (map JObj enriched))))]
          (\<lambda>v. sum_bind (json_iter v) split_batch)))"

definition modify_order :: "rest_adapter \<Rightarrow> json_obj \<Rightarrow> modify_order_resp rprog" where
  "modify_order ra params = fetch ra ''PUT'' ''/fapi/v1/order'' params (one_row modify_order_resp_from_response)"

primrec modified_items :: "json list \<Rightarrow> rest_exn + (modify_order_resp + json_obj) list" where
  "modified_items [] = Inr []"
| "modified_items (v # vs) =
     (case error_item v of
        Some e \<Rightarrow> sum_bind (modified_items vs) (\<lambda>xs. Inr (Inr e # xs))
      | None \<Rightarrow>
          sum_bind (one_row modify_order_resp_from_response v) (\<lambda>r.
          sum_bind (modified_items vs) (\<lambda>xs. Inr (Inl r # xs))))"

definition modify_batch_orders :: "rest_adapter \<Rightarrow> json_obj list \<Rightarrow> (modify_order_resp + json_obj) list rprog" where
  "modify_batch_orders ra modify_params_list =
     (if modify_params_list = [] then refuse ''batchModify: at least one order''
      else if MAX_BATCH_ORDERS < length modify_params_list then refuse ''batchModify: too many orders''
      else fetch ra ''PUT'' ''/fapi/v1/batchOrders''
             [(''batchOrders'', JStr (compact_json (JList (map JObj modify_params_list))))]
             (\<lambda>v. sum_bind (json_iter v) modified_items))"

section \<open>Conditional orders\<close>

definition place_algo_order :: "rest_adapter \<Rightarrow> json_obj \<Rightarrow> algo_order_resp rprog" where
  "place_algo_order ra params =
     fetch ra ''POST'' ''/fapi/v1/algoOrder'' params (strict_row algo_order_resp_from_response)"

definition get_open_algo_orders ::
  "rest_adapter \<Rightarrow> string option \<Rightarrow> string option \<Rightarrow> string option \<Rightarrow> algo_order_resp list rprog" where
  "get_open_algo_orders ra symb algo_id algo_type =
     fetch ra ''GET'' ''/fapi/v1/openAlgoOrders''
       (truthy_param ''symbol'' id symb @ opt_param ''algoType'' (map_option JStr algo_type) @
        opt_param ''algoId'' (map_option JStr algo_id))
       (strict_list algo_order_resp_from_response)"

definition get_all_algo_orders ::
  "rest_adapter \<Rightarrow> string \<Rightarrow> string option \<Rightarrow> int option \<Rightarrow> int option \<Rightarrow> int \<Rightarrow> algo_order_resp list rprog" where
  "get_all_algo_orders ra symb algo_id start_time end_time limit =
     fetch ra ''GET'' ''/fapi/v1/allAlgoOrders''
       ([(''symbol'', JStr symb), (''limit'', JInt limit)] @ opt_param ''algoId'' (map_option JStr algo_id) @
        opt_param ''startTime'' (map_option JInt start_time) @ opt_param ''endTime'' (map_option JInt end_time))
       (strict_list algo_order_resp_from_response)"

section \<open>Cancelling\<close>

definition rest_cancel_order :: "rest_adapter \<Rightarrow> string \<Rightarrow> int option \<Rightarrow> string option \<Rightarrow> order_resp rprog" where
  "rest_cancel_order ra symb order_id client_order_id =
     (if (order_id = None) = (client_order_id = None) then refuse ''exactly one of order_id, client_order_id''
      else fetch ra ''DELETE'' ''/fapi/v1/order''
             ([(''symbol'', JStr symb)] @ opt_param ''orderId'' (map_option JInt order_id) @
              opt_param ''origClientOrderId'' (map_option JStr client_order_id))
             (one_row order_resp_from_response))"

definition rest_cancel_batch_orders ::
  "rest_adapter \<Rightarrow> string \<Rightarrow> int list option \<Rightarrow> string list option \<Rightarrow> order_resp list rprog" where
  "rest_cancel_batch_orders ra symb order_ids client_order_ids =
     (if (order_ids = None) = (client_order_ids = None) then refuse ''exactly one of order_ids, client_order_ids''
      else
        let n = (case order_ids of Some ids \<Rightarrow> length ids | None \<Rightarrow> length (the client_order_ids)) in
        if n = 0 then refuse ''no orders to cancel''
        else if MAX_BATCH_CANCEL < n then refuse ''batchCancel: too many orders''
        else fetch ra ''DELETE'' ''/fapi/v1/batchOrders''
               ((''symbol'', JStr symb) #
                (case order_ids of
                   Some ids \<Rightarrow> [(''orderIdList'', JStr (compact_json (JList (map JInt ids))))]
                 | None \<Rightarrow> [(''origClientOrderIdList'', JStr (compact_json (JList (map JStr (the client_order_ids)))))]))
               (row_list order_resp_from_response))"

definition cancel_all_open :: "rest_adapter \<Rightarrow> string \<Rightarrow> cancel_all_resp rprog" where
  "cancel_all_open ra symb =
     fetch ra ''DELETE'' ''/fapi/v1/allOpenOrders'' [(''symbol'', JStr symb)] (strict_row cancel_all_resp_from_response)"

definition cancel_all_algo_open :: "rest_adapter \<Rightarrow> string \<Rightarrow> cancel_all_algo_resp rprog" where
  "cancel_all_algo_open ra symb =
     fetch ra ''DELETE'' ''/fapi/v1/algoOpenOrders'' [(''symbol'', JStr symb)]
       (strict_row cancel_all_algo_resp_from_response)"

definition cancel_algo_order ::
  "rest_adapter \<Rightarrow> string \<Rightarrow> string option \<Rightarrow> string option \<Rightarrow> cancel_algo_resp rprog" where
  "cancel_algo_order ra symb client_algo_id algo_id =
     (if client_algo_id = None \<and> algo_id = None then refuse ''client_algo_id or algo_id is required''
      else fetch ra ''DELETE'' ''/fapi/v1/algoOrder''
             ([(''symbol'', JStr symb)] @ opt_param ''clientAlgoId'' (map_option JStr client_algo_id) @
              opt_param ''algoId'' (map_option JStr algo_id))
             (strict_row cancel_algo_resp_from_response))"

section \<open>Queries\<close>

definition rest_get_open_orders :: "rest_adapter \<Rightarrow> string option \<Rightarrow> order_resp list rprog" where
  "rest_get_open_orders ra symb =
     fetch ra ''GET'' ''/fapi/v1/openOrders'' (truthy_param ''symbol'' id symb) (row_list order_resp_from_response)"

definition rest_get_order :: "rest_adapter \<Rightarrow> string \<Rightarrow> int option \<Rightarrow> string option \<Rightarrow> order_resp rprog" where
  "rest_get_order ra symb order_id client_order_id =
     (if (order_id = None) = (client_order_id = None) then refuse ''exactly one of order_id, client_order_id''
      else fetch ra ''GET'' ''/fapi/v1/order''
             ([(''symbol'', JStr symb)] @ opt_param ''orderId'' (map_option JInt order_id) @
              opt_param ''origClientOrderId'' (map_option JStr client_order_id))
             (one_row order_resp_from_response))"

definition get_all_orders ::
  "rest_adapter \<Rightarrow> string \<Rightarrow> int option \<Rightarrow> int option \<Rightarrow> int option \<Rightarrow> int \<Rightarrow> order_resp list rprog" where
  "get_all_orders ra symb order_id start_time end_time limit =
     fetch ra ''GET'' ''/fapi/v1/allOrders''
       ([(''symbol'', JStr (upper symb)), (''limit'', JInt limit)] @ opt_param ''orderId'' (map_option JInt order_id) @
        opt_param ''startTime'' (map_option JInt start_time) @ opt_param ''endTime'' (map_option JInt end_time))
       (row_list order_resp_from_response)"

definition get_account_info :: "rest_adapter \<Rightarrow> account_info_resp rprog" where
  "get_account_info ra =
     fetch ra ''GET'' ''/fapi/v3/account'' [] (\<lambda>v. sum_bind (as_row v) account_info_resp_from_response)"

definition get_symbol_price_ticker :: "rest_adapter \<Rightarrow> string \<Rightarrow> symbol_price_resp rprog" where
  "get_symbol_price_ticker ra symb =
     andThen (request ra ''GET'' ''/fapi/v1/ticker/price'' [(''symbol'', JStr symb)] False) (\<lambda>v. liftSum
       (case v of
          JObj ob \<Rightarrow> Inr (symbol_price_resp_from_response ob)
        | JList [] \<Rightarrow> Inl (OtherRaise (OtherError ''IndexError''))
        | JList (row # _) \<Rightarrow> one_row symbol_price_resp_from_response row
        | _ \<Rightarrow> Inl (OtherRaise (RuntimeError ''Unexpected ticker response''))))"

definition get_position_risk_v3 :: "rest_adapter \<Rightarrow> string option \<Rightarrow> position_risk_resp list rprog" where
  "get_position_risk_v3 ra symb =
     fetch ra ''GET'' ''/fapi/v3/positionRisk'' (truthy_param ''symbol'' upper symb)
       (strict_list position_risk_resp_from_response)"

definition get_symbol_config :: "rest_adapter \<Rightarrow> string option \<Rightarrow> symbol_config_resp list rprog" where
  "get_symbol_config ra symb =
     fetch ra ''GET'' ''/fapi/v1/symbolConfig'' (truthy_param ''symbol'' upper symb)
       (strict_list symbol_config_resp_from_response)"

section \<open>Leverage and listen keys\<close>

definition rest_change_leverage :: "rest_adapter \<Rightarrow> string \<Rightarrow> int \<Rightarrow> change_leverage_resp rprog" where
  "rest_change_leverage ra symb lev =
     (if lev < 1 \<or> 125 < lev then refuse ''leverage must be between 1 and 125''
      else if ra_max_leverage ra < lev then throw (BinanceLeveragePolicyError lev (ra_max_leverage ra))
      else fetch ra ''POST'' ''/fapi/v1/leverage'' [(''symbol'', JStr (upper symb)), (''leverage'', JInt lev)]
             (one_row change_leverage_resp_from_response))"

definition create_listen_key :: "rest_adapter \<Rightarrow> listen_key_resp rprog" where
  "create_listen_key ra =
     andThen (request ra ''POST'' ''/fapi/v1/listenKey'' [] False) (\<lambda>v. liftSum (one_row listen_key_resp_from_response v))"

definition keepalive_listen_key :: "rest_adapter \<Rightarrow> string \<Rightarrow> unit rprog" where
  "keepalive_listen_key ra listen_key =
     andThen (request ra ''PUT'' ''/fapi/v1/listenKey'' [(''listenKey'', JStr listen_key)] False) (\<lambda>_. ret ())"

text \<open>The key to close is not sent.\<close>

definition close_listen_key :: "rest_adapter \<Rightarrow> string \<Rightarrow> unit rprog" where
  "close_listen_key ra listen_key =
     andThen (request ra ''DELETE'' ''/fapi/v1/listenKey'' [] False) (\<lambda>_. ret ())"

end
