(* ===== verification/BinanceMapping.thy ===== *)
theory BinanceMapping
  imports BinanceRest GatewayCore PositionService
begin

text \<open>
  The translations between the gateway and Binance: the status tables and order types
  (\<open>mapper/\<close>, \<open>constant/binance_constant.py\<close>), the parameters of the order router
  (\<open>binance_order_router.py\<close>), and the normalisation of the user data stream's events and of the
  rows of conditional orders.  The events are those of \<open>GatewayCore\<close> and \<open>PositionService\<close>, which keep
  the fields the gateway reads.
\<close>

section \<open>Statuses and types\<close>

definition BINANCE_ORDER_STATUS_MAP :: "(string \<times> order_status) list" where
  "BINANCE_ORDER_STATUS_MAP =
     [(''NEW'', OS_ACKNOWLEDGED), (''PARTIALLY_FILLED'', OS_PARTIALLY_FILLED), (''FILLED'', OS_FILLED),
      (''CANCELED'', OS_CANCELLED), (''CANCELLED'', OS_CANCELLED), (''EXPIRED'', OS_EXPIRED),
      (''EXPIRED_IN_MATCH'', OS_EXPIRED), (''REJECTED'', OS_REJECTED)]"

definition INTERNAL_TO_BINANCE_ORDER_STATUS :: "(order_status \<times> string) list" where
  "INTERNAL_TO_BINANCE_ORDER_STATUS =
     [(OS_ACKNOWLEDGED, ''NEW''), (OS_PARTIALLY_FILLED, ''PARTIALLY_FILLED''), (OS_FILLED, ''FILLED''),
      (OS_CANCELLED, ''CANCELLED''), (OS_EXPIRED, ''EXPIRED''), (OS_REJECTED, ''REJECTED'')]"

definition map_binance_order_status :: "string option \<Rightarrow> order_status option" where
  "map_binance_order_status raw_status =
     (if truthy raw_status then map_of BINANCE_ORDER_STATUS_MAP (upper (the raw_status)) else None)"

definition BINANCE_ALGO_STATUS_MAP :: "(string \<times> conditional_status) list" where
  "BINANCE_ALGO_STATUS_MAP =
     [(''NEW'', CS_NEW), (''TRIGGERING'', CS_TRIGGERED), (''TRIGGERED'', CS_TRIGGERED), (''FINISHED'', CS_FINISHED),
      (''CANCELED'', CS_CANCELLED), (''EXPIRED'', CS_EXPIRED), (''REJECTED'', CS_REJECTED)]"

definition INTERNAL_TO_BINANCE_ALGO_STATUS :: "(conditional_status \<times> string) list" where
  "INTERNAL_TO_BINANCE_ALGO_STATUS =
     [(CS_NEW, ''NEW''), (CS_TRIGGERED, ''TRIGGERED''), (CS_FINISHED, ''FINISHED''), (CS_CANCELLED, ''CANCELED''),
      (CS_EXPIRED, ''EXPIRED''), (CS_REJECTED, ''REJECTED'')]"

definition map_binance_algo_status :: "string option \<Rightarrow> conditional_status" where
  "map_binance_algo_status raw_status =
     (if truthy raw_status
      then case map_of BINANCE_ALGO_STATUS_MAP (upper (the raw_status)) of None \<Rightarrow> CS_UNKNOWN | Some st \<Rightarrow> st
      else CS_UNKNOWN)"

definition BINANCE_EXCHANGE_CONDITIONAL_ORDER_UNKNOWN_STATUS :: string where
  "BINANCE_EXCHANGE_CONDITIONAL_ORDER_UNKNOWN_STATUS = ''LOCAL_UNKNOWN''"

fun map_binance_order_type :: "order_type \<Rightarrow> string" where
  "map_binance_order_type MARKET = ''MARKET''"
| "map_binance_order_type LIMIT = ''LIMIT''"
| "map_binance_order_type STOP_MARKET = ''STOP_MARKET''"
| "map_binance_order_type STOP_LIMIT = ''STOP''"

section \<open>The order router\<close>

text \<open>\<open>if order.time_in_force is not None\<close>, and the reduce-only flag of one-way mode.\<close>

definition price_params :: "order \<Rightarrow> json_obj" where
  "price_params ord = (''price'', JStr (the (o_price ord))) #
     opt_param ''timeInForce'' (map_option (JStr \<circ> time_in_force_value) (o_time_in_force ord))"

definition reduce_only_params :: "order \<Rightarrow> json_obj" where
  "reduce_only_params ord =
     (if o_reduce_only ord \<and> o_position_side ord = BOTH then [(''reduceOnly'', JStr ''true'')] else [])"

definition map_regular_order_params :: "order \<Rightarrow> exn + json_obj" where
  "map_regular_order_params ord =
     (if o_order_type ord \<notin> {MARKET, LIMIT} then Inl (ValueError ''REGULAR route does not support order_type'')
      else if o_order_type ord = LIMIT \<and> \<not> truthy (o_price ord) then Inl (ValueError ''LIMIT order requires price'')
      else Inr
        ([(''symbol'', JStr (o_symbol ord)), (''side'', JStr (order_side_value (o_side ord))),
          (''type'', JStr (map_binance_order_type (o_order_type ord))), (''quantity'', JStr (o_quantity ord)),
          (''newClientOrderId'', JStr (the (or_str (o_client_order_id ord) (Some (o_order_id ord))))),
          (''positionSide'', JStr (position_side_value (o_position_side ord)))] @
         (if o_order_type ord = LIMIT then price_params ord else []) @ reduce_only_params ord))"

definition map_conditional_order_params :: "order \<Rightarrow> exn + json_obj" where
  "map_conditional_order_params ord =
     (if o_order_type ord \<notin> {STOP_MARKET, STOP_LIMIT}
      then Inl (ValueError ''CONDITIONAL route does not support order_type'')
      else if \<not> truthy (o_trigger_price ord) then Inl (ValueError ''requires trigger_price'')
      else if o_order_type ord = STOP_LIMIT \<and> \<not> truthy (o_price ord)
      then Inl (ValueError ''STOP_LIMIT order requires price'')
      else Inr
        ([(''algoType'', JStr ''CONDITIONAL''), (''symbol'', JStr (o_symbol ord)),
          (''side'', JStr (order_side_value (o_side ord))),
          (''positionSide'', JStr (position_side_value (o_position_side ord))),
          (''type'', JStr (map_binance_order_type (o_order_type ord))),
          (''triggerPrice'', JStr (the (o_trigger_price ord))),
          (''clientAlgoId'', JStr (the (or_str (o_client_conditional_id ord) (Some (o_order_id ord)))))] @
         (if o_close_position ord then [(''closePosition'', JStr ''true'')] else [(''quantity'', JStr (o_quantity ord))]) @
         (if o_order_type ord = STOP_LIMIT then price_params ord else []) @
         (if o_close_position ord then [] else reduce_only_params ord)))"

definition route_regular_order :: "rest_adapter \<Rightarrow> order \<Rightarrow> order_resp rprog" where
  "route_regular_order ra ord =
     (if o_order_route ord \<noteq> Some REGULAR then refuse ''place_regular_order requires a REGULAR order''
      else andThen (lift_rest (liftSum (map_regular_order_params ord))) (place_regular_order ra))"

definition route_conditional_order :: "rest_adapter \<Rightarrow> order \<Rightarrow> algo_order_resp rprog" where
  "route_conditional_order ra ord =
     (if o_order_route ord \<noteq> Some CONDITIONAL then refuse ''place_conditional_order requires a CONDITIONAL order''
      else andThen (lift_rest (liftSum (map_conditional_order_params ord))) (place_algo_order ra))"

section \<open>Values of events\<close>

text \<open>\<open>value == n\<close>, where a truth value and a whole float are equal to integers, too.\<close>

fun json_is_int :: "int \<Rightarrow> json \<Rightarrow> bool" where
  "json_is_int n (JInt i) = (i = n)"
| "json_is_int n (JBool b) = ((if b then 1 else 0) = n)"
| "json_is_int n (JReal t) = (case decimal_of_string t of Some d \<Rightarrow> dec_finite d \<and> dval d = of_int n | None \<Rightarrow> False)"
| "json_is_int n _ = False"

text \<open>\<open>int(value)\<close>.\<close>

fun decimal_int :: "pydecimal \<Rightarrow> exn + int" where
  "decimal_int (DFin neg c e) =
     Inr ((if neg then - 1 else 1) * (if 0 \<le> e then int c * 10 ^ nat e else int c div 10 ^ nat (- e)))"
| "decimal_int (DInf _) = Inl (OtherError ''OverflowError'')"
| "decimal_int (DNaN _) = Inl (ValueError ''cannot convert float NaN to integer'')"

fun py_int :: "json \<Rightarrow> exn + int" where
  "py_int (JInt i) = Inr i"
| "py_int (JBool b) = Inr (if b then 1 else 0)"
| "py_int (JReal t) =
     (case decimal_of_string t of Some d \<Rightarrow> decimal_int d | None \<Rightarrow> Inl (ValueError ''invalid literal for int()''))"
| "py_int (JStr t) =
     (case parse_int (strip t) of Some i \<Rightarrow> Inr i | None \<Rightarrow> Inl (ValueError ''invalid literal for int()''))"
| "py_int _ = Inl (TypeError ''int() argument'')"

text \<open>\<open>int(value or 0)\<close>, and \<open>int(value) if value is not None else None\<close>.\<close>

definition int_or_zero :: "json \<Rightarrow> exn + int" where
  "int_or_zero v = (if py_truthy v then py_int v else Inr 0)"

definition opt_int :: "json \<Rightarrow> exn + int option" where
  "opt_int v = (if v = JNull then Inr None else map_sum id Some (py_int v))"

text \<open>What pydantic makes of a value for a field of type \<open>int | None\<close>.\<close>

fun int_field :: "json \<Rightarrow> exn + int option" where
  "int_field JNull = Inr None"
| "int_field (JInt i) = Inr (Some i)"
| "int_field (JBool b) = Inr (Some (if b then 1 else 0))"
| "int_field (JReal t) =
     (case decimal_of_string t of
        Some d \<Rightarrow> if dec_finite d \<and> dval d = of_int \<lfloor>dval d\<rfloor> then Inr (Some \<lfloor>dval d\<rfloor>) else Inl (ValidationError ''int_from_float'')
      | None \<Rightarrow> Inl (ValidationError ''int_from_float''))"
| "int_field (JStr t) =
     (case parse_int (strip t) of Some i \<Rightarrow> Inr (Some i) | None \<Rightarrow> Inl (ValidationError ''int_parsing''))"
| "int_field _ = Inl (ValidationError ''int_type'')"

definition optional_str :: "(json \<Rightarrow> string) \<Rightarrow> json \<Rightarrow> string option" where
  "optional_str show_json v = (if v \<in> {JNull, JStr []} then None else Some (py_str show_json v))"

text \<open>\<open>str(value or "")\<close>, and \<open>str(value) if value else None\<close>.\<close>

definition str_or_empty :: "(json \<Rightarrow> string) \<Rightarrow> json \<Rightarrow> string" where
  "str_or_empty show_json v = (if py_truthy v then py_str show_json v else [])"

definition truthy_str :: "(json \<Rightarrow> string) \<Rightarrow> json \<Rightarrow> string option" where
  "truthy_str show_json v = (if py_truthy v then Some (py_str show_json v) else None)"

section \<open>Order events\<close>

text \<open>The event with the fields only the execution log reads.\<close>

record trade_event = order_update_event +
  te_symbol :: string
  te_exchange_status :: "string option"
  te_execution_type :: "string option"
  te_last_fill_quantity :: "string option"
  te_last_fill_price :: "string option"
  te_trade_id :: "string option"
  te_commission :: "string option"
  te_commission_asset :: "string option"
  te_is_maker :: "bool option"
  te_event_time :: "int option"
  te_transaction_time :: "int option"
  te_raw :: json_obj

definition trade_id_of :: "(json \<Rightarrow> string) \<Rightarrow> json \<Rightarrow> string option" where
  "trade_id_of show_json v =
     (if v \<in> {JNull, JStr [], JStr ''0'', JStr ''-1''} \<or> json_is_int 0 v \<or> json_is_int (- 1) v then None
      else Some (py_str show_json v))"

definition reject_text_of :: "(json \<Rightarrow> string) \<Rightarrow> json_obj \<Rightarrow> string option" where
  "reject_text_of show_json ob =
     (let v = first_truthy ob [''r'', ''rejectReason'', ''reject_reason''] in
      if v \<in> {JNull, JStr [], JStr ''NONE''} then None else Some (py_str show_json v))"

definition normalize_binance_order_update ::
  "(json \<Rightarrow> string) \<Rightarrow> market_type \<Rightarrow> json_obj \<Rightarrow> exn + trade_event" where
  "normalize_binance_order_update show_json mt raw_event =
     (case get_or raw_event ''o'' (JObj []) of
        JObj ob \<Rightarrow>
          let text = (\<lambda>k. optional_str show_json (json_get ob k));
              symb = upper (str_or_empty show_json (json_get ob ''s''));
              raw_status = text ''X''
          in
          if \<not> py_truthy (json_get ob ''c'') then Inl (ValueError ''ORDER_TRADE_UPDATE missing client order id'')
          else if symb = [] then Inl (ValueError ''ORDER_TRADE_UPDATE missing symbol'')
          else
            sum_bind (int_field (json_get raw_event ''E'')) (\<lambda>event_time.
            sum_bind (int_field (json_get raw_event ''T'')) (\<lambda>transaction_time. Inr
              \<lparr>ev_exchange = BINANCE, ev_market_type = mt,
               ev_client_order_id = py_str show_json (json_get ob ''c''),
               ev_exchange_order_id = text ''i'', ev_target_status = map_binance_order_status raw_status,
               ev_filled_quantity = text ''z'', ev_avg_fill_price = text ''ap'',
               ev_reject_reason_text = reject_text_of show_json ob,
               te_symbol = symb, te_exchange_status = raw_status, te_execution_type = text ''x'',
               te_last_fill_quantity = text ''l'', te_last_fill_price = text ''L'',
               te_trade_id = trade_id_of show_json (json_get ob ''t''),
               te_commission = text ''n'', te_commission_asset = text ''N'',
               te_is_maker = (case json_get ob ''m'' of JBool b \<Rightarrow> Some b | _ \<Rightarrow> None),
               te_event_time = event_time, te_transaction_time = transaction_time, te_raw = raw_event\<rparr>))
      | _ \<Rightarrow> Inl (ValueError ''invalid ORDER_TRADE_UPDATE payload''))"

section \<open>Conditional order events\<close>

record algo_event = conditional_order_event +
  ae_symbol :: string
  ae_event_time :: int
  ae_transaction_time :: "int option"

definition normalize_binance_algo_update ::
  "(json \<Rightarrow> string) \<Rightarrow> market_type \<Rightarrow> json_obj \<Rightarrow> exn + algo_event" where
  "normalize_binance_algo_update show_json mt raw_event =
     (case get_or raw_event ''o'' (JObj []) of
        JObj algo \<Rightarrow>
          let text = (\<lambda>k. optional_str show_json (json_get algo k));
              raw_status = truthy_str show_json (json_get algo ''X'');
              symb = upper (str_or_empty show_json (json_get algo ''s''));
              ai = json_get algo ''ai''
          in
          if symb = [] then Inl (ValueError ''ALGO_UPDATE missing symbol'')
          else
            sum_bind (int_or_zero (json_get raw_event ''E'')) (\<lambda>event_time.
            sum_bind (opt_int (json_get raw_event ''T'')) (\<lambda>transaction_time. Inr
              \<lparr>ce_exchange = BINANCE, ce_market_type = mt,
               ce_client_conditional_id = text ''caid'', ce_exchange_conditional_id = text ''aid'',
               ce_target_status = map_binance_algo_status raw_status,
               ce_exchange_conditional_status = raw_status,
               ce_triggered_order_id = (if ai = JStr ''0'' then None else truthy_str show_json ai),
               ce_triggered_client_order_id = None,
               ce_filled_quantity = text ''aq'', ce_avg_fill_price = text ''ap'',
               ce_reject_reason_text = text ''rm'', ce_raw = raw_event,
               ae_symbol = symb, ae_event_time = event_time, ae_transaction_time = transaction_time\<rparr>))
      | _ \<Rightarrow> Inl (ValueError ''Invalid ALGO_UPDATE payload''))"

definition normalize_binance_algo_rest_row ::
  "(json \<Rightarrow> string) \<Rightarrow> market_type \<Rightarrow> int option \<Rightarrow> json_obj \<Rightarrow> exn + algo_event" where
  "normalize_binance_algo_rest_row show_json mt event_time row =
     (let text = (\<lambda>k. optional_str show_json (json_get row k));
          symb = upper (str_or_empty show_json (json_get row ''symbol''));
          raw_status = json_get row ''algoStatus'';
          actual_price = json_get row ''actualPrice'';
          actual_order_id = json_get row ''actualOrderId'';
          stamp = first_truthy row [''updateTime'', ''triggerTime'', ''createTime'']
      in
      if symb = [] then Inl (ValueError ''Algo REST row missing symbol'')
      else
        sum_bind (if py_truthy stamp then py_int stamp else Inr (or_int event_time 0)) (\<lambda>update_time. Inr
          \<lparr>ce_exchange = BINANCE, ce_market_type = mt,
           ce_client_conditional_id = text ''clientAlgoId'', ce_exchange_conditional_id = text ''algoId'',
           ce_target_status =
             map_binance_algo_status (if raw_status = JNull then None else Some (py_str show_json raw_status)),
           ce_exchange_conditional_status = truthy_str show_json raw_status,
           ce_triggered_order_id =
             (if actual_order_id = JStr ''0'' \<or> json_is_int 0 actual_order_id then None
              else optional_str show_json actual_order_id),
           ce_triggered_client_order_id = None,
           ce_filled_quantity = text ''executedQty'',
           ce_avg_fill_price =
             (if actual_price \<in> {JStr ''0'', JStr ''0.0'', JStr ''0.00000''} then None
              else optional_str show_json actual_price),
           ce_reject_reason_text = text ''reason'', ce_raw = row,
           ae_symbol = symb, ae_event_time = update_time, ae_transaction_time = None\<rparr>))"

section \<open>Position events\<close>

definition position_side_of :: "(json \<Rightarrow> string) \<Rightarrow> json \<Rightarrow> position_side" where
  "position_side_of show_json v =
     (if v \<in> {JNull, JStr []} then BOTH
      else case enum_parse position_side_value position_side_members (upper (py_str show_json v)) of
             None \<Rightarrow> BOTH | Some side \<Rightarrow> side)"

definition account_position ::
  "(json \<Rightarrow> string) \<Rightarrow> market_type \<Rightarrow> string option \<Rightarrow> int \<Rightarrow> int option \<Rightarrow> json_obj \<Rightarrow>
     exn + normalized_snapshot option" where
  "account_position show_json mt reason event_time transaction_time item =
     (let text = (\<lambda>k. optional_str show_json (json_get item k));
          symb = upper (str_or_empty show_json (json_get item ''s''));
          pa = json_get item ''pa'';
          amt = (if py_truthy pa then py_str show_json pa else ''0'')
      in
      if symb = [] then Inr None
      else sum_bind (position_status_from_amt amt) (\<lambda>st. Inr (Some
        \<lparr>np_exchange = BINANCE, np_market_type = mt, np_symbol = symb,
         np_position_side = position_side_of show_json (json_get item ''ps''), np_status = st, np_position_amt = amt,
         np_entry_price = text ''ep'', np_break_even_price = text ''bep'', np_mark_price = None,
         np_unrealized_pnl = text ''up'', np_isolated_margin = None, np_isolated_wallet = text ''iw'',
         np_margin_type = text ''mt'', np_leverage = None, np_liquidation_price = None, np_notional = None,
         np_update_reason = reason, np_event_time = event_time, np_transaction_time = transaction_time\<rparr>)))"

primrec account_positions ::
  "(json_obj \<Rightarrow> exn + normalized_snapshot option) \<Rightarrow> json list \<Rightarrow> exn + normalized_snapshot list" where
  "account_positions f [] = Inr []"
| "account_positions f (v # vs) =
     (case v of
        JObj item \<Rightarrow>
          sum_bind (f item) (\<lambda>sn. sum_bind (account_positions f vs) (\<lambda>sns.
          Inr (case sn of None \<Rightarrow> sns | Some x \<Rightarrow> x # sns)))
      | _ \<Rightarrow> account_positions f vs)"

definition normalize_binance_account_update_positions ::
  "(json \<Rightarrow> string) \<Rightarrow> market_type \<Rightarrow> json_obj \<Rightarrow> exn + normalized_snapshot list" where
  "normalize_binance_account_update_positions show_json mt raw_event =
     (if json_get raw_event ''e'' \<noteq> JStr ''ACCOUNT_UPDATE'' then Inl (ValueError ''not ACCOUNT_UPDATE event'')
      else case json_get raw_event ''a'' of
        JObj account \<Rightarrow>
          (case get_or account ''P'' (JList []) of
             JNull \<Rightarrow> sum_bind (int_or_zero (json_get raw_event ''E'')) (\<lambda>_.
                      sum_bind (opt_int (json_get raw_event ''T'')) (\<lambda>_. Inr []))
           | JList positions \<Rightarrow>
               sum_bind (int_or_zero (json_get raw_event ''E'')) (\<lambda>event_time.
               sum_bind (opt_int (json_get raw_event ''T'')) (\<lambda>transaction_time.
               account_positions
                 (account_position show_json mt (optional_str show_json (json_get account ''m'')) event_time transaction_time)
                 positions))
           | _ \<Rightarrow> Inl (ValueError ''ACCOUNT_UPDATE positions payload is not list''))
      | _ \<Rightarrow> Inl (ValueError ''ACCOUNT_UPDATE missing account payload''))"

end
