(* ===== verification/BinanceClient.thy ===== *)
theory BinanceClient
  imports BinanceMapping
begin

text \<open>
  \<open>adapters/binance/binance_execution_client.py\<close> with \<open>binance_rate_limiter.py\<close>: the exchange client
  the gateway is given for Binance, \<open>binance_client\<close>.  The limiters of the library \<open>aiolimiter\<close> are a
  parameter.  \<open>calling\<close> is the clause that turns a \<open>BinanceApiError\<close> into an \<open>ExchangeApiError\<close>;
  every other exception passes.  The paging loop of \<open>find_order_snapshots\<close> has no bound of its own: it
  runs on \<open>bc_pages\<close> rounds of fuel.
\<close>

section \<open>Rate limiter\<close>

datatype limiter = WEIGHT_1M | ORDER_10S | ORDER_1M | ORDER_1D

record binance_limiter =
  bl_acquire :: "limiter \<Rightarrow> int \<Rightarrow> unit wprog"
  bl_local_orders_per_day :: "int option"

text \<open>The defaults of the constructor: units, and the seconds they refill in.\<close>

fun limiter_rate :: "int option \<Rightarrow> limiter \<Rightarrow> (int \<times> int) option" where
  "limiter_rate per_day WEIGHT_1M = Some (2400, 60)"
| "limiter_rate per_day ORDER_10S = Some (240, 10)"
| "limiter_rate per_day ORDER_1M = Some (960, 60)"
| "limiter_rate per_day ORDER_1D = map_option (\<lambda>n. (n, 86400)) per_day"

definition acquire_if :: "binance_limiter \<Rightarrow> bool \<Rightarrow> limiter \<Rightarrow> int \<Rightarrow> unit wprog" where
  "acquire_if bl b l n = (if b \<and> 0 < n then bl_acquire bl l n else ret ())"

definition acquire_costs :: "binance_limiter \<Rightarrow> int \<Rightarrow> int \<Rightarrow> int \<Rightarrow> int \<Rightarrow> unit wprog" where
  "acquire_costs bl order_10s order_1m request_weight local_order_count =
     andThen (acquire_if bl True WEIGHT_1M request_weight) (\<lambda>_.
     andThen (acquire_if bl True ORDER_10S order_10s) (\<lambda>_.
     andThen (acquire_if bl True ORDER_1M order_1m) (\<lambda>_.
     acquire_if bl (bl_local_orders_per_day bl \<noteq> None) ORDER_1D local_order_count)))"

definition acquire_request_weight :: "binance_limiter \<Rightarrow> int \<Rightarrow> unit wprog" where
  "acquire_request_weight bl weight = (if weight \<le> 0 then ret () else acquire_costs bl 0 0 weight 0)"

definition acquire_order_slot :: "binance_limiter \<Rightarrow> int \<Rightarrow> unit wprog" where
  "acquire_order_slot bl count = (if count \<le> 0 then ret () else acquire_costs bl count count 0 count)"

definition acquire_single_order :: "binance_limiter \<Rightarrow> unit wprog" where
  "acquire_single_order bl = acquire_costs bl 1 1 0 1"

definition acquire_batch_orders :: "binance_limiter \<Rightarrow> unit wprog" where
  "acquire_batch_orders bl = acquire_costs bl 5 1 5 5"

definition acquire_modify_order :: "binance_limiter \<Rightarrow> unit wprog" where
  "acquire_modify_order bl = acquire_costs bl 1 1 0 1"

definition acquire_batch_modify_orders :: "binance_limiter \<Rightarrow> unit wprog" where
  "acquire_batch_modify_orders bl = acquire_costs bl 5 1 5 5"

section \<open>Errors\<close>

definition category_of :: "binance_class \<Rightarrow> int \<Rightarrow> error_category" where
  "category_of cls code =
     (case cls of
        BinanceUnknownExecution \<Rightarrow> EC_UNKNOWN_EXECUTION
      | BinanceRateLimit \<Rightarrow> EC_RATE_LIMITED
      | BinanceIpBan \<Rightarrow> EC_IP_BANNED
      | BinanceWaf \<Rightarrow> EC_WAF_BLOCKED
      | BinanceServiceUnavailable \<Rightarrow> EC_SERVICE_UNAVAILABLE
      | BinanceInternalRetryable \<Rightarrow> EC_INTERNAL_RETRYABLE
      | BinanceSystemThrottle \<Rightarrow> EC_SYSTEM_THROTTLE
      | BinanceNetwork \<Rightarrow> EC_NETWORK
      | BinanceApi \<Rightarrow>
          if code \<in> {- 2011, - 2013} then EC_ORDER_NOT_FOUND
          else if code \<in> {- 2018, - 2019} then EC_INSUFFICIENT_BALANCE
          else if code \<in> {- 1100, - 1102, - 1111, - 1116, - 1121} then EC_INVALID_SYMBOL
          else EC_EXCHANGE_REJECTED)"

fun class_name :: "binance_class \<Rightarrow> string" where
  "class_name BinanceApi = ''BinanceApiError''"
| "class_name BinanceRateLimit = ''BinanceRateLimitError''"
| "class_name BinanceIpBan = ''BinanceIpBanError''"
| "class_name BinanceWaf = ''BinanceWafError''"
| "class_name BinanceUnknownExecution = ''BinanceUnknownExecutionError''"
| "class_name BinanceServiceUnavailable = ''BinanceServiceUnavailableError''"
| "class_name BinanceInternalRetryable = ''BinanceInternalRetryableError''"
| "class_name BinanceSystemThrottle = ''BinanceSystemThrottleError''"
| "class_name BinanceNetwork = ''BinanceNetworkError''"

text \<open>An exception of the adapter outside a \<open>try\<close>.\<close>

fun unmapped :: "rest_exn \<Rightarrow> exn" where
  "unmapped (BinanceApiError cls code msg status) = OtherError (class_name cls)"
| "unmapped (BinanceLeveragePolicyError requested max_allowed) = OtherError ''BinanceLeveragePolicyError''"
| "unmapped (OtherRaise e) = e"

fun mapped_error :: "rest_exn \<Rightarrow> exn" where
  "mapped_error (BinanceApiError cls code msg status) =
     ExchangeApiError BINANCE (category_of cls code) msg (Some code) [(''type'', JStr (class_name cls))]"
| "mapped_error e = unmapped e"

definition outside :: "(rest_exn \<Rightarrow> exn) \<Rightarrow> 'a rprog \<Rightarrow> 'a wprog" where
  "outside f m = (\<lambda>s. case m s of (r, t) \<Rightarrow> (map_sum f id r, t))"

definition calling :: "unit wprog \<Rightarrow> 'a rprog \<Rightarrow> 'a wprog" where
  "calling acquire m = outside mapped_error (andThen (lift_rest acquire) (\<lambda>_. m))"

definition reject_reason_from_code :: "int option \<Rightarrow> string \<Rightarrow> reject_reason" where
  "reject_reason_from_code code message =
     (case code of
        None \<Rightarrow> RR_EXCHANGE_REJECTED
      | Some c \<Rightarrow>
          if c \<in> {- 2018, - 2019} then RR_INSUFFICIENT_BALANCE
          else if c = - 2010 \<and> contains ''insufficient'' (lower message) then RR_INSUFFICIENT_BALANCE
          else if c \<in> {- 1100, - 1102, - 1111, - 1116, - 1121} then RR_INVALID_SYMBOL
          else RR_EXCHANGE_REJECTED)"

section \<open>Values of responses\<close>

definition text_opt :: "(json \<Rightarrow> string) \<Rightarrow> json \<Rightarrow> string option" where
  "text_opt show_json v =
     (if v = JNull then None else let t = py_str show_json v in if t = [] then None else Some t)"

definition int_opt :: "json \<Rightarrow> exn + int option" where
  "int_opt v = (if v \<in> {JNull, JStr []} then Inr None else map_sum id Some (py_int v))"

text \<open>\<open>resp.value or fallback\<close>.\<close>

definition or_json :: "json \<Rightarrow> json \<Rightarrow> json" where
  "or_json v d = (if py_truthy v then v else d)"

definition map_order_status :: "(json \<Rightarrow> string) \<Rightarrow> json \<Rightarrow> order_status option" where
  "map_order_status show_json v =
     (if v = JNull then None else map_of BINANCE_ORDER_STATUS_MAP (upper (py_str show_json v)))"

definition map_conditional_status :: "(json \<Rightarrow> string) \<Rightarrow> json \<Rightarrow> conditional_status option" where
  "map_conditional_status show_json v =
     (if v = JNull then None else map_of BINANCE_ALGO_STATUS_MAP (upper (py_str show_json v)))"

definition status_or :: "'a option \<Rightarrow> 'a \<Rightarrow> 'a" where
  "status_or v d = (case v of None \<Rightarrow> d | Some st \<Rightarrow> st)"

definition map_position_side :: "json \<Rightarrow> position_side" where
  "map_position_side v = (if v = JStr ''LONG'' then LONG else if v = JStr ''SHORT'' then SHORT else BOTH)"

text \<open>\<open>order.client_order_id or order.order_id or ""\<close>.\<close>

definition client_key :: "order \<Rightarrow> string" where
  "client_key ord = the (or_str (o_client_order_id ord) (Some (o_order_id ord)))"

definition order_ack_from_response :: "(json \<Rightarrow> string) \<Rightarrow> order \<Rightarrow> order_resp \<Rightarrow> order_ack" where
  "order_ack_from_response show_json ord resp =
     \<lparr>ack_client_order_id = client_key ord,
      ack_exchange_order_id = text_opt show_json (od_orderId resp),
      ack_status = status_or (map_order_status show_json (od_status resp)) OS_ACKNOWLEDGED,
      ack_raw = od_raw resp\<rparr>"

definition conditional_ack_from_response :: "(json \<Rightarrow> string) \<Rightarrow> algo_order_resp \<Rightarrow> conditional_ack" where
  "conditional_ack_from_response show_json resp =
     \<lparr>cack_exchange_conditional_id = text_opt show_json (ao_algoId resp),
      cack_conditional_status = status_or (map_conditional_status show_json (ao_algoStatus resp)) CS_NEW,
      cack_raw = ao_raw resp\<rparr>"

definition regular_cancel_from_response ::
  "(json \<Rightarrow> string) \<Rightarrow> exchange \<Rightarrow> market_type \<Rightarrow> string \<Rightarrow> string option \<Rightarrow> json \<Rightarrow> json \<Rightarrow> json_obj \<Rightarrow> cancel_result" where
  "regular_cancel_from_response show_json ex mt symb client_order_id exchange_order_id raw_status raw =
     \<lparr>cr_exchange = ex, cr_market_type = mt, cr_symbol = upper symb, cr_client_order_id = client_order_id,
      cr_exchange_order_id = text_opt show_json exchange_order_id,
      cr_client_conditional_id = None, cr_exchange_conditional_id = None,
      cr_status = Some (status_or (map_order_status show_json raw_status) OS_CANCELLED),
      cr_conditional_status = None, cr_raw_status = text_opt show_json raw_status,
      cr_unknown_execution = False, cr_raw = raw\<rparr>"

definition truthy_or :: "(json \<Rightarrow> string) \<Rightarrow> json \<Rightarrow> string option \<Rightarrow> string option" where
  "truthy_or show_json v d = (if py_truthy v then Some (py_str show_json v) else d)"

definition conditional_cancel_from_dto ::
  "(json \<Rightarrow> string) \<Rightarrow> exchange \<Rightarrow> market_type \<Rightarrow> string \<Rightarrow> string option \<Rightarrow> cancel_algo_resp \<Rightarrow> cancel_result" where
  "conditional_cancel_from_dto show_json ex mt symb client_conditional_id dto =
     \<lparr>cr_exchange = ex, cr_market_type = mt, cr_symbol = upper symb,
      cr_client_order_id = None, cr_exchange_order_id = None,
      cr_client_conditional_id = truthy_or show_json (cg_clientAlgoId dto) client_conditional_id,
      cr_exchange_conditional_id =
        (if cg_algoId dto = JNull then None else Some (py_str show_json (cg_algoId dto))),
      cr_status = None, cr_conditional_status = Some CS_CANCELLED,
      cr_raw_status = truthy_or show_json (first_truthy (cg_raw dto) [''algoStatus'', ''status'']) (Some ''CANCELED''),
      cr_unknown_execution = False, cr_raw = cg_raw dto\<rparr>"

definition bare_cancel :: "string \<Rightarrow> json_obj \<Rightarrow> cancel_result" where
  "bare_cancel symb raw =
     \<lparr>cr_exchange = BINANCE, cr_market_type = PERP, cr_symbol = upper symb, cr_client_order_id = None,
      cr_exchange_order_id = None, cr_client_conditional_id = None, cr_exchange_conditional_id = None,
      cr_status = None, cr_conditional_status = None, cr_raw_status = None, cr_unknown_execution = False, cr_raw = raw\<rparr>"

definition order_snapshot_from_response :: "(json \<Rightarrow> string) \<Rightarrow> order option \<Rightarrow> json_obj \<Rightarrow> order_snapshot" where
  "order_snapshot_from_response show_json fallback_order row =
     \<lparr>sn_symbol = upper (py_str show_json (or_json (json_get row ''symbol'')
        (JStr (case fallback_order of None \<Rightarrow> [] | Some ord \<Rightarrow> o_symbol ord)))),
      sn_status = status_or (map_order_status show_json (json_get row ''status'')) OS_UNKNOWN,
      sn_client_order_id = text_opt show_json (or_json (json_get row ''clientOrderId'')
        (opt_json (Option.bind fallback_order o_client_order_id))),
      sn_exchange_order_id = text_opt show_json (json_get row ''orderId''),
      sn_filled_quantity = py_str show_json (get_or row ''executedQty'' (JStr ''0'')),
      sn_avg_fill_price = py_str show_json (get_or row ''avgPrice'' (JStr ''0'')),
      sn_raw_status = text_opt show_json (json_get row ''status''), sn_raw = row\<rparr>"

definition conditional_snapshot_from_response ::
  "(json \<Rightarrow> string) \<Rightarrow> order option \<Rightarrow> json_obj \<Rightarrow> conditional_snapshot" where
  "conditional_snapshot_from_response show_json fallback_order row =
     (let raw_status = first_truthy row [''algoStatus'', ''status''] in
      \<lparr>cs_exchange = (case fallback_order of None \<Rightarrow> BINANCE | Some ord \<Rightarrow> o_exchange ord),
       cs_market_type = (case fallback_order of None \<Rightarrow> PERP | Some ord \<Rightarrow> o_market_type ord),
       cs_symbol = upper (case fallback_order of None \<Rightarrow> str_or_empty show_json (json_get row ''symbol'')
                                               | Some ord \<Rightarrow> o_symbol ord),
       cs_conditional_status = status_or (map_conditional_status show_json raw_status) CS_UNKNOWN,
       cs_client_conditional_id = text_opt show_json (or_json (json_get row ''clientAlgoId'')
         (opt_json (Option.bind fallback_order o_client_conditional_id))),
       cs_exchange_conditional_id = text_opt show_json (or_json (json_get row ''algoId'')
         (opt_json (Option.bind fallback_order o_exchange_conditional_id))),
       cs_triggered_order_id = text_opt show_json (json_get row ''triggeredOrderId''),
       cs_triggered_client_order_id = text_opt show_json (json_get row ''triggeredClientOrderId''),
       cs_filled_quantity = text_opt show_json (json_get row ''executedQty''),
       cs_avg_fill_price = text_opt show_json (json_get row ''avgPrice''),
       cs_raw_status = text_opt show_json raw_status, cs_raw = row\<rparr>)"

definition position_snapshot_from_response ::
  "(json \<Rightarrow> string) \<Rightarrow> position_risk_resp \<Rightarrow> exn + position_snapshot" where
  "position_snapshot_from_response show_json row =
     sum_bind (int_opt (json_get (pk_raw row) ''leverage'')) (\<lambda>lev.
     sum_bind (int_opt (pk_updateTime row)) (\<lambda>updated_ts. Inr
       \<lparr>xp_exchange = BINANCE, xp_market_type = PERP, xp_symbol = upper (py_str show_json (pk_symbol row)),
        xp_position_side = map_position_side (pk_positionSide row),
        xp_position_amt = py_str show_json (pk_positionAmt row),
        xp_entry_price = text_opt show_json (pk_entryPrice row),
        xp_break_even_price = text_opt show_json (pk_breakEvenPrice row),
        xp_mark_price = text_opt show_json (pk_markPrice row),
        xp_unrealized_pnl = text_opt show_json (pk_unRealizedProfit row),
        xp_isolated_margin = text_opt show_json (pk_isolatedMargin row),
        xp_isolated_wallet = text_opt show_json (pk_isolatedWallet row),
        xp_margin_type = text_opt show_json (json_get (pk_raw row) ''marginType''), xp_leverage = lev,
        xp_liquidation_price = text_opt show_json (pk_liquidationPrice row),
        xp_notional = text_opt show_json (pk_notional row), xp_updated_ts = updated_ts\<rparr>))"

section \<open>Placing orders\<close>

record binance_parts =
  bc_adapter :: rest_adapter
  bc_limiter :: binance_limiter
  bc_pages :: nat

definition bc_str :: "binance_parts \<Rightarrow> json \<Rightarrow> string" where
  "bc_str bc = ra_show_json (bc_adapter bc)"

definition weighing :: "binance_parts \<Rightarrow> int \<Rightarrow> (rest_adapter \<Rightarrow> 'a rprog) \<Rightarrow> 'a wprog" where
  "weighing bc weight f = calling (acquire_request_weight (bc_limiter bc) weight) (f (bc_adapter bc))"

definition binance_place_order :: "binance_parts \<Rightarrow> order \<Rightarrow> order_ack wprog" where
  "binance_place_order bc ord =
     andThen (calling (acquire_single_order (bc_limiter bc)) (route_regular_order (bc_adapter bc) ord)) (\<lambda>resp.
     ret (order_ack_from_response (bc_str bc) ord resp))"

definition binance_place_conditional_order :: "binance_parts \<Rightarrow> order \<Rightarrow> conditional_ack wprog" where
  "binance_place_conditional_order bc ord =
     andThen (calling (acquire_single_order (bc_limiter bc)) (route_conditional_order (bc_adapter bc) ord)) (\<lambda>resp.
     ret (conditional_ack_from_response (bc_str bc) resp))"

definition batch_reject_of :: "(json \<Rightarrow> string) \<Rightarrow> order \<Rightarrow> json_obj \<Rightarrow> order_reject" where
  "batch_reject_of show_json ord row =
     (let item_code = as_int (json_get row ''code''); msg = py_str show_json (get_or row ''msg'' (JStr [])) in
      \<lparr>rej_client_order_id = client_key ord, rej_reason = reject_reason_from_code item_code msg,
       rej_message = Some msg, rej_code = item_code\<rparr>)"

text \<open>The accepted and the refused items are each paired with the orders from the first one on.\<close>

definition batch_results_of ::
  "(json \<Rightarrow> string) \<Rightarrow> order list \<Rightarrow> order_resp list \<Rightarrow> json_obj list \<Rightarrow> batch_result list" where
  "batch_results_of show_json orders success errors =
     map (\<lambda>(ord, row). BatchAck (order_ack_from_response show_json ord row)) (zip orders success) @
     map (\<lambda>(ord, row). BatchReject (batch_reject_of show_json ord row)) (zip orders errors)"

definition binance_place_batch_orders :: "binance_parts \<Rightarrow> order list \<Rightarrow> batch_result list wprog" where
  "binance_place_batch_orders bc orders =
     (if orders = [] then ret []
      else
        andThen (liftSum (collect_sum (map map_regular_order_params orders))) (\<lambda>params.
        andThen (calling (acquire_batch_orders (bc_limiter bc)) (place_batch_orders (bc_adapter bc) params))
          (\<lambda>(success, errors). ret (batch_results_of (bc_str bc) orders success errors))))"

section \<open>Cancelling\<close>

definition cancel_of_response :: "(json \<Rightarrow> string) \<Rightarrow> order \<Rightarrow> order_resp \<Rightarrow> cancel_result" where
  "cancel_of_response show_json ord resp =
     regular_cancel_from_response show_json (o_exchange ord) (o_market_type ord) (o_symbol ord)
       (truthy_or show_json (od_clientOrderId resp) (o_client_order_id ord))
       (or_json (od_orderId resp) (opt_json (o_exchange_order_id ord))) (od_status resp) (od_raw resp)"

definition binance_cancel_order :: "binance_parts \<Rightarrow> order \<Rightarrow> cancel_result wprog" where
  "binance_cancel_order bc ord =
     (if o_order_route ord = Some CONDITIONAL
      then andThen (weighing bc 1 (\<lambda>ra. cancel_algo_order ra (o_symbol ord) (o_client_conditional_id ord)
                     (o_exchange_conditional_id ord))) (\<lambda>dto.
           ret (conditional_cancel_from_dto (bc_str bc) (o_exchange ord) (o_market_type ord) (o_symbol ord)
                  (o_client_conditional_id ord) dto))
      else andThen (weighing bc 1 (\<lambda>ra. rest_cancel_order ra (o_symbol ord) None (Some (client_key ord)))) (\<lambda>resp.
           ret (cancel_of_response (bc_str bc) ord resp)))"

definition binance_cancel_regular_by_client_id :: "binance_parts \<Rightarrow> string \<Rightarrow> string \<Rightarrow> cancel_result wprog" where
  "binance_cancel_regular_by_client_id bc symb client_order_id =
     andThen (weighing bc 1 (\<lambda>ra. rest_cancel_order ra symb None (Some client_order_id))) (\<lambda>resp.
     ret (regular_cancel_from_response (bc_str bc) BINANCE PERP symb
            (truthy_or (bc_str bc) (od_clientOrderId resp) (Some client_order_id))
            (od_orderId resp) (od_status resp) (od_raw resp)))"

definition binance_cancel_batch_orders :: "binance_parts \<Rightarrow> order list \<Rightarrow> cancel_result list wprog" where
  "binance_cancel_batch_orders bc orders =
     (if orders = [] then ret []
      else if list_ex (\<lambda>ord. o_order_route ord \<noteq> Some REGULAR) orders
      then throw (ValueError ''Binance batch cancel supports only REGULAR orders'')
      else if card (set (map (\<lambda>ord. upper (o_symbol ord)) orders)) \<noteq> 1
      then throw (ValueError ''Binance batch cancel requires all orders to share symbol'')
      else
        andThen (weighing bc 1 (\<lambda>ra. rest_cancel_batch_orders ra (upper (o_symbol (hd orders))) None
                   (Some (map client_key orders)))) (\<lambda>resps.
        ret (map (\<lambda>(ord, resp). cancel_of_response (bc_str bc) ord resp) (zip orders resps))))"

definition binance_cancel_conditional_order :: "binance_parts \<Rightarrow> order \<Rightarrow> cancel_result wprog" where
  "binance_cancel_conditional_order bc ord =
     (if o_order_route ord \<noteq> Some CONDITIONAL
      then throw (ValueError ''cancel_conditional_order requires a CONDITIONAL order'')
      else binance_cancel_order bc ord)"

definition binance_cancel_conditional_by_id ::
  "binance_parts \<Rightarrow> string \<Rightarrow> string option \<Rightarrow> string option \<Rightarrow> cancel_result wprog" where
  "binance_cancel_conditional_by_id bc symb client_conditional_id exchange_conditional_id =
     (if \<not> truthy client_conditional_id \<and> \<not> truthy exchange_conditional_id
      then throw (ValueError ''client_conditional_id or exchange_conditional_id is required'')
      else andThen (weighing bc 1 (\<lambda>ra. cancel_algo_order ra symb client_conditional_id exchange_conditional_id))
             (\<lambda>dto. ret (conditional_cancel_from_dto (bc_str bc) BINANCE PERP symb client_conditional_id dto)))"

definition binance_cancel_all_regular :: "binance_parts \<Rightarrow> string \<Rightarrow> cancel_result wprog" where
  "binance_cancel_all_regular bc symb =
     andThen (weighing bc 1 (\<lambda>ra. cancel_all_open ra symb)) (\<lambda>resp. ret (bare_cancel symb (ca_raw resp)))"

definition binance_cancel_all_conditional :: "binance_parts \<Rightarrow> string \<Rightarrow> cancel_result wprog" where
  "binance_cancel_all_conditional bc symb =
     andThen (weighing bc 1 (\<lambda>ra. cancel_all_algo_open ra symb)) (\<lambda>resp. ret (bare_cancel symb (cx_raw resp)))"

section \<open>Queries\<close>

definition binance_get_order :: "binance_parts \<Rightarrow> order \<Rightarrow> order_snapshot wprog" where
  "binance_get_order bc ord =
     andThen (weighing bc 1 (\<lambda>ra. rest_get_order ra (o_symbol ord) None (Some (client_key ord)))) (\<lambda>resp.
     ret (order_snapshot_from_response (bc_str bc) (Some ord) (od_raw resp)))"

definition binance_get_open_orders :: "binance_parts \<Rightarrow> string option \<Rightarrow> order_snapshot list wprog" where
  "binance_get_open_orders bc symb =
     andThen (weighing bc (if truthy symb then 1 else 40) (\<lambda>ra. rest_get_open_orders ra symb)) (\<lambda>rows.
     ret (map (\<lambda>row. order_snapshot_from_response (bc_str bc) None (od_raw row)) rows))"

definition binance_get_open_conditional_orders :: "binance_parts \<Rightarrow> string \<Rightarrow> conditional_snapshot list wprog" where
  "binance_get_open_conditional_orders bc symb =
     andThen (weighing bc 1 (\<lambda>ra. get_open_algo_orders ra (Some symb) None (Some ''CONDITIONAL''))) (\<lambda>rows.
     ret (map (\<lambda>row. conditional_snapshot_from_response (bc_str bc) None (ao_raw row)) rows))"

definition find_matching_algo_row ::
  "(json \<Rightarrow> string) \<Rightarrow> order \<Rightarrow> algo_order_resp list \<Rightarrow> algo_order_resp option" where
  "find_matching_algo_row show_json ord rows =
     List.find (\<lambda>row.
       (truthy (o_client_conditional_id ord) \<and> text_opt show_json (ao_clientAlgoId row) = o_client_conditional_id ord) \<or>
       (truthy (o_exchange_conditional_id ord) \<and> text_opt show_json (ao_algoId row) = o_exchange_conditional_id ord)) rows"

definition binance_get_conditional_order :: "binance_parts \<Rightarrow> order \<Rightarrow> conditional_snapshot option wprog" where
  "binance_get_conditional_order bc ord =
     (if o_order_route ord \<noteq> Some CONDITIONAL
      then throw (ValueError ''get_conditional_order requires a CONDITIONAL order'')
      else
        let found = (\<lambda>row. conditional_snapshot_from_response (bc_str bc) (Some ord) (ao_raw row)) in
        andThen (weighing bc 1 (\<lambda>ra. get_open_algo_orders ra (Some (o_symbol ord)) None (Some ''CONDITIONAL''))) (\<lambda>open_rows.
        case find_matching_algo_row (bc_str bc) ord open_rows of
          Some row \<Rightarrow> ret (Some (found row))
        | None \<Rightarrow>
            andThen (weighing bc 5 (\<lambda>ra. get_all_algo_orders ra (o_symbol ord) (o_exchange_conditional_id ord)
                       None None 1000)) (\<lambda>all_rows.
            ret (map_option found (find_matching_algo_row (bc_str bc) ord all_rows)))))"

definition binance_get_positions :: "binance_parts \<Rightarrow> string option \<Rightarrow> position_snapshot list wprog" where
  "binance_get_positions bc symb =
     andThen (weighing bc 5 (\<lambda>ra. get_position_risk_v3 ra symb)) (\<lambda>rows.
     liftSum (collect_sum (map (position_snapshot_from_response (bc_str bc)) rows)))"

definition binance_get_symbol_price_ticker :: "binance_parts \<Rightarrow> string \<Rightarrow> (json \<times> json \<times> json) wprog" where
  "binance_get_symbol_price_ticker bc symb =
     andThen (calling (ret ()) (get_symbol_price_ticker (bc_adapter bc) symb)) (\<lambda>ticker.
     ret (tk_symbol ticker, tk_price ticker, tk_time ticker))"

text \<open>The leverage refused by the application's own limit is an invalid parameter; its code is a text.\<close>

fun leverage_error :: "rest_exn \<Rightarrow> exn" where
  "leverage_error (BinanceLeveragePolicyError requested max_allowed) =
     ExchangeApiError BINANCE EC_INVALID_PARAMETER
       (''Leverage '' @ show_int requested @ ''x exceeds configured maximum '' @ show_int max_allowed @ ''x'') None
       [(''type'', JStr ''BinanceLeveragePolicyError''), (''requested'', JInt requested),
        (''max_allowed'', JInt max_allowed)]"
| "leverage_error e = mapped_error e"

definition binance_change_leverage :: "binance_parts \<Rightarrow> string \<Rightarrow> int \<Rightarrow> unit wprog" where
  "binance_change_leverage bc symb lev =
     andThen (outside leverage_error (andThen (lift_rest (acquire_request_weight (bc_limiter bc) 1))
                (\<lambda>_. rest_change_leverage (bc_adapter bc) symb lev))) (\<lambda>resp.
     andThen (liftSum (py_int (or_json (cl_leverage resp) (JInt lev)))) (\<lambda>_. ret ()))"

section \<open>Looking up many orders\<close>

definition MAX_ALL_ORDERS_WINDOW_MS :: int where
  "MAX_ALL_ORDERS_WINDOW_MS = 7 * 24 * 60 * 60 * 1000 - 1000"

text \<open>Membership in a set of texts raises for a list or an object.\<close>

fun unhashable :: "json \<Rightarrow> bool" where
  "unhashable (JList vs) = (vs \<noteq> [])"
| "unhashable (JObj ob) = (ob \<noteq> [])"
| "unhashable _ = False"

definition client_ids_of :: "order_resp list \<Rightarrow> string list" where
  "client_ids_of rows = List.map_filter
     (\<lambda>row. case od_clientOrderId row of JStr t \<Rightarrow> if t = [] then None else Some t | _ \<Rightarrow> None) rows"

text \<open>One round after the page is in: \<open>Inl\<close> to stop with the rows, \<open>Inr\<close> the order id to go on from.\<close>

definition after_page :: "string list \<Rightarrow> int \<Rightarrow> order_resp list \<Rightarrow> order_resp list \<Rightarrow> rest_exn + (unit + int)" where
  "after_page wanted limit rows page =
     (if page = [] then Inr (Inl ())
      else if list_ex (\<lambda>row. unhashable (od_clientOrderId row)) page then Inl (OtherRaise (TypeError ''unhashable''))
      else if set wanted \<subseteq> set (client_ids_of rows) then Inr (Inl ())
      else if int (length page) < limit then Inr (Inl ())
      else if od_orderId (last page) = JNull then Inr (Inl ())
      else (case py_int (od_orderId (last page)) of Inl e \<Rightarrow> Inl (OtherRaise e) | Inr i \<Rightarrow> Inr (Inr (i + 1))))"

definition out_of_pages :: rest_exn where
  "out_of_pages = OtherRaise (OtherError ''still paging'')"

fun fetch_all_orders_until_found ::
  "nat \<Rightarrow> (int option \<Rightarrow> order_resp list rprog) \<Rightarrow> string list \<Rightarrow> int \<Rightarrow> order_resp list \<Rightarrow> int option \<Rightarrow>
     order_resp list rprog" where
  "fetch_all_orders_until_found 0 page_of wanted limit rows next_order_id = throw out_of_pages"
| "fetch_all_orders_until_found (Suc n) page_of wanted limit rows next_order_id =
     andThen (page_of next_order_id) (\<lambda>page.
     andThen (liftSum (after_page wanted limit (rows @ page) page)) (\<lambda>more. case more of
       Inl _ \<Rightarrow> ret (rows @ page)
     | Inr i \<Rightarrow> fetch_all_orders_until_found n page_of wanted limit (rows @ page) (Some i)))"

definition orders_page ::
  "binance_parts \<Rightarrow> string \<Rightarrow> int \<Rightarrow> int \<Rightarrow> int \<Rightarrow> int option \<Rightarrow> order_resp list rprog" where
  "orders_page bc symb start_time end_time limit next_order_id =
     andThen (lift_rest (acquire_request_weight (bc_limiter bc) 5)) (\<lambda>_.
     get_all_orders (bc_adapter bc) symb next_order_id (Some start_time) (Some end_time) limit)"

definition lookup_keys :: "order list \<Rightarrow> (string \<times> string) list" where
  "lookup_keys orders = map (\<lambda>ord. (o_order_id ord, client_key ord)) orders"

text \<open>Dicts: of two orders, or two rows, with one key the later one counts.\<close>

definition row_of_client_id :: "order_resp list \<Rightarrow> string \<Rightarrow> order_resp option" where
  "row_of_client_id rows k = List.find (\<lambda>row. od_clientOrderId row = JStr k) (rev rows)"

definition snapshot_by_order_id ::
  "(json \<Rightarrow> string) \<Rightarrow> order list \<Rightarrow> order_resp list \<Rightarrow> string \<Rightarrow> order_snapshot option" where
  "snapshot_by_order_id show_json orders rows i =
     (case List.find (\<lambda>ord. o_order_id ord = i) (rev orders) of
        None \<Rightarrow> None
      | Some ord \<Rightarrow> map_option (\<lambda>row. order_snapshot_from_response show_json (Some ord) (od_raw row))
          (row_of_client_id rows (client_key ord)))"

definition start_of_window :: "order list \<Rightarrow> int \<Rightarrow> int \<Rightarrow> int" where
  "start_of_window orders lookback_ms end_time =
     max 0 (max (Min (set (map o_created_ts orders)) - lookback_ms) (end_time - MAX_ALL_ORDERS_WINDOW_MS))"

text \<open>Errors of the adapter are not mapped here.\<close>

definition binance_find_order_snapshots ::
  "binance_parts \<Rightarrow> string \<Rightarrow> order list \<Rightarrow> int \<Rightarrow> int \<Rightarrow> (string \<Rightarrow> order_snapshot option) wprog" where
  "binance_find_order_snapshots bc symb orders lookback_ms limit =
     (let valid_orders = filter (\<lambda>ord. o_order_id ord \<noteq> [] \<and> upper (o_symbol ord) = upper symb) orders in
      if valid_orders = [] then ret (\<lambda>_. None)
      else
        andThen epoch_ms (\<lambda>end_time.
        andThen (outside unmapped (fetch_all_orders_until_found (bc_pages bc)
                   (orders_page bc symb (start_of_window valid_orders lookback_ms end_time) end_time limit)
                   (map snd (lookup_keys valid_orders)) limit [] None)) (\<lambda>rows.
        ret (snapshot_by_order_id (bc_str bc) valid_orders rows))))"

section \<open>The client\<close>

definition binance_client :: "binance_parts \<Rightarrow> client" where
  "binance_client bc =
     \<lparr>c_supports_batch_order = True, c_max_batch_order_size = 5, c_supports_batch_cancel = True,
      c_max_batch_cancel_size = 10, c_supports_cancel_all = True, c_supports_conditional_order = True,
      c_supports_hedge_mode = True, c_supports_position_snapshot = True,
      c_supports_conditional_reconciliation = True, c_supports_bulk_order_lookup = True,
      c_bulk_order_lookup_threshold = Some 6,
      c_place_order = binance_place_order bc,
      c_place_conditional_order = binance_place_conditional_order bc,
      c_place_batch_orders = binance_place_batch_orders bc,
      c_cancel_order = binance_cancel_order bc,
      c_cancel_conditional_order = binance_cancel_conditional_order bc,
      c_cancel_batch_orders = binance_cancel_batch_orders bc,
      c_cancel_regular_by_client_id = binance_cancel_regular_by_client_id bc,
      c_cancel_conditional_by_id = binance_cancel_conditional_by_id bc,
      c_cancel_all_regular = binance_cancel_all_regular bc,
      c_cancel_all_conditional = binance_cancel_all_conditional bc,
      c_change_leverage = binance_change_leverage bc,
      c_get_positions = binance_get_positions bc,
      c_exchange_conditional_status = map_of INTERNAL_TO_BINANCE_ALGO_STATUS,
      c_unknown_status_value = Some BINANCE_EXCHANGE_CONDITIONAL_ORDER_UNKNOWN_STATUS,
      c_get_order = binance_get_order bc,
      c_get_open_orders = binance_get_open_orders bc,
      c_get_conditional_order = binance_get_conditional_order bc,
      c_get_open_conditional_orders = binance_get_open_conditional_orders bc,
      c_find_order_snapshots = binance_find_order_snapshots bc\<rparr>"

end
