(* ===== verification/BinanceOutcome.thy ===== *)
theory BinanceOutcome
  imports BinanceClient Harmless SubmitOutcome
begin

text \<open>
  What the gateway can rely on of its Binance client, and what it makes of the answers.  The client is
  an exchange client in the sense of \<open>Exchange\<close> as soon as the transport and the limiters are harmless,
  so everything proved of the gateway holds with it.
\<close>

section \<open>The store under a request\<close>

definition rest_harmless :: "status_rel \<Rightarrow> 'a rprog \<Rightarrow> bool" where
  "rest_harmless T m = safe gw_inv (evolves T) (\<lambda>_. True) m (\<lambda>_ _. True)"

text \<open>The transport and the limiters, which are not part of the repository.\<close>

definition binance_ok :: "status_rel \<Rightarrow> binance_parts \<Rightarrow> bool" where
  "binance_ok T bc \<longleftrightarrow>
     (\<forall>meth path ps. harmless T (ra_send (bc_adapter bc) meth path ps)) \<and>
     (\<forall>l n. harmless T (bl_acquire (bc_limiter bc) l n))"

named_theorems rest_intros "rules that split a program of the adapter into its requests"

lemma rest_then [rest_intros]:
  "rest_harmless T m \<Longrightarrow> (\<And>x. rest_harmless T (f x)) \<Longrightarrow> rest_harmless T (andThen m f)"
  unfolding rest_harmless_def by (rule gw.safe_then) auto

lemma rest_ends [rest_intros]:
  "rest_harmless T (throw e)" "rest_harmless T (ret x)" "rest_harmless T (liftSum r)"
  by (simp_all add: rest_harmless_def gw.safe_throw gw.safe_ret gw.safe_liftSum)

lemma rest_refuse [rest_intros]: "rest_harmless T (refuse msg)"
  by (simp add: refuse_def rest_ends)

lemma rest_if [rest_intros]:
  "(b \<Longrightarrow> rest_harmless T m) \<Longrightarrow> (\<not> b \<Longrightarrow> rest_harmless T n) \<Longrightarrow> rest_harmless T (if b then m else n)"
  by simp

lemma rest_fold [rest_intros]: "(\<And>x acc. rest_harmless T (f x acc)) \<Longrightarrow> rest_harmless T (foldE f xs acc)"
proof (induction xs arbitrary: acc)
  case (Cons x xs)
  then show ?case by (simp add: rest_then)
qed (simp add: rest_ends)



lemma harmless_if [harmless_intros]:
  "(b \<Longrightarrow> harmless T m) \<Longrightarrow> (\<not> b \<Longrightarrow> harmless T n) \<Longrightarrow> harmless T (if b then m else n)"
  by simp

section \<open>Every endpoint\<close>

lemma stamp_harmless [simp]: "harmless T (stamp_params params)"
  by (simp add: stamp_params_def harmless_then)

lemma sign_harmless [simp]: "harmless T (sign_params ra params)"
  by (auto simp: sign_params_def sign_rest_hmac_def sign_rest_ed25519_def intro!: harmless_then split: key_type.split option.split)

lemma bare_id_harmless [simp]: "harmless T bare_order_id"
  by (rule harmless_same_store) (auto simp: bare_order_id_def same_store_def)






section \<open>Every operation of the client\<close>







section \<open>Answers that do not touch the orders\<close>

text \<open>\<open>quietly m r\<close>: the program ends with \<open>r\<close>, the orders table stays as it is and the stores up.\<close>

definition quietly :: "(world, 'e, 'a) prog \<Rightarrow> 'e + 'a \<Rightarrow> bool" where
  "quietly m r \<longleftrightarrow> (\<forall>s. \<exists>t. m s = (r, t) \<and> w_orders t = w_orders s \<and> (stores_up s \<longrightarrow> stores_up t))"

lemma quietlyE:
  assumes "quietly m r"
  obtains t where "m s = (r, t)" "w_orders t = w_orders s" "stores_up s \<longrightarrow> stores_up t"
  using assms unfolding quietly_def by blast

lemma quietly_ret [simp]: "quietly (ret x) (Inr x)" "quietly (throw e) (Inl e)" "quietly (liftSum r) r"
  by (simp_all add: quietly_def prog_simps)

lemma quietlyI:
  "(\<And>s. \<exists>t. m s = (r, t) \<and> w_orders t = w_orders s \<and> (stores_up s \<longrightarrow> stores_up t)) \<Longrightarrow> quietly m r"
  by (simp add: quietly_def)

lemma quietly_then:
  assumes m: "quietly m (Inr x)" and f: "quietly (f x) r"
  shows "quietly (andThen m f) r"
proof (rule quietlyI)
  fix s
  obtain u where u: "m s = (Inr x, u)" "w_orders u = w_orders s" "stores_up s \<longrightarrow> stores_up u"
    by (rule quietlyE [OF m, where s = s])
  obtain t where "f x u = (r, t)" "w_orders t = w_orders u" "stores_up u \<longrightarrow> stores_up t"
    by (rule quietlyE [OF f, where s = u])
  with u show "\<exists>t. andThen m f s = (r, t) \<and> w_orders t = w_orders s \<and> (stores_up s \<longrightarrow> stores_up t)"
    by (simp add: prog_simps)
qed

lemma quietly_stop:
  assumes m: "quietly m (Inl e)"
  shows "quietly (andThen m f) (Inl e)"
proof (rule quietlyI)
  fix s
  obtain u where "m s = (Inl e, u)" "w_orders u = w_orders s" "stores_up s \<longrightarrow> stores_up u"
    by (rule quietlyE [OF m, where s = s])
  then show "\<exists>t. andThen m f s = (Inl e, t) \<and> w_orders t = w_orders s \<and> (stores_up s \<longrightarrow> stores_up t)"
    by (simp add: prog_simps)
qed

lemma quietly_lift:
  assumes m: "quietly m r"
  shows "quietly (lift_rest m) (map_sum OtherRaise id r)"
proof (rule quietlyI)
  fix s
  obtain u where "m s = (r, u)" "w_orders u = w_orders s" "stores_up s \<longrightarrow> stores_up u"
    by (rule quietlyE [OF m, where s = s])
  then show "\<exists>t. lift_rest m s = (map_sum OtherRaise id r, t) \<and> w_orders t = w_orders s \<and> (stores_up s \<longrightarrow> stores_up t)"
    by (simp add: lift_rest_def)
qed

lemma quietly_outside:
  assumes m: "quietly m r"
  shows "quietly (outside f m) (map_sum f id r)"
proof (rule quietlyI)
  fix s
  obtain u where "m s = (r, u)" "w_orders u = w_orders s" "stores_up s \<longrightarrow> stores_up u"
    by (rule quietlyE [OF m, where s = s])
  then show "\<exists>t. outside f m s = (map_sum f id r, t) \<and> w_orders t = w_orders s \<and> (stores_up s \<longrightarrow> stores_up t)"
    by (simp add: outside_def)
qed

section \<open>Requests that reach the exchange\<close>

text \<open>Keys that sign, and limiters that let every request through.\<close>

definition signing :: "rest_adapter \<Rightarrow> bool" where
  "signing ra \<longleftrightarrow>
     (case ra_key_type ra of
        KEY_HMAC \<Rightarrow> ra_api_secret ra \<noteq> None
      | KEY_ED25519 \<Rightarrow> \<exists>pem. ra_private_key_pem ra = Some pem \<and> (\<forall>t. \<exists>sig. ra_sign_ed25519 ra pem t = Inr sig))"

definition open_limiters :: "binance_limiter \<Rightarrow> bool" where
  "open_limiters bl \<longleftrightarrow> (\<forall>l n. quietly (bl_acquire bl l n) (Inr ()))"

text \<open>The exchange answers every request of a kind alike.\<close>

definition answering :: "rest_adapter \<Rightarrow> string \<Rightarrow> string \<Rightarrow> http_answer \<Rightarrow> bool" where
  "answering ra meth path answer \<longleftrightarrow> (\<forall>ps. quietly (ra_send ra meth path ps) (Inr answer))"

lemma signed_params:
  assumes "signing ra"
  obtains q t where "sign_params ra ps s = (Inr q, t)" "w_orders t = w_orders s" "stores_up s \<longrightarrow> stores_up t"
proof -
  obtain u signed where u: "stamp_params ps s = (Inr signed, u)" "w_orders u = w_orders s" "stores_up s \<longrightarrow> stores_up u"
    by (cases "map_of ps ''timestamp''")
      (auto simp: stamp_params_def prog_simps epoch_ms_def stores_up_def)
  show thesis
  proof (cases "ra_key_type ra")
    case KEY_HMAC
    with assms that u show ?thesis by (auto simp: signing_def sign_params_def sign_rest_hmac_def prog_simps)
  next
    case KEY_ED25519
    with assms obtain pem where pem: "ra_private_key_pem ra = Some pem"
      "\<forall>t. \<exists>sig. ra_sign_ed25519 ra pem t = Inr sig"
      by (auto simp: signing_def)
    then obtain sig where "ra_sign_ed25519 ra pem (urlencode (ra_show_json ra) signed) = Inr sig" by blast
    with KEY_ED25519 pem(1) that u show ?thesis by (simp add: sign_params_def sign_rest_ed25519_def prog_simps)
  qed
qed

lemma request_answered:
  assumes "signing ra" and "answering ra meth path answer"
  shows "quietly (request ra meth path ps True) (read_answer (ra_show_json ra) (execution_at_stake True meth path) answer)"
proof (rule quietlyI)
  fix s
  obtain q u where u: "sign_params ra ps s = (Inr q, u)" "w_orders u = w_orders s" "stores_up s \<longrightarrow> stores_up u"
    by (rule signed_params [OF assms(1), where s = s and ps = ps])
  have "quietly (ra_send ra meth path q) (Inr answer)" using assms(2) by (simp add: answering_def)
  then obtain t where "ra_send ra meth path q u = (Inr answer, t)" "w_orders t = w_orders u" "stores_up u \<longrightarrow> stores_up t"
    by (rule quietlyE [where s = u])
  with u show "\<exists>t. request ra meth path ps True s =
      (read_answer (ra_show_json ra) (execution_at_stake True meth path) answer, t) \<and>
      w_orders t = w_orders s \<and> (stores_up s \<longrightarrow> stores_up t)"
    by (simp add: request_def prog_simps lift_rest_def)
qed

lemma fetch_answered:
  assumes "signing ra" and "answering ra meth path answer"
  shows "quietly (fetch ra meth path ps f)
    (sum_bind (read_answer (ra_show_json ra) (execution_at_stake True meth path) answer) f)"
proof (cases "read_answer (ra_show_json ra) (execution_at_stake True meth path) answer")
  case (Inl e)
  with quietly_stop request_answered [OF assms, of ps] show ?thesis by (auto simp: fetch_def)
next
  case (Inr v)
  with request_answered [OF assms, of ps] have "quietly (request ra meth path ps True) (Inr v)" by simp
  from quietly_then [OF this, of "\<lambda>v. liftSum (f v)" "f v"] Inr show ?thesis by (simp add: fetch_def)
qed

lemma acquire_open:
  assumes "open_limiters bl"
  shows "quietly (acquire_costs bl a b c d) (Inr ())"
proof -
  have "quietly (acquire_if bl x l n) (Inr ())" for x l n
    using assms by (simp add: acquire_if_def open_limiters_def)
  then show ?thesis unfolding acquire_costs_def by (blast intro: quietly_then)
qed

lemma calling_answered:
  assumes "quietly acquire (Inr ())" and "quietly m r"
  shows "quietly (calling acquire m) (map_sum mapped_error id r)"
proof -
  have "quietly (lift_rest acquire) (Inr ())" using quietly_lift [OF assms(1)] by simp
  then show ?thesis unfolding calling_def by (rule quietly_outside [OF quietly_then]) (rule assms(2))
qed

section \<open>Lost answers of a placement\<close>

lemma regular_params_client_id: "map_regular_order_params ord = Inr ps \<Longrightarrow> map_of ps ''newClientOrderId'' \<noteq> None"
  by (auto simp: map_regular_order_params_def split: if_splits)

lemma route_regular_answered:
  assumes "signing ra" and "answering ra ''POST'' ''/fapi/v1/order'' answer"
    and "o_order_route ord = Some REGULAR" and "map_regular_order_params ord = Inr ps"
  shows "quietly (route_regular_order ra ord)
    (sum_bind (read_answer (ra_show_json ra) True answer) (one_row order_resp_from_response))"
proof -
  have "with_client_id ps = ret ps"
    using regular_params_client_id [OF assms(4)] by (auto simp: with_client_id_def)
  then have "route_regular_order ra ord =
      fetch ra ''POST'' ''/fapi/v1/order'' ps (one_row order_resp_from_response)"
    by (simp add: route_regular_order_def assms(3,4) place_regular_order_def lift_rest_def prog_simps fun_eq_iff)
  with fetch_answered [OF assms(1,2), of ps "one_row order_resp_from_response"] show ?thesis
    by (simp add: execution_at_stake_def is_mutating_request_def is_order_or_cancel_path_def upper_def upper_char_def)
qed

lemma route_conditional_answered:
  assumes "signing ra" and "answering ra ''POST'' ''/fapi/v1/algoOrder'' answer"
    and "o_order_route ord = Some CONDITIONAL" and "map_conditional_order_params ord = Inr ps"
  shows "quietly (route_conditional_order ra ord)
    (sum_bind (read_answer (ra_show_json ra) False answer) (strict_row algo_order_resp_from_response))"
proof -
  have "route_conditional_order ra ord =
      fetch ra ''POST'' ''/fapi/v1/algoOrder'' ps (strict_row algo_order_resp_from_response)"
    by (simp add: route_conditional_order_def assms(3,4) place_algo_order_def lift_rest_def prog_simps fun_eq_iff)
  with fetch_answered [OF assms(1,2), of ps "strict_row algo_order_resp_from_response"] show ?thesis
    by (simp add: execution_at_stake_def is_order_or_cancel_path_def)
qed

text \<open>A placement that raises: the failure clause runs on a state that still holds the order.\<close>

lemma placement_raises:
  assumes "stores_up s" and "current ord s" and "o_status ord = OS_SUBMITTED"
    and "env_clients env (o_exchange ord, o_market_type ord) = Some c"
    and "quietly (place_exchange_order env ord) (Inl e)"
  shows "\<exists>ord' t. send_order env ord s = (Inr ord', t) \<and> current ord' t \<and> outcome_of (Inl e) ord' \<and>
    o_version ord' = o_version ord + 1"
proof -
  have client: "client_for_market env (o_exchange ord) (o_market_type ord) s = (Inr c, s)"
    by (simp add: client_for_market_def registry_get_def assms(4) prog_simps)
  obtain u where u: "place_exchange_order env ord s = (Inl e, u)" "w_orders u = w_orders s" "stores_up s \<longrightarrow> stores_up u"
    by (rule quietlyE [OF assms(5), where s = s])
  have "stores_up u" "current ord u" using u assms(1,2) by (simp_all add: current_def)
  from submit_failure_up [OF this assms(3), of env e] u(1) client show ?thesis
    by (auto simp: send_order_def prog_simps)
qed

lemma placement_error:
  assumes "open_limiters (bc_limiter bc)"
  shows "quietly (route_regular_order (bc_adapter bc) ord) (Inl err) \<Longrightarrow>
      quietly (binance_place_order bc ord) (Inl (mapped_error err))"
    and "quietly (route_conditional_order (bc_adapter bc) ord) (Inl err) \<Longrightarrow>
      quietly (binance_place_conditional_order bc ord) (Inl (mapped_error err))"
  using calling_answered [OF acquire_open [OF assms], of _ "Inl err"]
  by (auto simp: binance_place_order_def binance_place_conditional_order_def acquire_single_order_def intro!: quietly_stop)

lemma placement_of_client:
  assumes "env_clients env (o_exchange ord, o_market_type ord) = Some (binance_client bc)"
  shows "o_order_route ord = Some REGULAR \<Longrightarrow> quietly (binance_place_order bc ord) (Inl e) \<Longrightarrow>
      quietly (place_exchange_order env ord) (Inl e)"
    and "o_order_route ord = Some CONDITIONAL \<Longrightarrow> quietly (binance_place_conditional_order bc ord) (Inl e) \<Longrightarrow>
      quietly (place_exchange_order env ord) (Inl e)"
proof -
  have client: "client_for_market env (o_exchange ord) (o_market_type ord) = ret (binance_client bc)"
    by (simp add: client_for_market_def registry_get_def assms liftSum_def ret_def)
  show "quietly (place_exchange_order env ord) (Inl e)"
    if "o_order_route ord = Some REGULAR" "quietly (binance_place_order bc ord) (Inl e)"
    unfolding place_exchange_order_def client
    using quietly_stop [OF that(2)] that(1) by (simp add: binance_client_def)
  show "quietly (place_exchange_order env ord) (Inl e)"
    if "o_order_route ord = Some CONDITIONAL" "quietly (binance_place_conditional_order bc ord) (Inl e)"
    unfolding place_exchange_order_def client
    using quietly_stop [OF that(2)] that(1) by (simp add: binance_client_def)
qed

section \<open>Orders the router accepts\<close>

definition routed_params :: "order \<Rightarrow> exn + json_obj" where
  "routed_params ord =
     (if o_order_route ord = Some REGULAR then map_regular_order_params ord else map_conditional_order_params ord)"

text \<open>Prices that passed the validator are texts of decimals, so they are not empty.\<close>

lemma decimal_truthy: "check_decimal_opt v = Inr v \<Longrightarrow> v \<noteq> None \<Longrightarrow> truthy v"
  by (auto simp: check_decimal_opt_def check_decimal_def decimal_string_def decimal_pattern_def split: option.splits sum.splits if_splits)

lemma internal_order_fields:
  assumes "validate_request req0 = Inr req"
  shows "o_order_type (internal_order i req source sig strat now) = r_order_type req"
    and "o_price (internal_order i req source sig strat now) = r_price req"
    and "o_trigger_price (internal_order i req source sig strat now) = r_trigger_price req"
    and "o_quantity (internal_order i req source sig strat now) = r_quantity req"
    and "o_reduce_only (internal_order i req source sig strat now) = r_reduce_only req"
    and "o_close_position (internal_order i req source sig strat now) = r_close_position req"
    and "o_position_side (internal_order i req source sig strat now) = r_position_side req"
    and "o_time_in_force (internal_order i req source sig strat now) = r_time_in_force req"
    and "o_side (internal_order i req source sig strat now) = r_side req"
  by (simp_all add: internal_order_def fill_order_ids_def Let_def order_from_request_def blank_order_def)

lemma validated_params:
  assumes "validate_request req0 = Inr req"
  shows "truthy (r_price req) = (r_order_type req \<in> {LIMIT, STOP_LIMIT})"
    and "truthy (r_trigger_price req) = (r_order_type req \<in> {STOP_MARKET, STOP_LIMIT})"
    and "(r_order_type req \<in> {LIMIT, STOP_LIMIT}) \<Longrightarrow> r_time_in_force req \<noteq> None"
    and "\<not> (r_reduce_only req \<and> r_close_position req)"
proof -
  note v = validated_request [OF assms]
  have fields: "required_fields_by_type (r_order_type req) (r_price req) (r_trigger_price req) (r_time_in_force req) = Inr ()"
    and flags: "\<not> (r_reduce_only req \<and> r_close_position req)"
    using v(6) by (auto simp: validate_order_type_required_fields_def split: if_splits)
  have price: "truthy (r_price req) = (r_price req \<noteq> None)" "truthy (r_trigger_price req) = (r_trigger_price req \<noteq> None)"
    using decimal_truthy [OF v(2)] decimal_truthy [OF v(3)] by (auto simp: truthy_def split: option.splits)
  show "truthy (r_price req) = (r_order_type req \<in> {LIMIT, STOP_LIMIT})"
    "truthy (r_trigger_price req) = (r_order_type req \<in> {STOP_MARKET, STOP_LIMIT})"
    "r_order_type req \<in> {LIMIT, STOP_LIMIT} \<Longrightarrow> r_time_in_force req \<noteq> None"
    unfolding price using fields by (cases "r_order_type req"; auto split: if_splits)+
  show "\<not> (r_reduce_only req \<and> r_close_position req)" by (rule flags)
qed

lemma keys_of_params:
  "map fst (reduce_only_params ord) = (if o_reduce_only ord \<and> o_position_side ord = BOTH then [''reduceOnly''] else [])"
  "map fst (price_params ord) = ''price'' # (if o_time_in_force ord = None then [] else [''timeInForce''])"
  "fst ` set (reduce_only_params ord) = (if o_reduce_only ord \<and> o_position_side ord = BOTH then {''reduceOnly''} else {})"
  "fst ` set (price_params ord) = insert ''price'' (if o_time_in_force ord = None then {} else {''timeInForce''})"
  by (cases "o_time_in_force ord"; simp add: reduce_only_params_def price_params_def opt_param_def)+

section \<open>Batches\<close>

text \<open>What the answer says, item by item.\<close>

definition item_result :: "(json \<Rightarrow> string) \<Rightarrow> order \<Rightarrow> json_obj \<Rightarrow> batch_result" where
  "item_result show_json ord item =
     (case error_item (JObj item) of
        Some e \<Rightarrow> BatchReject (batch_reject_of show_json ord e)
      | None \<Rightarrow> BatchAck (order_ack_from_response show_json ord (order_resp_from_response item)))"

definition refused :: "json_obj \<Rightarrow> bool" where
  "refused item = (error_item (JObj item) \<noteq> None)"

fun result_client_id :: "batch_result \<Rightarrow> string" where
  "result_client_id (BatchAck a) = ack_client_order_id a"
| "result_client_id (BatchReject r) = rej_client_order_id r"

lemma error_item_same: "error_item (JObj item) = Some e \<Longrightarrow> e = item"
  by (auto simp: error_item_def split: option.splits if_splits)

lemma split_batch_objects:
  "split_batch (map JObj items) =
     Inr (map order_resp_from_response (filter (\<lambda>x. \<not> refused x) items), filter refused items)"
proof (induction items)
  case (Cons x xs)
  then show ?case
    by (cases "error_item (JObj x)") (auto simp: refused_def one_row_def as_row_def dest: error_item_same)
qed simp

lemma batch_results_client_ids:
  "map result_client_id (batch_results_of show_json orders success errors) =
     map client_key (take (length success) orders) @ map client_key (take (length errors) orders)"
proof -
  have ack: "map (\<lambda>(ord, row). client_key ord) (zip orders xs) = map client_key (take (length xs) orders)" for xs :: "'a list"
    by (induction orders xs rule: list_induct2') simp_all
  have "map result_client_id (map (\<lambda>(ord, row). BatchAck (order_ack_from_response show_json ord row)) (zip orders success))
      = map (\<lambda>(ord, row). client_key ord) (zip orders success)"
    by (simp add: order_ack_from_response_def split: prod.split)
  moreover have "map result_client_id (map (\<lambda>(ord, row). BatchReject (batch_reject_of show_json ord row)) (zip orders errors))
      = map (\<lambda>(ord, row). client_key ord) (zip orders errors)"
    by (simp add: batch_reject_of_def Let_def split: prod.split)
  ultimately show ?thesis by (simp add: batch_results_of_def ack)
qed

lemma collect_sum_Cons: "collect_sum (r # rs) = sum_bind r (\<lambda>x. map_sum id ((#) x) (collect_sum rs))"
  by (simp add: collect_sum_def)

lemma params_collected:
  assumes "\<And>ord. ord \<in> set orders \<Longrightarrow> \<exists>ps. map_regular_order_params ord = Inr ps"
  obtains pss where "collect_sum (map map_regular_order_params orders) = Inr pss" "length pss = length orders"
    "\<forall>ps\<in>set pss. map_of ps ''newClientOrderId'' \<noteq> None"
  using assms
proof (induction orders arbitrary: thesis)
  case (Cons ord orders)
  from Cons.prems(2) obtain pss where pss: "collect_sum (map map_regular_order_params orders) = Inr pss"
    "length pss = length orders" "\<forall>ps\<in>set pss. map_of ps ''newClientOrderId'' \<noteq> None"
    using Cons.IH by auto
  obtain ps where ps: "map_regular_order_params ord = Inr ps" using Cons.prems(2) by auto
  show ?case
    by (rule Cons.prems(1) [of "ps # pss"])
      (use pss ps regular_params_client_id [OF ps] in \<open>auto simp: collect_sum_Cons\<close>)
qed (simp add: collect_sum_def)

lemma enrich_keeps:
  assumes "\<forall>ps\<in>set pss. map_of ps ''newClientOrderId'' \<noteq> None"
  shows "foldE (\<lambda>item acc. andThen (with_client_id item) (\<lambda>ps. ret (acc @ [ps]))) pss acc = ret (acc @ pss)"
  using assms
proof (induction pss arbitrary: acc)
  case (Cons ps pss)
  have "with_client_id ps = ret ps" using Cons.prems by (auto simp: with_client_id_def)
  with Cons show ?case by simp
qed simp

lemma batch_answered:
  assumes "signing (bc_adapter bc)" and "open_limiters (bc_limiter bc)"
    and "answering (bc_adapter bc) ''POST'' ''/fapi/v1/batchOrders'' (HttpResponse 200 headers body (Some (JList (map JObj items))))"
    and "orders \<noteq> []" and "length orders \<le> 5"
    and "\<And>ord. ord \<in> set orders \<Longrightarrow> \<exists>ps. map_regular_order_params ord = Inr ps"
  shows "quietly (binance_place_batch_orders bc orders)
    (Inr (batch_results_of (bc_str bc) orders (map order_resp_from_response (filter (\<lambda>x. \<not> refused x) items))
       (filter refused items)))"
proof -
  let ?ra = "bc_adapter bc" and ?answer = "HttpResponse 200 headers body (Some (JList (map JObj items)))"
  obtain pss where pss: "collect_sum (map map_regular_order_params orders) = Inr pss" "length pss = length orders"
    "\<forall>ps\<in>set pss. map_of ps ''newClientOrderId'' \<noteq> None"
    by (rule params_collected [OF assms(6)])
  let ?sent = "[(''batchOrders'', JStr (compact_json (JList (map JObj pss))))]"
  have "place_batch_orders ?ra pss =
      fetch ?ra ''POST'' ''/fapi/v1/batchOrders'' ?sent (\<lambda>v. sum_bind (json_iter v) split_batch)"
    using enrich_keeps [OF pss(3), of "[]"] pss(2) assms(4,5)
    by (auto simp: place_batch_orders_def MAX_BATCH_ORDERS_def)
  moreover have "read_answer (ra_show_json ?ra) stake ?answer = Inr (JList (map JObj items))" for stake
    by (simp add: safe_json_def extract_error_def status_error_def payload_error_def)
  ultimately have "quietly (place_batch_orders ?ra pss)
      (Inr (map order_resp_from_response (filter (\<lambda>x. \<not> refused x) items), filter refused items))"
    using fetch_answered [OF assms(1,3), of ?sent "\<lambda>v. sum_bind (json_iter v) split_batch"]
    by (simp add: json_iter_def split_batch_objects)
  from calling_answered [OF acquire_open [OF assms(2)] this]
  have "quietly (calling (acquire_batch_orders (bc_limiter bc)) (place_batch_orders ?ra pss))
      (Inr (map order_resp_from_response (filter (\<lambda>x. \<not> refused x) items), filter refused items))"
    by (simp add: acquire_batch_orders_def)
  then show ?thesis
    unfolding binance_place_batch_orders_def
    using pss(1) assms(4) by (auto intro!: quietly_then)
qed

lemma batch_unmixed:
  assumes "list_all refused items \<or> list_all (\<lambda>x. \<not> refused x) items"
  shows "batch_results_of show_json orders (map order_resp_from_response (filter (\<lambda>x. \<not> refused x) items)) (filter refused items) =
    map (\<lambda>(ord, item). item_result show_json ord item) (zip orders items)"
  using assms
proof
  assume all: "list_all refused items"
  then have "filter (\<lambda>x. \<not> refused x) items = []" "filter refused items = items"
    by (auto simp: list_all_iff filter_empty_conv filter_id_conv)
  moreover have "item_result show_json ord item = BatchReject (batch_reject_of show_json ord item)"
    if "item \<in> set items" for ord item
  proof -
    have "error_item (JObj item) \<noteq> None" using all that by (simp add: list_all_iff refused_def)
    then obtain e where "error_item (JObj item) = Some e" by blast
    with error_item_same [OF this] show ?thesis by (simp add: item_result_def)
  qed
  ultimately show ?thesis by (auto simp: batch_results_of_def dest: set_zip_rightD)
next
  assume all: "list_all (\<lambda>x. \<not> refused x) items"
  then have "filter (\<lambda>x. \<not> refused x) items = items" "filter refused items = []"
    by (auto simp: list_all_iff filter_empty_conv filter_id_conv)
  moreover have "item_result show_json ord item = BatchAck (order_ack_from_response show_json ord (order_resp_from_response item))"
    if "item \<in> set items" for ord item
    using all that by (auto simp: list_all_iff item_result_def refused_def)
  ultimately show ?thesis by (auto simp: batch_results_of_def zip_map2 dest: set_zip_rightD)
qed

lemma distinct_count: "distinct xs \<Longrightarrow> x \<in> set xs \<Longrightarrow> count_list xs x = 1"
  by (induction xs) auto

lemma take_keys:
  assumes "orders \<noteq> []" and "distinct (map f orders)"
  shows "0 < n \<Longrightarrow> count_list (map f (take n orders)) (f (hd orders)) = 1"
    and "n < length orders \<Longrightarrow> f (last orders) \<notin> set (map f (take n orders))"
proof -
  have dist: "distinct (map f (take n orders))" using assms(2) by (metis distinct_take take_map)
  show "count_list (map f (take n orders)) (f (hd orders)) = 1" if n: "0 < n"
  proof -
    have "hd orders \<in> set (take n orders)" using assms(1) n by (cases orders; cases n) auto
    then have "f (hd orders) \<in> set (map f (take n orders))" by simp
    with dist show ?thesis by (rule distinct_count)
  qed
  show "f (last orders) \<notin> set (map f (take n orders))" if n: "n < length orders"
  proof -
    have "last orders \<in> set (drop n orders)" using n by (metis last_drop last_in_set drop_eq_Nil leD)
    then have "f (last orders) \<in> set (map f (drop n orders))" by simp
    moreover have "map f orders = map f (take n orders) @ map f (drop n orders)"
      by (metis append_take_drop_id map_append)
    ultimately show ?thesis using assms(2) by auto
  qed
qed

section \<open>Sample transports\<close>

definition sample_adapter :: "http_answer \<Rightarrow> rest_adapter" where
  "sample_adapter answer =
     \<lparr>ra_key_type = KEY_HMAC, ra_api_secret = Some ''secret'', ra_private_key_pem = None,
      ra_hmac_sha256 = (\<lambda>_ _. ''5d41''), ra_sign_ed25519 = (\<lambda>_ _. Inl (ValueError ''no key'')),
      ra_send = (\<lambda>_ _ _. ret answer), ra_show_json = (\<lambda>_. ''[]''), ra_max_leverage = 20\<rparr>"

definition sample_parts :: "http_answer \<Rightarrow> binance_parts" where
  "sample_parts answer =
     \<lparr>bc_adapter = sample_adapter answer,
      bc_limiter = \<lparr>bl_acquire = (\<lambda>_ _. ret ()), bl_local_orders_per_day = None\<rparr>, bc_pages = 10\<rparr>"

lemma sample_parts:
  "signing (bc_adapter (sample_parts answer))" "open_limiters (bc_limiter (sample_parts answer))"
  "answering (bc_adapter (sample_parts answer)) meth path answer" "binance_ok T (sample_parts answer)"
  by (simp_all add: sample_parts_def sample_adapter_def signing_def open_limiters_def answering_def binance_ok_def)

definition binance_env :: "binance_parts \<Rightarrow> gateway_env" where
  "binance_env bc = \<lparr>env_clients = [(BINANCE, PERP) \<mapsto> binance_client bc], env_exn_text = (\<lambda>_. ''error'')\<rparr>"

definition sent_stop :: order where
  "sent_stop = sent_conditional\<lparr>o_trigger_price := Some ''59000''\<rparr>"

definition accepted_row :: json_obj where
  "accepted_row = [(''algoId'', JStr ''7''), (''algoStatus'', JStr ''NEW'')]"

definition batch_pair :: "order list" where
  "batch_pair = [sample_open, sample_open\<lparr>o_order_id := ''O-2'', o_client_order_id := Some ''O-2''\<rparr>]"

definition mixed_items :: "json_obj list" where
  "mixed_items =
     [[(''code'', JInt (- 2019)), (''msg'', JStr ''Margin is insufficient.'')],
      [(''orderId'', JInt 77), (''clientOrderId'', JStr ''O-2''), (''status'', JStr ''NEW'')]]"

section \<open>Accepted placements\<close>

text \<open>Whatever status the exchange reports of a new conditional order, there is a text for it.\<close>

lemma conditional_ack_has_text:
  "\<exists>t. map_of INTERNAL_TO_BINANCE_ALGO_STATUS (cack_conditional_status (conditional_ack_from_response show_json resp)) = Some t"
proof (cases "map_conditional_status show_json (ao_algoStatus resp)")
  case None
  then show ?thesis by (simp add: conditional_ack_from_response_def status_or_def INTERNAL_TO_BINANCE_ALGO_STATUS_def)
next
  case (Some st)
  then have "st \<in> snd ` set BINANCE_ALGO_STATUS_MAP"
    by (auto simp: map_conditional_status_def split: if_splits dest!: map_of_SomeD intro!: image_eqI [where x = "(_, st)"])
  with Some show ?thesis
    by (auto simp: conditional_ack_from_response_def status_or_def BINANCE_ALGO_STATUS_MAP_def
        INTERNAL_TO_BINANCE_ALGO_STATUS_def)
qed

lemma acknowledge_conditional_up:
  assumes "stores_up s" and "current ord s" and "o_status ord = OS_SUBMITTED" and "o_conditional_status ord = None"
    and "c_exchange_conditional_status c (cack_conditional_status a) = Some label"
  shows "\<exists>ord' t. acknowledge_exchange_ack ord (ConditionalAck a) c s = (Inr ord', t) \<and> current ord' t \<and>
    o_status ord' = OS_ACKNOWLEDGED \<and> o_exchange_conditional_id ord' = cack_exchange_conditional_id a \<and>
    o_conditional_status ord' = Some (cack_conditional_status a)"
proof -
  obtain now s' where s': "epoch_ms s = (Inr now, s')" "stores_up s'" "w_orders s' = w_orders s"
    using epoch_ms_up [OF assms(1)] by blast
  have cur: "current ord s'" using assms(2) s'(3) by (simp add: current_def)
  have "cond_assert_can_transition None (cack_conditional_status a) = Inr ()"
    by (cases "cack_conditional_status a") (simp_all add: cond_assert_can_transition_def cond_can_transition_def)
  moreover from set_status_up [OF s'(2) cur, of OS_ACKNOWLEDGED
      "[FAcknowledgedTs (Some now), FRawExchangeResponse (Some (cack_raw a)),
        FExchangeConditionalId (cack_exchange_conditional_id a),
        FConditionalStatus (Some (cack_conditional_status a)), FExchangeConditionalStatus (Some label)]" True] assms(3)
  obtain n d t where d: "apply_fields [FAcknowledgedTs (Some now), FRawExchangeResponse (Some (cack_raw a)),
        FExchangeConditionalId (cack_exchange_conditional_id a),
        FConditionalStatus (Some (cack_conditional_status a)), FExchangeConditionalStatus (Some label)]
        (ord\<lparr>o_status := OS_ACKNOWLEDGED, o_updated_ts := n\<rparr>) = Inr d"
    and run: "set_status ord OS_ACKNOWLEDGED True True [FAcknowledgedTs (Some now), FRawExchangeResponse (Some (cack_raw a)),
        FExchangeConditionalId (cack_exchange_conditional_id a),
        FConditionalStatus (Some (cack_conditional_status a)), FExchangeConditionalStatus (Some label)] s' =
        (Inr (stamped OS_ACKNOWLEDGED n (o_version ord + 1) d), t)"
    and cur': "current (stamped OS_ACKNOWLEDGED n (o_version ord + 1) d) t"
    by (auto simp: status_step_iff known_field_def)
  moreover have "o_exchange_conditional_id d = cack_exchange_conditional_id a"
    "o_conditional_status d = Some (cack_conditional_status a)" "o_status d = OS_ACKNOWLEDGED"
    using d by auto
  ultimately show ?thesis using s'(1) assms(4,5)
    by (auto simp: acknowledge_exchange_ack_def prog_simps)
qed

lemma placement_acknowledged:
  assumes "stores_up s" and "current ord s"
    and "env_clients env (o_exchange ord, o_market_type ord) = Some c"
    and "quietly (place_exchange_order env ord) (Inr placed)"
  obtains u where "stores_up u" and "current ord u"
    and "\<And>ord' t. acknowledge_exchange_ack ord placed c u = (Inr ord', t) \<Longrightarrow> send_order env ord s = (Inr ord', t)"
proof -
  have client: "client_for_market env (o_exchange ord) (o_market_type ord) s = (Inr c, s)"
    by (simp add: client_for_market_def registry_get_def assms(3) prog_simps)
  obtain u where u: "place_exchange_order env ord s = (Inr placed, u)" "w_orders u = w_orders s" "stores_up s \<longrightarrow> stores_up u"
    by (rule quietlyE [OF assms(4), where s = s])
  show thesis
  proof (rule that)
    show "stores_up u" "current ord u" using u assms(1,2) by (simp_all add: current_def)
    show "send_order env ord s = (Inr ord', t)" if "acknowledge_exchange_ack ord placed c u = (Inr ord', t)" for ord' t
      using that u(1) client by (simp add: send_order_def prog_simps)
  qed
qed

lemma placement_accepted:
  assumes "open_limiters (bc_limiter bc)"
    and "env_clients env (o_exchange ord, o_market_type ord) = Some (binance_client bc)"
  shows "o_order_route ord = Some REGULAR \<Longrightarrow> quietly (route_regular_order (bc_adapter bc) ord) (Inr resp) \<Longrightarrow>
      quietly (place_exchange_order env ord) (Inr (OrderAck (order_ack_from_response (bc_str bc) ord resp)))"
    and "o_order_route ord = Some CONDITIONAL \<Longrightarrow> quietly (route_conditional_order (bc_adapter bc) ord) (Inr algo) \<Longrightarrow>
      quietly (place_exchange_order env ord) (Inr (ConditionalAck (conditional_ack_from_response (bc_str bc) algo)))"
proof -
  have client: "client_for_market env (o_exchange ord) (o_market_type ord) = ret (binance_client bc)"
    by (simp add: client_for_market_def registry_get_def assms(2) liftSum_def ret_def)
  have single: "quietly (acquire_single_order (bc_limiter bc)) (Inr ())"
    unfolding acquire_single_order_def by (rule acquire_open [OF assms(1)])
  note called = calling_answered [OF single]
  show "quietly (place_exchange_order env ord) (Inr (OrderAck (order_ack_from_response (bc_str bc) ord resp)))"
    if route: "o_order_route ord = Some REGULAR" and ok: "quietly (route_regular_order (bc_adapter bc) ord) (Inr resp)"
  proof -
    have "quietly (calling (acquire_single_order (bc_limiter bc)) (route_regular_order (bc_adapter bc) ord)) (Inr resp)"
      using called [OF ok] by simp
    then have "quietly (andThen (calling (acquire_single_order (bc_limiter bc)) (route_regular_order (bc_adapter bc) ord))
        (\<lambda>x. ret (OrderAck (order_ack_from_response (bc_str bc) ord x)))) (Inr (OrderAck (order_ack_from_response (bc_str bc) ord resp)))"
      by (rule quietly_then) simp
    then show ?thesis
      unfolding place_exchange_order_def client
      by (simp add: route binance_client_def binance_place_order_def andThen_assoc)
  qed
  show "quietly (place_exchange_order env ord) (Inr (ConditionalAck (conditional_ack_from_response (bc_str bc) algo)))"
    if route: "o_order_route ord = Some CONDITIONAL" and ok: "quietly (route_conditional_order (bc_adapter bc) ord) (Inr algo)"
  proof -
    have "quietly (calling (acquire_single_order (bc_limiter bc)) (route_conditional_order (bc_adapter bc) ord)) (Inr algo)"
      using called [OF ok] by simp
    then have "quietly (andThen (calling (acquire_single_order (bc_limiter bc)) (route_conditional_order (bc_adapter bc) ord))
        (\<lambda>x. ret (ConditionalAck (conditional_ack_from_response (bc_str bc) x)))) (Inr (ConditionalAck (conditional_ack_from_response (bc_str bc) algo)))"
      by (rule quietly_then) simp
    then show ?thesis
      unfolding place_exchange_order_def client
      by (simp add: route binance_client_def binance_place_conditional_order_def andThen_assoc)
  qed
qed

section \<open>Properties\<close>



text \<open>C36: A validated request makes an order the router sends: no branch of the router raises for it; a price
  and a time in force are sent for limit types only, a trigger price for stops only; reduce-only is sent
  in one-way mode only and never together with closing a position; the quantity is left out only when
  the position is closed by a stop.  The wish to close the position is dropped for regular orders.\<close>

theorem router_params:
  assumes "validate_request req0 = Inr req" and "ord = internal_order i req source signal_id strategy_name now"
  shows "\<exists>ps. routed_params ord = Inr ps \<and> distinct (map fst ps) \<and>
    (''price'' \<in> set (map fst ps)) = (r_order_type req \<in> {LIMIT, STOP_LIMIT}) \<and>
    (''timeInForce'' \<in> set (map fst ps)) = (r_order_type req \<in> {LIMIT, STOP_LIMIT}) \<and>
    (''triggerPrice'' \<in> set (map fst ps)) = (r_order_type req \<in> {STOP_MARKET, STOP_LIMIT}) \<and>
    (''reduceOnly'' \<in> set (map fst ps)) = (r_reduce_only req \<and> r_position_side req = BOTH) \<and>
    (''closePosition'' \<in> set (map fst ps)) = (r_close_position req \<and> r_order_type req \<in> {STOP_MARKET, STOP_LIMIT}) \<and>
    (''quantity'' \<in> set (map fst ps)) = (''closePosition'' \<notin> set (map fst ps))"
proof -
  note f = internal_order_fields [OF assms(1), of i source signal_id strategy_name now]
    internal_order_parts(3) [OF assms(1), of i source signal_id strategy_name now]
  note v = validated_params [OF assms(1)]
  obtain tif where tif: "r_order_type req \<in> {LIMIT, STOP_LIMIT} \<Longrightarrow> r_time_in_force req = Some tif" using v(3) by blast
  note defs = routed_params_def map_regular_order_params_def map_conditional_order_params_def keys_of_params
  show ?thesis
  proof (cases "r_order_type req")
    case MARKET
    with f v show ?thesis
      by (cases "r_reduce_only req \<and> r_position_side req = BOTH") (auto simp: assms(2) defs image_Un)
  next
    case LIMIT
    with f v tif show ?thesis
      by (cases "r_reduce_only req \<and> r_position_side req = BOTH") (auto simp: assms(2) defs image_Un)
  next
    case STOP_MARKET
    with f v show ?thesis
      by (cases "r_close_position req"; cases "r_reduce_only req \<and> r_position_side req = BOTH") (auto simp: assms(2) defs image_Un)
  next
    case STOP_LIMIT
    with f v tif show ?thesis
      by (cases "r_close_position req"; cases "r_reduce_only req \<and> r_position_side req = BOTH") (auto simp: assms(2) defs image_Un)
  qed
qed

lemma router_params_witness:
  "\<exists>ps. routed_params (internal_order ''N'' accepted_buy MANUAL None None 5) = Inr ps \<and>
    ''quantity'' \<in> set (map fst ps) \<and> ''price'' \<notin> set (map fst ps) \<and> ''reduceOnly'' \<notin> set (map fst ps)"
  using router_params [OF accepted_buy refl, of "''N''" MANUAL None None 5]
  by (auto simp: accepted_buy_def market_buy_def)

text \<open>C33: An order whose placement gets no answer from the exchange ends \<open>UNKNOWN\<close>, to be looked up later, when
  it is a regular order.  A conditional order ends \<open>REJECTED\<close> for good although the exchange may hold
  it: the path of conditional orders is not among those whose execution the adapter calls unknown.\<close>

theorem lost_placement_outcome:
  assumes "stores_up s" and "current ord s" and "o_status ord = OS_SUBMITTED"
    and "env_clients env (o_exchange ord, o_market_type ord) = Some (binance_client bc)"
    and "signing (bc_adapter bc)" and "open_limiters (bc_limiter bc)"
    and "\<And>path. answering (bc_adapter bc) ''POST'' path (HttpTimeout e)"
    and "o_order_route ord \<noteq> None" and "routed_params ord = Inr ps"
  shows "\<exists>ord' t. send_order env ord s = (Inr ord', t) \<and> current ord' t \<and>
    (if o_order_route ord = Some REGULAR
     then o_status ord' = OS_UNKNOWN \<and> o_reject_reason ord' = Some RR_UNKNOWN_EXECUTION
     else o_status ord' = OS_REJECTED \<and> o_reject_reason ord' = Some RR_EXCHANGE_REJECTED \<and>
          o_exchange_error_code ord' = Some (- 1007))"
proof (cases "o_order_route ord = Some REGULAR")
  case True
  let ?err = "BinanceApiError BinanceUnknownExecution (- 1007) (''HTTP client timeout during mutating signed request: '' @ e) 0"
  have "quietly (route_regular_order (bc_adapter bc) ord) (Inl ?err)"
    using route_regular_answered [OF assms(5,7) True] True assms(9) by (simp add: routed_params_def lost_answer_def)
  then have "quietly (binance_place_order bc ord) (Inl (mapped_error ?err))" by (rule placement_error [OF assms(6)])
  from placement_raises [OF assms(1,2,3,4) placement_of_client(1) [OF assms(4) True this]] True
  show ?thesis by (auto simp: outcome_of_def category_of_def)
next
  case False
  then have route: "o_order_route ord = Some CONDITIONAL"
    using assms(8) by (cases "o_order_route ord"; cases "the (o_order_route ord)") auto
  let ?err = "BinanceApiError BinanceNetwork (- 1007) (''HTTP client timeout: '' @ e) 0"
  have "quietly (route_conditional_order (bc_adapter bc) ord) (Inl ?err)"
    using route_conditional_answered [OF assms(5,7) route] False assms(9) by (simp add: routed_params_def lost_answer_def)
  then have "quietly (binance_place_conditional_order bc ord) (Inl (mapped_error ?err))"
    by (rule placement_error [OF assms(6)])
  from placement_raises [OF assms(1,2,3,4) placement_of_client(2) [OF assms(4) route this]] False
  show ?thesis by (auto simp: outcome_of_def category_of_def map_exchange_error_to_reason_def)
qed

lemma lost_placement_outcome_witness:
  "\<exists>ord' t. send_order (binance_env (sample_parts (HttpTimeout ''t''))) sent_stop (holding sent_stop) = (Inr ord', t) \<and>
    current ord' t \<and> o_status ord' = OS_REJECTED \<and> o_exchange_error_code ord' = Some (- 1007)"
proof -
  have st: "o_status sent_stop = OS_SUBMITTED"
    and reg: "env_clients (binance_env (sample_parts (HttpTimeout ''t''))) (o_exchange sent_stop, o_market_type sent_stop) =
      Some (binance_client (sample_parts (HttpTimeout ''t'')))"
    by (simp_all add: binance_env_def sent_stop_def sent_conditional_def sample_open_def blank_order_def)
  have route: "o_order_route sent_stop = Some CONDITIONAL" by (simp add: sent_stop_def sent_conditional_def)
  have "isl (routed_params sent_stop) = False"
    by (simp add: sent_stop_def sent_conditional_def routed_params_def map_conditional_order_params_def)
  then obtain ps where ps: "routed_params sent_stop = Inr ps" by (cases "routed_params sent_stop") auto
  have "stores_up (holding sent_stop)" "current sent_stop (holding sent_stop)"
    by (simp_all add: stores_up_def current_def holding_def created_world_def blank_world_def truncate_keeps)
  from lost_placement_outcome [OF this st reg sample_parts(1) sample_parts(2) sample_parts(3) _ ps] route
  show ?thesis by auto
qed

text \<open>C34: An order the exchange accepts ends \<open>ACKNOWLEDGED\<close> under the id the exchange gave it, whatever
  status text the answer has; a conditional order gets the conditional status the text stands for, \<open>NEW\<close>
  for a text the adapter does not know.\<close>

theorem accepted_placement_outcome:
  assumes "stores_up s" and "current ord s" and "o_status ord = OS_SUBMITTED" and "o_conditional_status ord = None"
    and "env_clients env (o_exchange ord, o_market_type ord) = Some (binance_client bc)"
    and "signing (bc_adapter bc)" and "open_limiters (bc_limiter bc)"
    and "\<And>path. answering (bc_adapter bc) ''POST'' path (HttpResponse 200 headers body (Some (JObj row)))"
    and "\<not> refused row" and "o_order_route ord \<noteq> None" and "routed_params ord = Inr ps"
  shows "\<exists>ord' t. send_order env ord s = (Inr ord', t) \<and> current ord' t \<and> o_status ord' = OS_ACKNOWLEDGED \<and>
    (if o_order_route ord = Some REGULAR
     then o_exchange_order_id ord' = text_opt (bc_str bc) (json_get row ''orderId'')
     else o_exchange_conditional_id ord' = text_opt (bc_str bc) (json_get row ''algoId'') \<and>
          o_conditional_status ord' =
            Some (status_or (map_conditional_status (bc_str bc) (json_get row ''algoStatus'')) CS_NEW))"
proof -
  have "payload_error show_json (JObj row) 200 = None" for show_json
    using assms(9) by (auto simp: payload_error_def refused_def error_item_def split: option.splits if_splits)
  then have read: "read_answer show_json stake (HttpResponse 200 headers body (Some (JObj row))) = Inr (JObj row)"
    for show_json stake
    by (simp add: safe_json_def status_error_def split: prod.split)
  show ?thesis
  proof (cases "o_order_route ord = Some REGULAR")
    case True
    let ?ack = "order_ack_from_response (bc_str bc) ord (order_resp_from_response row)"
    have "quietly (route_regular_order (bc_adapter bc) ord) (Inr (order_resp_from_response row))"
      using route_regular_answered [OF assms(6,8) True] True assms(11)
      by (simp add: routed_params_def read one_row_def as_row_def del: read_answer.simps)
    from placement_accepted(1) [OF assms(7,5) True this]
    obtain u where u: "stores_up u" "current ord u"
      "\<And>ord' t. acknowledge_exchange_ack ord (OrderAck ?ack) (binance_client bc) u = (Inr ord', t) \<Longrightarrow>
         send_order env ord s = (Inr ord', t)"
      by (rule placement_acknowledged [OF assms(1,2,5)]) blast
    obtain ord' t where "acknowledge_exchange_ack ord (OrderAck ?ack) (binance_client bc) u = (Inr ord', t)"
      "current ord' t" "outcome_of (Inr ?ack) ord'"
      using acknowledge_up [OF u(1,2) assms(3), of ?ack "binance_client bc"] by blast
    with u(3) True show ?thesis
      by (auto simp: outcome_of_def order_ack_from_response_def order_resp_from_response_def)
  next
    case False
    then have route: "o_order_route ord = Some CONDITIONAL"
      using assms(10) by (cases "o_order_route ord"; cases "the (o_order_route ord)") auto
    let ?ack = "conditional_ack_from_response (bc_str bc) (algo_order_resp_from_response row)"
    have "quietly (route_conditional_order (bc_adapter bc) ord) (Inr (algo_order_resp_from_response row))"
      using route_conditional_answered [OF assms(6,8) route] False assms(11)
      by (simp add: routed_params_def read strict_row_def del: read_answer.simps)
    from placement_accepted(2) [OF assms(7,5) route this]
    obtain u where u: "stores_up u" "current ord u"
      "\<And>ord' t. acknowledge_exchange_ack ord (ConditionalAck ?ack) (binance_client bc) u = (Inr ord', t) \<Longrightarrow>
         send_order env ord s = (Inr ord', t)"
      by (rule placement_acknowledged [OF assms(1,2,5)]) blast
    obtain label where label: "c_exchange_conditional_status (binance_client bc) (cack_conditional_status ?ack) = Some label"
      using conditional_ack_has_text by (auto simp: binance_client_def)
    from acknowledge_conditional_up [OF u(1,2) assms(3,4) label] u(3) False show ?thesis
      by (auto simp: conditional_ack_from_response_def algo_order_resp_from_response_def)
  qed
qed

lemma accepted_placement_outcome_witness:
  "\<exists>ord' t. send_order (binance_env (sample_parts (HttpResponse 200 [] [] (Some (JObj accepted_row))))) sent_stop (holding sent_stop) =
      (Inr ord', t) \<and> current ord' t \<and> o_status ord' = OS_ACKNOWLEDGED \<and>
    o_exchange_conditional_id ord' = Some ''7'' \<and> o_conditional_status ord' = Some CS_NEW"
proof -
  have fields: "o_status sent_stop = OS_SUBMITTED" "o_conditional_status sent_stop = None"
    and reg: "env_clients (binance_env bc) (o_exchange sent_stop, o_market_type sent_stop) = Some (binance_client bc)" for bc
    by (simp_all add: binance_env_def sent_stop_def sent_conditional_def sample_open_def blank_order_def)
  have route: "o_order_route sent_stop = Some CONDITIONAL" by (simp add: sent_stop_def sent_conditional_def)
  have "isl (routed_params sent_stop) = False"
    by (simp add: sent_stop_def sent_conditional_def routed_params_def map_conditional_order_params_def)
  then obtain ps where ps: "routed_params sent_stop = Inr ps" by (cases "routed_params sent_stop") auto
  have row: "\<not> refused accepted_row" by (simp add: accepted_row_def refused_def error_item_def json_get_def)
  have "stores_up (holding sent_stop)" "current sent_stop (holding sent_stop)"
    by (simp_all add: stores_up_def current_def holding_def created_world_def blank_world_def truncate_keeps)
  from accepted_placement_outcome [OF this fields reg sample_parts(1) sample_parts(2) sample_parts(3) row _ ps] route
  show ?thesis
    by (auto simp: accepted_row_def json_get_def text_opt_def bc_str_def map_conditional_status_def status_or_def
        BINANCE_ALGO_STATUS_MAP_def upper_def upper_char_def)
qed

text \<open>C35: The answer to a batch is attributed to its orders item by item when all items are accepted or all are
  refused.  When some are accepted and some refused, the first order gets two results, one acceptance
  and one refusal, and the last order none, wherever the refused items stand.\<close>

theorem batch_answers_attributed:
  assumes "signing (bc_adapter bc)" and "open_limiters (bc_limiter bc)"
    and "answering (bc_adapter bc) ''POST'' ''/fapi/v1/batchOrders'' (HttpResponse 200 headers body (Some (JList (map JObj items))))"
    and "orders \<noteq> []" and "length orders \<le> 5" and "length items = length orders" and "distinct (map client_key orders)"
    and "\<And>ord. ord \<in> set orders \<Longrightarrow> \<exists>ps. map_regular_order_params ord = Inr ps"
  shows "\<exists>results. quietly (binance_place_batch_orders bc orders) (Inr results) \<and>
    (if list_all refused items \<or> list_all (\<lambda>x. \<not> refused x) items
     then results = map (\<lambda>(ord, item). item_result (bc_str bc) ord item) (zip orders items)
     else count_list (map result_client_id results) (client_key (hd orders)) = 2 \<and>
          client_key (last orders) \<notin> set (map result_client_id results))"
proof -
  let ?ok = "filter (\<lambda>x. \<not> refused x) items" and ?bad = "filter refused items"
  let ?results = "batch_results_of (bc_str bc) orders (map order_resp_from_response ?ok) ?bad"
  have quiet: "quietly (binance_place_batch_orders bc orders) (Inr ?results)"
    by (rule batch_answered [OF assms(1,2,3,4,5,8)])
  show ?thesis
  proof (intro exI conjI)
    show "quietly (binance_place_batch_orders bc orders) (Inr ?results)" by (rule quiet)
    have total: "length ?ok + length ?bad = length orders"
      using sum_length_filter_compl [of refused items] assms(6) by simp
    show "if list_all refused items \<or> list_all (\<lambda>x. \<not> refused x) items
      then ?results = map (\<lambda>(ord, item). item_result (bc_str bc) ord item) (zip orders items)
      else count_list (map result_client_id ?results) (client_key (hd orders)) = 2 \<and>
        client_key (last orders) \<notin> set (map result_client_id ?results)"
    proof (cases "list_all refused items \<or> list_all (\<lambda>x. \<not> refused x) items")
      case True
      then show ?thesis using batch_unmixed [where items = items] by simp
    next
      case False
      then have "0 < length ?ok" "0 < length ?bad" by (auto simp: list_all_iff filter_empty_conv)
      with total have "length ?ok < length orders" "length ?bad < length orders" by linarith+
      with \<open>0 < length ?ok\<close> \<open>0 < length ?bad\<close> False take_keys [OF assms(4,7)] show ?thesis
        by (simp add: batch_results_client_ids)
    qed
  qed
qed

lemma batch_answers_attributed_witness:
  "\<exists>results. quietly (binance_place_batch_orders (sample_parts (HttpResponse 200 [] [] (Some (JList (map JObj mixed_items))))) batch_pair)
      (Inr results) \<and>
    count_list (map result_client_id results) ''O-1'' = 2 \<and> ''O-2'' \<notin> set (map result_client_id results)"
proof -
  have keys: "map client_key batch_pair = [''O-1'', ''O-2'']"
    by (simp add: batch_pair_def client_key_def sample_open_def or_str_def)
  have mixed: "\<not> list_all refused mixed_items" "\<not> list_all (\<lambda>x. \<not> refused x) mixed_items"
    by (simp_all add: mixed_items_def refused_def error_item_def json_get_def)
  have params: "\<exists>ps. map_regular_order_params ord = Inr ps" if "ord \<in> set batch_pair" for ord
    using that by (auto simp: batch_pair_def sample_open_def map_regular_order_params_def)
  have ends: "client_key (hd batch_pair) = ''O-1''" "client_key (last batch_pair) = ''O-2''"
    using keys by (auto simp: batch_pair_def)
  have sizes: "batch_pair \<noteq> []" "length batch_pair \<le> 5" "length mixed_items = length batch_pair"
    "distinct (map client_key batch_pair)"
    unfolding keys by (simp_all add: batch_pair_def mixed_items_def)
  from batch_answers_attributed [OF sample_parts(1) sample_parts(2) sample_parts(3) sizes params, of "[]" "[]"] mixed
  show ?thesis unfolding ends by simp
qed

end
