(* ===== verification/BinanceLookup.thy ===== *)
theory BinanceLookup
  imports BinanceOutcome
begin

text \<open>
  Reading orders back from Binance: the paging loop behind \<open>find_order_snapshots\<close>, whose fuel is enough
  as soon as it exceeds the largest order id, the snapshots it attributes to local orders, and the rows
  of conditional orders, which two parts of the adapter read under different names.
\<close>

section \<open>Paging\<close>

text \<open>The documented answers to \<open>allOrders\<close>: a page asked for from an order id on holds orders with at least
  that id, and no order has an id above the bound.\<close>

definition pages_documented :: "int \<Rightarrow> (int option \<Rightarrow> order_resp list rprog) \<Rightarrow> bool" where
  "pages_documented bound page_of \<longleftrightarrow>
     (\<forall>k s page t. page_of k s = (Inr page, t) \<longrightarrow>
        (\<forall>row\<in>set page. \<exists>i. od_orderId row = JInt i \<and> 0 \<le> i \<and> i \<le> bound \<and> (\<forall>m. k = Some m \<longrightarrow> m \<le> i)))"

text \<open>How far a page that is not the last one gets.\<close>

lemma next_page_later:
  assumes "pages_documented bound page_of" and "page_of k s = (Inr page, t)"
    and "after_page wanted limit rows page = Inr (Inr i)"
  shows "1 \<le> i" and "i \<le> bound + 1" and "\<And>m. k = Some m \<Longrightarrow> m < i"
proof -
  have page: "page \<noteq> []" and i: "py_int (od_orderId (last page)) = Inr (i - 1)"
    using assms(3) by (auto simp: after_page_def split: if_splits sum.splits)
  from assms(1) [unfolded pages_documented_def, rule_format, OF assms(2) last_in_set [OF page]]
  obtain j where "od_orderId (last page) = JInt j" "0 \<le> j" "j \<le> bound" "\<forall>m. k = Some m \<longrightarrow> m \<le> j"
    by (elim exE conjE)
  moreover from this i have "i = j + 1" by simp
  ultimately show "1 \<le> i" "i \<le> bound + 1" "\<And>m. k = Some m \<Longrightarrow> m < i" by simp_all
qed

text \<open>The rounds a page asked for from \<open>k\<close> on can still need.\<close>

definition rounds_left :: "int \<Rightarrow> int option \<Rightarrow> nat" where
  "rounds_left bound k = (case k of None \<Rightarrow> nat (bound + 2) | Some m \<Rightarrow> nat (bound + 1 - m))"

lemma next_page_fewer:
  assumes "pages_documented bound page_of" and "page_of k s = (Inr page, t)"
    and "after_page wanted limit rows page = Inr (Inr i)" and "0 \<le> bound"
  shows "rounds_left bound (Some i) < rounds_left bound k"
proof (cases k)
  case None
  with next_page_later [OF assms(1,2,3)] assms(4) show ?thesis by (simp add: rounds_left_def)
next
  case (Some m)
  with next_page_later [OF assms(1,2,3)] have "m < i" "i \<le> bound + 1" by auto
  with Some show ?thesis by (simp add: rounds_left_def)
qed

lemma fuel_irrelevant:
  assumes "pages_documented bound page_of" and "0 \<le> bound" and "rounds_left bound k < n" and "rounds_left bound k < m"
  shows "fetch_all_orders_until_found n page_of wanted limit rows k s =
    fetch_all_orders_until_found m page_of wanted limit rows k s"
  using assms(3,4)
proof (induction n arbitrary: m rows k s)
  case (Suc n)
  then obtain m' where m: "m = Suc m'" by (cases m) auto
  obtain r t where page: "page_of k s = (r, t)" by (cases "page_of k s")
  show ?case
  proof (cases r)
    case (Inr page)
    show ?thesis
    proof (cases "after_page wanted limit (rows @ page) page")
      case (Inr more)
      show ?thesis
      proof (cases more)
        case (Inr i)
        have less: "rounds_left bound (Some i) < rounds_left bound k"
          by (rule next_page_fewer [OF assms(1) _ _ assms(2)])
            (use page \<open>r = Inr page\<close> \<open>after_page wanted limit (rows @ page) page = Inr more\<close> Inr in auto)
        have "fetch_all_orders_until_found n page_of wanted limit (rows @ page) (Some i) t =
            fetch_all_orders_until_found m' page_of wanted limit (rows @ page) (Some i) t"
          by (rule Suc.IH) (use less Suc.prems m in linarith)+
        then show ?thesis
          using page \<open>r = Inr page\<close> \<open>after_page wanted limit (rows @ page) page = Inr more\<close> Inr m
          by (simp add: prog_simps)
      qed (use page \<open>r = Inr page\<close> Inr m in \<open>simp add: prog_simps\<close>)
    qed (use page Inr m in \<open>simp add: prog_simps\<close>)
  qed (use page m in \<open>simp add: prog_simps\<close>)
qed simp

lemma decimal_int_error: "decimal_int d = Inl e \<Longrightarrow> e \<noteq> OtherError ''still paging''"
  by (cases d) auto

lemma py_int_error: "py_int v = Inl e \<Longrightarrow> e \<noteq> OtherError ''still paging''"
  by (cases v) (auto split: option.splits dest!: decimal_int_error)

lemma fuel_enough:
  assumes "pages_documented bound page_of" and "0 \<le> bound" and "rounds_left bound k < n"
    and "\<And>k s. fst (page_of k s) \<noteq> Inl out_of_pages"
  shows "fst (fetch_all_orders_until_found n page_of wanted limit rows k s) \<noteq> Inl out_of_pages"
  using assms(3)
proof (induction n arbitrary: rows k s)
  case (Suc n)
  obtain r t where page: "page_of k s = (r, t)" by (cases "page_of k s")
  show ?case
  proof (cases r)
    case (Inl e)
    then show ?thesis using page assms(4) [of k s] by (simp add: prog_simps)
  next
    case (Inr page)
    show ?thesis
    proof (cases "after_page wanted limit (rows @ page) page")
      case (Inl e)
      then have "e \<noteq> out_of_pages"
        by (auto simp: after_page_def out_of_pages_def split: if_splits sum.splits dest!: py_int_error)
      with Inl show ?thesis using page \<open>r = Inr page\<close> by (simp add: prog_simps)
    next
      case (Inr more)
      show ?thesis
      proof (cases more)
        case (Inr i)
        have "rounds_left bound (Some i) < rounds_left bound k"
          by (rule next_page_fewer [OF assms(1) _ _ assms(2)])
            (use page \<open>r = Inr page\<close> \<open>after_page wanted limit (rows @ page) page = Inr more\<close> Inr in auto)
        then have "fst (fetch_all_orders_until_found n page_of wanted limit (rows @ page) (Some i) t) \<noteq> Inl out_of_pages"
          using Suc by simp
        then show ?thesis
          using page \<open>r = Inr page\<close> \<open>after_page wanted limit (rows @ page) page = Inr more\<close> Inr by (simp add: prog_simps)
      qed (use page \<open>r = Inr page\<close> Inr in \<open>simp add: prog_simps\<close>)
    qed
  qed
qed simp

section \<open>Rows of pages\<close>

lemma rows_of_rows: "rows_of f vs = Inr xs \<Longrightarrow> x \<in> set xs \<Longrightarrow> \<exists>ob. x = f ob"
  by (induction vs arbitrary: xs) (auto simp: sum_bind_Inr_iff)

lemma found_by: "List.find P xs = Some x \<Longrightarrow> x \<in> set xs \<and> P x"
  by (induction xs) (auto split: if_splits)

lemma orders_page_rows:
  assumes "orders_page bc symb start_time end_time limit k s = (Inr page, t)" and "row \<in> set page"
  shows "\<exists>ob. row = order_resp_from_response ob"
proof -
  from assms(1) obtain u where "get_all_orders (bc_adapter bc) symb k (Some start_time) (Some end_time) limit u = (Inr page, t)"
    unfolding orders_page_def by (elim andThen_InrE)
  then obtain v w where "liftSum (row_list order_resp_from_response v) w = (Inr page, t)"
    unfolding get_all_orders_def fetch_def by (elim andThen_InrE)
  then obtain vs where "rows_of order_resp_from_response vs = Inr page"
    by (auto simp: prog_simps row_list_def sum_bind_Inr_iff)
  with assms(2) show ?thesis by (blast dest: rows_of_rows)
qed

lemma fetched_rows:
  assumes "\<And>k s page t. page_of k s = (Inr page, t) \<Longrightarrow> list_all P page" and "list_all P rows"
    and "fetch_all_orders_until_found n page_of wanted limit rows k s = (Inr res, t)"
  shows "list_all P res"
  using assms(2,3)
proof (induction n arbitrary: rows k s)
  case (Suc n)
  from Suc.prems(2) obtain page u where page: "page_of k s = (Inr page, u)"
    and rest: "andThen (liftSum (after_page wanted limit (rows @ page) page)) (\<lambda>more. case more of
       Inl _ \<Rightarrow> ret (rows @ page)
     | Inr i \<Rightarrow> fetch_all_orders_until_found n page_of wanted limit (rows @ page) (Some i)) u = (Inr res, t)"
    by (auto elim: andThen_InrE)
  have rows: "list_all P (rows @ page)" using assms(1) [OF page] Suc.prems(1) by simp
  from rest obtain more :: "unit + int" and w where "(case more of
       Inl _ \<Rightarrow> ret (rows @ page)
     | Inr i \<Rightarrow> fetch_all_orders_until_found n page_of wanted limit (rows @ page) (Some i)) w = (Inr res, t)"
    by (elim andThen_InrE)
  with rows Suc.IH [OF rows] show ?case by (cases more) (auto simp: prog_simps)
qed (simp add: prog_simps)

section \<open>Properties\<close>

text \<open>Paging through all orders ends: when pages hold what is documented, more rounds than the largest
  order id has units never run out of fuel, and the fuel makes no difference.\<close>

lemma lookup_pages_end:
  assumes "pages_documented bound page_of" and "0 \<le> bound" and "nat (bound + 2) < n"
    and "\<And>k s. fst (page_of k s) \<noteq> Inl out_of_pages"
  shows "fst (fetch_all_orders_until_found n page_of wanted limit rows None s) \<noteq> Inl out_of_pages \<and>
    (\<forall>m. nat (bound + 2) < m \<longrightarrow>
       fetch_all_orders_until_found m page_of wanted limit rows None s =
       fetch_all_orders_until_found n page_of wanted limit rows None s)"
proof -
  have rounds: "rounds_left bound None = nat (bound + 2)" by (simp add: rounds_left_def)
  show ?thesis
  proof (intro conjI allI impI)
    show "fst (fetch_all_orders_until_found n page_of wanted limit rows None s) \<noteq> Inl out_of_pages"
      by (rule fuel_enough [OF assms(1,2) _ assms(4)]) (simp add: rounds assms(3))
    show "fetch_all_orders_until_found m page_of wanted limit rows None s =
        fetch_all_orders_until_found n page_of wanted limit rows None s" if "nat (bound + 2) < m" for m
      by (rule fuel_irrelevant [OF assms(1,2)]) (simp_all add: rounds assms(3) that)
  qed
qed

definition book_row :: "int \<Rightarrow> order_resp" where
  "book_row i = order_resp_from_response [(''orderId'', JInt i), (''clientOrderId'', JStr (show_int i))]"

text \<open>An exchange with the orders 1 to 5, two to a page.\<close>

definition book_pages :: "int option \<Rightarrow> order_resp list rprog" where
  "book_pages k = ret (take 2 (map book_row (filter (\<lambda>i. (case k of None \<Rightarrow> 1 | Some m \<Rightarrow> m) \<le> i) [1..5])))"

lemma book_documented: "pages_documented 5 book_pages"
proof -
  have "\<exists>i. od_orderId row = JInt i \<and> 0 \<le> i \<and> i \<le> 5 \<and> (\<forall>m. k = Some m \<longrightarrow> m \<le> i)"
    if "row \<in> set (take 2 (map book_row (filter (\<lambda>i. (case k of None \<Rightarrow> 1 | Some m \<Rightarrow> m) \<le> i) [1..5])))" for row k
  proof -
    from that have "row \<in> set (map book_row (filter (\<lambda>i. (case k of None \<Rightarrow> 1 | Some m \<Rightarrow> m) \<le> i) [1..5]))"
      by (rule in_set_takeD)
    then obtain i where "row = book_row i" "(case k of None \<Rightarrow> 1 | Some m \<Rightarrow> m) \<le> i" "1 \<le> i" "i \<le> 5" by auto
    then show ?thesis by (auto simp: book_row_def order_resp_from_response_def json_get_def)
  qed
  then show ?thesis by (auto simp: pages_documented_def book_pages_def prog_simps)
qed

text \<open>C37: A snapshot looked up for many orders at once belongs to the local order it is filed under: it is a row
  of the exchange with that order's client id, and the order is one of those asked for, of that symbol.\<close>

theorem bulk_snapshot_belongs:
  assumes "binance_find_order_snapshots bc symb orders lookback_ms limit s = (Inr found, t)" and "found i = Some sn"
  shows "\<exists>ord row. ord \<in> set orders \<and> o_order_id ord = i \<and> upper (o_symbol ord) = upper symb \<and>
    sn = order_snapshot_from_response (bc_str bc) (Some ord) row \<and>
    json_get row ''clientOrderId'' = JStr (client_key ord) \<and> sn_client_order_id sn = Some (client_key ord)"
proof -
  let ?valid = "filter (\<lambda>ord. o_order_id ord \<noteq> [] \<and> upper (o_symbol ord) = upper symb) orders"
  from assms obtain now u rows where
    run: "outside unmapped (fetch_all_orders_until_found (bc_pages bc)
        (orders_page bc symb (start_of_window ?valid lookback_ms now) now limit)
        (map snd (lookup_keys ?valid)) limit [] None) u = (Inr rows, t)"
    and found: "snapshot_by_order_id (bc_str bc) ?valid rows i = Some sn"
    by (auto simp: binance_find_order_snapshots_def Let_def prog_simps epoch_ms_def split: if_splits prod.splits sum.splits)
  from run have fetched: "fetch_all_orders_until_found (bc_pages bc)
      (orders_page bc symb (start_of_window ?valid lookback_ms now) now limit)
      (map snd (lookup_keys ?valid)) limit [] None u = (Inr rows, t)"
    by (auto simp: outside_def map_sum_Inr split: prod.splits)
  have all: "list_all (\<lambda>row. \<exists>ob. row = order_resp_from_response ob) rows"
    by (rule fetched_rows [OF _ _ fetched]) (auto simp: list_all_iff dest: orders_page_rows)
  from found obtain ord row where ord: "List.find (\<lambda>ord. o_order_id ord = i) (rev ?valid) = Some ord"
    and row: "List.find (\<lambda>row. od_clientOrderId row = JStr (client_key ord)) (rev rows) = Some row"
    and sn: "sn = order_snapshot_from_response (bc_str bc) (Some ord) (od_raw row)"
    by (auto simp: snapshot_by_order_id_def row_of_client_id_def split: option.splits)
  have here: "ord \<in> set orders" "o_order_id ord = i" "upper (o_symbol ord) = upper symb" "o_order_id ord \<noteq> []"
    using found_by [OF ord] by auto
  have "row \<in> set rows" "od_clientOrderId row = JStr (client_key ord)" using found_by [OF row] by auto
  with all obtain ob where ob: "od_raw row = ob" "json_get ob ''clientOrderId'' = JStr (client_key ord)"
    by (auto simp: list_all_iff order_resp_from_response_def)
  have "client_key ord \<noteq> []" using here(4) by (cases "o_client_order_id ord") (simp_all add: client_key_def or_str_def)
  with ob have "sn_client_order_id sn = Some (client_key ord)"
    by (simp add: sn order_snapshot_from_response_def or_json_def text_opt_def)
  with here ob sn show ?thesis by blast
qed

definition filled_row :: json_obj where
  "filled_row = [(''orderId'', JInt 77), (''clientOrderId'', JStr ''O-1''), (''symbol'', JStr ''BTCUSDT''),
     (''status'', JStr ''FILLED'')]"

definition filled_answer :: http_answer where
  "filled_answer = HttpResponse 200 [] [] (Some (JList [JObj filled_row]))"

lemma filled_page:
  "quietly (orders_page (sample_parts filled_answer) ''BTCUSDT'' a b 1000 None) (Inr [order_resp_from_response filled_row])"
proof -
  let ?bc = "sample_parts filled_answer"
  have read: "read_answer show_json stake filled_answer = Inr (JList [JObj filled_row])" for show_json stake
    by (simp add: filled_answer_def safe_json_def extract_error_def status_error_def payload_error_def)
  have sign: "signing (bc_adapter ?bc)" and ans: "answering (bc_adapter ?bc) ''GET'' ''/fapi/v1/allOrders'' filled_answer"
    by (rule sample_parts)+
  have "quietly (get_all_orders (bc_adapter ?bc) ''BTCUSDT'' None (Some a) (Some b) 1000)
      (Inr [order_resp_from_response filled_row])"
    using fetch_answered [OF sign ans, of
        "[(''symbol'', JStr (upper ''BTCUSDT'')), (''limit'', JInt 1000)] @ opt_param ''orderId'' (map_option JInt None) @
          opt_param ''startTime'' (map_option JInt (Some a)) @ opt_param ''endTime'' (map_option JInt (Some b))"
        "row_list order_resp_from_response"]
    by (simp add: get_all_orders_def read row_list_def json_iter_def as_row_def del: read_answer.simps)
  moreover have "quietly (lift_rest (acquire_request_weight (bc_limiter ?bc) 5)) (Inr ())"
    using quietly_lift [OF acquire_open [OF sample_parts(2)]] by (simp add: acquire_request_weight_def)
  ultimately show ?thesis unfolding orders_page_def by (blast intro: quietly_then)
qed

lemma bulk_snapshot_belongs_witness:
  "\<exists>found t sn. binance_find_order_snapshots (sample_parts filled_answer) ''BTCUSDT'' [sample_open] 60000 1000 blank_world =
      (Inr found, t) \<and> found ''O-1'' = Some sn \<and> sn_client_order_id sn = Some ''O-1''"
proof -
  let ?bc = "sample_parts filled_answer" and ?row = "order_resp_from_response filled_row"
  have sample: "o_order_id sample_open = ''O-1''" "client_key sample_open = ''O-1''" "o_symbol sample_open = ''BTCUSDT''"
    by (simp_all add: sample_open_def client_key_def or_str_def)
  have row: "od_clientOrderId ?row = JStr ''O-1''" by (simp add: order_resp_from_response_def filled_row_def json_get_def)
  have stop: "after_page [''O-1''] 1000 [?row] [?row] = Inr (Inl ())"
    by (simp add: after_page_def row client_ids_of_def List.map_filter_def)
  have fetched: "\<exists>t. fetch_all_orders_until_found 10 (orders_page ?bc ''BTCUSDT'' a b 1000) [''O-1''] 1000 [] None u =
      (Inr [?row], t)" for a b u
  proof -
    obtain t where "orders_page ?bc ''BTCUSDT'' a b 1000 None u = (Inr [?row], t)"
      by (rule quietlyE [OF filled_page, where s = u])
    then show ?thesis
      using fetch_all_orders_until_found.simps(2) [of 9 "orders_page ?bc ''BTCUSDT'' a b 1000" "[''O-1'']" 1000 "[]" None] stop
      by (simp add: prog_simps)
  qed
  have pages: "bc_pages ?bc = 10" by (simp add: sample_parts_def)
  obtain t where t: "fetch_all_orders_until_found 10
      (orders_page ?bc ''BTCUSDT'' (start_of_window [sample_open] 60000 1000) 1000 1000) [''O-1''] 1000 [] None
      (blank_world\<lparr>w_ticks := 1\<rparr>) = (Inr [?row], t)"
    using fetched by blast
  have clock: "epoch_ms blank_world = (Inr 1000, blank_world\<lparr>w_ticks := 1\<rparr>)"
    by (simp add: epoch_ms_def blank_world_def)
  have run: "binance_find_order_snapshots ?bc ''BTCUSDT'' [sample_open] 60000 1000 blank_world =
      (Inr (snapshot_by_order_id (bc_str ?bc) [sample_open] [?row]), t)"
    using t by (simp add: binance_find_order_snapshots_def Let_def sample lookup_keys_def andThen_run ret_run clock outside_def pages)
  have "snapshot_by_order_id (bc_str ?bc) [sample_open] [?row] ''O-1'' =
      Some (order_snapshot_from_response (bc_str ?bc) (Some sample_open) (od_raw ?row))"
    by (simp add: snapshot_by_order_id_def row_of_client_id_def sample row)
  with bulk_snapshot_belongs [OF run this] run sample show ?thesis by auto
qed

text \<open>The snapshot of a conditional order loses the order the exchange made of it: rows name it
  \<open>actualOrderId\<close> and its price \<open>actualPrice\<close>, as the response object and the mapper for such rows
  say, but the client reads \<open>triggeredOrderId\<close> and \<open>avgPrice\<close>.\<close>

lemma triggered_order_lost:
  assumes "json_get row ''actualOrderId'' = JStr oid" and "oid \<noteq> []" and "oid \<noteq> ''0''"
    and "json_get row ''actualPrice'' = JStr price" and "price \<notin> {[], ''0'', ''0.0'', ''0.00000''}"
    and "json_get row ''triggeredOrderId'' = JNull" and "json_get row ''avgPrice'' = JNull"
    and "json_get row ''symbol'' = JStr symb" and "symb \<noteq> []" and "json_get row ''updateTime'' = JInt now" and "now \<noteq> 0"
  shows "\<exists>ev. normalize_binance_algo_rest_row show_json PERP event_time row = Inr ev \<and>
    ce_triggered_order_id ev = Some oid \<and> ce_avg_fill_price ev = Some price \<and>
    cs_triggered_order_id (conditional_snapshot_from_response show_json fallback_order row) = None \<and>
    cs_avg_fill_price (conditional_snapshot_from_response show_json fallback_order row) = None"
proof -
  have "upper symb \<noteq> []" using assms(9) by (simp add: upper_def)
  then show ?thesis
    using assms by (simp add: normalize_binance_algo_rest_row_def conditional_snapshot_from_response_def text_opt_def
        optional_str_def str_or_empty_def Let_def)
qed

end
