(* ===== verification/ExecutionLog.thy ===== *)
theory ExecutionLog
  imports BinanceMapping Samples
begin

text \<open>
  \<open>services/execution_log_service.py\<close> of the API server with \<open>storage/repositories/execution_questdb.py\<close>,
  \<open>base_questdb.py\<close> and \<open>questdb_client.py\<close>: the fills among the order events are written to the table
  \<open>execution_logs\<close> of QuestDB, each at most once a day thanks to a key in Redis.  The state is the stores of
  the gateway with the log: the fill keys in Redis with the second they expire at, the rows of the table and
  which writes get through.  A column made with \<open>float\<close> keeps its text.  Metrics and logging are left out.
\<close>

section \<open>State\<close>

datatype report_value = RText string | RInt int | RBool bool | RFloat string | RNone

record ilp_row =
  ilp_symbols :: "(string \<times> string) list"
  ilp_columns :: "(string \<times> report_value) list"
  ilp_at :: "int option"

record exec_log_service =
  xs_redis :: bool
  xs_repo :: bool
  xs_ttl :: nat
  xs_strict :: bool

record fill_log =
  fl_now :: int
  fl_keys :: "(string \<times> int) list"
  fl_rows :: "ilp_row list"
  fl_write_ok :: "nat \<Rightarrow> bool"
  fl_writes :: nat

type_synonym 'a lprog = "(world \<times> fill_log, exn, 'a) prog"

definition log_on_stores :: "'a wprog \<Rightarrow> 'a lprog" where
  "log_on_stores m = (\<lambda>(w, fl). case m w of (r, w') \<Rightarrow> (r, (w', fl)))"

definition log_redis :: "(fill_log \<Rightarrow> 'a \<times> fill_log) \<Rightarrow> 'a lprog" where
  "log_redis f = andThen (log_on_stores (redis_read (\<lambda>_. ()))) (\<lambda>_. \<lambda>(w, fl). case f fl of (x, fl') \<Rightarrow> (Inr x, (w, fl')))"

section \<open>The QuestDB row\<close>

definition NUMERIC_COLUMNS :: "string list" where
  "NUMERIC_COLUMNS = [''fill_price'', ''fill_quantity'', ''commission'', ''latency_ms'']"

definition symbols_keys :: "string list" where
  "symbols_keys = [''exchange'', ''market_type'', ''symbol'', ''side'', ''source'', ''is_maker'']"

definition columns_keys :: "string list" where
  "columns_keys = [''execution_id'', ''order_id'', ''signal_id'', ''strategy_name'', ''fill_price'', ''fill_quantity'',
     ''commission'', ''commission_asset'', ''exchange_trade_id'', ''exchange_order_id'', ''exchange_ts'', ''local_ts'',
     ''latency_ms'']"

definition report_get :: "(string \<times> report_value) list \<Rightarrow> string \<Rightarrow> report_value" where
  "report_get report k = (case map_of report k of None \<Rightarrow> RNone | Some v \<Rightarrow> v)"

fun report_str :: "report_value \<Rightarrow> string" where
  "report_str (RText t) = t"
| "report_str (RFloat t) = t"
| "report_str (RInt i) = show_int i"
| "report_str (RBool b) = (if b then ''True'' else ''False'')"
| "report_str RNone = ''None''"

text \<open>\<open>float(text)\<close>: the texts of finite numbers, infinities and the plain NaN.\<close>

definition float_parses :: "string \<Rightarrow> bool" where
  "float_parses t =
     (case decimal_of_string t of
        None \<Rightarrow> False
      | Some (DNaN _) \<Rightarrow> upper (strip t) \<in> {''NAN'', ''+NAN'', ''-NAN''}
      | Some _ \<Rightarrow> True)"

fun to_float :: "report_value \<Rightarrow> report_value option" where
  "to_float (RText t) = (if float_parses t then Some (RFloat t) else None)"
| "to_float (RInt i) = Some (RFloat (show_int i))"
| "to_float (RBool b) = Some (RFloat (if b then ''1'' else ''0''))"
| "to_float v = Some v"

definition symbol_of :: "(string \<times> report_value) list \<Rightarrow> string \<Rightarrow> string" where
  "symbol_of report k =
     (let v = report_get report k in
      if k = ''is_maker'' then (if v = RNone then ''false'' else lower (report_str v))
      else if v = RNone then ''unknown'' else report_str v)"

definition column_of :: "(string \<times> report_value) list \<Rightarrow> string \<Rightarrow> report_value option" where
  "column_of report k =
     (let v = report_get report k in
      if v = RNone then None else if k \<in> set NUMERIC_COLUMNS then to_float v else Some v)"

definition encode_row :: "(string \<times> report_value) list \<Rightarrow> ilp_row" where
  "encode_row report =
     (let at_nanos = (case map_of report ''exchange_ts'' of Some (RInt ts_ms) \<Rightarrow> ts_ms * 1000000 | _ \<Rightarrow> 0) in
      \<lparr>ilp_symbols = map (\<lambda>k. (k, symbol_of report k)) symbols_keys,
       ilp_columns = List.map_filter (\<lambda>k. map_option (Pair k) (column_of report k)) columns_keys,
       ilp_at = (if at_nanos = 0 then None else Some at_nanos)\<rparr>)"

text \<open>\<open>_write_batch_sync\<close> for the one row: a failure is raised only when the settings are strict.\<close>

definition write_row :: "exec_log_service \<Rightarrow> ilp_row \<Rightarrow> unit lprog" where
  "write_row xs row = (\<lambda>(w, fl).
     let ok = fl_write_ok fl (fl_writes fl); fl' = fl\<lparr>fl_writes := Suc (fl_writes fl)\<rparr> in
     if ok then (Inr (), (w, fl'\<lparr>fl_rows := fl_rows fl @ [row]\<rparr>))
     else if xs_strict xs then (Inl (OtherError ''QuestDBError''), (w, fl')) else (Inr (), (w, fl')))"

definition questdb_save :: "exec_log_service \<Rightarrow> (string \<times> report_value) list \<Rightarrow> unit lprog" where
  "questdb_save xs report = write_row xs (encode_row report)"

section \<open>The service\<close>

definition is_real_trade_fill :: "trade_event \<Rightarrow> bool" where
  "is_real_trade_fill ev =
     (if truthy (te_execution_type ev) \<and> upper (the (te_execution_type ev)) \<noteq> ''TRADE'' then False
      else if \<not> truthy (te_trade_id ev) \<or> the (te_trade_id ev) \<in> {''0'', ''-1'', ''None''} then False
      else if \<not> truthy (te_last_fill_quantity ev) then False
      else case decimal_of_string (the (te_last_fill_quantity ev)) of
             None \<Rightarrow> False | Some d \<Rightarrow> dec_less dec_zero d = Some True)"

definition opt_report :: "string option \<Rightarrow> report_value" where
  "opt_report v = (case v of None \<Rightarrow> RNone | Some t \<Rightarrow> RText t)"

definition build_execution_report :: "int \<Rightarrow> order \<Rightarrow> trade_event \<Rightarrow> (string \<times> report_value) list" where
  "build_execution_report now_ms ord ev =
     [(''exchange'', RText (exchange_value (ev_exchange ev))),
      (''market_type'', RText (market_type_value (ev_market_type ev))),
      (''symbol'', RText (upper (te_symbol ev))),
      (''side'', RText (order_side_value (o_side ord))),
      (''source'', RText (order_source_value (o_source ord))),
      (''is_maker'', RBool (te_is_maker ev = Some True)),
      (''execution_id'', RText (case te_trade_id ev of None \<Rightarrow> [] | Some t \<Rightarrow> t)),
      (''exchange_trade_id'', RText (case te_trade_id ev of None \<Rightarrow> [] | Some t \<Rightarrow> t)),
      (''order_id'', RText (o_order_id ord)),
      (''exchange_order_id'',
         RText (case or_str (ev_exchange_order_id ev) (o_exchange_order_id ord) of None \<Rightarrow> [] | Some t \<Rightarrow> t)),
      (''signal_id'', opt_report (o_signal_id ord)),
      (''strategy_name'', opt_report (o_strategy_name ord)),
      (''fill_price'', opt_report (te_last_fill_price ev)),
      (''fill_quantity'', opt_report (te_last_fill_quantity ev)),
      (''commission'', opt_report (te_commission ev)),
      (''commission_asset'', opt_report (te_commission_asset ev)),
      (''exchange_ts'', RInt (or_int (te_transaction_time ev) (or_int (te_event_time ev) now_ms))),
      (''local_ts'', RInt now_ms)]"

definition build_fill_dedup_key :: "order \<Rightarrow> string \<Rightarrow> string" where
  "build_fill_dedup_key ord trade_id =
     ''fill:seen:'' @ exchange_value (o_exchange ord) @ '':'' @ market_type_value (o_market_type ord) @ '':'' @
     upper (o_symbol ord) @ '':'' @ o_order_id ord @ '':'' @ trade_id"

definition FILL_DEDUP_TTL_SEC :: nat where
  "FILL_DEDUP_TTL_SEC = 24 * 60 * 60"

definition mark_fill_seen_if_new :: "exec_log_service \<Rightarrow> order \<Rightarrow> string \<Rightarrow> bool lprog" where
  "mark_fill_seen_if_new xs ord trade_id =
     (if \<not> xs_redis xs then ret True
      else if xs_ttl xs = 0 then throw RedisError
      else log_redis (\<lambda>fl.
        case reserve_key (fl_now fl) (xs_ttl xs) (build_fill_dedup_key ord trade_id) (fl_keys fl) of
          (fresh, keys) \<Rightarrow> (fresh, fl\<lparr>fl_keys := keys\<rparr>)))"

definition delete_fill_seen_key :: "exec_log_service \<Rightarrow> order \<Rightarrow> string \<Rightarrow> unit lprog" where
  "delete_fill_seen_key xs ord trade_id =
     (if \<not> xs_redis xs then ret ()
      else catch (log_redis (\<lambda>fl. ((), fl\<lparr>fl_keys := AList.delete (build_fill_dedup_key ord trade_id) (fl_keys fl)\<rparr>)))
             (\<lambda>_. ret ()))"

definition save_if_needed :: "exec_log_service \<Rightarrow> order \<Rightarrow> trade_event \<Rightarrow> unit lprog" where
  "save_if_needed xs ord ev =
     (if \<not> is_real_trade_fill ev \<or> \<not> xs_repo xs then ret ()
      else
        let trade_id = the (te_trade_id ev) in
        andThen (catch (mark_fill_seen_if_new xs ord trade_id) (\<lambda>_. ret True)) (\<lambda>is_new_fill.
        if \<not> is_new_fill then ret ()
        else
          andThen (log_on_stores epoch_ms) (\<lambda>now_ms.
          catch (questdb_save xs (build_execution_report now_ms ord ev))
            (\<lambda>_. delete_fill_seen_key xs ord trade_id))))"

section \<open>One delivery of a fill\<close>

text \<open>The parts of a fill: the order's key and the row written at a time.\<close>

abbreviation fill_key :: "order \<Rightarrow> trade_event \<Rightarrow> string" where
  "fill_key ord ev \<equiv> build_fill_dedup_key ord (the (te_trade_id ev))"

abbreviation fill_row :: "int \<Rightarrow> order \<Rightarrow> trade_event \<Rightarrow> ilp_row" where
  "fill_row now_ms ord ev \<equiv> encode_row (build_execution_report now_ms ord ev)"

definition redis_up :: "world \<Rightarrow> bool" where
  "redis_up w \<longleftrightarrow> (\<forall>n. w_rd_ok w n)"

lemma redis_read_up: "redis_up w \<Longrightarrow> redis_read f w = (Inr (f (w_redis w)), w\<lparr>w_rd_calls := Suc (w_rd_calls w)\<rparr>)"
  by (simp add: redis_read_def redis_call_def redis_up_def Let_def)

lemma redis_up_kept [simp]:
  "redis_up (w\<lparr>w_rd_calls := n\<rparr>) = redis_up w" "redis_up (w\<lparr>w_ticks := n\<rparr>) = redis_up w"
  by (simp_all add: redis_up_def)

lemma log_redis_up:
  "redis_up w \<Longrightarrow> log_redis f (w, fl) = (Inr (fst (f fl)), (w\<lparr>w_rd_calls := Suc (w_rd_calls w)\<rparr>, snd (f fl)))"
  by (simp add: log_redis_def log_on_stores_def andThen_run redis_read_up split: prod.split)

text \<open>The log after a fill whose key was free: reserved, one more write tried, and its outcome.\<close>

definition tried :: "exec_log_service \<Rightarrow> order \<Rightarrow> trade_event \<Rightarrow> fill_log \<Rightarrow> fill_log" where
  "tried xs ord ev fl =
     fl\<lparr>fl_keys := snd (reserve_key (fl_now fl) (xs_ttl xs) (fill_key ord ev) (fl_keys fl)), fl_writes := Suc (fl_writes fl)\<rparr>"

definition delivered :: "exec_log_service \<Rightarrow> int \<Rightarrow> order \<Rightarrow> trade_event \<Rightarrow> fill_log \<Rightarrow> fill_log" where
  "delivered xs now_ms ord ev fl =
     (if fl_write_ok fl (fl_writes fl) then (tried xs ord ev fl)\<lparr>fl_rows := fl_rows fl @ [fill_row now_ms ord ev]\<rparr>
      else if xs_strict xs
      then (tried xs ord ev fl)\<lparr>fl_keys := AList.delete (fill_key ord ev) (fl_keys (tried xs ord ev fl))\<rparr>
      else tried xs ord ev fl)"

lemma save_run:
  assumes "xs_redis xs" and "xs_repo xs" and "0 < xs_ttl xs" and "redis_up w"
  shows "\<exists>w'. save_if_needed xs ord ev (w, fl) = (Inr (),
      (w', if \<not> is_real_trade_fill ev \<or> live_key (fl_now fl) (fill_key ord ev) (fl_keys fl) then
             fl
           else delivered xs (w_clock w (w_ticks w)) ord ev fl)) \<and> redis_up w' \<and> w_orders w' = w_orders w"
proof (cases "\<not> is_real_trade_fill ev")
  case True
  then show ?thesis using assms(4) by (simp add: save_if_needed_def prog_simps)
next
  case real: False
  let ?w = "w\<lparr>w_rd_calls := Suc (w_rd_calls w)\<rparr>"
  let ?key = "fill_key ord ev"
  have marked: "mark_fill_seen_if_new xs ord (the (te_trade_id ev)) (w, fl) =
      (Inr (\<not> live_key (fl_now fl) ?key (fl_keys fl)),
       (?w, fl\<lparr>fl_keys := snd (reserve_key (fl_now fl) (xs_ttl xs) ?key (fl_keys fl))\<rparr>))"
    using assms by (simp add: mark_fill_seen_if_new_def log_redis_up reserve_key_def)
  show ?thesis
  proof (cases "live_key (fl_now fl) ?key (fl_keys fl)")
    case True
    then have "fl\<lparr>fl_keys := snd (reserve_key (fl_now fl) (xs_ttl xs) ?key (fl_keys fl))\<rparr> = fl" by (simp add: reserve_key_def)
    with True real marked assms show ?thesis by (simp add: save_if_needed_def Let_def prog_simps)
  next
    case False
    with real marked assms show ?thesis
      by (simp add: save_if_needed_def Let_def prog_simps log_on_stores_def epoch_ms_def questdb_save_def write_row_def
          delivered_def tried_def delete_fill_seen_key_def log_redis_up)
  qed
qed

lemma live_key_delete: "live_key now k' (AList.delete k keys) \<longleftrightarrow> k' \<noteq> k \<and> live_key now k' keys"
  by (simp add: live_key_def delete_conv')

lemma live_key_reserved:
  "live_key now k' (snd (reserve_key now ttl k keys)) \<longleftrightarrow> live_key now k' keys \<or> k' = k \<and> 0 < ttl"
  by (auto simp: reserve_key_def live_key_update)

lemma live_until_reserved:
  "\<not> live_key now k keys \<Longrightarrow> live_key t k (snd (reserve_key now ttl k keys)) \<longleftrightarrow> t < now + int ttl"
  by (simp add: reserve_key_def live_key_update)

lemma live_other_reserved: "k' \<noteq> k \<Longrightarrow> live_key t k' (snd (reserve_key now ttl k keys)) = live_key t k' keys"
  by (simp add: reserve_key_def live_key_update)

text \<open>C38: What becomes of a fill the exchange reports, while Redis answers: a fill seen within the day is
  dropped; otherwise it becomes one row, and its key is held for a day.  If the write fails, the key is
  given back, so that the next report is written, only when the settings make QuestDB errors strict.  They do
  not by default: then the failure is not seen, the key stays and the fill is lost.\<close>

theorem fill_delivery_outcome:
  assumes "xs_redis xs" and "xs_repo xs" and "0 < xs_ttl xs" and "redis_up w" and "is_real_trade_fill ev"
    and "save_if_needed xs ord ev (w, fl) = (r, (w', fl'))"
  shows "r = Inr () \<and>
    (if live_key (fl_now fl) (fill_key ord ev) (fl_keys fl) then fl' = fl
     else if fl_write_ok fl (fl_writes fl) then
       fl_rows fl' = fl_rows fl @ [fill_row (w_clock w (w_ticks w)) ord ev] \<and>
       (\<forall>t. live_key t (fill_key ord ev) (fl_keys fl') = (t < fl_now fl + int (xs_ttl xs)))
     else fl_rows fl' = fl_rows fl \<and>
       (\<forall>t. live_key t (fill_key ord ev) (fl_keys fl') = (\<not> xs_strict xs \<and> t < fl_now fl + int (xs_ttl xs))))"
  using save_run [OF assms(1-4), of ord ev fl] assms(5,6)
  by (auto simp: delivered_def tried_def live_until_reserved live_key_delete)

definition sample_fill :: trade_event where
  "sample_fill =
     \<lparr>ev_exchange = BINANCE, ev_market_type = PERP, ev_client_order_id = ''O-1'', ev_exchange_order_id = Some ''77'',
      ev_target_status = Some OS_FILLED, ev_filled_quantity = Some ''1'', ev_avg_fill_price = Some ''60000'',
      ev_reject_reason_text = None, te_symbol = ''BTCUSDT'', te_exchange_status = Some ''FILLED'',
      te_execution_type = Some ''TRADE'', te_last_fill_quantity = Some ''1'', te_last_fill_price = Some ''60000'',
      te_trade_id = Some ''501'', te_commission = None, te_commission_asset = None, te_is_maker = Some False,
      te_event_time = Some 1700000000000, te_transaction_time = None, te_raw = []\<rparr>"

definition sample_log :: "bool \<Rightarrow> fill_log" where
  "sample_log ok = \<lparr>fl_now = 0, fl_keys = [], fl_rows = [], fl_write_ok = (\<lambda>_. ok), fl_writes = 0\<rparr>"

definition default_service :: exec_log_service where
  "default_service = \<lparr>xs_redis = True, xs_repo = True, xs_ttl = FILL_DEDUP_TTL_SEC, xs_strict = False\<rparr>"

lemma sample_fill_real: "is_real_trade_fill sample_fill"
  by (simp add: is_real_trade_fill_def sample_fill_def truthy_def upper_def upper_char_def decimal_of_string_def strip_def
      is_blank_def parse_body_def parse_special_def parse_unsigned_def parse_exponent_def Let_def digits_value_def
      is_digit_def char_digit_def dec_zero_def scaled_def)

lemma default_service_parts: "xs_redis default_service" "xs_repo default_service" "0 < xs_ttl default_service"
  "\<not> xs_strict default_service"
  by (simp_all add: default_service_def FILL_DEDUP_TTL_SEC_def)

lemma fill_delivery_outcome_witness:
  "\<exists>w' fl'. save_if_needed default_service sample_open sample_fill (blank_world, sample_log False) = (Inr (), (w', fl')) \<and>
    fl_rows fl' = [] \<and> live_key 86399 (fill_key sample_open sample_fill) (fl_keys fl')"
proof -
  obtain r w' fl' where run: "save_if_needed default_service sample_open sample_fill (blank_world, sample_log False) = (r, (w', fl'))"
    by (metis surj_pair)
  have "redis_up blank_world" by (simp add: redis_up_def blank_world_def)
  from fill_delivery_outcome [OF default_service_parts(1-3) this sample_fill_real run]
  have "r = Inr ()" "fl_rows fl' = []" "live_key 86399 (fill_key sample_open sample_fill) (fl_keys fl')"
    by (simp_all add: sample_log_def live_key_def [of _ _ "[]"] default_service_def FILL_DEDUP_TTL_SEC_def)
  with run show ?thesis by blast
qed

section \<open>Histories of deliveries\<close>

datatype log_step = Delivery order trade_event | Seconds nat

fun run_log_step :: "exec_log_service \<Rightarrow> log_step \<Rightarrow> world \<times> fill_log \<Rightarrow> world \<times> fill_log" where
  "run_log_step xs (Delivery ord ev) s = snd (save_if_needed xs ord ev s)"
| "run_log_step xs (Seconds n) (w, fl) = (w, fl\<lparr>fl_now := fl_now fl + int n\<rparr>)"

fun seconds_of :: "log_step \<Rightarrow> nat" where
  "seconds_of (Seconds n) = n"
| "seconds_of _ = 0"

definition is_fill_of :: "string \<Rightarrow> string \<Rightarrow> ilp_row \<Rightarrow> bool" where
  "is_fill_of i t row \<longleftrightarrow>
     map_of (ilp_columns row) ''order_id'' = Some (RText i) \<and> map_of (ilp_columns row) ''exchange_trade_id'' = Some (RText t)"

lemma map_of_columns:
  "map_of (List.map_filter (\<lambda>k. map_option (Pair k) (f k)) ks) k = (if k \<in> set ks then f k else None)"
  by (induction ks) (auto simp: List.map_filter_simps split: option.split)

lemma encoded_column:
  "map_of (ilp_columns (encode_row report)) k = (if k \<in> set columns_keys then column_of report k else None)"
  by (simp add: encode_row_def Let_def map_of_columns)

lemma report_ids:
  "report_get (build_execution_report now_ms ord ev) ''order_id'' = RText (o_order_id ord)"
  "report_get (build_execution_report now_ms ord ev) ''exchange_trade_id'' =
     RText (case te_trade_id ev of None \<Rightarrow> [] | Some t \<Rightarrow> t)"
  by (simp_all add: report_get_def build_execution_report_def)

lemma fill_row_columns:
  assumes "is_real_trade_fill ev"
  shows "is_fill_of i t (fill_row now_ms ord ev) \<longleftrightarrow> o_order_id ord = i \<and> the (te_trade_id ev) = t"
proof -
  have "te_trade_id ev \<noteq> None" using assms by (cases "te_trade_id ev") (auto simp: is_real_trade_fill_def truthy_def split: if_splits)
  moreover have "''order_id'' \<in> set columns_keys" "''exchange_trade_id'' \<in> set columns_keys"
    "''order_id'' \<notin> set NUMERIC_COLUMNS" "''exchange_trade_id'' \<notin> set NUMERIC_COLUMNS"
    by (simp_all add: columns_keys_def NUMERIC_COLUMNS_def)
  ultimately show ?thesis
    by (auto simp: is_fill_of_def encoded_column column_of_def Let_def report_ids)
qed

text \<open>The invariant of a history, for the fill \<open>t\<close> of the order \<open>i\<close> with the key \<open>k\<close>: the rows written since the
  beginning have it at most once, and once they have it the key is held until \<open>horizon\<close>.\<close>

definition logged_once :: "string \<Rightarrow> string \<Rightarrow> string \<Rightarrow> int \<Rightarrow> ilp_row list \<Rightarrow> world \<times> fill_log \<Rightarrow> bool" where
  "logged_once i t k horizon rows0 s \<longleftrightarrow> redis_up (fst s) \<and>
     (\<exists>new. fl_rows (snd s) = rows0 @ new \<and> length (filter (is_fill_of i t) new) \<le> 1 \<and>
        (filter (is_fill_of i t) new \<noteq> [] \<longrightarrow> (\<forall>n < horizon. live_key n k (fl_keys (snd s)))))"

lemma logged_onceI:
  "redis_up w \<Longrightarrow> fl_rows fl = rows0 @ new \<Longrightarrow> length (filter (is_fill_of i t) new) \<le> 1 \<Longrightarrow>
   (filter (is_fill_of i t) new \<noteq> [] \<Longrightarrow> \<forall>n < horizon. live_key n k (fl_keys fl)) \<Longrightarrow> logged_once i t k horizon rows0 (w, fl)"
  unfolding logged_once_def by fastforce

lemma delivery_logged_once:
  assumes "xs_redis xs" and "xs_repo xs" and "0 < xs_ttl xs"
    and inv: "logged_once i t k horizon rows0 (w, fl)" and now: "fl_now fl < horizon" "horizon \<le> fl_now fl + int (xs_ttl xs)"
    and key: "o_order_id ord = i \<Longrightarrow> the (te_trade_id ev) = t \<Longrightarrow> fill_key ord ev = k"
  shows "logged_once i t k horizon rows0 (snd (save_if_needed xs ord ev (w, fl)))"
proof -
  let ?kept = "\<not> is_real_trade_fill ev \<or> live_key (fl_now fl) (fill_key ord ev) (fl_keys fl)"
  let ?fl = "delivered xs (w_clock w (w_ticks w)) ord ev fl" and ?row = "fill_row (w_clock w (w_ticks w)) ord ev"
  from inv obtain new where new: "redis_up w" "fl_rows fl = rows0 @ new" "length (filter (is_fill_of i t) new) \<le> 1"
    "filter (is_fill_of i t) new \<noteq> [] \<longrightarrow> (\<forall>n < horizon. live_key n k (fl_keys fl))"
    by (auto simp: logged_once_def)
  obtain w' where run: "save_if_needed xs ord ev (w, fl) = (Inr (), (w', if ?kept then fl else ?fl))" "redis_up w'"
    using save_run [OF assms(1-3) new(1), of ord ev fl] by blast
  show ?thesis
  proof (cases ?kept)
    case True
    with run new show ?thesis by (auto intro: logged_onceI)
  next
    case False
    then have free: "\<not> live_key (fl_now fl) (fill_key ord ev) (fl_keys fl)" and real: "is_real_trade_fill ev" by auto
    have "logged_once i t k horizon rows0 (w', ?fl)"
    proof (cases "fill_key ord ev = k")
      case True
      with new(4) now(1) free have none: "filter (is_fill_of i t) new = []" by blast
      have until: "\<forall>n < horizon. live_key n k (fl_keys (tried xs ord ev fl))"
        using free now(2) True by (auto simp: tried_def live_until_reserved)
      show ?thesis
      proof (cases "fl_write_ok fl (fl_writes fl)")
        case True
        then show ?thesis using run(2) new(2) none until
          by (intro logged_onceI [where new = "new @ [?row]"]) (auto simp: delivered_def)
      next
        case False
        then show ?thesis using run(2) new(2) none
          by (intro logged_onceI [where new = new]) (auto simp: delivered_def tried_def)
      qed
    next
      case other: False
      then have "\<not> is_fill_of i t ?row" using key fill_row_columns [OF real] by blast
      moreover have "live_key n k (fl_keys ?fl) = live_key n k (fl_keys fl)" for n
        using other by (auto simp: delivered_def tried_def live_key_delete live_other_reserved)
      ultimately show ?thesis using run(2) new
        by (intro logged_onceI [where new = "new @ (if fl_write_ok fl (fl_writes fl) then [?row] else [])"])
          (auto simp: delivered_def tried_def)
    qed
    with False run show ?thesis by simp
  qed
qed

lemma history_logged_once:
  assumes xs: "xs_redis xs" "xs_repo xs" "0 < xs_ttl xs"
    and key: "\<forall>ord ev. Delivery ord ev \<in> set steps \<longrightarrow> o_order_id ord = i \<longrightarrow> the (te_trade_id ev) = t \<longrightarrow> fill_key ord ev = k"
    and "logged_once i t k horizon rows0 (w, fl)"
    and "fl_now fl + int (sum_list (map seconds_of steps)) < horizon" and "horizon \<le> fl_now fl + int (xs_ttl xs)"
  shows "\<exists>new. fl_rows (snd (fold (run_log_step xs) steps (w, fl))) = rows0 @ new \<and> length (filter (is_fill_of i t) new) \<le> 1"
  using key assms(5-7)
proof (induction steps arbitrary: w fl)
  case Nil
  then show ?case by (auto simp: logged_once_def)
next
  case (Cons step steps)
  have key': "\<forall>ord ev. Delivery ord ev \<in> set steps \<longrightarrow> o_order_id ord = i \<longrightarrow> the (te_trade_id ev) = t \<longrightarrow> fill_key ord ev = k"
    by (intro allI impI, rule Cons.prems(1) [rule_format]) simp_all
  show ?case
  proof (cases step)
    case (Delivery ord ev)
    have one: "logged_once i t k horizon rows0 (snd (save_if_needed xs ord ev (w, fl)))"
      by (rule delivery_logged_once [OF xs Cons.prems(2)]) (use Cons.prems Delivery in auto)
    obtain w' fl' where s: "snd (save_if_needed xs ord ev (w, fl)) = (w', fl')" by (metis surj_pair)
    have "redis_up w" using Cons.prems(2) by (simp add: logged_once_def)
    from save_run [OF xs this, of ord ev fl] s have "fl_now fl' = fl_now fl"
      by (auto simp: delivered_def tried_def split: if_splits)
    then have "logged_once i t k horizon rows0 (w', fl')"
      "fl_now fl' + int (sum_list (map seconds_of steps)) < horizon" "horizon \<le> fl_now fl' + int (xs_ttl xs)"
      using one s Cons.prems(3,4) Delivery by simp_all
    from Cons.IH [OF key' this] s Delivery show ?thesis by simp
  next
    case (Seconds n)
    let ?fl = "fl\<lparr>fl_now := fl_now fl + int n\<rparr>"
    have "logged_once i t k horizon rows0 (w, ?fl)" using Cons.prems(2) by (simp add: logged_once_def)
    moreover have "fl_now ?fl + int (sum_list (map seconds_of steps)) < horizon" "horizon \<le> fl_now ?fl + int (xs_ttl xs)"
      using Cons.prems(3,4) Seconds by simp_all
    ultimately show ?thesis using Cons.IH [OF key', of w ?fl] Seconds by simp
  qed
qed

text \<open>C39: While Redis answers, the execution log has a fill of an order once, however often the exchange
  reports it within a day, whatever other fills arrive and whichever writes fail.\<close>

theorem fills_logged_once:
  assumes "xs_redis xs" and "xs_repo xs" and "redis_up w"
    and "sum_list (map seconds_of steps) < xs_ttl xs"
    and "\<And>ord ev. Delivery ord ev \<in> set steps \<Longrightarrow> o_order_id ord = i \<Longrightarrow>
      o_exchange ord = ex \<and> o_market_type ord = mt \<and> upper (o_symbol ord) = symb"
  shows "\<exists>new. fl_rows (snd (fold (run_log_step xs) steps (w, fl))) = fl_rows fl @ new \<and>
    length (filter (is_fill_of i t) new) \<le> 1"
proof -
  let ?k = "''fill:seen:'' @ exchange_value ex @ '':'' @ market_type_value mt @ '':'' @ symb @ '':'' @ i @ '':'' @ t"
  have "\<forall>ord ev. Delivery ord ev \<in> set steps \<longrightarrow> o_order_id ord = i \<longrightarrow> the (te_trade_id ev) = t \<longrightarrow> fill_key ord ev = ?k"
    using assms(5) by (auto simp: build_fill_dedup_key_def)
  moreover have "logged_once i t ?k (fl_now fl + int (xs_ttl xs)) (fl_rows fl) (w, fl)"
    by (rule logged_onceI [OF assms(3), of _ _ "[]"]) simp_all
  ultimately show ?thesis using assms(1,2,4) by (intro history_logged_once) auto
qed

lemma fills_logged_once_witness:
  "\<exists>new. fl_rows (snd (fold (run_log_step default_service)
      [Delivery sample_open sample_fill, Seconds 3600, Delivery sample_open sample_fill] (blank_world, sample_log True))) = new \<and>
    length (filter (is_fill_of ''O-1'' ''501'') new) \<le> 1"
proof -
  have up: "redis_up blank_world" by (simp add: redis_up_def blank_world_def)
  from fills_logged_once [OF default_service_parts(1,2) up,
      of "[Delivery sample_open sample_fill, Seconds 3600, Delivery sample_open sample_fill]" "''O-1''"
        "o_exchange sample_open" "o_market_type sample_open" "upper (o_symbol sample_open)" "sample_log True" "''501''"]
  show ?thesis by (auto simp: default_service_def FILL_DEDUP_TTL_SEC_def sample_log_def)
qed

end
