(* ===== verification/UserStream.thy ===== *)
theory UserStream
  imports ExecutionLog BinanceOutcome PositionOutcome
begin

text \<open>
  The user data stream: \<open>listeners/binance/binance_user_data_stream.py\<close> with the callbacks
  \<open>handlers/user_data_stream_handler.py\<close> of the API server registers.  The receive loop puts decoded
  messages into a bounded queue, the worker takes them out and calls the callbacks; the two tasks run
  interleaved, \<open>pipe_step\<close> is one step of either.  The state joins the stores of the gateway, the
  positions, the execution log and what the listener knows of its connection.  The WebSocket itself, sleeping
  and the start, stop and cancellation of the tasks are not modelled (a receive loop cancelled while it waits for
  room in the queue loses the message it holds); a message is the JSON it parses to, if it does.
\<close>

section \<open>State\<close>

record stream_state =
  us_gateway :: world
  us_log :: fill_log
  us_positions :: position_store
  us_ws :: bool
  us_listen_key :: json
  us_listen_key_closed :: bool

type_synonym 'a usprog = "(stream_state, exn, 'a) prog"

definition on_gateway :: "'a wprog \<Rightarrow> 'a usprog" where
  "on_gateway m = (\<lambda>s. case m (us_gateway s) of (r, w) \<Rightarrow> (r, s\<lparr>us_gateway := w\<rparr>))"

definition on_log :: "'a lprog \<Rightarrow> 'a usprog" where
  "on_log m = (\<lambda>s. case m (us_gateway s, us_log s) of (r, (w, fl)) \<Rightarrow> (r, s\<lparr>us_gateway := w, us_log := fl\<rparr>))"

definition on_positions :: "'a psprog \<Rightarrow> 'a usprog" where
  "on_positions m = (\<lambda>s. case m (us_positions s) of (r, ps) \<Rightarrow> (r, s\<lparr>us_positions := ps\<rparr>))"

section \<open>The callbacks of the API server\<close>

text \<open>Which parts of the application state are initialised.\<close>

record app_state =
  ap_gateway :: bool
  ap_positions :: bool
  ap_execution_log :: "exec_log_service option"

definition on_trade_update :: "app_state \<Rightarrow> trade_event \<Rightarrow> unit usprog" where
  "on_trade_update ap ev =
     (if ev_client_order_id ev = [] \<or> \<not> ap_gateway ap then ret ()
      else
        andThen (on_gateway (apply_order_update_event (order_update_event.truncate ev))) (\<lambda>updated.
        case (updated, ap_execution_log ap) of
          (Some ord, Some xs) \<Rightarrow> on_log (save_if_needed xs ord ev)
        | _ \<Rightarrow> ret ()))"

definition on_position_update :: "app_state \<Rightarrow> normalized_snapshot list \<Rightarrow> unit usprog" where
  "on_position_update ap snapshots =
     (if \<not> ap_positions ap \<or> snapshots = [] then ret ()
      else andThen (on_positions (apply_position_snapshots snapshots ''POSITION_UPDATED'')) (\<lambda>_. ret ()))"

definition on_algo_update :: "app_state \<Rightarrow> algo_event \<Rightarrow> unit usprog" where
  "on_algo_update ap ev =
     catch (if \<not> ap_gateway ap then ret ()
            else andThen (on_gateway (apply_conditional_order_event (conditional_order_event.truncate ev))) (\<lambda>_. ret ()))
       (\<lambda>_. ret ())"

section \<open>The listener\<close>

record listener =
  ls_order_callbacks :: "(trade_event \<Rightarrow> unit usprog) list"
  ls_position_callbacks :: "(normalized_snapshot list \<Rightarrow> unit usprog) list"
  ls_algo_callback :: "(algo_event \<Rightarrow> unit usprog) option"

definition new_listener :: listener where
  "new_listener = \<lparr>ls_order_callbacks = [], ls_position_callbacks = [], ls_algo_callback = None\<rparr>"

definition on_order_update :: "(trade_event \<Rightarrow> unit usprog) \<Rightarrow> listener \<Rightarrow> listener" where
  "on_order_update cb ls = ls\<lparr>ls_order_callbacks := ls_order_callbacks ls @ [cb]\<rparr>"

definition on_positions_update :: "(normalized_snapshot list \<Rightarrow> unit usprog) \<Rightarrow> listener \<Rightarrow> listener" where
  "on_positions_update cb ls = ls\<lparr>ls_position_callbacks := ls_position_callbacks ls @ [cb]\<rparr>"

definition on_conditional_update :: "(algo_event \<Rightarrow> unit usprog) \<Rightarrow> listener \<Rightarrow> listener" where
  "on_conditional_update cb ls = ls\<lparr>ls_algo_callback := Some cb\<rparr>"

text \<open>What the start of the API server registers.\<close>

definition wired_listener :: "app_state \<Rightarrow> listener" where
  "wired_listener ap =
     on_positions_update (on_position_update ap)
       (on_conditional_update (on_algo_update ap) (on_order_update (on_trade_update ap) new_listener))"

definition close_ws :: "unit usprog" where
  "close_ws = modify (\<lambda>s. s\<lparr>us_ws := False\<rparr>)"

text \<open>One callback after the other; what one raises is only logged.\<close>

definition run_callbacks :: "('e \<Rightarrow> unit usprog) list \<Rightarrow> 'e \<Rightarrow> unit usprog" where
  "run_callbacks callbacks ev = forEach (\<lambda>cb. catch (cb ev) (\<lambda>_. ret ())) callbacks"

definition dispatch :: "(json \<Rightarrow> string) \<Rightarrow> listener \<Rightarrow> json \<Rightarrow> unit usprog" where
  "dispatch show_json ls event =
     (case event of
        JObj raw \<Rightarrow>
          let event_type = json_get raw ''e'' in
          if event_type = JStr ''ORDER_TRADE_UPDATE'' then
            andThen (liftSum (normalize_binance_order_update show_json PERP raw)) (\<lambda>ev.
            run_callbacks (ls_order_callbacks ls) ev)
          else if event_type = JStr ''ACCOUNT_UPDATE'' then
            andThen (liftSum (normalize_binance_account_update_positions show_json PERP raw)) (\<lambda>snapshots.
            if snapshots = [] then ret () else run_callbacks (ls_position_callbacks ls) snapshots)
          else if event_type = JStr ''ALGO_UPDATE'' then
            (case ls_algo_callback ls of
               None \<Rightarrow> ret ()
             | Some cb \<Rightarrow> andThen (liftSum (normalize_binance_algo_update show_json PERP raw)) cb)
          else if event_type = JStr ''listenKeyExpired'' then close_ws
          else ret ()
      | _ \<Rightarrow> throw (OtherError ''AttributeError''))"

text \<open>One turn of the worker.\<close>

definition handle_event :: "(json \<Rightarrow> string) \<Rightarrow> listener \<Rightarrow> json \<Rightarrow> stream_state \<Rightarrow> stream_state" where
  "handle_event show_json ls event s = snd (catch (dispatch show_json ls event) (\<lambda>_. ret ()) s)"

section \<open>Queue and tasks\<close>

definition EVENT_QUEUE_MAXSIZE :: nat where
  "EVENT_QUEUE_MAXSIZE = 10000"

text \<open>A configuration: the messages still to come, the queue, the state.  A message that does not parse is
  skipped, one that does waits for room, the worker takes the oldest.\<close>

inductive pipe_step ::
  "nat \<Rightarrow> ('e \<Rightarrow> 's \<Rightarrow> 's) \<Rightarrow> 'e option list \<times> 'e list \<times> 's \<Rightarrow> 'e option list \<times> 'e list \<times> 's \<Rightarrow> bool"
  for cap handle
where
  garbled: "pipe_step cap handle (None # ms, q, s) (ms, q, s)"
| received: "length q < cap \<Longrightarrow> pipe_step cap handle (Some ev # ms, q, s) (ms, q @ [ev], s)"
| worked: "pipe_step cap handle (ms, ev # q, s) (ms, q, handle ev s)"

inductive_cases pipe_stepE: "pipe_step cap handle c d"

definition decoded :: "'e option list \<Rightarrow> 'e list" where
  "decoded ms = List.map_filter id ms"

lemma decoded_simps [simp]: "decoded [] = []" "decoded (None # ms) = decoded ms" "decoded (Some ev # ms) = ev # decoded ms"
  by (simp_all add: decoded_def List.map_filter_simps)

section \<open>The connection\<close>

definition close_current_listen_key :: "rest_adapter \<Rightarrow> unit usprog" where
  "close_current_listen_key ra =
     andThen (gets us_listen_key) (\<lambda>key.
     if \<not> py_truthy key then ret ()
     else
       andThen (catch (on_gateway (outside unmapped (close_listen_key ra (py_str (ra_show_json ra) key)))) (\<lambda>_. ret ())) (\<lambda>_.
       modify (\<lambda>s. s\<lparr>us_listen_key := JNull\<rparr>)))"

definition close_listen_key_once :: "rest_adapter \<Rightarrow> unit usprog" where
  "close_listen_key_once ra =
     andThen (gets us_listen_key_closed) (\<lambda>closed.
     if closed then ret ()
     else
       andThen (modify (\<lambda>s. s\<lparr>us_listen_key_closed := True\<rparr>)) (\<lambda>_.
       close_current_listen_key ra))"

text \<open>The beginning of \<open>_connect_and_listen\<close>, up to the address it connects to: the slice of the log message
  raises for an answer without a key.\<close>

definition open_listen_key :: "rest_adapter \<Rightarrow> string \<Rightarrow> string usprog" where
  "open_listen_key ra ws_base_url =
     andThen (close_listen_key_once ra) (\<lambda>_.
     andThen (on_gateway (outside unmapped (create_listen_key ra))) (\<lambda>resp.
     andThen (modify (\<lambda>s. s\<lparr>us_listen_key := lk_listenKey resp, us_listen_key_closed := False\<rparr>)) (\<lambda>_.
     case lk_listenKey resp of
       JStr key \<Rightarrow> ret (ws_base_url @ ''/ws/'' @ key)
     | _ \<Rightarrow> throw (TypeError ''not subscriptable''))))"

text \<open>One turn of the keepalive loop after its sleep: a failure ends the connection.\<close>

definition keepalive_turn :: "rest_adapter \<Rightarrow> unit usprog" where
  "keepalive_turn ra =
     andThen (gets us_listen_key) (\<lambda>key.
     if \<not> py_truthy key then ret ()
     else on_gateway (outside unmapped (keepalive_listen_key ra (py_str (ra_show_json ra) key))))"

definition stop_listening :: "rest_adapter \<Rightarrow> unit usprog" where
  "stop_listening ra = andThen close_ws (\<lambda>_. close_listen_key_once ra)"

text \<open>The wait before the next connection, in seconds, from the last one.\<close>

definition RECONNECT_INITIAL_DELAY :: int where
  "RECONNECT_INITIAL_DELAY = 1"

definition RECONNECT_MAX_DELAY :: int where
  "RECONNECT_MAX_DELAY = 60"

definition next_reconnect_delay :: "int \<Rightarrow> int" where
  "next_reconnect_delay delay = min (delay * 2) RECONNECT_MAX_DELAY"

text \<open>The waits of a run of the loop: a connection that ended without an exception resets the delay first.\<close>

primrec reconnect_waits :: "int \<Rightarrow> bool list \<Rightarrow> int list" where
  "reconnect_waits delay [] = []"
| "reconnect_waits delay (ended_well # outcomes) =
     (let wait = if ended_well then RECONNECT_INITIAL_DELAY else delay in
      wait # reconnect_waits (next_reconnect_delay wait) outcomes)"

section \<open>Waits\<close>

lemma waits_bounded:
  assumes "RECONNECT_INITIAL_DELAY \<le> delay" and "delay \<le> RECONNECT_MAX_DELAY" and "wait \<in> set (reconnect_waits delay outcomes)"
  shows "RECONNECT_INITIAL_DELAY \<le> wait \<and> wait \<le> RECONNECT_MAX_DELAY"
  using assms
proof (induction outcomes arbitrary: delay)
  case (Cons ended_well outcomes)
  let ?wait = "if ended_well then RECONNECT_INITIAL_DELAY else delay"
  have "RECONNECT_INITIAL_DELAY \<le> next_reconnect_delay ?wait" "next_reconnect_delay ?wait \<le> RECONNECT_MAX_DELAY"
    using Cons.prems(1,2) by (auto simp: next_reconnect_delay_def RECONNECT_INITIAL_DELAY_def RECONNECT_MAX_DELAY_def)
  with Cons show ?case by (auto simp: Let_def RECONNECT_INITIAL_DELAY_def RECONNECT_MAX_DELAY_def)
qed simp

lemma closed_once: "snd (close_listen_key_once ra (snd (close_listen_key_once ra s))) = snd (close_listen_key_once ra s)"
proof -
  have "us_listen_key_closed (snd (close_listen_key_once ra s))"
    by (simp add: close_listen_key_once_def close_current_listen_key_def on_gateway_def prog_simps split: prod.split sum.split)
  then show ?thesis by (simp add: close_listen_key_once_def [of ra] prog_simps)
qed

section \<open>What the callbacks see\<close>

lemma run_callbacks_all:
  "run_callbacks callbacks ev s = (Inr (), fold (\<lambda>cb s. snd (cb ev s)) callbacks s)"
  unfolding run_callbacks_def
  by (induction callbacks arbitrary: s) (simp_all add: prog_simps split: prod.split sum.split)

text \<open>An order update reaches every callback, whatever the others raise; one that is refused reaches none.\<close>

lemma order_update_delivered:
  assumes "json_get raw ''e'' = JStr ''ORDER_TRADE_UPDATE''"
  shows "handle_event show_json ls (JObj raw) s =
    (case normalize_binance_order_update show_json PERP raw of
       Inl _ \<Rightarrow> s | Inr ev \<Rightarrow> fold (\<lambda>cb s. snd (cb ev s)) (ls_order_callbacks ls) s)"
  using assms by (simp add: handle_event_def dispatch_def Let_def prog_simps run_callbacks_all split: sum.split)

lemma account_update_delivered:
  assumes "json_get raw ''e'' = JStr ''ACCOUNT_UPDATE''"
  shows "handle_event show_json ls (JObj raw) s =
    (case normalize_binance_account_update_positions show_json PERP raw of
       Inl _ \<Rightarrow> s
     | Inr sns \<Rightarrow> if sns = [] then s else fold (\<lambda>cb s. snd (cb sns s)) (ls_position_callbacks ls) s)"
  using assms by (simp add: handle_event_def dispatch_def Let_def prog_simps run_callbacks_all split: sum.split)

section \<open>Invariant\<close>

text \<open>The stores and positions keep their invariants, and the execution log only grows.\<close>

definition stream_inv :: "stream_state \<Rightarrow> bool" where
  "stream_inv s \<longleftrightarrow> gw_inv (us_gateway s) \<and> pos_inv (us_positions s)"

definition stream_evolves :: "status_rel \<Rightarrow> stream_state \<Rightarrow> stream_state \<Rightarrow> bool" where
  "stream_evolves T s t \<longleftrightarrow> evolves T (us_gateway s) (us_gateway t) \<and> pos_evolves (us_positions s) (us_positions t) \<and>
     (\<exists>new. fl_rows (us_log t) = fl_rows (us_log s) @ new)"

interpretation stream: guarded_evolution stream_inv "stream_evolves T" for T
proof
  fix s t u
  show "stream_inv s \<Longrightarrow> stream_evolves T s s"
    by (simp add: stream_evolves_def evolves_refl pos_evolves_refl)
  show "stream_inv s \<Longrightarrow> stream_inv t \<Longrightarrow> stream_inv u \<Longrightarrow> stream_evolves T s t \<Longrightarrow> stream_evolves T t u \<Longrightarrow> stream_evolves T s u"
    unfolding stream_evolves_def by (metis append.assoc evolves_trans pos_evolves_trans)
qed

definition stream_harmless :: "'a usprog \<Rightarrow> bool" where
  "stream_harmless m \<longleftrightarrow> safe stream_inv (stream_evolves status_step) (\<lambda>_. True) m (\<lambda>_ _. True)"

lemma stream_then: "stream_harmless m \<Longrightarrow> (\<And>x. stream_harmless (f x)) \<Longrightarrow> stream_harmless (andThen m f)"
  unfolding stream_harmless_def by (rule stream.safe_then) auto

lemma stream_catch: "stream_harmless m \<Longrightarrow> (\<And>e. stream_harmless (h e)) \<Longrightarrow> stream_harmless (catch m h)"
  unfolding stream_harmless_def by (rule stream.safe_catch) auto

lemma stream_basic [simp]: "stream_harmless (ret x)" "stream_harmless (throw e)" "stream_harmless (liftSum r)"
  by (simp_all add: stream_harmless_def stream.safe_ret stream.safe_throw stream.safe_liftSum)

lemma stream_each: "(\<And>x. x \<in> set xs \<Longrightarrow> stream_harmless (f x)) \<Longrightarrow> stream_harmless (forEach f xs)"
  unfolding stream_harmless_def by (rule stream.safe_forEach) simp_all

lemma stream_close [simp]: "stream_harmless close_ws"
  by (auto simp: stream_harmless_def close_ws_def safe_def prog_simps stream_inv_def stream_evolves_def evolves_refl pos_evolves_refl)

lemma stream_gateway: "harmless status_step m \<Longrightarrow> stream_harmless (on_gateway m)"
  unfolding stream_harmless_def harmless_def safe_def on_gateway_def stream_inv_def stream_evolves_def
  by (auto simp: pos_evolves_refl split: prod.split)

lemma stream_positions:
  "safe pos_inv pos_evolves (\<lambda>_. True) m (\<lambda>_ _. True) \<Longrightarrow> stream_harmless (on_positions m)"
  unfolding stream_harmless_def safe_def on_positions_def stream_inv_def stream_evolves_def
  by (auto simp: evolves_refl split: prod.split)

text \<open>The service of the execution log leaves the gateway's stores alone and only adds rows.\<close>

definition log_grows :: "'a lprog \<Rightarrow> bool" where
  "log_grows m \<longleftrightarrow> (\<forall>w fl. same_store w (fst (snd (m (w, fl)))) \<and>
     (\<exists>new. fl_rows (snd (snd (m (w, fl)))) = fl_rows fl @ new))"

lemma log_growsI:
  "(\<And>w fl r w' fl'. m (w, fl) = (r, (w', fl')) \<Longrightarrow> same_store w w' \<and> (\<exists>new. fl_rows fl' = fl_rows fl @ new)) \<Longrightarrow> log_grows m"
  unfolding log_grows_def by (metis surj_pair fst_conv snd_conv)

lemma log_growsD:
  "log_grows m \<Longrightarrow> m (w, fl) = (r, (w', fl')) \<Longrightarrow> same_store w w' \<and> (\<exists>new. fl_rows fl' = fl_rows fl @ new)"
  unfolding log_grows_def by (metis fst_conv snd_conv)

lemma log_grows_then:
  assumes m: "log_grows m" and f: "\<And>x. log_grows (f x)"
  shows "log_grows (andThen m f)"
proof (rule log_growsI)
  fix w fl r w' fl'
  assume run: "andThen m f (w, fl) = (r, (w', fl'))"
  obtain q w1 fl1 where m1: "m (w, fl) = (q, (w1, fl1))" by (metis surj_pair)
  from log_growsD [OF m m1] have one: "same_store w w1" "\<exists>new. fl_rows fl1 = fl_rows fl @ new" by auto
  show "same_store w w' \<and> (\<exists>new. fl_rows fl' = fl_rows fl @ new)"
  proof (cases q)
    case (Inl e)
    with run m1 one show ?thesis by (simp add: andThen_run)
  next
    case (Inr x)
    with run m1 have "f x (w1, fl1) = (r, (w', fl'))" by (simp add: andThen_run)
    from log_growsD [OF f this] one show ?thesis by (auto simp: same_store_def)
  qed
qed

lemma log_grows_catch:
  assumes m: "log_grows m" and h: "\<And>e. log_grows (h e)"
  shows "log_grows (catch m h)"
proof (rule log_growsI)
  fix w fl r w' fl'
  assume run: "catch m h (w, fl) = (r, (w', fl'))"
  obtain q w1 fl1 where m1: "m (w, fl) = (q, (w1, fl1))" by (metis surj_pair)
  from log_growsD [OF m m1] have one: "same_store w w1" "\<exists>new. fl_rows fl1 = fl_rows fl @ new" by auto
  show "same_store w w' \<and> (\<exists>new. fl_rows fl' = fl_rows fl @ new)"
  proof (cases q)
    case (Inr x)
    with run m1 one show ?thesis by (simp add: catch_run)
  next
    case (Inl e)
    with run m1 have "h e (w1, fl1) = (r, (w', fl'))" by (simp add: catch_run)
    from log_growsD [OF h this] one show ?thesis by (auto simp: same_store_def)
  qed
qed

lemma log_grows_ends [simp]: "log_grows (ret x)" "log_grows (throw e)"
  by (simp_all add: log_grows_def prog_simps)

lemma log_grows_epoch [simp]: "log_grows (log_on_stores epoch_ms)"
  by (simp add: log_grows_def log_on_stores_def epoch_ms_def same_store_def)

lemma log_grows_redis:
  assumes "\<And>fl. fl_rows (snd (f fl)) = fl_rows fl"
  shows "log_grows (log_redis f)"
  unfolding log_redis_def
proof (rule log_grows_then)
  show "log_grows (log_on_stores (redis_read (\<lambda>_. ())))"
    by (rule log_growsI) (auto simp: log_on_stores_def split: prod.splits dest: redis_read_run)
  show "log_grows (\<lambda>(w, fl). case f fl of (x, fl') \<Rightarrow> (Inr x, (w, fl')))" for x :: unit
    unfolding log_grows_def by (auto split: prod.split) (metis append_Nil2 assms snd_conv)
qed

lemma log_grows_write: "log_grows (questdb_save xs report)"
  by (rule log_growsI) (auto simp: questdb_save_def write_row_def Let_def split: if_splits)

lemma save_grows: "log_grows (save_if_needed xs ord ev)"
proof -
  have "log_grows (mark_fill_seen_if_new xs ord t)" for t
    by (auto simp: mark_fill_seen_if_new_def intro!: log_grows_redis split: prod.split)
  moreover have "log_grows (delete_fill_seen_key xs ord t)" for t
    by (auto simp: delete_fill_seen_key_def intro!: log_grows_catch log_grows_redis)
  ultimately show ?thesis
    by (auto simp: save_if_needed_def Let_def intro!: log_grows_then log_grows_catch log_grows_write)
qed

lemma stream_log:
  assumes "log_grows m"
  shows "stream_harmless (on_log m)"
  unfolding stream_harmless_def
proof (rule safeI)
  fix s r t
  assume inv: "stream_inv s" and run: "on_log m s = (r, t)"
  obtain q w fl where m1: "m (us_gateway s, us_log s) = (q, (w, fl))" by (metis surj_pair)
  with run have t: "t = s\<lparr>us_gateway := w, us_log := fl\<rparr>" by (simp add: on_log_def)
  from log_growsD [OF assms m1] have "same_store (us_gateway s) w" "\<exists>new. fl_rows fl = fl_rows (us_log s) @ new" by auto
  with inv t show "stream_inv t \<and> stream_evolves status_step s t \<and> (\<forall>x. r = Inr x \<longrightarrow> True)"
    by (simp add: stream_inv_def stream_evolves_def same_store_inv same_store_evolves pos_evolves_refl)
qed

section \<open>The wired listener\<close>

lemma callbacks_harmless:
  "stream_harmless (on_trade_update ap tev)" "stream_harmless (on_position_update ap sns)"
  "stream_harmless (on_algo_update ap aev)"
proof -
  have "harmless status_step (apply_order_update_event ev)" for ev
    by (rule harmless_drop) (rule apply_order_update_event_safe [OF order_refl])
  moreover have "harmless status_step (apply_conditional_order_event ev)" for ev
    by (rule harmless_drop) (rule apply_conditional_order_event_safe)
  moreover have "safe pos_inv pos_evolves (\<lambda>_. True) (apply_position_snapshots sns ev) (\<lambda>_ _. True)" for ev
    by (rule apply_position_snapshots_safe)
  ultimately show "stream_harmless (on_trade_update ap tev)" "stream_harmless (on_position_update ap sns)"
    "stream_harmless (on_algo_update ap aev)"
    by (auto simp: on_trade_update_def on_position_update_def on_algo_update_def split: option.split
        intro!: stream_then stream_catch stream_gateway stream_positions stream_log save_grows)
qed

lemma run_callbacks_harmless:
  "(\<And>cb. cb \<in> set callbacks \<Longrightarrow> stream_harmless (cb ev)) \<Longrightarrow> stream_harmless (run_callbacks callbacks ev)"
  unfolding run_callbacks_def by (auto intro!: stream_each stream_catch)

lemma dispatch_harmless: "stream_harmless (dispatch show_json (wired_listener ap) event)"
  by (cases event) (auto simp: dispatch_def Let_def wired_listener_def on_positions_update_def on_conditional_update_def
      on_order_update_def new_listener_def intro!: stream_then run_callbacks_harmless callbacks_harmless)

lemma handle_keeps:
  assumes "stream_inv s"
  shows "stream_inv (handle_event show_json (wired_listener ap) event s)"
    and "stream_evolves status_step s (handle_event show_json (wired_listener ap) event s)"
proof -
  let ?m = "catch (dispatch show_json (wired_listener ap) event) (\<lambda>_. ret ())"
  have safe: "safe stream_inv (stream_evolves status_step) (\<lambda>_. True) ?m (\<lambda>_ _. True)"
    unfolding stream_harmless_def [symmetric] by (rule stream_catch [OF dispatch_harmless]) simp
  obtain r t where "?m s = (r, t)" by (metis surj_pair)
  with safeD(1,2) [OF safe assms TrueI this]
  show "stream_inv (handle_event show_json (wired_listener ap) event s)"
    "stream_evolves status_step s (handle_event show_json (wired_listener ap) event s)"
    by (simp_all add: handle_event_def)
qed

lemma handled_keeps:
  assumes "stream_inv s"
  shows "stream_inv (fold (handle_event show_json (wired_listener ap)) events s) \<and>
    stream_evolves status_step s (fold (handle_event show_json (wired_listener ap)) events s)"
  using assms
proof (induction events arbitrary: s)
  case (Cons event events)
  let ?t = "handle_event show_json (wired_listener ap) event s"
  note now = handle_keeps [OF Cons.prems, of show_json ap event]
  note later = Cons.IH [OF now(1)]
  from stream.R_trans [OF Cons.prems now(1) conjunct1 [OF later] now(2) conjunct2 [OF later]] later
  show ?case by simp
qed (simp add: stream.R_refl)

section \<open>The two tasks\<close>

text \<open>What holds of every configuration reached: order, bound and progress.\<close>

definition pipe_inv :: "nat \<Rightarrow> ('e \<Rightarrow> 's \<Rightarrow> 's) \<Rightarrow> 'e list \<Rightarrow> 's \<Rightarrow> 'e option list \<times> 'e list \<times> 's \<Rightarrow> bool" where
  "pipe_inv cap handle events s c =
     (case c of (ms, q, t) \<Rightarrow> length q \<le> cap \<and> (\<exists>handled. events = handled @ q @ decoded ms \<and> t = fold handle handled s))"

definition pipe_work :: "'e option list \<times> 'e list \<times> 's \<Rightarrow> nat" where
  "pipe_work c = (case c of (ms, q, _) \<Rightarrow> 2 * length ms + length q)"

lemma pipe_step_inv: "pipe_step cap handle c d \<Longrightarrow> pipe_inv cap handle events s c \<Longrightarrow> pipe_inv cap handle events s d"
proof (induction rule: pipe_step.induct)
  case (worked ms ev q t)
  then obtain handled where "length q < cap" "events = handled @ ev # q @ decoded ms" "t = fold handle handled s"
    by (auto simp: pipe_inv_def)
  then have "events = (handled @ [ev]) @ q @ decoded ms" "handle ev t = fold handle (handled @ [ev]) s" by simp_all
  with \<open>length q < cap\<close> show ?case unfolding pipe_inv_def by (auto intro!: exI [of _ "handled @ [ev]"])
qed (auto simp: pipe_inv_def)

lemma pipe_step_work: "pipe_step cap handle c d \<Longrightarrow> pipe_work d < pipe_work c"
  by (induction rule: pipe_step.induct) (auto simp: pipe_work_def)

lemma pipe_steps:
  "(pipe_step cap handle ^^ n) c d \<Longrightarrow> pipe_inv cap handle events s c \<Longrightarrow>
   pipe_inv cap handle events s d \<and> pipe_work d + n \<le> pipe_work c"
proof (induction n arbitrary: d)
  case (Suc n)
  from Suc.prems(1) obtain e where "(pipe_step cap handle ^^ n) c e" "pipe_step cap handle e d" by (auto elim: relpowp_Suc_E)
  note e = this
  from Suc.IH [OF e(1) Suc.prems(2)] have "pipe_inv cap handle events s e" "pipe_work e + n \<le> pipe_work c" by simp_all
  with pipe_step_inv [OF e(2)] pipe_step_work [OF e(2)] show ?case by simp
qed simp

lemma pipe_stuck:
  assumes "0 < cap" and "\<nexists>d. pipe_step cap handle (ms, q, t) d"
  shows "ms = [] \<and> q = []"
proof -
  have "q = []" using assms(2) pipe_step.worked [of cap handle ms] by (cases q) blast+
  moreover have False if "ms = m # ms'" for m ms'
  proof (cases m)
    case None
    with assms(2) that pipe_step.garbled [of cap handle ms' q t] show False by blast
  next
    case (Some ev)
    with assms that \<open>q = []\<close> pipe_step.received [of "[]" cap handle ev ms' t] show False by fastforce
  qed
  ultimately show ?thesis by (cases ms) auto
qed

text \<open>C40: The receive loop and the worker, interleaved in any way, lose and reorder no event: they come to an
  end, the queue stays within its bound, and what has been handled is a prefix of the messages that parse,
  each by itself and in the order of arrival; when neither can go on, all have been handled.  With the callbacks
  the API server registers, whatever the messages contain, orders move along the state machine only, positions
  never go back, and the execution log only grows.\<close>

theorem stream_delivers:
  assumes "stream_inv s"
    and "(pipe_step EVENT_QUEUE_MAXSIZE (handle_event show_json (wired_listener ap)) ^^ n) (ms, [], s) (ms', q, t)"
  shows "n \<le> 2 * length ms \<and> length q \<le> 10000 \<and>
    (\<exists>handled. decoded ms = handled @ q @ decoded ms' \<and> t = fold (handle_event show_json (wired_listener ap)) handled s) \<and>
    ((\<nexists>d. pipe_step EVENT_QUEUE_MAXSIZE (handle_event show_json (wired_listener ap)) (ms', q, t) d) \<longrightarrow>
      t = fold (handle_event show_json (wired_listener ap)) (decoded ms) s) \<and>
    stream_inv t \<and> stream_evolves status_step s t"
proof -
  let ?handle = "handle_event show_json (wired_listener ap)"
  have "pipe_inv EVENT_QUEUE_MAXSIZE ?handle (decoded ms) s (ms, [], s)" by (simp add: pipe_inv_def)
  from pipe_steps [OF assms(2) this]
  have inv: "pipe_inv EVENT_QUEUE_MAXSIZE ?handle (decoded ms) s (ms', q, t)"
    and "n \<le> 2 * length ms" by (auto simp: pipe_work_def)
  moreover from inv obtain handled where h: "decoded ms = handled @ q @ decoded ms'" "t = fold ?handle handled s"
    by (auto simp: pipe_inv_def)
  moreover have "t = fold ?handle (decoded ms) s" if "\<nexists>d. pipe_step EVENT_QUEUE_MAXSIZE ?handle (ms', q, t) d"
    using pipe_stuck [OF _ that] h by (simp add: EVENT_QUEUE_MAXSIZE_def)
  ultimately show ?thesis using handled_keeps [OF assms(1)] by (auto simp: pipe_inv_def EVENT_QUEUE_MAXSIZE_def)
qed

definition sample_stream :: stream_state where
  "sample_stream = \<lparr>us_gateway = holding sample_open, us_log = sample_log True, us_positions = empty_positions, us_ws = True,
     us_listen_key = JStr ''key'', us_listen_key_closed = False\<rparr>"

definition fill_message :: json where
  "fill_message = JObj [(''e'', JStr ''ORDER_TRADE_UPDATE''), (''E'', JInt 1700000000000),
     (''o'', JObj [(''c'', JStr ''O-1''), (''s'', JStr ''BTCUSDT''), (''X'', JStr ''FILLED''), (''x'', JStr ''TRADE''),
        (''t'', JInt 501), (''l'', JStr ''1'')])]"

definition ready_app :: app_state where
  "ready_app = \<lparr>ap_gateway = True, ap_positions = True, ap_execution_log = Some default_service\<rparr>"

lemma three_steps: "r a b \<Longrightarrow> r b c \<Longrightarrow> r c d \<Longrightarrow> (r ^^ 3) a d"
  unfolding numeral_3_eq_3 by (auto intro!: relcomppI)

lemma stream_delivers_witness:
  "\<exists>t. (pipe_step EVENT_QUEUE_MAXSIZE (handle_event (\<lambda>_. ''[]'') (wired_listener ready_app)) ^^ 3)
      ([None, Some fill_message], [], sample_stream) ([], [], t) \<and>
    t = handle_event (\<lambda>_. ''[]'') (wired_listener ready_app) fill_message sample_stream \<and>
    stream_inv t \<and> stream_evolves status_step sample_stream t"
proof -
  let ?handle = "handle_event (\<lambda>_. ''[]'') (wired_listener ready_app)"
  have inv: "stream_inv sample_stream"
    using holding_inv [of sample_open] empty_positions_inv
    by (simp add: stream_inv_def sample_stream_def row_ok_def sample_open_def blank_order_def)
  have "pipe_step EVENT_QUEUE_MAXSIZE ?handle ([None, Some fill_message], [], sample_stream) ([Some fill_message], [], sample_stream)"
    "pipe_step EVENT_QUEUE_MAXSIZE ?handle ([Some fill_message], [], sample_stream) ([], [] @ [fill_message], sample_stream)"
    "pipe_step EVENT_QUEUE_MAXSIZE ?handle ([], [fill_message], sample_stream) ([], [], ?handle fill_message sample_stream)"
    by (rule pipe_step.intros; simp add: EVENT_QUEUE_MAXSIZE_def)+
  from three_steps [of "pipe_step EVENT_QUEUE_MAXSIZE ?handle", OF this(1) _ this(3)] this(2) have run: "(pipe_step EVENT_QUEUE_MAXSIZE ?handle ^^ 3)
      ([None, Some fill_message], [], sample_stream) ([], [], ?handle fill_message sample_stream)"
    by simp
  from stream_delivers [OF inv run] have "stream_inv (?handle fill_message sample_stream)"
    "stream_evolves status_step sample_stream (?handle fill_message sample_stream)" by simp_all
  with run show ?thesis by blast
qed

end
