(* ===== verification/Spec2Isabelle.thy ===== *)
theory Spec2Isabelle
  imports SubmitOutcome StoreProperties CancelOutcome GatewayOutcome OutboxPublisher PositionOrderOutcome Rebuild
    ReconOutcome IntakeProperties BinanceLookup UserStream
begin

text \<open>
  The execution gateway of the trading system (\<open>src/apps/execution_gateway\<close>) with its Binance adapter, the schemas
  (\<open>src/packages/schemas\<close>), the id generator (\<open>src/packages/common\<close>), the repositories and
  projections (\<open>src/packages/storage\<close>) and the producer (\<open>src/packages/messaging\<close>) it works with.

  The program.  A strategy's intent (or an API call) becomes an order: the intake drops duplicates, the
  pre-trade check sizes the order, the gateway stores it in PostgreSQL together with an outbox event, sends
  it to the exchange and moves it along the order state machine.  What the exchange reports comes back as
  events and snapshots.  Redis holds a projection of the open orders, kept behind the table by a version
  guard in a Lua script.  Workers repair what got lost: recovery asks for orders in doubt, reconciliation
  compares table, projection and exchange, the rebuilders rewrite the projections, the outbox publisher
  sends the events on.  Positions are stored, projected and logged in the same way, and position orders
  turn an intention about a position into an order.

  Theories and code, in the order of the imports:
  \<^item> \<open>Prelude\<close>, \<open>PyText\<close>, \<open>PyDecimal\<close>, \<open>DecimalText\<close>, \<open>DecimalArith\<close>: programs with state and exceptions,
    the judgement \<open>safe\<close> and the locale \<open>guarded_evolution\<close> all store proofs use, Python's texts and
    \<open>Decimal\<close> (28 digits, half even), round trips of texts and bounds on rounding.
  \<^item> \<open>Enums\<close>, \<open>OrderModel\<close>, \<open>OrderMachines\<close>, \<open>Ids\<close>: \<open>schemas/order.py\<close>, \<open>market.py\<close>, \<open>position.py\<close>,
    the exceptions, the two state machines, \<open>common/ids.py\<close>.
  \<^item> \<open>RedisSchema\<close>, \<open>RedisProjection\<close>: the order projection, its field schema, upsert script and indexes.
  \<^item> \<open>Outbox\<close>, \<open>Store\<close>, \<open>StoreInvariant\<close>: the tables, transactions, the state \<open>world\<close>, the invariant
    \<open>gw_inv\<close> and the relation \<open>evolves T\<close> every operation moves the stores along.
  \<^item> \<open>OrderState\<close>, \<open>StoreProperties\<close>, \<open>Transitions\<close>: \<open>order_state_service.py\<close>, \<open>transition_service.py\<close>.
  \<^item> \<open>Exchange\<close>, \<open>Samples\<close>: the interface of the exchange adapters; states and clients for the examples.
  \<^item> \<open>Submission\<close>, \<open>SubmitOutcome\<close>, \<open>Cancellation\<close>, \<open>CancelOutcome\<close>, \<open>GatewayCore\<close>, \<open>GatewayOutcome\<close>:
    \<open>submission_service.py\<close>, \<open>cancellation_service.py\<close>, \<open>core.py\<close>; the second of each pair says what a call
    returns and leaves.
  \<^item> \<open>OutboxPublisher\<close>: \<open>outbox_publisher.py\<close>, \<open>redpanda_event_publisher.py\<close>.
  \<^item> \<open>PositionStore\<close>, \<open>PositionService\<close>, \<open>PositionOutcome\<close>, \<open>PositionOrders\<close>, \<open>PositionOrderOutcome\<close>: the
    positions table and projection, their service and worker, \<open>position_order_service.py\<close>.
  \<^item> \<open>Paging\<close>, \<open>Rebuild\<close>, \<open>Harmless\<close>, \<open>Recovery\<close>, \<open>Reconciliation\<close>, \<open>ConditionalRecon\<close>, \<open>ReconOutcome\<close>:
    the paged reads, the rebuilders and the workers.
  \<^item> \<open>Risk\<close>, \<open>RiskBound\<close>, \<open>Intake\<close>, \<open>IntakeOutcome\<close>, \<open>IntakeProperties\<close>: \<open>risk_handler.py\<close>,
    \<open>dedup_handler.py\<close>, \<open>order_submit_handler.py\<close>, \<open>order_intent_consumer.py\<close>.
  \<^item> \<open>BinanceWire\<close>, \<open>BinanceDtos\<close>, \<open>BinanceRest\<close>: \<open>binance_rest_adapter.py\<close> with \<open>binance_rest_auth.py\<close> and
    \<open>dto/resp\<close>: one request from signature to answer, the objects made of answers, the endpoints.
  \<^item> \<open>BinanceMapping\<close>, \<open>BinanceClient\<close>: \<open>mapper/\<close>, \<open>binance_order_router.py\<close>, \<open>binance_rate_limiter.py\<close>,
    \<open>binance_execution_client.py\<close>.
  \<^item> \<open>BinanceOutcome\<close>, \<open>BinanceLookup\<close>: the client as one the gateway's properties hold for, what its answers make
    of orders, the paged lookup of many orders.
  \<^item> \<open>ExecutionLog\<close>: \<open>execution_log_service.py\<close> of the API server and the QuestDB repository of fills.
  \<^item> \<open>UserStream\<close>: \<open>binance_user_data_stream.py\<close> and \<open>user_data_stream_handler.py\<close>: receive loop and worker as
    a step relation, the dispatch of events and what the callbacks make of the stores.
  \<^item> This theory: the calls, reports and worker rounds as one datatype and what any history of them keeps.

  How state and operations correspond.  A method that awaits the stores is a \<open>prog\<close> from \<open>world\<close> (or
  \<open>world\<close> with positions, broker or intake) to a value or an exception and the state it leaves.  A failing
  store call is a schedule in the state (\<open>w_pg_ok\<close>, \<open>w_rd_ok\<close>, \<open>ps_pg_ok\<close>, \<open>bk_ok\<close>, \<open>ik_send_ok\<close>): any call may
  fail, a transaction then rolls back.  Other tasks run while the gateway awaits the exchange, so an
  exchange operation is any program that keeps the invariant and moves statuses along a given relation
  (\<open>client_ok T\<close>, \<open>env_ok T\<close>): this is the rely condition of the properties.  Within a call to the stores
  tasks do not interleave; the per-order locks have no counterpart.  Rows are typed where the columns are
  enumerations (the texts of the enumerations are proved to read back), numbers of orders stay texts as in
  the code.  Keyword arguments of updates are a list of \<open>field_update\<close>, unknown names included.  \<open>str(e)\<close>, the
  iteration order of sets, SSCAN replies, pydantic's conversions to \<open>bool\<close> and \<open>int\<close> and the texts Python
  gives to lists are arguments.  So are the HTTP client (\<open>ra_send\<close>, a program, as other tasks run while it
  waits), SHA-256, Ed25519 and the limiters of the library \<open>aiolimiter\<close>; \<open>binance_ok\<close> says what is assumed of them.

  Bounds and fuel.  Loops over data are structural or have a measure (\<open>digits_base\<close>, \<open>strip_zeros\<close>).  The paged
  read is a \<open>partial_function\<close>; \<open>open_order_batches_terminate\<close> shows it returns.  The loops of the
  reconciliation over SSCAN take \<open>h_fuel\<close> replies and report \<open>still_running\<close> after that, so a property of a
  round holds for every finite part of it.  The paged lookup of orders takes \<open>bc_pages\<close> pages and reports
  \<open>out_of_pages\<close> after that; \<open>lookup_pages_end\<close> shows that any number above the ids left is enough.  The clock wait of the id generator consumes a list of clock
  readings and returns nothing when they run out; \<open>snowflake_increasing\<close> is about the runs that return.

  What the lemmas show.  \<open>..._safe\<close> and \<open>..._harmless\<close>: an operation keeps \<open>gw_inv\<close> and moves along
  \<open>evolves\<close>.  \<open>..._up\<close>: what it returns when the stores answer.  \<open>..._run\<close>, \<open>..._still\<close>, \<open>..._leaves\<close>: what it leaves
  alone.  The properties are the theorems with a claim number.

  Not modelled: HTTP and WebSocket connections (the WebSocket trade adapter and its authentication, the user data
  stream's connection, the routes of the API server, the collectors), starting, stopping and sleeping of the workers, logging and metrics, the exponent limits of
  decimals, non-ASCII text, the time to live of failure counters, the read-only queries by symbol of the
  projection; the floating point strategies, the research notebooks and the Rust crates, whose values are
  data series outside the program's state.
\<close>

section \<open>The gateway as a whole\<close>

text \<open>The calls the gateway accepts and the rounds of its workers, and what one of them makes of the stores.\<close>

datatype gateway_call =
    SubmitOrder order_request order_source "string option" "string option"
  | SubmitBatch exchange market_type "order_request list" order_source "string option" "string option"
  | CancelOrder string
  | CancelBatch exchange market_type string "string list"
  | CancelAllRegular exchange market_type string
  | CancelAllConditional exchange market_type string
  | CancelAllOpen exchange market_type string
  | ChangeLeverage exchange market_type string int
  | OrderUpdate order_update_event
  | ConditionalUpdate conditional_order_event
  | OrderSnapshot string order_snapshot
  | ConditionalSnapshot conditional_snapshot
  | Unresolved string "int option" "string option" "json_obj option"
  | RecoveryRound recovery_config
  | ReconcileRound recon_config host
  | RebuildProjection bool
  | StrategyIntent intent_handler intake json_obj

fun perform :: "gateway_env \<Rightarrow> gateway_call \<Rightarrow> world \<Rightarrow> world" where
  "perform env (SubmitOrder req source sig strat) s = snd (submit_order env req source sig strat s)"
| "perform env (SubmitBatch ex mt reqs source sig strat) s =
     snd (submit_batch_orders env ex mt reqs source sig strat s)"
| "perform env (CancelOrder i) s = snd (cancel_order env i s)"
| "perform env (CancelBatch ex mt symb ids) s = snd (cancel_batch_orders env ex mt symb ids s)"
| "perform env (CancelAllRegular ex mt symb) s = snd (cancel_all_regular_open_orders env ex mt symb s)"
| "perform env (CancelAllConditional ex mt symb) s = snd (cancel_all_conditional_open_orders env ex mt symb s)"
| "perform env (CancelAllOpen ex mt symb) s = snd (cancel_all_open_orders env ex mt symb s)"
| "perform env (ChangeLeverage ex mt symb lev) s = snd (change_leverage env ex mt symb lev s)"
| "perform env (OrderUpdate ev) s = snd (apply_order_update_event ev s)"
| "perform env (ConditionalUpdate ev) s = snd (apply_conditional_order_event ev s)"
| "perform env (OrderSnapshot i sn) s = snd (apply_reconciliation_order_snapshot i sn s)"
| "perform env (ConditionalSnapshot sn) s = snd (apply_conditional_order_snapshot sn s)"
| "perform env (Unresolved i code msg raw) s = snd (mark_reconciliation_unresolved i code msg raw s)"
| "perform env (RecoveryRound cfg) s = snd (recovery_round env cfg s)"
| "perform env (ReconcileRound cfg h) s = snd (reconcile_round env cfg h s)"
| "perform env (RebuildProjection reset) s = snd (rebuild_active_orders reset s)"
| "perform env (StrategyIntent h ik intent) s = fst (snd (process_intent env h intent (s, ik)))"

text \<open>The calls whose rollback can reopen an order.\<close>

fun many_cancel :: "gateway_call \<Rightarrow> bool" where
  "many_cancel (CancelBatch _ _ _ _) = True"
| "many_cancel (CancelAllRegular _ _ _) = True"
| "many_cancel (CancelAllConditional _ _ _) = True"
| "many_cancel (CancelAllOpen _ _ _) = True"
| "many_cancel _ = False"

text \<open>Any change of a status: what the tasks of a history may do to each other.\<close>

definition any_step :: status_rel where
  "any_step a b = True"

lemma any_step_max [simp]: "T \<le> any_step"
  by (auto simp: any_step_def)

interpretation history: reopening any_step
  by unfold_locales simp

section \<open>Histories\<close>

text \<open>One call from a state that holds the invariant.\<close>

abbreviation kept :: "status_rel \<Rightarrow> world \<Rightarrow> world \<Rightarrow> bool" where
  "kept T s t \<equiv> gw_inv t \<and> evolves T s t"

lemma safe_kept: "safe gw_inv (evolves T) (\<lambda>_. True) m Q \<Longrightarrow> gw_inv s \<Longrightarrow> kept T s (snd (m s))"
  by (metis safeD(1,2) prod.collapse)

lemma safe_kept_at: "safe gw_inv (evolves T) P m Q \<Longrightarrow> gw_inv s \<Longrightarrow> P s \<Longrightarrow> kept T s (snd (m s))"
  by (metis safeD(1,2) prod.collapse)

lemma safe_kept_weaken:
  "safe gw_inv (evolves T') (\<lambda>_. True) m Q \<Longrightarrow> T' \<le> T \<Longrightarrow> gw_inv s \<Longrightarrow> kept T s (snd (m s))"
  using safe_kept evolves_weaken by blast

lemma intent_kept:
  assumes "env_ok T env" and "status_step \<le> T" and "gw_inv s"
  shows "kept T s (fst (snd (process_intent env h intent (s, ik))))"
  using process_intent_harmless [OF assms(1,2), of h intent] assms(3)
  by (simp add: intake_harmless_def safe_def intake_inv_def intake_evolves_def)

lemma harmless_kept: "harmless T m \<Longrightarrow> gw_inv s \<Longrightarrow> kept T s (snd (m s))"
  unfolding harmless_def by (rule safe_kept)

text \<open>The calls a history without batch and cancel-all consists of.\<close>

lemma perform_settles:
  assumes inv: "gw_inv s" and env: "env_ok T env" and T: "settling_step \<le> T" and one: "\<not> many_cancel c"
  shows "kept T s (perform env c s)"
proof -
  have steps: "status_step \<le> T" "open_step \<le> T" using T settling_le by (blast intro: order_trans)+
  note calls = submit_order_safe [OF env steps(1)] submit_batch_safe [OF env steps(1)] cancel_order_safe [OF env steps(2)]
    leverage_safe [OF env] apply_order_update_event_safe [OF steps(1)] apply_conditional_order_event_safe
    apply_conditional_order_snapshot_safe
  note reports = apply_reconciliation_safe mark_unresolved_safe
  note rounds = recovery_round_harmless [OF T env] reconcile_round_harmless(2) [OF T env] rebuild_harmless
  from one show ?thesis
    by (cases c) (simp_all only: perform.simps many_cancel.simps simp_thms safe_kept [OF calls(1) inv]
        safe_kept [OF calls(2) inv] safe_kept [OF calls(3) inv] safe_kept [OF calls(4) inv] safe_kept [OF calls(5) inv]
        safe_kept [OF calls(6) inv] safe_kept [OF calls(7) inv] safe_kept_weaken [OF reports(1) T inv]
        safe_kept_weaken [OF reports(2) T inv] intent_kept [OF env steps(1) inv] harmless_kept [OF rounds(1) inv] harmless_kept [OF rounds(2) inv]
        harmless_kept [OF rounds(3) inv])
qed

lemma perform_keeps:
  assumes inv: "gw_inv s" and env: "env_ok any_step env"
  shows "kept any_step s (perform env c s)"
proof (cases "many_cancel c")
  case True
  note calls = history.cancel_batch_safe [OF env] history.cancel_all_kinds_safe(1) [OF env]
    history.cancel_all_kinds_safe(2) [OF env] history.cancel_all_open_safe [OF env]
  from True show ?thesis
    by (cases c) (simp_all only: perform.simps many_cancel.simps simp_thms safe_kept [OF calls(1) inv]
        safe_kept [OF calls(2) inv] safe_kept [OF calls(3) inv] safe_kept [OF calls(4) inv])
qed (rule perform_settles [OF inv env any_step_max])

lemma fold_kept:
  assumes "gw_inv s" and "\<And>c s. c \<in> set calls \<Longrightarrow> gw_inv s \<Longrightarrow> kept T s (f c s)"
  shows "kept T s (fold f calls s)"
  using assms
proof (induction calls arbitrary: s)
  case (Cons c calls)
  have "kept T s (f c s)" using Cons.prems by simp
  moreover from this have "kept T (f c s) (fold f calls (f c s))" using Cons by simp
  ultimately show ?case by (auto intro: evolves_trans)
qed (simp add: evolves_refl)

lemma history_kept:
  assumes "gw_inv s" and "env_ok any_step env"
  shows "kept any_step s (fold (perform env) calls s)"
  by (rule fold_kept [OF assms(1)]) (rule perform_keeps [OF _ assms(2)])

section \<open>Properties\<close>

text \<open>What a reader of the orders table learns of an order: its status and version.\<close>

definition book :: "world \<Rightarrow> string \<Rightarrow> (order_status \<times> int) option" where
  "book s i = map_option (\<lambda>row. (o_status row, o_version row)) (w_orders s i)"

lemma book_replays: "gw_inv s \<Longrightarrow> replay i (w_outbox s) = book s i"
  using gw_inv_row gw_inv_no_row by (cases "w_orders s i") (auto simp: book_def replay_def)

text \<open>C1: The orders table refines its event log: after any sequence of gateway calls and exchange
  reports, rounds of the workers and intents of strategies, in any order, with any store calls failing
  and other tasks interfering, the status and version of every order are what replaying its outbox events yields, and an order without a row has
  no events.\<close>

theorem table_refines_event_log:
  assumes "gw_inv s" and "env_ok any_step env"
  shows "(\<lambda>i. replay i (w_outbox (fold (perform env) calls s))) = book (fold (perform env) calls s)"
  using history_kept [OF assms] book_replays by blast

definition sample_history :: "gateway_call list" where
  "sample_history =
     [SubmitOrder market_buy MANUAL None None, CancelAllOpen BINANCE PERP ''BTCUSDT'', OrderUpdate fill_event]"

lemma table_refines_event_log_witness:
  "(\<lambda>i. replay i (w_outbox (fold (perform (env_with refusing_client)) sample_history (holding sample_live)))) =
   book (fold (perform (env_with refusing_client)) sample_history (holding sample_live))"
  by (rule table_refines_event_log [OF holding_inv env_with_ok [OF refusing_client_ok]])
    (simp add: row_ok_def sample_live_def sample_open_def blank_order_def)

text \<open>C4: A history never takes anything back: every order keeps its row, its identity and its intent,
  its version never falls, the row changes only together with the version, and the events written
  stay as they are in front of the new ones.\<close>

theorem history_monotone:
  assumes "gw_inv s" and "env_ok any_step env" and "w_orders s i = Some row"
  shows "\<exists>row' ps. w_orders (fold (perform env) calls s) i = Some row' \<and> identity row' = identity row \<and>
    (o_version row < o_version row' \<or> row' = row) \<and>
    w_intents (fold (perform env) calls s) i = w_intents s i \<and>
    order_events i (w_outbox (fold (perform env) calls s)) = order_events i (w_outbox s) @ ps"
proof -
  have "evolves any_step s (fold (perform env) calls s)" using history_kept [OF assms(1,2)] by blast
  with assms(3) obtain row' ps where "w_orders (fold (perform env) calls s) i = Some row'"
    "row_evolves any_step row row'" "w_intents (fold (perform env) calls s) i = w_intents s i"
    "order_events i (w_outbox (fold (perform env) calls s)) = order_events i (w_outbox s) @ ps"
    unfolding evolves_def by metis
  then show ?thesis by (auto simp: row_evolves_def)
qed

lemma history_monotone_witness:
  "\<exists>row' ps. w_orders (fold (perform (env_with refusing_client)) sample_history (holding sample_live)) ''O-1'' = Some row' \<and>
    o_order_id row' = ''O-1'' \<and>
    order_events ''O-1'' (w_outbox (fold (perform (env_with refusing_client)) sample_history (holding sample_live))) =
      order_events ''O-1'' (w_outbox (holding sample_live)) @ ps"
proof -
  have id: "o_order_id sample_live = ''O-1''" by (simp add: sample_live_def sample_open_def blank_order_def)
  have "gw_inv (holding sample_live)" "w_orders (holding sample_live) ''O-1'' = Some (orders_row.truncate sample_live)"
    by (rule holding_inv holding_row; simp add: row_ok_def sample_live_def sample_open_def blank_order_def)+
  from history_monotone [OF this(1) env_with_ok [OF refusing_client_ok] this(2), of sample_history]
  show ?thesis by (auto simp: identity_eq truncate_keeps id)
qed

text \<open>C3: Whatever happened, an order read from its live hash in Redis is a copy of the row in the table
  as it is or as it once was: it has the row's identity, never a newer version, and at the row's
  version the row's status.\<close>

theorem projection_never_ahead:
  assumes "gw_inv s" and "env_ok any_step env" and "t = fold (perform env) calls s"
    and "rd_live (w_redis t) i = Some f" and "deserialize_order f = Inr ord"
  shows "\<exists>row. w_orders t i = Some row \<and> identity ord = identity row \<and> o_version ord \<le> o_version row \<and>
    (o_version ord < o_version row \<or>
     o_status ord = o_status row \<and> o_conditional_status ord = o_conditional_status row)"
proof -
  have "gw_inv t" using history_kept [OF assms(1,2)] assms(3) by blast
  from live_loaded [OF this assms(4,5)] obtain row where "w_orders t i = Some row" "snapshot_of row ord"
    by (auto simp: loaded_def seen_def row_ok_def)
  then show ?thesis by (auto simp: snapshot_of_def)
qed

lemma projection_never_ahead_witness:
  "\<exists>row. w_orders (fold (perform (env_with refusing_client)) [ChangeLeverage BINANCE PERP ''BTCUSDT'' 5]
      (snd (redis_save sample_open (holding sample_open)))) ''O-1'' = Some row \<and>
    identity sample_open = identity row \<and> o_version sample_open \<le> o_version row"
proof -
  let ?s = "snd (redis_save sample_open (holding sample_open))"
  have inv: "gw_inv (holding sample_open)"
    by (rule holding_inv) (simp add: row_ok_def sample_open_def blank_order_def)
  have "seen (holding sample_open) sample_open" unfolding holding_def by (rule created_world_seen)
  from safe_kept_at [OF redis_save_safe inv this, of any_step] have inv': "gw_inv ?s" by simp
  have same: "fold (perform (env_with refusing_client)) [ChangeLeverage BINANCE PERP ''BTCUSDT'' 5] ?s = ?s"
    by (simp add: change_leverage_def client_for_market_def registry_get_def env_with_def refusing_client_def
        down_client_def prog_simps)
  have rd: "w_redis (holding sample_open) = empty_redis"
    by (simp add: holding_def created_world_def blank_world_def)
  have "w_redis ?s = snd (upsert_projection_if_newer sample_open empty_redis)"
    by (simp add: redis_save_def redis_call_def rd Let_def holding_def created_world_def blank_world_def split: prod.split)
  then have f: "rd_live (w_redis ?s) ''O-1'' = Some (order_hash sample_open)"
    using upsert_fresh [OF samples_writable(1), of empty_redis] by (simp add: sample_open_def empty_redis_def)
  from projection_never_ahead [OF inv' env_with_ok [OF refusing_client_ok] same [symmetric] f
      deserialize_order_hash [OF sample_storable]]
  show ?thesis unfolding same by blast
qed

text \<open>C2: Terminal statuses are final in every history without batch or cancel-all cancellations: an
  order that is filled, cancelled, rejected or expired stays so through submissions, single cancels,
  exchange events, recovery and reconciliation rounds and projection rebuilds in any order.\<close>

theorem terminal_status_final:
  assumes "gw_inv s" and "env_ok settling_step env" and "list_all (\<lambda>c. \<not> many_cancel c) calls"
    and "w_orders s i = Some row" and "o_status row \<in> TERMINAL_STATUSES"
  shows "\<exists>row'. w_orders (fold (perform env) calls s) i = Some row' \<and> o_status row' = o_status row"
proof -
  have "kept settling_step s (fold (perform env) calls s)"
  proof (rule fold_kept [OF assms(1)])
    fix c s
    assume "c \<in> set calls" and inv: "gw_inv s"
    then have "\<not> many_cancel c" using assms(3) by (simp add: list_all_iff)
    then show "kept settling_step s (perform env c s)" by (rule perform_settles [OF inv assms(2) order_refl])
  qed
  with assms(4,5) show ?thesis by (auto simp: evolves_def row_evolves_def dest!: settling_terminal)
qed

lemma terminal_status_final_witness:
  "\<exists>row'. w_orders (fold (perform (env_with refusing_client))
      [CancelOrder ''O-1'', OrderUpdate fill_event, OrderSnapshot ''O-1'' fill_snapshot] (holding sample_filled)) ''O-1'' = Some row' \<and>
    o_status row' = OS_FILLED"
proof -
  have "gw_inv (holding sample_filled)" "w_orders (holding sample_filled) ''O-1'' = Some (orders_row.truncate sample_filled)"
    by (rule holding_inv holding_row; simp add: row_ok_def sample_filled_def sample_open_def blank_order_def)+
  from terminal_status_final [OF this(1) env_with_ok [OF refusing_client_ok] _ this(2),
      of "[CancelOrder ''O-1'', OrderUpdate fill_event, OrderSnapshot ''O-1'' fill_snapshot]"]
  show ?thesis by (simp add: truncate_keeps sample_filled_def TERMINAL_STATUSES_def)
qed

end
